(* ===== verification/Ts_Prelude.thy ===== *)
theory Ts_Prelude
  imports Main "HOL-Library.Word" "HOL-Library.Monad_Syntax"
begin

unbundle bit_operations_syntax

text \<open>
  Shared ground of the development: the fixed-width integer types of the C sources, bytes in
  memory, the \<open>TS_READ*\<close> macros of \<^verbatim>\<open>include/ts.h\<close>, \<open>memcpy\<close>, the allocator, and the
  generic lemmas the components use.

  A C pointer \<open>uint8_t *p\<close> that is only moved forward and read is the list of the bytes
  from \<open>p\<close> to the end of the object it points into: \<open>p[i]\<close> is \<open>rdb p i\<close> and
  \<open>p + n\<close> is \<open>drop n p\<close>.  Computations run in the option monad; \<open>None\<close> is
  undefined behaviour of the C program (a read or write outside the object, a null
  dereference, a division by zero, a shift by a negative amount, a failed \<open>assert\<close>).
\<close>

section \<open>Types\<close>

type_synonym u8 = "8 word"
type_synonym u16 = "16 word"
type_synonym u32 = "32 word"
type_synonym u64 = "64 word"
type_synonym bytes = "u8 list"

named_theorems rd_simps \<open>rewriting of successful reads\<close>
named_theorems bit_bounds \<open>bounds of masked and shifted words\<close>

section \<open>Reading memory\<close>

definition rdb :: "bytes \<Rightarrow> nat \<Rightarrow> u8 option" where
  "rdb p i = (if i < length p then Some (p ! i) else None)"

definition TS_READ8 :: "bytes \<Rightarrow> u8 option" where
  "TS_READ8 p = rdb p 0"

definition TS_READ16 :: "bytes \<Rightarrow> u16 option" where
  "TS_READ16 p = do {
     b0 \<leftarrow> rdb p 0; b1 \<leftarrow> rdb p 1;
     Some (push_bit 8 (ucast b0) OR ucast b1) }"

definition TS_READ32 :: "bytes \<Rightarrow> u32 option" where
  "TS_READ32 p = do {
     b0 \<leftarrow> rdb p 0; b1 \<leftarrow> rdb p 1; b2 \<leftarrow> rdb p 2; b3 \<leftarrow> rdb p 3;
     Some (push_bit 24 (ucast b0) OR push_bit 16 (ucast b1) OR push_bit 8 (ucast b2) OR ucast b3) }"

definition TS_READ64 :: "bytes \<Rightarrow> u64 option" where
  "TS_READ64 p = do {
     b0 \<leftarrow> rdb p 0; b1 \<leftarrow> rdb p 1; b2 \<leftarrow> rdb p 2; b3 \<leftarrow> rdb p 3;
     b4 \<leftarrow> rdb p 4; b5 \<leftarrow> rdb p 5; b6 \<leftarrow> rdb p 6; b7 \<leftarrow> rdb p 7;
     Some (push_bit 56 (ucast b0) OR push_bit 48 (ucast b1) OR push_bit 40 (ucast b2) OR
           push_bit 32 (ucast b3) OR push_bit 24 (ucast b4) OR push_bit 16 (ucast b5) OR
           push_bit 8 (ucast b6) OR ucast b7) }"

text \<open>
  \<open>(x >> (w - off - bitlen)) & ((1 << bitlen) - 1)\<close>: the field of \<open>bitlen\<close> bits that
  starts \<open>off\<close> bits below the most significant bit.  A field that does not fit into the
  word would shift by a negative amount.
\<close>

definition bits_at :: "'a::len word \<Rightarrow> nat \<Rightarrow> nat \<Rightarrow> 'a word" where
  "bits_at x bitlen off = drop_bit (LENGTH('a) - off - bitlen) x AND mask bitlen"

definition TS_READ_BIT :: "bytes \<Rightarrow> nat \<Rightarrow> u8 option" where
  "TS_READ_BIT p mark = map_option (\<lambda>x. drop_bit mark x AND 1) (rdb p 0)"

definition TS_READ8_BITS :: "bytes \<Rightarrow> nat \<Rightarrow> nat \<Rightarrow> u8 option" where
  "TS_READ8_BITS p bitlen off =
     (if off + bitlen \<le> 8 then map_option (\<lambda>x. bits_at x bitlen off) (TS_READ8 p) else None)"

definition TS_READ16_BITS :: "bytes \<Rightarrow> nat \<Rightarrow> nat \<Rightarrow> u16 option" where
  "TS_READ16_BITS p bitlen off =
     (if off + bitlen \<le> 16 then map_option (\<lambda>x. bits_at x bitlen off) (TS_READ16 p) else None)"

definition TS_READ32_BITS :: "bytes \<Rightarrow> nat \<Rightarrow> nat \<Rightarrow> u32 option" where
  "TS_READ32_BITS p bitlen off =
     (if off + bitlen \<le> 32 then map_option (\<lambda>x. bits_at x bitlen off) (TS_READ32 p) else None)"

definition TS_READ64_BITS :: "bytes \<Rightarrow> nat \<Rightarrow> nat \<Rightarrow> u64 option" where
  "TS_READ64_BITS p bitlen off =
     (if off + bitlen \<le> 64 then map_option (\<lambda>x. bits_at x bitlen off) (TS_READ64 p) else None)"

section \<open>Conversions to narrower signed types\<close>

text \<open>The value an \<open>int\<close> has after conversion to \<open>int16_t\<close>.\<close>

definition i16 :: "int \<Rightarrow> int" where
  "i16 x = sint (word_of_int x :: u16)"

section \<open>Writing memory\<close>

text \<open>
  \<open>memcpy(dst + off, src, n)\<close> with \<open>int\<close> arguments, as the sources have them: a
  negative offset or size, a read past \<open>src\<close> and a write past \<open>dst\<close> are undefined.
\<close>

definition memcpy :: "bytes \<Rightarrow> int \<Rightarrow> bytes \<Rightarrow> int \<Rightarrow> bytes option" where
  "memcpy dst off src n =
     (if 0 \<le> off \<and> 0 \<le> n \<and> nat n \<le> length src \<and> nat off + nat n \<le> length dst
      then Some (take (nat off) dst @ take (nat n) src @ drop (nat off + nat n) dst)
      else None)"

text \<open>
  The allocator.  Every allocation of a call is named by a path: \<open>mok e k\<close> says whether the
  \<open>k\<close>-th allocation of the function itself succeeds, and its \<open>k\<close>-th callee (or the callee for
  the \<open>k\<close>-th node of a loop) runs in \<open>in_node e k\<close>.  So every pattern of failures is
  some \<open>mok_at\<close>.  \<open>junk\<close> is what uninitialised memory holds.
\<close>

record alloc_env =
  mok_at :: "nat list \<Rightarrow> bool"
  junk :: "nat \<Rightarrow> u8"

definition mok :: "alloc_env \<Rightarrow> nat \<Rightarrow> bool" where
  "mok e k = mok_at e [k]"

definition malloc_bytes :: "alloc_env \<Rightarrow> nat \<Rightarrow> bytes" where
  "malloc_bytes e n = map (junk e) [0..<n]"

definition always_ok :: "(nat \<Rightarrow> u8) \<Rightarrow> alloc_env" where
  "always_ok j = \<lparr>mok_at = (\<lambda>_. True), junk = j\<rparr>"

text \<open>\<open>ENOMEM\<close> of \<^verbatim>\<open>errno.h\<close>, the value a parser returns when an allocation fails.\<close>

definition ENOMEM :: int where "ENOMEM = 12"

definition in_node :: "alloc_env \<Rightarrow> nat \<Rightarrow> alloc_env" where
  "in_node e i = e\<lparr>mok_at := (\<lambda>ks. mok_at e (i # ks))\<rparr>"

section \<open>Lemmas on reads\<close>

lemma length_ge_imp_pos: "numeral k \<le> length p \<Longrightarrow> p \<noteq> []"
  by auto

lemma rdb_in [rd_simps]: "i < length p \<Longrightarrow> rdb p i = Some (p ! i)"
  by (simp add: rdb_def)

lemma rdb_None_iff [simp]: "rdb p i = None \<longleftrightarrow> length p \<le> i"
  by (simp add: rdb_def)

lemma rdb_Some_iff [simp]: "rdb p i = Some b \<longleftrightarrow> i < length p \<and> p ! i = b"
  by (auto simp: rdb_def)

lemma rdb_Cons_0 [simp]: "rdb (b # p) 0 = Some b"
  by (simp add: rdb_def)

lemma rdb_Cons_Suc [simp]: "rdb (b # p) (Suc i) = rdb p i"
  by (simp add: rdb_def)

lemma rdb_Nil [simp]: "rdb [] i = None"
  by (simp add: rdb_def)

lemma rdb_Cons_numeral [simp]: "rdb (b # p) (numeral k) = rdb p (pred_numeral k)"
  by (simp add: rdb_def nth_Cons' numeral_eq_Suc)

lemma rdb_Cons_one [simp]: "rdb (b # p) 1 = rdb p 0"
  by (simp add: rdb_def)

lemma rdb_drop [simp]: "rdb (drop n p) i = rdb p (n + i)"
  by (auto simp: rdb_def)

lemma rdb_append: "rdb (p @ q) i = (if i < length p then rdb p i else rdb q (i - length p))"
  by (auto simp: rdb_def nth_append)

lemma TS_READ8_defined [simp]: "TS_READ8 p \<noteq> None \<longleftrightarrow> 1 \<le> length p"
  by (auto simp: TS_READ8_def Suc_le_eq)

lemma TS_READ16_defined: "TS_READ16 p \<noteq> None \<longleftrightarrow> 2 \<le> length p"
  by (auto simp: TS_READ16_def rdb_def split: Option.bind_splits if_splits)

lemma TS_READ16_in [rd_simps]:
  "2 \<le> length p \<Longrightarrow> TS_READ16 p = Some (push_bit 8 (ucast (p ! 0)) OR ucast (p ! 1))"
  by (frule length_ge_imp_pos) (simp add: TS_READ16_def rdb_in)

lemma TS_READ32_in [rd_simps]:
  "4 \<le> length p \<Longrightarrow> TS_READ32 p =
     Some (push_bit 24 (ucast (p ! 0)) OR push_bit 16 (ucast (p ! 1)) OR
           push_bit 8 (ucast (p ! 2)) OR ucast (p ! 3))"
  by (frule length_ge_imp_pos) (simp add: TS_READ32_def rdb_in)

lemma TS_READ8_BITS_in [rd_simps]:
  "\<lbrakk>0 < length p; off + n \<le> 8\<rbrakk> \<Longrightarrow> TS_READ8_BITS p n off = Some (bits_at (p ! 0) n off)"
  by (simp add: TS_READ8_BITS_def TS_READ8_def rdb_def)

lemma bind_Some_Pair: "(x \<bind> (\<lambda>s. Some (a, s))) = map_option (Pair a) x"
  by (cases x) simp_all

section \<open>Lemmas on bit fields\<close>

lemma unat_and_mask_less [bit_bounds]: "n < LENGTH('a) \<Longrightarrow> unat ((x :: 'a::len word) AND mask n) < 2 ^ n"
  by (simp add: unsigned_take_bit_eq flip: take_bit_eq_mask)

lemma unat_bits_at_less [bit_bounds]:
  "n < LENGTH('a) \<Longrightarrow> unat (bits_at (x :: 'a::len word) n off) < 2 ^ n"
  by (simp add: bits_at_def unat_and_mask_less)

lemma bit_bits_at:
  "off + n \<le> LENGTH('a) \<Longrightarrow>
   bit (bits_at (x :: 'a::len word) n off) i \<longleftrightarrow> i < n \<and> bit x (LENGTH('a) - off - n + i)"
  by (auto simp: bits_at_def bit_and_iff bit_mask_iff bit_drop_bit_eq ac_simps)

section \<open>Big-endian numbers\<close>

lemma TS_READ16_pos: "TS_READ16 p = Some w \<Longrightarrow> 0 < length p"
  by (auto simp: TS_READ16_def split: Option.bind_splits)

lemma unat_READ16: "2 \<le> length p \<Longrightarrow> TS_READ16 p = Some w \<Longrightarrow> unat w = unat (p ! 0) * 256 + unat (p ! 1)"
proof -
  assume p: "2 \<le> length p" "TS_READ16 p = Some w"
  have disj: "push_bit 8 (ucast (p ! 0) :: u16) AND ucast (p ! 1) = 0"
    by (rule bit_word_eqI) (auto simp: bit_and_iff bit_push_bit_iff bit_unsigned_iff dest: bit_imp_le_length)
  have "w = push_bit 8 (ucast (p ! 0)) OR ucast (p ! 1)"
    using p by (simp add: TS_READ16_in)
  also have "\<dots> = push_bit 8 (ucast (p ! 0)) + ucast (p ! 1)"
    using disj by (simp add: disjunctive_add_eq_or)
  also have "\<dots> = of_nat (unat (p ! 0) * 256 + unat (p ! 1))"
    by (simp add: push_bit_eq_mult mult.commute)
  finally have w: "w = of_nat (unat (p ! 0) * 256 + unat (p ! 1))" .
  have "unat (p ! 0) < 256" "unat (p ! 1) < 256"
    by (rule order_less_le_trans [OF unsigned_less], simp)+
  then show ?thesis
    unfolding w by (simp only: unat_of_nat) (simp add: unsigned_of_nat take_bit_nat_eq_self)
qed

definition be16 :: "nat \<Rightarrow> bytes" where
  "be16 v = [of_nat (v div 256), of_nat (v mod 256)]"

lemma length_be16 [simp]: "length (be16 v) = 2"
  by (simp add: be16_def)

lemma READ16_be16: "v < 65536 \<Longrightarrow> TS_READ16 (be16 v @ r) = Some (of_nat v)"
proof -
  assume v: "v < 65536"
  obtain w where w: "TS_READ16 (be16 v @ r) = Some w"
    by (simp add: be16_def TS_READ16_def)
  then have "unat w = unat (of_nat (v div 256) :: u8) * 256 + unat (of_nat (v mod 256) :: u8)"
    using unat_READ16 [OF _ w] by (simp add: be16_def)
  also have "\<dots> = v"
    using v by (simp add: unsigned_of_nat take_bit_nat_eq_self)
  finally have "w = of_nat v" using v by (simp add: word_eq_iff_unsigned [where 'a = nat] unsigned_of_nat take_bit_nat_eq_self)
  with w show ?thesis by simp
qed

lemma READ16_be16_unat: "TS_READ16 (be16 (unat (x :: u16)) @ r) = Some x"
proof -
  have "unat x < 65536" by (rule order_less_le_trans [OF unsigned_less]) simp
  then show ?thesis by (simp add: READ16_be16)
qed

section \<open>Lemmas on memcpy\<close>

lemma memcpy_SomeD:
  assumes "memcpy dst off src n = Some d"
  shows "0 \<le> off" "0 \<le> n" "nat n \<le> length src" "nat off + nat n \<le> length dst"
    "d = take (nat off) dst @ take (nat n) src @ drop (nat off + nat n) dst"
  using assms unfolding memcpy_def by (metis option.distinct(1) option.inject)+

lemma memcpy_length: "memcpy dst off src n = Some d \<Longrightarrow> length d = length dst"
  using memcpy_SomeD(3-5) [of dst off src n d] by simp

lemma memcpy_None_overflow: "int (length dst) < off + n \<Longrightarrow> memcpy dst off src n = None"
  unfolding memcpy_def by (rule if_not_P) linarith

lemma memcpy_ok:
  "\<lbrakk>n \<le> length src; off + n \<le> length dst\<rbrakk> \<Longrightarrow>
   memcpy dst (int off) src (int n) = Some (take off dst @ take n src @ drop (off + n) dst)"
  by (simp add: memcpy_def)

lemma memcpy_append_take:
  "k + length src \<le> length dst \<Longrightarrow> memcpy dst (int k) src (int (length src)) = Some d \<Longrightarrow>
   take (k + length src) d = take k dst @ src"
  by (auto simp add: memcpy_ok)

lemma length_malloc_bytes [simp]: "length (malloc_bytes e n) = n"
  by (simp add: malloc_bytes_def)

lemma mok_always_ok [simp]: "mok (always_ok j) = (\<lambda>_. True)" "junk (always_ok j) = j"
  by (simp_all add: always_ok_def mok_def fun_eq_iff)

lemma in_node_always_ok [simp]: "in_node (always_ok j) i = always_ok j"
  by (simp add: in_node_def always_ok_def)

section \<open>Reading a prefix\<close>

text \<open>
  A reader is stable when it returns the same from every buffer that starts with one it
  returns from: it does not look past what it has been given.
\<close>

named_theorems stable_intros \<open>composition of stable readers\<close>

definition stable :: "(bytes \<Rightarrow> 'a option) \<Rightarrow> bool" where
  "stable f \<longleftrightarrow> (\<forall>p q r. f p = Some r \<longrightarrow> f (p @ q) = Some r)"

lemma stableI: "(\<And>p q r. f p = Some r \<Longrightarrow> f (p @ q) = Some r) \<Longrightarrow> stable f"
  by (simp add: stable_def)

lemma stableD: "\<lbrakk>stable f; f p = Some r\<rbrakk> \<Longrightarrow> f (p @ q) = Some r"
  by (simp add: stable_def)

lemma stable_const [stable_intros]: "stable (\<lambda>p. c)"
  by (simp add: stable_def)

lemma stable_rdb [stable_intros]: "stable (\<lambda>p. rdb p i)"
  by (auto simp: stable_def nth_append)

lemma stable_drop [stable_intros]: "stable f \<Longrightarrow> stable (\<lambda>p. f (drop n p))"
  by (auto simp: stable_def)

lemma stable_bind [stable_intros]:
  "\<lbrakk>stable f; \<And>x. stable (\<lambda>p. g p x)\<rbrakk> \<Longrightarrow> stable (\<lambda>p. f p \<bind> g p)"
proof (rule stableI)
  fix p q r
  assume f: "stable f" and g: "\<And>x. stable (\<lambda>p. g p x)" and r: "(f p \<bind> g p) = Some r"
  from r obtain x where x: "f p = Some x" "g p x = Some r"
    by (auto simp: Option.bind_eq_Some_conv)
  show "(f (p @ q) \<bind> g (p @ q)) = Some r"
    using stableD [OF f x(1), of q] stableD [OF g x(2), of q] by simp
qed

lemma stable_map [stable_intros]: "stable f \<Longrightarrow> stable (\<lambda>p. map_option h (f p))"
  by (auto simp: stable_def)

lemma stable_if [stable_intros]: "\<lbrakk>stable f; stable g\<rbrakk> \<Longrightarrow> stable (\<lambda>p. if b then f p else g p)"
  by (auto simp: stable_def)

lemma stable_READ8 [stable_intros]: "stable TS_READ8"
  unfolding TS_READ8_def by (intro stable_intros)

lemma stable_READ16 [stable_intros]: "stable TS_READ16"
  unfolding TS_READ16_def by (intro stable_intros)

lemma stable_READ32 [stable_intros]: "stable TS_READ32"
  unfolding TS_READ32_def by (intro stable_intros)

lemma stable_READ64 [stable_intros]: "stable TS_READ64"
  unfolding TS_READ64_def by (intro stable_intros)

lemma stable_BITS [stable_intros]:
  "stable (\<lambda>p. TS_READ8_BITS p n off)" "stable (\<lambda>p. TS_READ16_BITS p n off)"
  "stable (\<lambda>p. TS_READ32_BITS p n off)" "stable (\<lambda>p. TS_READ64_BITS p n off)"
  unfolding TS_READ8_BITS_def TS_READ16_BITS_def TS_READ32_BITS_def TS_READ64_BITS_def
  by (intro stable_intros)+

end
