(* ===== verification/Utils.thy ===== *)
theory Utils
  imports Ts_Prelude
begin

unbundle bit_operations_syntax

text \<open>
  \<^verbatim>\<open>src/utils.c\<close>: the 64-bit-word bitmaps that record which sections, programs and PIDs have
  been seen, and the conversion of a DVB time (modified Julian date and BCD time) to text.
  The interface \<open>bitmap_spec\<close> states what the clients of a bitmap rely on.
\<close>

section \<open>Bitmaps\<close>

type_synonym bitmap = "u64 list"

definition bitmap64_get :: "bitmap \<Rightarrow> nat \<Rightarrow> bool option" where
  "bitmap64_get bm n =
     (if n div 64 < length bm
      then Some (bm ! (n div 64) AND push_bit (n mod 64) 1 \<noteq> 0) else None)"

definition bitmap64_set :: "bitmap \<Rightarrow> nat \<Rightarrow> bitmap option" where
  "bitmap64_set bm n =
     (if n div 64 < length bm
      then Some (bm[n div 64 := bm ! (n div 64) OR push_bit (n mod 64) 1]) else None)"

definition bitmap64_clear :: "bitmap \<Rightarrow> nat \<Rightarrow> bitmap option" where
  "bitmap64_clear bm n =
     (if n div 64 < length bm
      then Some (bm[n div 64 := bm ! (n div 64) AND NOT (push_bit (n mod 64) 1)]) else None)"

text \<open>The loop of \<open>bitmap64_full\<close> over the words below \<open>last / 64\<close>: \<open>True\<close> when all are full.\<close>

fun bitmap64_full_words :: "bitmap \<Rightarrow> nat \<Rightarrow> nat \<Rightarrow> bool option" where
  "bitmap64_full_words bm i 0 = Some True"
| "bitmap64_full_words bm i (Suc k) =
     (if i < length bm
      then if bm ! i \<noteq> - 1 then Some False else bitmap64_full_words bm (Suc i) k
      else None)"

definition bitmap64_full :: "bitmap \<Rightarrow> nat \<Rightarrow> int option" where
  "bitmap64_full bm lst = do {
     let msk = push_bit ((lst + 1) mod 64) (1 :: u64) - 1;
     full \<leftarrow> (if lst \<ge> 64 then bitmap64_full_words bm 0 (lst div 64) else Some True);
     if \<not> full then Some (-1)
     else if lst mod 64 < length bm
       then Some (if bm ! (lst mod 64) AND msk \<noteq> msk then -1 else 0)
       else None }"

text \<open>The set of bits a bitmap holds.\<close>

definition bitmap_abs :: "bitmap \<Rightarrow> nat set" where
  "bitmap_abs bm = {i. i div 64 < length bm \<and> bit (bm ! (i div 64)) (i mod 64)}"

subsection \<open>The interface\<close>

locale bitmap_spec =
  fixes cap :: nat
    and invar :: "'b \<Rightarrow> bool"
    and abs :: "'b \<Rightarrow> nat set"
    and get :: "'b \<Rightarrow> nat \<Rightarrow> bool option"
    and setb :: "'b \<Rightarrow> nat \<Rightarrow> 'b option"
    and clear :: "'b \<Rightarrow> nat \<Rightarrow> 'b option"
  assumes get_abs: "invar b \<Longrightarrow> i < cap \<Longrightarrow> get b i = Some (i \<in> abs b)"
    and set_abs: "invar b \<Longrightarrow> i < cap \<Longrightarrow>
          \<exists>b'. setb b i = Some b' \<and> invar b' \<and> abs b' = insert i (abs b)"
    and clear_abs: "invar b \<Longrightarrow> i < cap \<Longrightarrow>
          \<exists>b'. clear b i = Some b' \<and> invar b' \<and> abs b' = abs b - {i}"
begin

lemma get_set:
  assumes "invar b" "i < cap" "j < cap"
  shows "Option.bind (setb b i) (\<lambda>b'. get b' j) = Some (j = i \<or> j \<in> abs b)"
  using set_abs [OF assms(1,2)] assms(3) get_abs by fastforce

lemma get_clear:
  assumes "invar b" "i < cap" "j < cap"
  shows "Option.bind (clear b i) (\<lambda>b'. get b' j) = Some (j \<noteq> i \<and> j \<in> abs b)"
  using clear_abs [OF assms(1,2)] assms(3) get_abs by fastforce

text \<open>Setting the bits of a list one after the other.\<close>

lemma set_all_abs:
  assumes "invar b" "set is \<subseteq> {..<cap}"
  shows "\<exists>b'. fold (\<lambda>i ob. Option.bind ob (\<lambda>b. setb b i)) is (Some b) = Some b' \<and>
               invar b' \<and> abs b' = set is \<union> abs b"
  using assms
proof (induction "is" arbitrary: b)
  case Nil
  then show ?case by simp
next
  case (Cons i "is")
  from Cons.prems obtain b1 where "setb b i = Some b1" "invar b1" "abs b1 = insert i (abs b)"
    using set_abs [of b i] by auto
  with Cons.IH [of b1] Cons.prems show ?case by auto
qed

end

subsection \<open>The bitmaps meet it\<close>

lemma and_exp_iff: "((x :: 'a::len word) AND 2 ^ n \<noteq> 0) = bit x n"
  by (auto simp: and_exp_eq_0_iff_not_bit)

lemma bitmap64_get_abs:
  "i < 64 * length bm \<Longrightarrow> bitmap64_get bm i = Some (i \<in> bitmap_abs bm)"
  by (simp add: bitmap64_get_def bitmap_abs_def and_exp_iff less_mult_imp_div_less mult.commute)

lemma bit_single: "n < 64 \<Longrightarrow> bit (2 ^ m :: u64) n \<longleftrightarrow> n = m"
  by (auto simp: bit_exp_iff)

lemma div_mod_64_eq: "i div 64 = j div 64 \<Longrightarrow> i mod 64 = j mod 64 \<Longrightarrow> i = (j :: nat)"
  by (metis div_mult_mod_eq)

lemma bitmap64_set_abs:
  assumes "i < 64 * length bm"
  shows "\<exists>bm'. bitmap64_set bm i = Some bm' \<and> length bm' = length bm \<and>
               bitmap_abs bm' = insert i (bitmap_abs bm)"
proof -
  have i: "i div 64 < length bm"
    using assms by (simp add: less_mult_imp_div_less mult.commute)
  then show ?thesis
    by (auto simp: bitmap64_set_def bitmap_abs_def nth_list_update bit_or_iff bit_single
        dest: div_mod_64_eq)
qed

lemma bitmap64_clear_abs:
  assumes "i < 64 * length bm"
  shows "\<exists>bm'. bitmap64_clear bm i = Some bm' \<and> length bm' = length bm \<and>
               bitmap_abs bm' = bitmap_abs bm - {i}"
proof -
  have i: "i div 64 < length bm"
    using assms by (simp add: less_mult_imp_div_less mult.commute)
  then show ?thesis
    by (auto simp: bitmap64_clear_def bitmap_abs_def nth_list_update bit_and_iff bit_not_iff bit_single
        dest: div_mod_64_eq)
qed

text \<open>
  \<^verbatim>\<open>uint64_t section_bitmap[4]\<close> holds 256 section numbers, the PID bitmaps of 128 words all
  8192 PIDs, the program bitmap of 1024 words all 65536 program numbers.
\<close>

lemma bitmap_spec_words:
  "bitmap_spec (64 * n) (\<lambda>b. length b = n) bitmap_abs bitmap64_get bitmap64_set bitmap64_clear"
proof
  fix b :: bitmap and i :: nat
  assume "length b = n" and "i < 64 * n"
  then show "bitmap64_get b i = Some (i \<in> bitmap_abs b)"
    and "\<exists>b'. bitmap64_set b i = Some b' \<and> length b' = n \<and> bitmap_abs b' = insert i (bitmap_abs b)"
    and "\<exists>b'. bitmap64_clear b i = Some b' \<and> length b' = n \<and> bitmap_abs b' = bitmap_abs b - {i}"
    using bitmap64_get_abs bitmap64_set_abs bitmap64_clear_abs by blast+
qed

interpretation section_bm: bitmap_spec 256 "\<lambda>b. length b = 4" bitmap_abs
  bitmap64_get bitmap64_set bitmap64_clear
  using bitmap_spec_words [of 4] by simp

interpretation pid_bm: bitmap_spec 8192 "\<lambda>b. length b = 128" bitmap_abs
  bitmap64_get bitmap64_set bitmap64_clear
  using bitmap_spec_words [of 128] by simp

interpretation program_bm: bitmap_spec 65536 "\<lambda>b. length b = 1024" bitmap_abs
  bitmap64_get bitmap64_set bitmap64_clear
  using bitmap_spec_words [of 1024] by simp

lemma bitmap_abs_replicate_0 [simp]: "bitmap_abs (replicate n 0) = {}"
  by (auto simp: bitmap_abs_def)

subsection \<open>When a bitmap is full\<close>

lemma bitmap64_full_words_iff:
  "i + k \<le> length bm \<Longrightarrow>
   bitmap64_full_words bm i k = Some (\<forall>j \<in> {i..<i + k}. bm ! j = - 1)"
proof (induction k arbitrary: i)
  case 0
  then show ?case by simp
next
  case (Suc k)
  have "{i..<i + Suc k} = insert i {Suc i..<Suc i + k}" by auto
  with Suc show ?case by auto
qed

lemma bitmap64_full_small:
  assumes "l < 64" "length bm = 4"
  shows "bitmap64_full bm l =
     (if l < 4 then Some (if bm ! l AND mask ((l + 1) mod 64) \<noteq> mask ((l + 1) mod 64) then -1 else 0)
      else None)"
  using assms by (simp add: bitmap64_full_def Let_def mask_eq_exp_minus_1 push_bit_of_1)

section \<open>DVB time\<close>

text \<open>
  \<open>convert_UTC\<close> works in \<open>double\<close> arithmetic and truncates each quotient to \<open>int\<close>.
  The constants have at most four decimals, so the quotients are modelled exactly, scaled to
  integers: \<open>(mjd - 15078.2) / 365.25\<close> is \<open>(100 mjd - 1507820) / 36525\<close> and
  \<open>(mjd - 14956.1 - a) / 30.6001\<close> is \<open>(10000 mjd - 149561000 - 10000 a) / 306001\<close>.
  No numerator comes closer to a multiple of its denominator than 1 part in 10000, far above
  the rounding error of a \<open>double\<close>, so the truncated values agree.
\<close>

definition tdiv :: "int \<Rightarrow> int \<Rightarrow> int" where
  "tdiv a b = (if a < 0 then - ((- a) div b) else a div b)"

definition mjd_date :: "int \<Rightarrow> int \<times> int \<times> int" where
  "mjd_date mjd =
     (let Y1 = tdiv (100 * mjd - 1507820) 36525;
          M1 = tdiv (10000 * mjd - 149561000 - 10000 * tdiv (Y1 * 36525) 100) 306001;
          D = mjd - 14956 - tdiv (Y1 * 36525) 100 - tdiv (M1 * 306001) 10000;
          K = (if M1 = 14 \<or> M1 = 15 then 1 else 0)
      in (Y1 + K + 1900, M1 - 1 - K * 12, D))"

text \<open>Decimal output as \<open>printf\<close> makes it, zero-padded to a width.\<close>

fun dec_digits :: "nat \<Rightarrow> string" where
  "dec_digits n = (if n < 10 then [char_of (48 + n)] else dec_digits (n div 10) @ [char_of (48 + n mod 10)])"

declare dec_digits.simps [simp del]

definition zpad :: "nat \<Rightarrow> string \<Rightarrow> string" where
  "zpad w s = replicate (w - length s) CHR ''0'' @ s"

definition fmt_d :: "nat \<Rightarrow> int \<Rightarrow> string" where
  "fmt_d w x = (if x < 0 then CHR ''-'' # zpad (w - 1) (dec_digits (nat (- x)))
                else zpad w (dec_digits (nat x)))"

definition fmt_u :: "nat \<Rightarrow> int \<Rightarrow> string" where
  "fmt_u w x = zpad w (dec_digits (nat (x mod 2 ^ 32)))"

definition convert_UTC :: "bytes \<Rightarrow> nat \<Rightarrow> string option" where
  "convert_UTC t sz = do {
     t0 \<leftarrow> rdb t 0; t1 \<leftarrow> rdb t 1; hour \<leftarrow> rdb t 2; mi \<leftarrow> rdb t 3; sec \<leftarrow> rdb t 4;
     let mjd = uint (push_bit 8 (ucast t0) OR ucast t1 :: u16);
     let (Y, M, D) = mjd_date mjd;
     Some (take (sz - 1)
       (fmt_d 4 Y @ ''/'' @ fmt_u 2 M @ ''/'' @ fmt_u 2 D @ '' '' @
        fmt_d 2 (uint hour) @ '':'' @ fmt_d 2 (uint mi) @ '':'' @ fmt_d 2 (uint sec))) }"

subsection \<open>The calendar\<close>

text \<open>The Gregorian calendar as a successor function on dates: what the conversion is measured against.\<close>

definition leap :: "int \<Rightarrow> bool" where
  "leap y \<longleftrightarrow> y mod 4 = 0 \<and> (y mod 100 \<noteq> 0 \<or> y mod 400 = 0)"

definition month_days :: "int \<Rightarrow> int \<Rightarrow> int" where
  "month_days y m = (if m = 2 then if leap y then 29 else 28
                     else if m \<in> {4, 6, 9, 11} then 30 else 31)"

fun next_date :: "int \<times> int \<times> int \<Rightarrow> int \<times> int \<times> int" where
  "next_date (y, m, d) =
     (if d < month_days y m then (y, m, d + 1)
      else if m < 12 then (y, m + 1, 1) else (y + 1, 1, 1))"



definition year_off :: "int \<Rightarrow> int" where
  "year_off y = y * 1461 div 4"

definition march_date :: "int \<Rightarrow> int \<Rightarrow> int \<times> int \<times> int" where
  "march_date yr q =
     (let m = (10000 * q + 1229000) div 306001; k = (if m = 14 \<or> m = 15 then 1 else 0)
      in (yr + k, m - 1 - k * 12, q + 123 - (m * 306001) div 10000))"

lemma mjd_date_march:
  assumes "0 \<le> c" "y \<in> {0, 1, 2, 3}" "0 \<le> q" "q \<le> 364 + (if y = 3 then 1 else 0)"
  shows "mjd_date (15079 + 1461 * c + year_off y + q) = march_date (1900 + 4 * c + y) q"
proof -
  let ?mjd = "15079 + 1461 * c + year_off y + q"
  have Y: "(100 * ?mjd - 1507820) div 36525 = 4 * c + y"
    using assms by (auto simp: year_off_def)
  have off: "(4 * c + y) * 36525 div 100 = 1461 * c + year_off y"
    using assms(2) by (auto simp: year_off_def)
  have Yt: "tdiv (100 * ?mjd - 1507820) 36525 = 4 * c + y"
    using assms Y by (auto simp: tdiv_def year_off_def)
  have offt: "tdiv ((4 * c + y) * 36525) 100 = 1461 * c + year_off y"
    using assms off by (auto simp: tdiv_def)
  have M: "tdiv (10000 * ?mjd - 149561000 - 10000 * (1461 * c + year_off y)) 306001
             = (10000 * q + 1229000) div 306001"
    using assms(3) by (simp add: tdiv_def algebra_simps)
  have m0: "0 \<le> (10000 * q + 1229000) div 306001" using assms(3) by simp
  show ?thesis
    unfolding mjd_date_def march_date_def Let_def Yt offt M
    using m0 by (simp add: tdiv_def algebra_simps)
qed

lemma march_month:
  "0 \<le> q \<Longrightarrow> q \<le> 30 \<Longrightarrow> (10000 * q + 1229000) div 306001 = (4::int)"
  "31 \<le> q \<Longrightarrow> q \<le> 60 \<Longrightarrow> (10000 * q + 1229000) div 306001 = (5::int)"
  "61 \<le> q \<Longrightarrow> q \<le> 91 \<Longrightarrow> (10000 * q + 1229000) div 306001 = (6::int)"
  "92 \<le> q \<Longrightarrow> q \<le> 121 \<Longrightarrow> (10000 * q + 1229000) div 306001 = (7::int)"
  "122 \<le> q \<Longrightarrow> q \<le> 152 \<Longrightarrow> (10000 * q + 1229000) div 306001 = (8::int)"
  "153 \<le> q \<Longrightarrow> q \<le> 183 \<Longrightarrow> (10000 * q + 1229000) div 306001 = (9::int)"
  "184 \<le> q \<Longrightarrow> q \<le> 213 \<Longrightarrow> (10000 * q + 1229000) div 306001 = (10::int)"
  "214 \<le> q \<Longrightarrow> q \<le> 244 \<Longrightarrow> (10000 * q + 1229000) div 306001 = (11::int)"
  "245 \<le> q \<Longrightarrow> q \<le> 274 \<Longrightarrow> (10000 * q + 1229000) div 306001 = (12::int)"
  "275 \<le> q \<Longrightarrow> q \<le> 305 \<Longrightarrow> (10000 * q + 1229000) div 306001 = (13::int)"
  "306 \<le> q \<Longrightarrow> q \<le> 336 \<Longrightarrow> (10000 * q + 1229000) div 306001 = (14::int)"
  "337 \<le> q \<Longrightarrow> q \<le> 365 \<Longrightarrow> (10000 * q + 1229000) div 306001 = (15::int)"
  by linarith+

lemma march_cases:
  assumes "0 \<le> (q::int)" "q \<le> 365"
  obtains "q \<le> 30" | "31 \<le> q" "q \<le> 60" | "61 \<le> q" "q \<le> 91" | "92 \<le> q" "q \<le> 121"
    | "122 \<le> q" "q \<le> 152" | "153 \<le> q" "q \<le> 183" | "184 \<le> q" "q \<le> 213"
    | "214 \<le> q" "q \<le> 244" | "245 \<le> q" "q \<le> 274" | "275 \<le> q" "q \<le> 305"
    | "306 \<le> q" "q \<le> 336" | "337 \<le> q"
  using assms by linarith

lemma march_date_table:
  "0 \<le> q \<Longrightarrow> q \<le> 30 \<Longrightarrow> march_date yr q = (yr, 3, q + 1)"
  "31 \<le> q \<Longrightarrow> q \<le> 60 \<Longrightarrow> march_date yr q = (yr, 4, q - 30)"
  "61 \<le> q \<Longrightarrow> q \<le> 91 \<Longrightarrow> march_date yr q = (yr, 5, q - 60)"
  "92 \<le> q \<Longrightarrow> q \<le> 121 \<Longrightarrow> march_date yr q = (yr, 6, q - 91)"
  "122 \<le> q \<Longrightarrow> q \<le> 152 \<Longrightarrow> march_date yr q = (yr, 7, q - 121)"
  "153 \<le> q \<Longrightarrow> q \<le> 183 \<Longrightarrow> march_date yr q = (yr, 8, q - 152)"
  "184 \<le> q \<Longrightarrow> q \<le> 213 \<Longrightarrow> march_date yr q = (yr, 9, q - 183)"
  "214 \<le> q \<Longrightarrow> q \<le> 244 \<Longrightarrow> march_date yr q = (yr, 10, q - 213)"
  "245 \<le> q \<Longrightarrow> q \<le> 274 \<Longrightarrow> march_date yr q = (yr, 11, q - 244)"
  "275 \<le> q \<Longrightarrow> q \<le> 305 \<Longrightarrow> march_date yr q = (yr, 12, q - 274)"
  "306 \<le> q \<Longrightarrow> q \<le> 336 \<Longrightarrow> march_date yr q = (yr + 1, 1, q - 305)"
  "337 \<le> q \<Longrightarrow> q \<le> 365 \<Longrightarrow> march_date yr q = (yr + 1, 2, q - 336)"
  by (simp_all add: march_date_def march_month)

lemma month_days_table:
  "month_days y 3 = 31" "month_days y 4 = 30" "month_days y 5 = 31" "month_days y 6 = 30"
  "month_days y 7 = 31" "month_days y 8 = 31" "month_days y 9 = 30" "month_days y 10 = 31"
  "month_days y 11 = 30" "month_days y 12 = 31" "month_days y 1 = 31"
  "month_days y 2 = 28 + (if leap y then 1 else 0)"
  by (simp_all add: month_days_def)

text \<open>Inside a month, and from its last day to the first of the next.\<close>

lemma month_step:
  assumes "s \<le> q" "q \<le> e" "month_days y m = e - s + 1"
    and "\<And>x. s \<le> x \<Longrightarrow> x \<le> e \<Longrightarrow> march_date yr x = (y, m, x - s + 1)"
    and "march_date yr (e + 1) = (if m < 12 then (y, m + 1, 1) else (y + 1, 1, 1))"
  shows "march_date yr (q + 1) = next_date (march_date yr q)"
  using assms by (cases "q < e") auto

lemma march_date_next:
  assumes "0 \<le> q" "q < 364 + (if leap (yr + 1) then 1 else 0)"
  shows "march_date yr (q + 1) = next_date (march_date yr q)"
proof -
  have q: "q \<le> 364" using assms by (simp split: if_splits)
  then have "q \<le> 365" by simp
  from \<open>0 \<le> q\<close> this show ?thesis
  proof (cases rule: march_cases)
    case 1
    then show ?thesis
      using assms(1) by (intro month_step [of 0 q 30 yr 3 yr]) (simp_all add: march_date_table month_days_table)
  next
    case 2
    then show ?thesis
      using assms(1) by (intro month_step [of 31 q 60 yr 4 yr]) (simp_all add: march_date_table month_days_table)
  next
    case 3
    then show ?thesis
      using assms(1) by (intro month_step [of 61 q 91 yr 5 yr]) (simp_all add: march_date_table month_days_table)
  next
    case 4
    then show ?thesis
      using assms(1) by (intro month_step [of 92 q 121 yr 6 yr]) (simp_all add: march_date_table month_days_table)
  next
    case 5
    then show ?thesis
      using assms(1) by (intro month_step [of 122 q 152 yr 7 yr]) (simp_all add: march_date_table month_days_table)
  next
    case 6
    then show ?thesis
      using assms(1) by (intro month_step [of 153 q 183 yr 8 yr]) (simp_all add: march_date_table month_days_table)
  next
    case 7
    then show ?thesis
      using assms(1) by (intro month_step [of 184 q 213 yr 9 yr]) (simp_all add: march_date_table month_days_table)
  next
    case 8
    then show ?thesis
      using assms(1) by (intro month_step [of 214 q 244 yr 10 yr]) (simp_all add: march_date_table month_days_table)
  next
    case 9
    then show ?thesis
      using assms(1) by (intro month_step [of 245 q 274 yr 11 yr]) (simp_all add: march_date_table month_days_table)
  next
    case 10
    then show ?thesis
      using assms(1) by (intro month_step [of 275 q 305 yr 12 yr]) (simp_all add: march_date_table month_days_table)
  next
    case 11
    then show ?thesis
      using assms(1) by (intro month_step [of 306 q 336 "yr + 1" 1 yr]) (simp_all add: march_date_table month_days_table)
  next
    case 12
    with q assms(2) show ?thesis
      by (simp add: march_date_table month_days_table split: if_splits)
  qed
qed

lemma march_date_wrap:
  "q = 364 + (if leap (yr + 1) then 1 else 0) \<Longrightarrow>
   march_date (yr + 1) 0 = next_date (march_date yr q)"
  by (simp add: march_date_table month_days_table)


lemma leap_4: "0 \<le> c \<Longrightarrow> c < 49 \<Longrightarrow> leap (1904 + 4 * c)"
proof -
  assume c: "0 \<le> c" "c < 49"
  have "1904 + 4 * c = 2000" if "(1904 + 4 * c) mod 100 = 0"
  proof -
    from that obtain k where k: "1904 + 4 * c = 100 * k" by (auto simp: mod_eq_0_iff_dvd dvd_def)
    then have "k = 20" using c by linarith
    with k show ?thesis by simp
  qed
  moreover have "(1904 + 4 * c) mod 4 = 0" by presburger
  ultimately show ?thesis by (auto simp: leap_def)
qed

lemma not_leap_4: "y \<in> {0, 1, 2} \<Longrightarrow> \<not> leap (1900 + 4 * c + y + 1)"
proof -
  assume "y \<in> {0, 1, 2}"
  then have "(1900 + 4 * c + y + 1) mod 4 \<noteq> 0"
    by (elim insertE emptyE; simp; presburger)
  then show ?thesis by (simp add: leap_def)
qed

lemma mjd_split:
  assumes "0 \<le> (n :: int)"
  obtains c y q where "0 \<le> c" "y \<in> {0, 1, 2, 3}" "0 \<le> q" "q \<le> 364 + (if y = 3 then 1 else 0)"
    "n = 1461 * c + year_off y + q"
proof -
  define c r where "c = n div 1461" and "r = n mod 1461"
  have n: "n = 1461 * c + r" "0 \<le> c" "0 \<le> r" "r < 1461"
    using assms by (simp_all add: c_def r_def)
  consider "r < 365" | "365 \<le> r" "r < 730" | "730 \<le> r" "r < 1095" | "1095 \<le> r" by linarith
  then show ?thesis
  proof cases
    case 1 with n that [of c 0 r] show ?thesis by (simp add: year_off_def)
  next
    case 2 with n that [of c 1 "r - 365"] show ?thesis by (simp add: year_off_def)
  next
    case 3 with n that [of c 2 "r - 730"] show ?thesis by (simp add: year_off_def)
  next
    case 4 with n that [of c 3 "r - 1095"] show ?thesis by (simp add: year_off_def)
  qed
qed

lemma year_off_step: "y \<in> {0, 1, 2} \<Longrightarrow> year_off (y + 1) = year_off y + 365"
  by (auto simp: year_off_def)

lemma mjd_date_next:
  assumes "15079 \<le> mjd" "mjd < 65535"
  shows "mjd_date (mjd + 1) = next_date (mjd_date mjd)"
proof -
  obtain c y q where s: "0 \<le> c" "y \<in> {0, 1, 2, 3}" "0 \<le> q" "q \<le> 364 + (if y = 3 then 1 else 0)"
    and m: "mjd - 15079 = 1461 * c + year_off y + q"
    using assms mjd_split [of "mjd - 15079"] by auto
  have mjd: "mjd = 15079 + 1461 * c + year_off y + q" using m by simp
  have "0 \<le> year_off y" using s(2) by (auto simp: year_off_def)
  then have c: "c < 49" using m assms s(3) by linarith
  have leap: "leap (1900 + 4 * c + y + 1) \<longleftrightarrow> y = 3"
  proof (cases "y = 3")
    case True
    then show ?thesis using leap_4 [OF s(1) c] by (simp add: algebra_simps)
  next
    case False
    then show ?thesis using s(2) not_leap_4 [of y c] by simp
  qed
  have d: "mjd_date mjd = march_date (1900 + 4 * c + y) q"
    unfolding mjd by (rule mjd_date_march [OF s])
  show ?thesis
  proof (cases "q < 364 + (if y = 3 then 1 else 0)")
    case True
    have "mjd_date (mjd + 1) = march_date (1900 + 4 * c + y) (q + 1)"
      using mjd_date_march [of c y "q + 1"] s True mjd by (simp add: algebra_simps)
    then show ?thesis using march_date_next [of q "1900 + 4 * c + y"] True s(3) leap d by simp
  next
    case False
    then have q: "q = 364 + (if leap (1900 + 4 * c + y + 1) then 1 else 0)" using s(4) leap by simp
    have "mjd_date (mjd + 1) = march_date (1900 + 4 * c + y + 1) 0"
    proof (cases "y = 3")
      case True
      then show ?thesis
        using mjd_date_march [of "c + 1" 0 0] s mjd q leap by (simp add: year_off_def algebra_simps)
    next
      case False
      then show ?thesis
        using mjd_date_march [of c "y + 1" 0] s(1,2) mjd q leap year_off_step [of y]
        by (simp add: algebra_simps)
    qed
    then show ?thesis using march_date_wrap [OF q] d by simp
  qed
qed

lemma bitmap64_full_stuck:
  assumes "length bm = 4" "bitmap_abs bm \<subseteq> {..lst}" "1 \<le> lst" "lst \<le> 3"
  shows "bitmap64_full bm lst = Some (-1)"
proof -
  have "bm ! lst = 0"
  proof (rule bit_word_eqI)
    fix i assume i: "i < LENGTH(64)"
    have "64 * lst + i \<notin> bitmap_abs bm" using assms by auto
    with i assms show "bit (bm ! lst) i = bit 0 i"
      by (auto simp: bitmap_abs_def)
  qed
  moreover have "mask ((lst + 1) mod 64) \<noteq> (0 :: u64)"
    using assms by (simp add: mask_eq_0_iff)
  ultimately show ?thesis
    using assms by (simp add: bitmap64_full_small)
qed

section \<open>Properties\<close>

text \<open>Setting the bits of a list one after the other.\<close>

fun set_bits :: "bitmap \<Rightarrow> nat list \<Rightarrow> bitmap option" where
  "set_bits bm [] = Some bm"
| "set_bits bm (i # is) = bitmap64_set bm i \<bind> (\<lambda>bm. set_bits bm is)"

lemma fold_bind_None: "fold (\<lambda>i ob. Option.bind ob (\<lambda>b. f b i)) xs None = None"
  by (induction xs) simp_all

lemma set_bits_fold: "set_bits bm is = fold (\<lambda>i ob. Option.bind ob (\<lambda>b. bitmap64_set b i)) is (Some bm)"
proof (induction "is" arbitrary: bm)
  case (Cons i "is")
  then show ?case by (cases "bitmap64_set bm i") (simp_all add: fold_bind_None)
qed simp

text \<open>
  The section bitmap of a table: after the section numbers of a list have been marked, a
  section reads as received exactly when it is in the list or was received before, and no mark
  is written outside the four words.
\<close>

lemma section_bitmap_marks:
  assumes "length bm = 4" "set is \<subseteq> {..<256}" "j < 256"
  shows "\<exists>bm'. set_bits bm is = Some bm' \<and> length bm' = 4 \<and>
    bitmap64_get bm' j = Some (j \<in> set is \<or> j \<in> bitmap_abs bm)"
  using section_bm.set_all_abs [OF assms(1,2)] section_bm.get_abs assms(3) by (auto simp: set_bits_fold)



end
