(* ===== verification/Crc32.thy ===== *)
theory Crc32
  imports Ts_Prelude
begin

unbundle bit_operations_syntax

text \<open>
  \<^verbatim>\<open>src/crc32.c\<close>: the table-driven CRC of MPEG-2 sections (polynomial \<open>0x04c11db7\<close>, initial
  value all ones, no reflection).  The lookup table is the one of the source; the lemmas show
  that it is the table of the polynomial and that the routine computes the bitwise division.
\<close>

definition crc_table :: "u32 list" where
  "crc_table = [
     0x00000000, 0x04c11db7, 0x09823b6e, 0x0d4326d9, 0x130476dc, 0x17c56b6b, 0x1a864db2, 0x1e475005,
     0x2608edb8, 0x22c9f00f, 0x2f8ad6d6, 0x2b4bcb61, 0x350c9b64, 0x31cd86d3, 0x3c8ea00a, 0x384fbdbd,
     0x4c11db70, 0x48d0c6c7, 0x4593e01e, 0x4152fda9, 0x5f15adac, 0x5bd4b01b, 0x569796c2, 0x52568b75,
     0x6a1936c8, 0x6ed82b7f, 0x639b0da6, 0x675a1011, 0x791d4014, 0x7ddc5da3, 0x709f7b7a, 0x745e66cd,
     0x9823b6e0, 0x9ce2ab57, 0x91a18d8e, 0x95609039, 0x8b27c03c, 0x8fe6dd8b, 0x82a5fb52, 0x8664e6e5,
     0xbe2b5b58, 0xbaea46ef, 0xb7a96036, 0xb3687d81, 0xad2f2d84, 0xa9ee3033, 0xa4ad16ea, 0xa06c0b5d,
     0xd4326d90, 0xd0f37027, 0xddb056fe, 0xd9714b49, 0xc7361b4c, 0xc3f706fb, 0xceb42022, 0xca753d95,
     0xf23a8028, 0xf6fb9d9f, 0xfbb8bb46, 0xff79a6f1, 0xe13ef6f4, 0xe5ffeb43, 0xe8bccd9a, 0xec7dd02d,
     0x34867077, 0x30476dc0, 0x3d044b19, 0x39c556ae, 0x278206ab, 0x23431b1c, 0x2e003dc5, 0x2ac12072,
     0x128e9dcf, 0x164f8078, 0x1b0ca6a1, 0x1fcdbb16, 0x018aeb13, 0x054bf6a4, 0x0808d07d, 0x0cc9cdca,
     0x7897ab07, 0x7c56b6b0, 0x71159069, 0x75d48dde, 0x6b93dddb, 0x6f52c06c, 0x6211e6b5, 0x66d0fb02,
     0x5e9f46bf, 0x5a5e5b08, 0x571d7dd1, 0x53dc6066, 0x4d9b3063, 0x495a2dd4, 0x44190b0d, 0x40d816ba,
     0xaca5c697, 0xa864db20, 0xa527fdf9, 0xa1e6e04e, 0xbfa1b04b, 0xbb60adfc, 0xb6238b25, 0xb2e29692,
     0x8aad2b2f, 0x8e6c3698, 0x832f1041, 0x87ee0df6, 0x99a95df3, 0x9d684044, 0x902b669d, 0x94ea7b2a,
     0xe0b41de7, 0xe4750050, 0xe9362689, 0xedf73b3e, 0xf3b06b3b, 0xf771768c, 0xfa325055, 0xfef34de2,
     0xc6bcf05f, 0xc27dede8, 0xcf3ecb31, 0xcbffd686, 0xd5b88683, 0xd1799b34, 0xdc3abded, 0xd8fba05a,
     0x690ce0ee, 0x6dcdfd59, 0x608edb80, 0x644fc637, 0x7a089632, 0x7ec98b85, 0x738aad5c, 0x774bb0eb,
     0x4f040d56, 0x4bc510e1, 0x46863638, 0x42472b8f, 0x5c007b8a, 0x58c1663d, 0x558240e4, 0x51435d53,
     0x251d3b9e, 0x21dc2629, 0x2c9f00f0, 0x285e1d47, 0x36194d42, 0x32d850f5, 0x3f9b762c, 0x3b5a6b9b,
     0x0315d626, 0x07d4cb91, 0x0a97ed48, 0x0e56f0ff, 0x1011a0fa, 0x14d0bd4d, 0x19939b94, 0x1d528623,
     0xf12f560e, 0xf5ee4bb9, 0xf8ad6d60, 0xfc6c70d7, 0xe22b20d2, 0xe6ea3d65, 0xeba91bbc, 0xef68060b,
     0xd727bbb6, 0xd3e6a601, 0xdea580d8, 0xda649d6f, 0xc423cd6a, 0xc0e2d0dd, 0xcda1f604, 0xc960ebb3,
     0xbd3e8d7e, 0xb9ff90c9, 0xb4bcb610, 0xb07daba7, 0xae3afba2, 0xaafbe615, 0xa7b8c0cc, 0xa379dd7b,
     0x9b3660c6, 0x9ff77d71, 0x92b45ba8, 0x9675461f, 0x8832161a, 0x8cf30bad, 0x81b02d74, 0x857130c3,
     0x5d8a9099, 0x594b8d2e, 0x5408abf7, 0x50c9b640, 0x4e8ee645, 0x4a4ffbf2, 0x470cdd2b, 0x43cdc09c,
     0x7b827d21, 0x7f436096, 0x7200464f, 0x76c15bf8, 0x68860bfd, 0x6c47164a, 0x61043093, 0x65c52d24,
     0x119b4be9, 0x155a565e, 0x18197087, 0x1cd86d30, 0x029f3d35, 0x065e2082, 0x0b1d065b, 0x0fdc1bec,
     0x3793a651, 0x3352bbe6, 0x3e119d3f, 0x3ad08088, 0x2497d08d, 0x2056cd3a, 0x2d15ebe3, 0x29d4f654,
     0xc5a92679, 0xc1683bce, 0xcc2b1d17, 0xc8ea00a0, 0xd6ad50a5, 0xd26c4d12, 0xdf2f6bcb, 0xdbee767c,
     0xe3a1cbc1, 0xe760d676, 0xea23f0af, 0xeee2ed18, 0xf0a5bd1d, 0xf464a0aa, 0xf9278673, 0xfde69bc4,
     0x89b8fd09, 0x8d79e0be, 0x803ac667, 0x84fbdbd0, 0x9abc8bd5, 0x9e7d9662, 0x933eb0bb, 0x97ffad0c,
     0xafb010b1, 0xab710d06, 0xa6322bdf, 0xa2f33668, 0xbcb4666d, 0xb8757bda, 0xb5365d03, 0xb1f740b4]"

text \<open>
  \<open>crc = (crc << 8) ^ crc_table[((crc >> 24) ^ *data++) & 0xff]\<close>.  The source reads
  \<open>char\<close>, which may be signed; the mask keeps the low eight bits, so the byte itself counts.
\<close>

definition crc_step :: "u32 \<Rightarrow> u8 \<Rightarrow> u32" where
  "crc_step crc b = push_bit 8 crc XOR crc_table ! unat ((drop_bit 24 crc XOR ucast b) AND 0xff)"

fun crc_loop :: "u32 \<Rightarrow> bytes \<Rightarrow> nat \<Rightarrow> u32 option" where
  "crc_loop crc data 0 = Some crc"
| "crc_loop crc data (Suc n) = (case data of [] \<Rightarrow> None | b # bs \<Rightarrow> crc_loop (crc_step crc b) bs n)"

definition crc32 :: "bytes \<Rightarrow> int \<Rightarrow> u32 option" where
  "crc32 data len = crc_loop 0xffffffff data (nat len)"

section \<open>The bitwise reference\<close>

text \<open>One bit of polynomial long division, and a byte of it.\<close>

definition crc_bit :: "u32 \<Rightarrow> u32" where
  "crc_bit c = (if bit c 31 then push_bit 1 c XOR 0x04c11db7 else push_bit 1 c)"

definition crc_byte :: "u32 \<Rightarrow> u8 \<Rightarrow> u32" where
  "crc_byte c b = (crc_bit ^^ 8) (c XOR push_bit 24 (ucast b))"

definition crc_ref :: "u32 \<Rightarrow> bytes \<Rightarrow> u32" where
  "crc_ref c bs = fold (\<lambda>b c. crc_byte c b) bs c"

section \<open>Linearity\<close>

lemma crc_bit_0 [simp]: "crc_bit 0 = 0"
  by (simp add: crc_bit_def)

lemma crc_bit_xor: "crc_bit (a XOR b) = crc_bit a XOR crc_bit b"
  by (auto simp: crc_bit_def bit_xor_iff push_bit_xor ac_simps)

lemma crc_bits_xor: "(crc_bit ^^ n) (a XOR b) = (crc_bit ^^ n) a XOR (crc_bit ^^ n) b"
  by (induction n) (simp_all add: crc_bit_xor)

lemma crc_bits_0 [simp]: "(crc_bit ^^ n) 0 = 0"
  by (induction n) simp_all

lemma crc_bit_eq_0_iff: "crc_bit c = 0 \<longleftrightarrow> c = 0"
proof
  assume z: "crc_bit c = 0"
  show "c = 0"
  proof (cases "bit c 31")
    case True
    with z have "bit (push_bit 1 c XOR 0x04c11db7 :: u32) 0 = bit (0 :: u32) 0"
      by (simp add: crc_bit_def)
    then show ?thesis by (simp only: bit_xor_iff bit_push_bit_iff) simp
  next
    case False
    with z have s: "push_bit 1 c = 0" by (simp add: crc_bit_def)
    show ?thesis
    proof (rule bit_word_eqI)
      fix n assume "n < LENGTH(32)"
      then consider "n = 31" | "n < 31" by fastforce
      then show "bit c n = bit (0 :: u32) n"
      proof cases
        case 1
        with False show ?thesis by simp
      next
        case 2
        have "bit (push_bit 1 c) (Suc n) = bit (0 :: u32) (Suc n)" using s by simp
        with 2 show ?thesis by (simp only: bit_push_bit_iff) simp
      qed
    qed
  qed
qed simp

lemma crc_bits_eq_0_iff: "(crc_bit ^^ n) c = 0 \<longleftrightarrow> c = 0"
  by (induction n) (simp_all add: crc_bit_eq_0_iff)

lemma xor_eq_0_iff_word: "(a :: 'a::len word) XOR b = 0 \<longleftrightarrow> a = b"
  by (auto simp: bit_eq_iff bit_xor_iff)

lemma xor_left_cancel_word: "(c :: 'a::len word) XOR a = c XOR b \<longleftrightarrow> a = b"
  by (auto simp: bit_eq_iff bit_xor_iff)

lemma xor_right_cancel_word: "(a :: 'a::len word) XOR c = b XOR c \<longleftrightarrow> a = b"
  by (auto simp: bit_eq_iff bit_xor_iff)

lemma crc_bits_inj: "(crc_bit ^^ n) a = (crc_bit ^^ n) b \<longleftrightarrow> a = b"
  by (metis crc_bits_eq_0_iff crc_bits_xor xor_eq_0_iff_word)

section \<open>The table is the polynomial's\<close>

text \<open>Shifting a word whose top bits are clear needs no reduction.\<close>

lemma crc_bits_shift:
  assumes "\<And>i. 32 - n \<le> i \<Longrightarrow> i < 32 \<Longrightarrow> \<not> bit c i" "n \<le> 32"
  shows "(crc_bit ^^ n) c = push_bit n c"
  using assms
proof (induction n)
  case 0
  then show ?case by simp
next
  case (Suc n)
  have IH: "(crc_bit ^^ n) c = push_bit n c"
    using Suc by auto
  have "\<not> bit (push_bit n c) 31"
    using Suc.prems by (auto simp: bit_push_bit_iff)
  then show ?case
    by (simp only: funpow.simps o_apply IH) (simp add: crc_bit_def push_bit_push_bit flip: push_bit_Suc)
qed

lemma crc_bits_8: "(crc_bit ^^ 8) c = crc_bit (crc_bit (crc_bit (crc_bit (crc_bit (crc_bit (crc_bit (crc_bit c)))))))"
  by (simp add: eval_nat_numeral)

lemma crc_bit_numeral:
  "crc_bit (numeral w) = (if bit (numeral w :: u32) 31 then push_bit 1 (numeral w) XOR 0x04c11db7
                          else push_bit 1 (numeral w))"
  by (simp only: crc_bit_def)

lemma upt_256: "[0..<256] = [
     0, 1, 2, 3, 4, 5, 6, 7, 8, 9, 10, 11, 12, 13, 14, 15, 16, 17, 18, 19, 20, 21, 22, 23, 24,
     25, 26, 27, 28, 29, 30, 31, 32, 33, 34, 35, 36, 37, 38, 39, 40, 41, 42, 43, 44, 45, 46,
     47, 48, 49, 50, 51, 52, 53, 54, 55, 56, 57, 58, 59, 60, 61, 62, 63, 64, 65, 66, 67, 68,
     69, 70, 71, 72, 73, 74, 75, 76, 77, 78, 79, 80, 81, 82, 83, 84, 85, 86, 87, 88, 89, 90,
     91, 92, 93, 94, 95, 96, 97, 98, 99, 100, 101, 102, 103, 104, 105, 106, 107, 108, 109, 110,
     111, 112, 113, 114, 115, 116, 117, 118, 119, 120, 121, 122, 123, 124, 125, 126, 127, 128,
     129, 130, 131, 132, 133, 134, 135, 136, 137, 138, 139, 140, 141, 142, 143, 144, 145, 146,
     147, 148, 149, 150, 151, 152, 153, 154, 155, 156, 157, 158, 159, 160, 161, 162, 163, 164,
     165, 166, 167, 168, 169, 170, 171, 172, 173, 174, 175, 176, 177, 178, 179, 180, 181, 182,
     183, 184, 185, 186, 187, 188, 189, 190, 191, 192, 193, 194, 195, 196, 197, 198, 199, 200,
     201, 202, 203, 204, 205, 206, 207, 208, 209, 210, 211, 212, 213, 214, 215, 216, 217, 218,
     219, 220, 221, 222, 223, 224, 225, 226, 227, 228, 229, 230, 231, 232, 233, 234, 235, 236,
     237, 238, 239, 240, 241, 242, 243, 244, 245, 246, 247, 248, 249, 250, 251, 252, 253, 254,
     255]"
  by (simp add: upt_rec)

lemma crc_table_poly:
  "crc_table = map (\<lambda>b. (crc_bit ^^ 8) (push_bit 24 (of_nat b))) [0..<256]"
  unfolding crc_bits_8 crc_table_def upt_256
  by (simp add: crc_bit_numeral)

section \<open>The routine is the bitwise division\<close>

lemma crc_table_nth: "b < 256 \<Longrightarrow> crc_table ! b = (crc_bit ^^ 8) (push_bit 24 (of_nat b))"
  by (simp add: crc_table_poly)

lemma word32_split: "(x :: u32) = push_bit 24 (drop_bit 24 x) XOR (x AND mask 24)"
  by (rule bit_word_eqI) (auto simp: bit_xor_iff bit_push_bit_iff bit_drop_bit_eq bit_and_iff bit_mask_iff)

lemma crc_step_byte: "crc_step c b = crc_byte c b"
proof -
  define x :: u32 where "x = c XOR push_bit 24 (ucast b)"
  have ff: "(0xff :: u32) = mask 8"
    by (simp add: mask_eq_exp_minus_1)
  have idx: "(drop_bit 24 c XOR ucast b) AND 0xff = drop_bit 24 x"
    unfolding ff x_def
    by (rule bit_word_eqI)
       (auto simp: bit_xor_iff bit_drop_bit_eq bit_push_bit_iff bit_and_iff bit_unsigned_iff
          bit_mask_iff dest: bit_imp_le_length)
  have top: "unat (drop_bit 24 x) < 256"
  proof -
    have "unat x < 2 ^ 32"
      by (rule order_less_le_trans [OF unsigned_less]) simp
    then show ?thesis
      by (simp add: drop_bit_eq_div unat_div)
  qed
  have low: "(crc_bit ^^ 8) (x AND mask 24) = push_bit 8 c"
  proof -
    have "(crc_bit ^^ 8) (x AND mask 24) = push_bit 8 (x AND mask 24)"
      by (rule crc_bits_shift) (auto simp: bit_and_iff bit_mask_iff)
    also have "\<dots> = push_bit 8 c"
      by (rule bit_word_eqI) (auto simp: x_def bit_push_bit_iff bit_and_iff bit_mask_iff bit_xor_iff)
    finally show ?thesis .
  qed
  have "crc_byte c b = (crc_bit ^^ 8) (push_bit 24 (drop_bit 24 x)) XOR (crc_bit ^^ 8) (x AND mask 24)"
    by (metis crc_byte_def crc_bits_xor word32_split x_def)
  also have "\<dots> = crc_step c b"
    using top by (simp only: crc_step_def idx low crc_table_nth) (simp add: xor.commute)
  finally show ?thesis ..
qed

lemma crc_byte_inj: "crc_byte c b = crc_byte d b \<longleftrightarrow> c = d"
  by (simp add: crc_byte_def crc_bits_inj xor_right_cancel_word)

lemma crc_loop_ref:
  "n \<le> length data \<Longrightarrow> crc_loop c data n = Some (crc_ref c (take n data))"
  by (induction c data n rule: crc_loop.induct) (auto simp: crc_ref_def crc_step_byte split: list.splits)

lemma crc_loop_short: "length data < n \<Longrightarrow> crc_loop c data n = None"
  by (induction c data n rule: crc_loop.induct) (auto split: list.splits)

lemma crc_ref_append: "crc_ref c (xs @ ys) = crc_ref (crc_ref c xs) ys"
  by (simp add: crc_ref_def)

lemma crc_ref_inj: "crc_ref c xs = crc_ref d xs \<longleftrightarrow> c = d"
  by (induction xs arbitrary: c d) (simp_all add: crc_ref_def crc_byte_inj)

section \<open>Up to four bytes at once\<close>

text \<open>The bytes of a burst, the first one at the top of a register.\<close>

fun burst_word :: "bytes \<Rightarrow> u32" where
  "burst_word [] = 0"
| "burst_word (b # bs) = push_bit 24 (ucast b) XOR drop_bit 8 (burst_word bs)"

lemma burst_word_low:
  "i + 8 * length bs < 32 \<Longrightarrow> \<not> bit (burst_word bs) i"
  by (induction bs arbitrary: i) (auto simp: bit_xor_iff bit_push_bit_iff bit_drop_bit_eq ac_simps)

lemma crc_bits_drop_8:
  "(\<And>i. i < 8 \<Longrightarrow> \<not> bit w i) \<Longrightarrow> (crc_bit ^^ 8) (drop_bit 8 w) = w"
proof -
  assume low: "\<And>i. i < 8 \<Longrightarrow> \<not> bit w i"
  have "(crc_bit ^^ 8) (drop_bit 8 w) = push_bit 8 (drop_bit 8 w)"
    by (rule crc_bits_shift) (auto simp: bit_drop_bit_eq dest: bit_imp_le_length)
  also have "\<dots> = w"
  proof (rule bit_word_eqI)
    fix i
    assume "i < LENGTH(32)"
    then show "bit (push_bit 8 (drop_bit 8 w)) i = bit w i"
      using low [of i] by (cases "i < 8") (auto simp: bit_push_bit_iff bit_drop_bit_eq)
  qed
  finally show ?thesis .
qed

lemma crc_ref_burst:
  "length bs \<le> 4 \<Longrightarrow> crc_ref c bs = (crc_bit ^^ (8 * length bs)) (c XOR burst_word bs)"
proof (induction bs arbitrary: c)
  case Nil
  then show ?case by (simp add: crc_ref_def)
next
  case (Cons b bs)
  have "(crc_bit ^^ 8) (drop_bit 8 (burst_word bs)) = burst_word bs"
    using Cons.prems by (intro crc_bits_drop_8 burst_word_low) auto
  then have "crc_byte c b XOR burst_word bs = (crc_bit ^^ 8) (c XOR burst_word (b # bs))"
    by (simp add: crc_byte_def crc_bits_xor ac_simps)
  moreover have "crc_ref c (b # bs) = (crc_bit ^^ (8 * length bs)) (crc_byte c b XOR burst_word bs)"
    using Cons by (simp add: crc_ref_def)
  ultimately show ?case
    by (simp add: mult_Suc_right add.commute [of 8] funpow_add del: burst_word.simps)
qed

lemma burst_word_Cons_inj:
  assumes eq: "burst_word (a # xs) = burst_word (b # ys)"
    and len: "length xs < 4" "length ys < 4"
  shows "a = b \<and> burst_word xs = burst_word ys"
proof -
  have top: "bit a i = bit b i" for i
  proof (cases "i < 8")
    case True
    have "bit (burst_word (a # xs)) (24 + i) = bit (burst_word (b # ys)) (24 + i)"
      by (simp only: eq)
    with True show ?thesis
      by (auto simp: bit_xor_iff bit_push_bit_iff bit_drop_bit_eq bit_unsigned_iff dest: bit_imp_le_length)
  qed (auto dest: bit_imp_le_length)
  have "bit (burst_word xs) i = bit (burst_word ys) i" for i
  proof (cases "i < 8 \<or> 32 \<le> i")
    case True
    with len show ?thesis
      by (auto simp: burst_word_low dest: bit_imp_le_length)
  next
    case False
    have "bit (burst_word (a # xs)) (i - 8) = bit (burst_word (b # ys)) (i - 8)"
      by (simp only: eq)
    with False show ?thesis
      by (auto simp: bit_xor_iff bit_push_bit_iff bit_drop_bit_eq)
  qed
  with top show ?thesis
    by (auto intro: bit_word_eqI)
qed

lemma burst_word_inj:
  "\<lbrakk>length xs = length ys; length xs \<le> 4; burst_word xs = burst_word ys\<rbrakk> \<Longrightarrow> xs = ys"
proof (induction xs ys rule: list_induct2)
  case (Cons a xs b ys)
  then have "a = b \<and> burst_word xs = burst_word ys"
    by (intro burst_word_Cons_inj) auto
  with Cons show ?case by simp
qed simp

lemma crc_ref_burst_inj:
  assumes "length xs = length ys" "length xs \<le> 4"
  shows "crc_ref c xs = crc_ref c ys \<longleftrightarrow> xs = ys"
proof
  assume "crc_ref c xs = crc_ref c ys"
  with assms have "c XOR burst_word xs = c XOR burst_word ys"
    by (simp add: crc_ref_burst crc_bits_inj)
  then have "burst_word xs = burst_word ys"
    by (simp only: xor_left_cancel_word)
  with assms show "xs = ys" by (rule burst_word_inj)
qed simp

lemma bit_push_byte:
  "bit (push_bit k (ucast (b :: u8)) :: u32) i \<longleftrightarrow> k \<le> i \<and> i < 32 \<and> i - k < 8 \<and> bit b (i - k)"
  by (auto simp: bit_push_bit_iff bit_unsigned_iff dest: bit_imp_le_length)

lemma drop_push_byte:
  "\<lbrakk>k \<le> m; m \<le> 24\<rbrakk> \<Longrightarrow> drop_bit k (push_bit m (ucast (b :: u8)) :: u32) = push_bit (m - k) (ucast b)"
  by (rule bit_word_eqI) (auto simp: bit_drop_bit_eq bit_push_byte add.commute)

lemma burst_word_read: "TS_READ32 [a, b, c, d] = Some (burst_word [a, b, c, d])"
proof -
  have "burst_word [a, b, c, d] = push_bit 24 (ucast a) XOR push_bit 16 (ucast b) XOR
          push_bit 8 (ucast c) XOR push_bit 0 (ucast d)"
    by (simp add: drop_push_byte drop_bit_xor ac_simps del: push_bit_0_id)
  also have "\<dots> = push_bit 24 (ucast a) OR push_bit 16 (ucast b) OR
          push_bit 8 (ucast c) OR push_bit 0 (ucast d)"
    by (rule bit_word_eqI) (auto simp: bit_xor_iff bit_or_iff bit_push_byte simp del: push_bit_0_id)
  finally show ?thesis
    by (simp add: TS_READ32_def)
qed

lemma crc_ref_residue: "crc_ref c [a, b, d, e] = 0 \<longleftrightarrow> TS_READ32 [a, b, d, e] = Some c"
  by (auto simp: crc_ref_burst crc_bits_eq_0_iff xor_eq_0_iff_word burst_word_read simp del: burst_word.simps)

lemma crc32_all: "crc32 data (int (length data)) = Some (crc_ref 0xffffffff data)"
  by (simp add: crc32_def crc_loop_ref)

section \<open>Properties\<close>

text \<open>
  C17. The table-driven routine is the bitwise polynomial division over the first \<open>len\<close>
  bytes; it reads past its argument exactly when \<open>len\<close> exceeds the bytes there.
\<close>

theorem crc32_bitwise:
  "crc32 data len =
     (if nat len \<le> length data then Some (crc_ref 0xffffffff (take (nat len) data)) else None)"
  by (simp add: crc32_def crc_loop_ref crc_loop_short)

text \<open>
  C23. The receiver's check: the CRC over a section with its trailing four bytes is zero
  exactly when these bytes, read big-endian, are the CRC of the rest.
\<close>

theorem crc32_residue:
  "crc32 (data @ [a, b, c, d]) (int (length data) + 4) = Some 0 \<longleftrightarrow>
   crc32 data (int (length data)) = TS_READ32 [a, b, c, d]"
  using crc32_all [of "data @ [a, b, c, d]"] crc32_all [of data]
  by (auto simp: crc_ref_append crc_ref_residue add.commute)

text \<open>
  Burst detection: two messages that differ only inside a window of at most four
  consecutive bytes never have the same CRC.
\<close>

theorem crc32_burst:
  assumes "length x = length y" "length x \<le> 4" "x \<noteq> y"
  shows "crc32 (p @ x @ s) (int (length (p @ x @ s))) \<noteq> crc32 (p @ y @ s) (int (length (p @ y @ s)))"
  using assms unfolding crc32_all by (simp add: crc_ref_append crc_ref_inj crc_ref_burst_inj)

theorem crc32_burst_witness:
  "crc32 ([0x47] @ [1, 2, 3, 4] @ [5]) (int (length ([0x47 :: u8] @ [1, 2, 3, 4] @ [5])))
   \<noteq> crc32 ([0x47] @ [1, 2, 7, 4] @ [5]) (int (length ([0x47 :: u8] @ [1, 2, 7, 4] @ [5])))"
  by (rule crc32_burst) simp_all

end
