(* ===== verification/Pid_Filter.thy ===== *)
theory Pid_Filter
  imports Ts_Prelude "HOL-Library.Multiset"
begin

unbundle bit_operations_syntax

text \<open>
  The per-PID filter table of \<^verbatim>\<open>src/filter.c\<close>: slots in a growable array, a map
  from the first byte of a section to the slot that wants it, and a linear scan for the filters
  the map cannot represent.  The theory is polymorphic in the callbacks \<open>'cb\<close>; the function
  that runs one is a parameter of \<open>filter_proc\<close>, instantiated where the callbacks are known.
\<close>

section \<open>Data\<close>

definition MAX_FILTER_DEPTH :: nat where "MAX_FILTER_DEPTH = 8"
definition NUM_FILTER_MAX :: nat where "NUM_FILTER_MAX = 4096"
definition MAX_TS_PID_NUM :: nat where "MAX_TS_PID_NUM = 8192"

record filter_param =
  fp_depth :: u8
  fp_coff :: bytes
  fp_mask :: bytes
  fp_negate :: bytes

record 'cb filter_t =
  f_pid :: u16
  f_para :: filter_param
  f_callback :: "'cb option"

text \<open>
  \<open>slots\<close> has \<open>cap\<close> entries.  \<open>gen\<close> is not in the C structure: it counts the calls of
  \<open>realloc\<close>, so that a pointer into an array that has been moved can be told from a live one.
\<close>

record 'cb filter_head =
  num :: nat
  cap :: nat
  slots :: "'cb filter_t list"
  tidmap :: "u16 list"
  multi :: bool
  gen :: nat

type_synonym 'cb filter_tab = "u16 \<Rightarrow> 'cb filter_head"

text \<open>A \<open>filter_t *\<close> that is not null: PID, generation of the array, slot index.\<close>

type_synonym filter_ptr = "u16 \<times> nat \<times> nat"

definition zero_param :: filter_param where
  "zero_param = \<lparr>fp_depth = 0, fp_coff = replicate 8 0, fp_mask = replicate 8 0, fp_negate = replicate 8 0\<rparr>"

definition zero_filter :: "'cb filter_t" where
  "zero_filter = \<lparr>f_pid = 0, f_para = zero_param, f_callback = None\<rparr>"

text \<open>The table has \<open>MAX_TS_PID_NUM\<close> entries; another index is out of bounds.\<close>

definition pid_filter :: "'cb filter_tab \<Rightarrow> u16 \<Rightarrow> 'cb filter_head option" where
  "pid_filter fs pid = (if unat pid < MAX_TS_PID_NUM then Some (fs pid) else None)"

text \<open>The static table before any call: all zero.\<close>

definition static_pid_filter :: "'cb filter_tab" where
  "static_pid_filter = (\<lambda>_. \<lparr>num = 0, cap = 0, slots = [], tidmap = replicate 256 0, multi = False, gen = 0\<rparr>)"

section \<open>Operations\<close>

text \<open>One slot of the loop of \<open>filter_rebuild\<close>, at index \<open>i\<close>.\<close>

definition rebuild_slot :: "nat \<Rightarrow> filter_param \<Rightarrow> u16 list \<times> bool \<Rightarrow> u16 list \<times> bool" where
  "rebuild_slot i p st = (case st of (mp, mu) \<Rightarrow>
     if fp_depth p = 1 \<and> fp_mask p ! 0 = 0xFF then
       let tid = unat (fp_coff p ! 0) in
       if mp ! tid \<noteq> 0xFFFF then (mp, True) else (mp[tid := of_nat i], mu)
     else (mp, True))"

fun rebuild_loop :: "nat \<Rightarrow> 'cb filter_t list \<Rightarrow> u16 list \<times> bool \<Rightarrow> u16 list \<times> bool" where
  "rebuild_loop i [] st = st"
| "rebuild_loop i (f # fs) st = rebuild_loop (Suc i) fs (rebuild_slot i (f_para f) st)"

definition filter_rebuild :: "'cb filter_head \<Rightarrow> 'cb filter_head" where
  "filter_rebuild h = (case rebuild_loop 0 (take (num h) (slots h)) (replicate 256 0xFFFF, False) of
     (mp, mu) \<Rightarrow> h\<lparr>tidmap := mp, multi := mu\<rparr>)"

definition filter_init :: "'cb filter_tab \<Rightarrow> 'cb filter_tab" where
  "filter_init fs = (\<lambda>pid. if unat pid < MAX_TS_PID_NUM
     then (fs pid)\<lparr>num := 0, cap := 0, slots := []\<rparr> else fs pid)"

text \<open>
  \<open>filter_alloc\<close>: \<open>Some (None, _)\<close> is the null result.  The slots that \<open>realloc\<close> adds
  are indeterminate in C; they are not read before the \<open>memset\<close> of the slot taken.
\<close>

definition filter_grow :: "'cb filter_head \<Rightarrow> 'cb filter_head" where
  "filter_grow h = (let ncap = (if cap h \<noteq> 0 then cap h * 2 else 4) in
     h\<lparr>cap := ncap, slots := slots h @ replicate (ncap - cap h) zero_filter, gen := Suc (gen h)\<rparr>)"

definition filter_alloc :: "alloc_env \<Rightarrow> 'cb filter_tab \<Rightarrow> u16 \<Rightarrow> (filter_ptr option \<times> 'cb filter_tab) option" where
  "filter_alloc e fs pid = do {
     h \<leftarrow> pid_filter fs pid;
     if NUM_FILTER_MAX \<le> num h then Some (None, fs)
     else if cap h \<le> num h \<and> \<not> mok e 0 then Some (None, fs)
     else do {
       let h = (if cap h \<le> num h then filter_grow h else h);
       let ns = zero_filter\<lparr>f_pid := pid\<rparr>;
       let h' = h\<lparr>slots := (slots h)[num h := ns], num := Suc (num h)\<rparr>;
       Some (Some (pid, gen h, num h), fs(pid := h'))
     } }"

text \<open>A filter pointer may be followed while the array it points into is the current one.\<close>

definition slot_of :: "'cb filter_tab \<Rightarrow> filter_ptr \<Rightarrow> 'cb filter_t option" where
  "slot_of fs f = (case f of (pid, g, i) \<Rightarrow> do {
     h \<leftarrow> pid_filter fs pid;
     if g = gen h \<and> i < length (slots h) then Some (slots h ! i) else None })"

definition filter_set ::
  "'cb filter_tab \<Rightarrow> filter_ptr option \<Rightarrow> filter_param option \<Rightarrow> 'cb \<Rightarrow> (int \<times> 'cb filter_tab) option" where
  "filter_set fs f p func = (case f of
     None \<Rightarrow> Some (-1, fs)
   | Some (pid, g, i) \<Rightarrow> do {
       t \<leftarrow> slot_of fs (pid, g, i);
       para \<leftarrow> (case p of None \<Rightarrow> Some (f_para t)
         | Some p \<Rightarrow> do {
             c \<leftarrow> memcpy (fp_coff (f_para t)) 0 (fp_coff p) (uint (fp_depth p));
             m \<leftarrow> memcpy (fp_mask (f_para t)) 0 (fp_mask p) (uint (fp_depth p));
             n \<leftarrow> memcpy (fp_negate (f_para t)) 0 (fp_negate p) (uint (fp_depth p));
             Some \<lparr>fp_depth = fp_depth p, fp_coff = c, fp_mask = m, fp_negate = n\<rparr> });
       let t' = t\<lparr>f_para := para, f_callback := Some func\<rparr>;
       let fs' = fs(pid := (fs pid)\<lparr>slots := (slots (fs pid))[i := t']\<rparr>);
       h \<leftarrow> pid_filter fs' (f_pid t);
       Some (0, fs'(f_pid t := filter_rebuild h)) })"

definition filter_free :: "'cb filter_tab \<Rightarrow> filter_ptr option \<Rightarrow> (int \<times> 'cb filter_tab) option" where
  "filter_free fs f = (case f of
     None \<Rightarrow> Some (-1, fs)
   | Some (pid, g, i) \<Rightarrow> do {
       t \<leftarrow> slot_of fs (pid, g, i);
       h \<leftarrow> pid_filter fs (f_pid t);
       if f_pid t = pid \<and> i < num h then
         Some (0, fs(pid := filter_rebuild
           (h\<lparr>slots := (slots h)[i := slots h ! (num h - 1)], num := num h - 1\<rparr>)))
       else Some (-1, fs) })"

text \<open>\<open>memcmp\<close> over the first \<open>n\<close> bytes of two arrays.\<close>

definition memeq :: "bytes \<Rightarrow> bytes \<Rightarrow> nat \<Rightarrow> bool option" where
  "memeq a b n = (if n \<le> length a \<and> n \<le> length b then Some (take n a = take n b) else None)"

definition param_eq :: "filter_param \<Rightarrow> filter_param \<Rightarrow> bool option" where
  "param_eq p q = (if fp_depth p \<noteq> fp_depth q then Some False else do {
     let n = unat (fp_depth q);
     c \<leftarrow> memeq (fp_coff p) (fp_coff q) n;
     if \<not> c then Some False else do {
       m \<leftarrow> memeq (fp_mask p) (fp_mask q) n;
       if \<not> m then Some False else memeq (fp_negate p) (fp_negate q) n } })"

fun lookup_loop :: "nat \<Rightarrow> 'cb filter_t list \<Rightarrow> filter_param \<Rightarrow> nat option option" where
  "lookup_loop i [] p = Some None"
| "lookup_loop i (f # fs) p = do {
     b \<leftarrow> param_eq (f_para f) p;
     if b then Some (Some i) else lookup_loop (Suc i) fs p }"

definition filter_lookup :: "'cb filter_tab \<Rightarrow> u16 \<Rightarrow> filter_param option \<Rightarrow> filter_ptr option option" where
  "filter_lookup fs pid para = (case para of
     None \<Rightarrow> Some None
   | Some p \<Rightarrow> do {
       h \<leftarrow> pid_filter fs pid;
       if num h = 0 then Some None
       else do {
         r \<leftarrow> lookup_loop 0 (take (num h) (slots h)) p;
         Some (map_option (\<lambda>i. (pid, gen h, i)) r) } })"

text \<open>\<open>filter_match\<close>: the loop over \<open>i < depth\<close>, which stops at the first difference.\<close>

fun match_loop :: "filter_param \<Rightarrow> bytes \<Rightarrow> nat \<Rightarrow> nat \<Rightarrow> bool option" where
  "match_loop p data i 0 = Some True"
| "match_loop p data i (Suc k) = do {
     d \<leftarrow> rdb data i; m \<leftarrow> rdb (fp_mask p) i; c \<leftarrow> rdb (fp_coff p) i;
     if d AND m \<noteq> m AND c then Some False else match_loop p data (Suc i) k }"

definition filter_match :: "'cb filter_t \<Rightarrow> bytes \<Rightarrow> bool option" where
  "filter_match t data = match_loop (f_para t) data 0 (unat (fp_depth (f_para t)))"

text \<open>
  The linear scan of \<open>filter_proc\<close>.  A callback may register filters, so the head is read
  again before each slot.  \<open>k\<close> bounds the remaining slots: no head has more than
  \<open>NUM_FILTER_MAX\<close>.
\<close>

type_synonym ('cb, 's) invoke = "'cb \<Rightarrow> u16 \<Rightarrow> bytes \<Rightarrow> u16 \<Rightarrow> 's \<Rightarrow> 's option"

definition call_slot :: "('cb, 's) invoke \<Rightarrow> 'cb filter_t \<Rightarrow> u16 \<Rightarrow> bytes \<Rightarrow> u16 \<Rightarrow> 's \<Rightarrow> 's option" where
  "call_slot invoke t pid data len s = (case f_callback t of None \<Rightarrow> None | Some cb \<Rightarrow> invoke cb pid data len s)"

fun scan_loop ::
  "('s \<Rightarrow> 'cb filter_tab) \<Rightarrow> ('cb, 's) invoke \<Rightarrow> nat \<Rightarrow> nat \<Rightarrow> u16 \<Rightarrow> bytes \<Rightarrow> u16 \<Rightarrow> 's \<Rightarrow> 's option" where
  "scan_loop getf invoke 0 i pid data len s = Some s"
| "scan_loop getf invoke (Suc k) i pid data len s = (let h = getf s pid in
     if i < num h then do {
       let t = slots h ! i;
       m \<leftarrow> filter_match t data;
       s' \<leftarrow> (if m then call_slot invoke t pid data len s else Some s);
       scan_loop getf invoke k (Suc i) pid data len s' }
     else Some s)"

definition filter_proc ::
  "('s \<Rightarrow> 'cb filter_tab) \<Rightarrow> ('cb, 's) invoke \<Rightarrow> u16 \<Rightarrow> bytes \<Rightarrow> u16 \<Rightarrow> 's \<Rightarrow> (int \<times> 's) option" where
  "filter_proc getf invoke pid data len s = do {
     h \<leftarrow> pid_filter (getf s) pid;
     if num h = 0 then Some (-1, s)
     else if multi h then do {
       s' \<leftarrow> scan_loop getf invoke NUM_FILTER_MAX 0 pid data len s;
       Some (0, s') }
     else do {
       d0 \<leftarrow> rdb data 0;
       let idx = tidmap h ! unat d0;
       s' \<leftarrow> (if idx \<noteq> 0xFFFF \<and> idx < of_nat (num h)
              then call_slot invoke (slots h ! unat idx) pid data len s else Some s);
       Some (0, s') } }"

section \<open>Well-formed tables\<close>

definition param_wf :: "filter_param \<Rightarrow> bool" where
  "param_wf p \<longleftrightarrow> unat (fp_depth p) \<le> MAX_FILTER_DEPTH \<and> length (fp_coff p) = MAX_FILTER_DEPTH \<and>
     length (fp_mask p) = MAX_FILTER_DEPTH \<and> length (fp_negate p) = MAX_FILTER_DEPTH"

definition head_wf :: "u16 \<Rightarrow> 'cb filter_head \<Rightarrow> bool" where
  "head_wf pid h \<longleftrightarrow> length (slots h) = cap h \<and> num h \<le> cap h \<and> num h \<le> NUM_FILTER_MAX \<and>
     (\<forall>t \<in> set (take (num h) (slots h)). f_pid t = pid \<and> param_wf (f_para t))"

definition tab_wf :: "'cb filter_tab \<Rightarrow> bool" where
  "tab_wf fs \<longleftrightarrow> (\<forall>pid. unat pid < MAX_TS_PID_NUM \<longrightarrow> head_wf pid (fs pid))"

text \<open>
  A head is in step when its map and its flag are those of its slots and every slot has a
  callback: what holds between the calls of \<open>filter_set\<close> and \<open>filter_free\<close>.
\<close>

definition in_step :: "'cb filter_head \<Rightarrow> bool" where
  "in_step h \<longleftrightarrow> filter_rebuild h = h \<and> (\<forall>t \<in> set (take (num h) (slots h)). f_callback t \<noteq> None)"

text \<open>The registered filters, what a head is to its clients.\<close>

definition live :: "'cb filter_head \<Rightarrow> 'cb filter_t list" where
  "live h = take (num h) (slots h)"

lemmas filter_consts = MAX_FILTER_DEPTH_def NUM_FILTER_MAX_def MAX_TS_PID_NUM_def

lemma length_live: "head_wf pid h \<Longrightarrow> length (live h) = num h"
  by (simp add: head_wf_def live_def)

lemma head_wf_slot: "\<lbrakk>head_wf pid h; i < num h\<rbrakk> \<Longrightarrow> param_wf (f_para (slots h ! i))"
proof -
  assume h: "head_wf pid h" "i < num h"
  then have "take (num h) (slots h) ! i \<in> set (take (num h) (slots h))"
    by (intro nth_mem) (simp add: head_wf_def)
  with h show ?thesis by (simp add: head_wf_def)
qed

lemma live_nth: "i < num h \<Longrightarrow> live h ! i = slots h ! i"
  by (simp add: live_def)

lemma filter_rebuild_simps [simp]:
  "num (filter_rebuild h) = num h" "cap (filter_rebuild h) = cap h"
  "slots (filter_rebuild h) = slots h" "gen (filter_rebuild h) = gen h"
  by (simp_all add: filter_rebuild_def split: prod.split)

lemma live_filter_rebuild [simp]: "live (filter_rebuild h) = live h"
  by (simp add: live_def)

lemma filter_rebuild_idem [simp]: "filter_rebuild (filter_rebuild h) = filter_rebuild h"
  by (simp add: filter_rebuild_def split: prod.split)

lemma in_step_rebuild: "in_step (filter_rebuild h) \<longleftrightarrow> (\<forall>t \<in> set (live h). f_callback t \<noteq> None)"
  by (simp add: in_step_def live_def)

lemma head_wf_rebuild [simp]: "head_wf pid (filter_rebuild h) \<longleftrightarrow> head_wf pid h"
  by (simp add: head_wf_def)

section \<open>The dispatch map\<close>

definition direct :: "'cb filter_t \<Rightarrow> bool" where
  "direct t \<longleftrightarrow> fp_depth (f_para t) = 1 \<and> fp_mask (f_para t) ! 0 = 0xFF"

definition tid_of :: "'cb filter_t \<Rightarrow> nat" where
  "tid_of t = unat (fp_coff (f_para t) ! 0)"

lemma tid_of_less: "tid_of t < 256"
  unfolding tid_of_def by (rule order_less_le_trans [OF unsigned_less]) simp

lemma rebuild_loop_snoc:
  "rebuild_loop i (fs @ [f]) st = rebuild_slot (i + length fs) (f_para f) (rebuild_loop i fs st)"
  by (induction fs arbitrary: i st) simp_all

text \<open>What a map of the slots \<open>fs\<close> holds: at each table id the index of the only slot for it.\<close>

definition map_exact :: "'cb filter_t list \<Rightarrow> u16 list \<Rightarrow> bool" where
  "map_exact fs mp \<longleftrightarrow> length mp = 256 \<and>
     (\<forall>t<256. if mp ! t = 0xFFFF then \<forall>j<length fs. tid_of (fs ! j) \<noteq> t
              else unat (mp ! t) < length fs \<and> (\<forall>j<length fs. tid_of (fs ! j) = t \<longleftrightarrow> j = unat (mp ! t)))"

lemma small_index:
  "i < NUM_FILTER_MAX \<Longrightarrow> unat (of_nat i :: u16) = i \<and> (of_nat i :: u16) \<noteq> 0xFFFF"
proof -
  assume "i < NUM_FILTER_MAX"
  then have u: "unat (of_nat i :: u16) = i"
    by (simp add: filter_consts unat_of_nat take_bit_nat_eq_self)
  moreover have "unat (0xFFFF :: u16) = 65535"
    by simp
  ultimately show ?thesis
    using \<open>i < NUM_FILTER_MAX\<close> by (auto simp: filter_consts)
qed

lemma map_exact_snoc:
  assumes "map_exact fs mp" "mp ! tid_of f = 0xFFFF" "length fs < NUM_FILTER_MAX"
  shows "map_exact (fs @ [f]) (mp[tid_of f := of_nat (length fs)])"
proof -
  have "if mp[tid_of f := of_nat (length fs)] ! t = 0xFFFF then \<forall>j<length (fs @ [f]). tid_of ((fs @ [f]) ! j) \<noteq> t
      else unat (mp[tid_of f := of_nat (length fs)] ! t) < length (fs @ [f]) \<and>
        (\<forall>j<length (fs @ [f]). tid_of ((fs @ [f]) ! j) = t \<longleftrightarrow> j = unat (mp[tid_of f := of_nat (length fs)] ! t))"
    if "t < 256" for t
  proof (cases "t = tid_of f")
    case True
    with assms that small_index [of "length fs"] show ?thesis
      by (auto simp: map_exact_def nth_append less_Suc_eq)
  next
    case False
    with assms that show ?thesis
      by (auto simp: map_exact_def nth_append less_Suc_eq split: if_splits)
  qed
  moreover have "length mp = 256"
    using assms(1) by (simp add: map_exact_def)
  ultimately show ?thesis
    unfolding map_exact_def by (metis length_list_update)
qed

lemma rebuild_exact:
  assumes "length fs \<le> NUM_FILTER_MAX"
    and "rebuild_loop 0 fs (replicate 256 0xFFFF, False) = (mp, mu)"
  shows "mu \<or> (map_exact fs mp \<and> (\<forall>f \<in> set fs. direct f))"
  using assms
proof (induction fs arbitrary: mp mu rule: rev_induct)
  case Nil
  then show ?case by (auto simp: map_exact_def)
next
  case (snoc f fs)
  obtain mp' mu' where st: "rebuild_loop 0 fs (replicate 256 0xFFFF, False) = (mp', mu')"
    by fastforce
  with snoc.IH snoc.prems(1) have IH: "mu' \<or> (map_exact fs mp' \<and> (\<forall>f \<in> set fs. direct f))"
    by simp
  have "rebuild_slot (length fs) (f_para f) (mp', mu') = (mp, mu)"
    using snoc.prems(2) by (simp add: rebuild_loop_snoc st)
  then have cases: "mu \<or> (\<not> mu' \<and> direct f \<and> mp' ! tid_of f = 0xFFFF \<and> mp = mp'[tid_of f := of_nat (length fs)])"
    by (auto simp: rebuild_slot_def Let_def direct_def tid_of_def split: if_splits)
  with IH snoc.prems(1) show ?case
    by (auto simp: map_exact_snoc)
qed

lemma and_ff: "(x :: u8) AND 0xFF = x" "0xFF AND (x :: u8) = x"
proof -
  have "(0xFF :: u8) = - 1" by simp
  then show "x AND 0xFF = x" "0xFF AND x = x" by (simp_all only: and.left_neutral and.right_neutral)
qed

lemma filter_match_direct:
  assumes "direct t" "param_wf (f_para t)" "data \<noteq> []"
  shows "filter_match t data = Some (unat (data ! 0) = tid_of t)"
proof -
  have "unat (fp_depth (f_para t)) = Suc 0"
    using assms by (simp add: direct_def)
  then show ?thesis
    using assms
    by (auto simp: filter_match_def direct_def param_wf_def filter_consts rdb_in tid_of_def and_ff unsigned_word_eqI)
qed

section \<open>Dispatch\<close>

text \<open>The reference: the indices of the filters that match, in slot order.\<close>

definition targets :: "'cb filter_head \<Rightarrow> bytes \<Rightarrow> nat list" where
  "targets h data = filter (\<lambda>i. filter_match (slots h ! i) data = Some True) [0..<num h]"

lemma in_step_exact:
  assumes "head_wf pid h" "in_step h" "\<not> multi h"
  shows "map_exact (live h) (tidmap h) \<and> (\<forall>t \<in> set (live h). direct t)"
proof -
  obtain mp mu where st: "rebuild_loop 0 (live h) (replicate 256 0xFFFF, False) = (mp, mu)"
    by fastforce
  with assms(2) have "tidmap h = mp" "multi h = mu"
    by (simp_all add: in_step_def filter_rebuild_def live_def) (metis filter_head.select_convs filter_head.surjective filter_head.update_convs)+
  with rebuild_exact [OF _ st] assms show ?thesis
    by (simp add: length_live head_wf_def live_def)
qed

lemma filter_index_unique:
  "k < n \<Longrightarrow> (\<And>i. i < n \<Longrightarrow> P i \<longleftrightarrow> i = k) \<Longrightarrow> filter P [0..<n] = [k]"
proof -
  assume k: "k < n" and P: "\<And>i. i < n \<Longrightarrow> P i \<longleftrightarrow> i = k"
  have "filter P [0..<n] = filter (\<lambda>i. i = k) [0..<n]"
    by (rule filter_cong) (simp_all add: P)
  also have "\<dots> = [k]"
    using k by (induction n) (auto simp: less_Suc_eq)
  finally show ?thesis .
qed

lemma dispatch_targets:
  assumes wf: "head_wf pid h" and st: "in_step h" "\<not> multi h" and data: "data \<noteq> []"
  shows "targets h data =
    (let idx = tidmap h ! unat (data ! 0) in
     if idx \<noteq> 0xFFFF \<and> idx < of_nat (num h) then [unat idx] else [])"
proof -
  let ?t = "unat (data ! 0)" and ?n = "num h"
  have ex: "map_exact (live h) (tidmap h)" and dir: "\<And>i. i < ?n \<Longrightarrow> direct (slots h ! i)"
    using in_step_exact [OF wf st] length_live [OF wf] live_nth [of _ h] by (auto simp: all_set_conv_all_nth)
  have t: "?t < 256"
    by (rule order_less_le_trans [OF unsigned_less]) simp
  have m: "filter_match (slots h ! i) data = Some True \<longleftrightarrow> tid_of (live h ! i) = ?t" if "i < ?n" for i
    using that dir [OF that] data by (auto simp: filter_match_direct live_nth head_wf_slot [OF wf])
  have n: "unat (of_nat ?n :: u16) = ?n"
    using wf by (simp add: head_wf_def filter_consts unat_of_nat take_bit_nat_eq_self)
  show ?thesis
  proof (cases "tidmap h ! ?t = 0xFFFF")
    case True
    with ex t have "\<And>i. i < ?n \<Longrightarrow> tid_of (live h ! i) \<noteq> ?t"
      by (simp add: map_exact_def length_live [OF wf])
    with True m show ?thesis by (simp add: targets_def)
  next
    case False
    with ex t have k: "unat (tidmap h ! ?t) < ?n"
      and u: "\<And>i. i < ?n \<Longrightarrow> tid_of (live h ! i) = ?t \<longleftrightarrow> i = unat (tidmap h ! ?t)"
      by (auto simp: map_exact_def length_live [OF wf])
    with m have "targets h data = [unat (tidmap h ! ?t)]"
      unfolding targets_def by (intro filter_index_unique) auto
    with False k n show ?thesis by (simp add: word_less_nat_alt)
  qed
qed

text \<open>Running the callbacks of a list of filters one after the other.\<close>

fun call_all :: "('cb, 's) invoke \<Rightarrow> 'cb filter_t list \<Rightarrow> u16 \<Rightarrow> bytes \<Rightarrow> u16 \<Rightarrow> 's \<Rightarrow> 's option" where
  "call_all invoke [] pid data len s = Some s"
| "call_all invoke (t # ts) pid data len s = call_slot invoke t pid data len s \<bind> call_all invoke ts pid data len"

lemma call_all_single: "call_all invoke [t] pid data len s = call_slot invoke t pid data len s"
  by (cases "call_slot invoke t pid data len s") simp_all

lemma match_loop_defined:
  "\<lbrakk>i + k \<le> length data; i + k \<le> length (fp_mask p); i + k \<le> length (fp_coff p)\<rbrakk> \<Longrightarrow>
   match_loop p data i k \<noteq> None"
  by (induction p data i k rule: match_loop.induct) (auto simp: rdb_in)

lemma filter_match_defined:
  "\<lbrakk>param_wf (f_para t); MAX_FILTER_DEPTH \<le> length data\<rbrakk> \<Longrightarrow> \<exists>b. filter_match t data = Some b"
  using match_loop_defined [of 0 "unat (fp_depth (f_para t))" data "f_para t"]
  by (auto simp: filter_match_def param_wf_def)

lemma scan_loop_targets:
  assumes "head_wf pid (getf s pid)" "MAX_FILTER_DEPTH \<le> length data" "num (getf s pid) \<le> i + k"
    and "\<And>cb s s'. invoke cb pid data len s = Some s' \<Longrightarrow> getf s' pid = getf s pid"
  shows "scan_loop getf invoke k i pid data len s =
    call_all invoke (map (\<lambda>j. slots (getf s pid) ! j)
      (filter (\<lambda>j. filter_match (slots (getf s pid) ! j) data = Some True) [i..<num (getf s pid)])) pid data len s"
  using assms
proof (induction k arbitrary: i s)
  case 0
  have "num (getf s pid) \<le> i" using "0.prems"(3) by (simp only: add_0_right)
  then show ?case by simp
next
  case (Suc k)
  let ?h = "getf s pid"
  show ?case
  proof (cases "i < num ?h")
    case True
    obtain b where b: "filter_match (slots ?h ! i) data = Some b"
      using filter_match_defined [OF head_wf_slot [OF Suc.prems(1) True] Suc.prems(2)] ..
    let ?rest = "map (\<lambda>j. slots ?h ! j)
          (filter (\<lambda>j. filter_match (slots ?h ! j) data = Some True) [Suc i..<num ?h])"
    have IH: "scan_loop getf invoke k (Suc i) pid data len s' = call_all invoke ?rest pid data len s'"
      if h: "getf s' pid = ?h" for s'
    proof -
      have "num ?h \<le> Suc i + k" using Suc.prems(3) by simp
      then show ?thesis
        by (intro Suc.IH [of s' "Suc i", unfolded h, OF Suc.prems(1,2)]) (assumption, rule Suc.prems(4))
    qed
    have keep: "getf s' pid = ?h" if c: "call_slot invoke t pid data len s = Some s'" for t s'
    proof -
      obtain cb where "invoke cb pid data len s = Some s'"
        using c by (auto simp: call_slot_def split: option.splits)
      then show ?thesis by (rule Suc.prems(4))
    qed
    show ?thesis
    proof (cases "b \<and> call_slot invoke (slots ?h ! i) pid data len s \<noteq> None")
      case False
      with True b IH [OF refl] show ?thesis
        by (cases b) (simp_all add: Let_def upt_conv_Cons)
    next
      case call: True
      then obtain s' where s': "call_slot invoke (slots ?h ! i) pid data len s = Some s'" by blast
      from True b call s' IH [OF keep [OF s']] show ?thesis
        by (simp add: Let_def upt_conv_Cons)
    qed
  qed (simp add: Let_def)
qed

section \<open>Registration\<close>

text \<open>
  Every client of the table registers a filter the same way: \<open>filter_alloc\<close>, and
  \<open>filter_set\<close> on what it returned.
\<close>

definition filter_register ::
  "alloc_env \<Rightarrow> 'cb filter_tab \<Rightarrow> u16 \<Rightarrow> filter_param \<Rightarrow> 'cb \<Rightarrow> (int \<times> 'cb filter_tab) option" where
  "filter_register e fs pid p cb = do {
     (f, fs') \<leftarrow> filter_alloc e fs pid;
     filter_set fs' f (Some p) cb }"

text \<open>What \<open>filter_set\<close> stores into a fresh slot: the first \<open>depth\<close> bytes, the rest zero.\<close>

definition stored :: "bytes \<Rightarrow> nat \<Rightarrow> bytes" where
  "stored xs n = take n xs @ replicate (MAX_FILTER_DEPTH - n) 0"

definition stored_filter :: "u16 \<Rightarrow> filter_param \<Rightarrow> 'cb \<Rightarrow> 'cb filter_t" where
  "stored_filter pid p cb = (let n = unat (fp_depth p) in
     \<lparr>f_pid = pid,
      f_para = \<lparr>fp_depth = fp_depth p, fp_coff = stored (fp_coff p) n, fp_mask = stored (fp_mask p) n,
                fp_negate = stored (fp_negate p) n\<rparr>,
      f_callback = Some cb\<rparr>)"

lemma memcpy_stored:
  "\<lbrakk>unat d \<le> MAX_FILTER_DEPTH; length xs = MAX_FILTER_DEPTH\<rbrakk> \<Longrightarrow>
   memcpy (replicate MAX_FILTER_DEPTH 0) 0 xs (uint (d :: u8)) = Some (stored xs (unat d))"
  by (simp add: memcpy_def stored_def)

lemma length_stored: "\<lbrakk>n \<le> MAX_FILTER_DEPTH; length xs = MAX_FILTER_DEPTH\<rbrakk> \<Longrightarrow> length (stored xs n) = MAX_FILTER_DEPTH"
  by (simp add: stored_def)

lemma param_wf_stored: "param_wf p \<Longrightarrow> param_wf (f_para (stored_filter pid p cb))"
  by (simp add: param_wf_def stored_filter_def Let_def length_stored)

text \<open>The head that \<open>filter_alloc\<close> takes a slot from: the old one, or the grown one.\<close>

definition roomy :: "'cb filter_head \<Rightarrow> 'cb filter_head" where
  "roomy h = (if cap h \<le> num h then filter_grow h else h)"

lemma num_roomy [simp]: "num (roomy h) = num h"
  by (simp add: roomy_def filter_grow_def Let_def)

lemma roomy_props:
  assumes "head_wf pid h"
  shows "num h < length (slots (roomy h))" "length (slots (roomy h)) = cap (roomy h)"
    "take (num h) (slots (roomy h)) = live h"
  using assms by (auto simp: roomy_def filter_grow_def head_wf_def Let_def live_def)

lemma filter_register_ok:
  assumes pid: "unat pid < MAX_TS_PID_NUM" and wf: "head_wf pid (fs pid)" and p: "param_wf p"
    and room: "num (fs pid) < NUM_FILTER_MAX" and mem: "num (fs pid) < cap (fs pid) \<or> mok e 0"
  shows "\<exists>h. filter_register e fs pid p cb = Some (0, fs(pid := filter_rebuild h)) \<and>
    head_wf pid h \<and> num h = Suc (num (fs pid)) \<and> live h = live (fs pid) @ [stored_filter pid p cb]"
proof -
  let ?h = "roomy (fs pid)" and ?n = "num (fs pid)"
  let ?h1 = "?h\<lparr>slots := (slots ?h)[?n := zero_filter\<lparr>f_pid := pid\<rparr>], num := Suc ?n\<rparr>"
  let ?h2 = "?h\<lparr>num := Suc ?n, slots := (slots ?h)[?n := stored_filter pid p cb]\<rparr>"
  note r = roomy_props [OF wf]
  have alloc: "filter_alloc e fs pid = Some (Some (pid, gen ?h, ?n), fs(pid := ?h1))"
    using pid room mem by (auto simp: filter_alloc_def pid_filter_def roomy_def filter_grow_def Let_def)
  have slot: "slot_of (fs(pid := ?h1)) (pid, gen ?h, ?n) = Some (zero_filter\<lparr>f_pid := pid\<rparr>)"
    using pid r(1) by (simp add: slot_of_def pid_filter_def)
  have zp: "zero_param = \<lparr>fp_depth = 0, fp_coff = replicate MAX_FILTER_DEPTH 0,
      fp_mask = replicate MAX_FILTER_DEPTH 0, fp_negate = replicate MAX_FILTER_DEPTH 0\<rparr>"
    by (simp add: zero_param_def filter_consts)
  have z: "f_para zero_filter = zero_param"
    "zero_filter\<lparr>f_pid := pid, f_para := q, f_callback := c\<rparr> = \<lparr>f_pid = pid, f_para = q, f_callback = c\<rparr>" for q c
    by (simp_all add: zero_filter_def)
  have set: "filter_set (fs(pid := ?h1)) (Some (pid, gen ?h, ?n)) (Some p) cb = Some (0, fs(pid := filter_rebuild ?h2))"
    using p pid
    by (simp add: filter_set_def slot z zp param_wf_def memcpy_stored pid_filter_def
        stored_filter_def Let_def)
  have live: "live ?h2 = live (fs pid) @ [stored_filter pid p cb]"
    using r by (simp add: live_def take_Suc_conv_app_nth)
  moreover have "head_wf pid ?h2"
    unfolding head_wf_def
    using r room wf p live param_wf_stored [OF p]
    by (auto simp: live_def head_wf_def stored_filter_def Let_def)
  ultimately show ?thesis
    by (intro exI [of _ ?h2]) (simp add: filter_register_def alloc set)
qed

section \<open>The interface of the table\<close>

text \<open>
  What the parsers rely on: between two calls the table is well formed and every head in step,
  and adding a filter appends it to the filters of its PID and touches nothing else.
\<close>

definition tab_ok :: "'cb filter_tab \<Rightarrow> bool" where
  "tab_ok fs \<longleftrightarrow> (\<forall>pid. unat pid < MAX_TS_PID_NUM \<longrightarrow> head_wf pid (fs pid) \<and> (num (fs pid) \<noteq> 0 \<longrightarrow> in_step (fs pid)))"

locale filter_registry =
  fixes inv :: "'t \<Rightarrow> bool"
    and view :: "'t \<Rightarrow> u16 \<Rightarrow> 'f list"
    and add :: "'t \<Rightarrow> u16 \<Rightarrow> 'q \<Rightarrow> 't option"
    and mk :: "u16 \<Rightarrow> 'q \<Rightarrow> 'f"
    and good :: "u16 \<Rightarrow> 'q \<Rightarrow> bool"
    and limit :: nat
  assumes add_law: "\<lbrakk>inv t; good pid q; length (view t pid) < limit\<rbrakk> \<Longrightarrow>
    \<exists>t'. add t pid q = Some t' \<and> inv t' \<and> view t' = (view t)(pid := view t pid @ [mk pid q])"
begin

fun add_all :: "'t \<Rightarrow> (u16 \<times> 'q) list \<Rightarrow> 't option" where
  "add_all t [] = Some t"
| "add_all t ((pid, q) # qs) = add t pid q \<bind> (\<lambda>t'. add_all t' qs)"

definition added :: "u16 \<Rightarrow> (u16 \<times> 'q) list \<Rightarrow> 'f list" where
  "added pid qs = map (\<lambda>(p, q). mk p q) (filter (\<lambda>(p, q). p = pid) qs)"

lemma add_all_view:
  assumes "inv t" "\<forall>(pid, q) \<in> set qs. good pid q" "\<forall>pid. length (view t pid) + length qs \<le> limit"
  shows "\<exists>t'. add_all t qs = Some t' \<and> inv t' \<and> (\<forall>pid. view t' pid = view t pid @ added pid qs)"
  using assms
proof (induction qs arbitrary: t)
  case Nil
  then show ?case by (simp add: added_def)
next
  case (Cons a qs)
  obtain pid q where a: "a = (pid, q)" by fastforce
  have "length (view t pid) < limit"
    using Cons.prems(3) [rule_format, of pid] by simp
  with Cons.prems a obtain t1 where t1: "add t pid q = Some t1" "inv t1"
    "view t1 = (view t)(pid := view t pid @ [mk pid q])"
    using add_law [of t pid q] by auto
  have "\<forall>p. length (view t1 p) + length qs \<le> limit"
    using Cons.prems(3) by (auto simp: t1(3) intro: Suc_leD)
  then obtain t' where "add_all t1 qs = Some t'" "inv t'" "\<forall>p. view t' p = view t1 p @ added p qs"
    using Cons.IH [OF t1(2)] Cons.prems(2) a by auto
  then show ?case
    using a t1 by (auto simp: added_def)
qed

end

definition tab_add :: "(nat \<Rightarrow> u8) \<Rightarrow> 'cb filter_tab \<Rightarrow> u16 \<Rightarrow> filter_param \<times> 'cb \<Rightarrow> 'cb filter_tab option" where
  "tab_add j fs pid q = map_option snd (filter_register (always_ok j) fs pid (fst q) (snd q))"

lemma in_step_registered:
  assumes "num g \<noteq> 0 \<longrightarrow> in_step g" "live h = live g @ [stored_filter pid p cb]"
  shows "in_step (filter_rebuild h)"
  unfolding in_step_rebuild assms(2)
  using assms(1) by (auto simp: in_step_def live_def stored_filter_def Let_def)

lemma tab_registry:
  "filter_registry tab_ok (\<lambda>fs pid. live (fs pid)) (tab_add j) (\<lambda>pid q. stored_filter pid (fst q) (snd q))
     (\<lambda>pid q. unat pid < MAX_TS_PID_NUM \<and> param_wf (fst q)) NUM_FILTER_MAX"
proof
  fix fs :: "'a filter_tab" and pid and q :: "filter_param \<times> 'a"
  assume ok: "tab_ok fs" and good: "unat pid < MAX_TS_PID_NUM \<and> param_wf (fst q)"
    and len: "length (live (fs pid)) < NUM_FILTER_MAX"
  then have wf: "head_wf pid (fs pid)" and st: "num (fs pid) \<noteq> 0 \<longrightarrow> in_step (fs pid)"
    by (auto simp: tab_ok_def)
  have "num (fs pid) < NUM_FILTER_MAX"
    using len length_live [OF wf] by simp
  then obtain h where h: "filter_register (always_ok j) fs pid (fst q) (snd q) = Some (0, fs(pid := filter_rebuild h))"
    "head_wf pid h" "live h = live (fs pid) @ [stored_filter pid (fst q) (snd q)]"
    using filter_register_ok [of pid fs "fst q" "always_ok j" "snd q"] good wf by auto
  have "tab_ok (fs(pid := filter_rebuild h))"
    using ok h(2) in_step_registered [OF st h(3)] by (simp add: tab_ok_def)
  with h show "\<exists>fs'. tab_add j fs pid q = Some fs' \<and> tab_ok fs' \<and>
      (\<lambda>pid. live (fs' pid)) = (\<lambda>pid. live (fs pid))(pid := live (fs pid) @ [stored_filter pid (fst q) (snd q)])"
    by (intro exI [of _ "fs(pid := filter_rebuild h)"]) (auto simp: tab_add_def)
qed

interpretation reg: filter_registry tab_ok "\<lambda>fs pid. live (fs pid)" "tab_add j"
  "\<lambda>pid q. stored_filter pid (fst q) (snd q)" "\<lambda>pid q. unat pid < MAX_TS_PID_NUM \<and> param_wf (fst q)" NUM_FILTER_MAX
  for j
  by (rule tab_registry)

section \<open>Removal and lookup\<close>

lemma filter_free_live:
  assumes pid: "unat pid < MAX_TS_PID_NUM" and wf: "head_wf pid (fs pid)" and i: "i < num (fs pid)"
  shows "\<exists>h. filter_free fs (Some (pid, gen (fs pid), i)) = Some (0, fs(pid := filter_rebuild h)) \<and>
    head_wf pid h \<and> live h = butlast ((live (fs pid))[i := last (live (fs pid))])"
proof -
  let ?old = "fs pid" and ?n = "num (fs pid)"
  let ?h = "?old\<lparr>slots := (slots ?old)[i := slots ?old ! (?n - 1)], num := ?n - 1\<rparr>"
  have len: "?n \<le> length (slots ?old)" and iL: "i < length (slots ?old)"
    using wf i by (auto simp: head_wf_def)
  have mem: "slots ?old ! j \<in> set (live ?old)" if "j < ?n" for j
    using nth_mem [of j "live ?old"] that length_live [OF wf] by (simp add: live_nth)
  have pid_i: "f_pid (slots ?old ! i) = pid"
    using wf mem [OF i] by (simp add: head_wf_def live_def)
  have run: "filter_free fs (Some (pid, gen ?old, i)) = Some (0, fs(pid := filter_rebuild ?h))"
    using pid i iL pid_i by (simp add: filter_free_def slot_of_def pid_filter_def)
  have lst: "last (take ?n (slots ?old)) = slots ?old ! (?n - 1)"
    using len i by (subst last_conv_nth) (auto simp: min_def)
  have live: "live ?h = butlast ((live ?old)[i := last (live ?old)])"
  proof (rule nth_equalityI)
    show "length (live ?h) = length (butlast ((live ?old)[i := last (live ?old)]))"
      using len by (simp add: live_def)
    fix k assume "k < length (live ?h)"
    then have k: "k < ?n - 1" using len by (simp add: live_def)
    then show "live ?h ! k = butlast ((live ?old)[i := last (live ?old)]) ! k"
      using len i by (simp add: live_def nth_butlast lst nth_list_update min_def)
  qed
  have "set (live ?h) \<subseteq> set (live ?old)"
  proof -
    have "live ?old \<noteq> []" using i length_live [OF wf] by auto
    then have "set ((live ?old)[i := last (live ?old)]) \<subseteq> set (live ?old)"
      using set_update_subset_insert [of "live ?old" i "last (live ?old)"] by auto
    then show ?thesis unfolding live by (meson in_set_butlastD subset_iff)
  qed
  then have "head_wf pid ?h"
    using wf unfolding head_wf_def live_def [symmetric] by (auto simp: subset_iff)
  with run live show ?thesis by blast
qed

lemma memeq_full: "\<lbrakk>n \<le> length a; n \<le> length b\<rbrakk> \<Longrightarrow> memeq a b n = Some (take n a = take n b)"
  by (simp add: memeq_def)

definition same_filter :: "filter_param \<Rightarrow> filter_param \<Rightarrow> bool" where
  "same_filter p q \<longleftrightarrow> (let n = unat (fp_depth q) in fp_depth p = fp_depth q \<and>
     take n (fp_coff p) = take n (fp_coff q) \<and> take n (fp_mask p) = take n (fp_mask q) \<and>
     take n (fp_negate p) = take n (fp_negate q))"

lemma param_eq_wf: "\<lbrakk>param_wf p; param_wf q\<rbrakk> \<Longrightarrow> param_eq p q = Some (same_filter p q)"
  by (auto simp: param_eq_def param_wf_def memeq_full same_filter_def Let_def)

lemma lookup_loop_find:
  "\<forall>f \<in> set fs. param_wf (f_para f) \<Longrightarrow> param_wf p \<Longrightarrow>
   lookup_loop i fs p = Some (map_option (\<lambda>k. i + k)
     (List.find (\<lambda>k. same_filter (f_para (fs ! k)) p) [0..<length fs]))"
proof (induction fs arbitrary: i)
  case (Cons f fs)
  have "List.find (\<lambda>k. same_filter (f_para ((f # fs) ! k)) p) [0..<length (f # fs)] =
    (if same_filter (f_para f) p then Some 0
     else map_option Suc (List.find (\<lambda>k. same_filter (f_para (fs ! k)) p) [0..<length fs]))"
  proof -
    have "[0..<length (f # fs)] = 0 # map Suc [0..<length fs]"
      by (simp add: upt_conv_Cons map_Suc_upt del: upt_Suc)
    moreover have "List.find P (map Suc xs) = map_option Suc (List.find (P \<circ> Suc) xs)" for P xs
      by (induction xs) auto
    ultimately show ?thesis by (simp add: comp_def)
  qed
  moreover have "(+) (Suc i) = (\<lambda>k. Suc (i + k))" by auto
  ultimately show ?case
    using Cons by (auto simp: param_eq_wf option.map_comp comp_def)
qed simp

text \<open>A sequence of registrations.\<close>

fun register_all ::
  "(nat \<Rightarrow> u8) \<Rightarrow> 'cb filter_tab \<Rightarrow> (u16 \<times> filter_param \<times> 'cb) list \<Rightarrow> 'cb filter_tab option" where
  "register_all j fs [] = Some fs"
| "register_all j fs ((pid, p, cb) # qs) = do {
     (r, fs') \<leftarrow> filter_register (always_ok j) fs pid p cb;
     register_all j fs' qs }"

lemma stored_filter_pair:
  "(\<lambda>(pid, p, cb). stored_filter pid p cb) = (\<lambda>(pid, q). stored_filter pid (fst q) (snd q))"
  by auto

lemma tab_add_pair: "tab_add j fs pid (p, cb) = map_option snd (filter_register (always_ok j) fs pid p cb)"
  by (simp add: tab_add_def)

lemma register_all_add_all: "register_all j fs qs = reg.add_all j fs qs"
proof (induction qs arbitrary: fs)
  case (Cons a qs)
  then show ?case
    by (cases a) (auto simp: tab_add_pair split: Option.bind_splits)
qed simp

lemma tab_ok_upd: "\<lbrakk>tab_ok fs; head_wf pid h; in_step h\<rbrakk> \<Longrightarrow> tab_ok (fs(pid := h))"
  by (simp add: tab_ok_def)

lemma mset_swap_pop:
  assumes "i < length xs"
  shows "mset xs = add_mset (xs ! i) (mset (butlast (xs[i := last xs])))"
proof -
  obtain ys y where xs: "xs = ys @ [y]"
    using assms by (cases xs rule: rev_cases) auto
  show ?thesis
  proof (cases "i = length ys")
    case True
    then show ?thesis by (simp add: xs)
  next
    case False
    with assms have "i < length ys" by (simp add: xs)
    then show ?thesis
      by (simp add: xs list_update_append nth_append mset_update)
  qed
qed

lemma filter_free_law:
  assumes "tab_ok fs" "unat pid < MAX_TS_PID_NUM" "i < num (fs pid)"
  shows "\<exists>fs'. filter_free fs (Some (pid, gen (fs pid), i)) = Some (0, fs') \<and> tab_ok fs' \<and>
    mset (live (fs pid)) = add_mset (live (fs pid) ! i) (mset (live (fs' pid))) \<and>
    (\<forall>q. q \<noteq> pid \<longrightarrow> fs' q = fs q)"
proof -
  have wf: "head_wf pid (fs pid)" and st: "in_step (fs pid)"
    using assms by (auto simp: tab_ok_def)
  obtain h where h: "filter_free fs (Some (pid, gen (fs pid), i)) = Some (0, fs(pid := filter_rebuild h))"
    "head_wf pid h" "live h = butlast ((live (fs pid))[i := last (live (fs pid))])"
    using filter_free_live [where fs = fs, OF assms(2) wf assms(3)] by blast
  have m: "mset (live (fs pid)) = add_mset (live (fs pid) ! i) (mset (live h))"
    unfolding h(3) by (rule mset_swap_pop) (use assms(3) length_live [OF wf] in simp)
  then have "set (live h) \<subseteq> set (live (fs pid))"
    by (metis mset_subset_eq_insertD set_mset_mset set_mset_mono subset_insertI set_mset_add_mset_insert)
  with st have "in_step (filter_rebuild h)"
    unfolding in_step_rebuild by (auto simp: in_step_def live_def [symmetric])
  with assms(1) h(2) have "tab_ok (fs(pid := filter_rebuild h))"
    by (simp add: tab_ok_def)
  with h(1) m show ?thesis by auto
qed

section \<open>Properties\<close>

text \<open>
  C14. Dispatch: on a table between two registrations, \<open>filter_proc\<close> runs exactly the callbacks
  of the filters that match the data, in slot order, whether it takes the linear scan or the
  table-id map, provided the callbacks leave the filters of this PID alone.
\<close>

theorem filter_proc_targets:
  assumes pid: "unat pid < MAX_TS_PID_NUM" and ok: "tab_ok (getf s)"
    and data: "MAX_FILTER_DEPTH \<le> length data"
    and keep: "\<And>cb s s'. invoke cb pid data len s = Some s' \<Longrightarrow> getf s' pid = getf s pid"
  shows "filter_proc getf invoke pid data len s =
    (let h = getf s pid in
     if num h = 0 then Some (-1, s)
     else map_option (Pair 0) (call_all invoke (map (\<lambda>i. slots h ! i) (targets h data)) pid data len s))"
proof -
  let ?h = "getf s pid"
  have wf: "head_wf pid ?h" and st: "num ?h \<noteq> 0 \<longrightarrow> in_step ?h"
    using ok pid by (auto simp: tab_ok_def)
  have scan: "scan_loop getf invoke NUM_FILTER_MAX 0 pid data len s =
      call_all invoke (map (\<lambda>i. slots ?h ! i) (targets ?h data)) pid data len s"
    unfolding targets_def using wf
    by (intro scan_loop_targets [where getf = getf and s = s] keep wf data) (auto simp: head_wf_def)
  have d: "rdb data 0 = Some (data ! 0)" "data \<noteq> []"
    using data by (auto simp: filter_consts rdb_def)
  show ?thesis
  proof (cases "num ?h = 0 \<or> multi ?h")
    case True
    with pid scan show ?thesis
      by (auto simp: filter_proc_def pid_filter_def bind_Some_Pair Let_def)
  next
    case False
    with st have "in_step ?h" "\<not> multi ?h" by auto
    from dispatch_targets [OF wf this d(2)] False pid d(1) show ?thesis
      by (simp add: call_all_single filter_proc_def pid_filter_def bind_Some_Pair Let_def del: rdb_Some_iff call_all.simps(2))
  qed
qed

text \<open>Two filters on PID 0, for the table ids 0 and 2.\<close>

definition sample_tab :: "nat filter_tab" where
  "sample_tab = static_pid_filter(0 := filter_rebuild
     \<lparr>num = 2, cap = 4,
      slots = [stored_filter 0 \<lparr>fp_depth = 1, fp_coff = [0,0,0,0,0,0,0,0], fp_mask = [0xFF,0,0,0,0,0,0,0], fp_negate = [0,0,0,0,0,0,0,0]\<rparr> 7,
               stored_filter 0 \<lparr>fp_depth = 1, fp_coff = [2,0,0,0,0,0,0,0], fp_mask = [0xFF,0,0,0,0,0,0,0], fp_negate = [0,0,0,0,0,0,0,0]\<rparr> 9,
               zero_filter, zero_filter],
      tidmap = replicate 256 0, multi = False, gen = 1\<rparr>)"

lemma sample_tab_ok: "tab_ok sample_tab"
proof -
  have "tab_ok (static_pid_filter :: nat filter_tab)"
    by (simp add: static_pid_filter_def tab_ok_def head_wf_def)
  then show ?thesis
    unfolding sample_tab_def
    by (rule tab_ok_upd) (simp_all add: head_wf_def in_step_rebuild live_def stored_filter_def stored_def
        param_wf_def filter_consts Let_def)
qed

theorem filter_proc_targets_witness:
  "filter_proc fst (\<lambda>cb pid data len (fs, l). Some (fs, l @ [cb])) 0 [2, 0, 0, 0, 0, 0, 0, 0] 8 (sample_tab, []) =
   Some (0, sample_tab, [9])"
proof -
  have num: "num (sample_tab 0) = 2" and slots: "slots (sample_tab 0) ! Suc 0 =
      stored_filter 0 \<lparr>fp_depth = 1, fp_coff = [2,0,0,0,0,0,0,0], fp_mask = [0xFF,0,0,0,0,0,0,0], fp_negate = [0,0,0,0,0,0,0,0]\<rparr> 9"
    by (simp_all add: sample_tab_def)
  have t: "targets (sample_tab 0) [2, 0, 0, 0, 0, 0, 0, 0] = [1]"
    by (simp add: targets_def num upt_rec) (simp add: sample_tab_def filter_match_def stored_filter_def stored_def Let_def numeral_eq_Suc)
  have "filter_proc fst (\<lambda>cb pid data len (fs, l). Some (fs, l @ [cb])) 0 [2, 0, 0, 0, 0, 0, 0, 0] 8 (sample_tab, []) =
    (let h = fst (sample_tab, [] :: nat list) 0 in
     if num h = 0 then Some (-1, (sample_tab, []))
     else map_option (Pair 0) (call_all (\<lambda>cb pid data len (fs, l). Some (fs, l @ [cb]))
       (map (\<lambda>i. slots h ! i) (targets h [2, 0, 0, 0, 0, 0, 0, 0])) 0 [2, 0, 0, 0, 0, 0, 0, 0] 8 (sample_tab, [])))"
    by (rule filter_proc_targets) (auto simp: sample_tab_ok filter_consts)
  then show ?thesis
    by (simp add: num t slots call_slot_def stored_filter_def Let_def)
qed

text \<open>
  C16. Registration: after any list of registrations every PID has its old filters followed by
  the new ones in order, with the dispatch map of exactly these filters; the only limit is
  \<open>NUM_FILTER_MAX\<close>, and the growth of the slot array never loses a filter.
\<close>

theorem filter_register_all:
  assumes "tab_ok fs" "\<forall>(pid, p, cb) \<in> set qs. unat pid < MAX_TS_PID_NUM \<and> param_wf p"
    and "\<forall>pid. length (live (fs pid)) + length qs \<le> NUM_FILTER_MAX"
  shows "\<exists>fs'. register_all j fs qs = Some fs' \<and> tab_ok fs' \<and>
    (\<forall>pid. live (fs' pid) = live (fs pid) @
       map (\<lambda>(pid, p, cb). stored_filter pid p cb) (filter (\<lambda>(p, q). p = pid) qs))"
proof -
  have "\<forall>(pid, q) \<in> set qs. unat pid < MAX_TS_PID_NUM \<and> param_wf (fst q)"
    using assms(2) by auto
  from reg.add_all_view [OF assms(1) this assms(3), of j] show ?thesis
    by (simp add: reg.added_def register_all_add_all stored_filter_pair)
qed

theorem filter_register_all_witness:
  "\<exists>fs'. register_all (\<lambda>_. 0) sample_tab [(0, zero_param, 3), (5, zero_param, 4)] = Some fs' \<and> tab_ok fs' \<and>
    (\<forall>pid. live (fs' pid) = live (sample_tab pid) @
       map (\<lambda>(pid, p, cb). stored_filter pid p cb)
         (filter (\<lambda>(p, q). p = pid) [(0, zero_param, 3), (5, zero_param, 4)]))"
  by (rule filter_register_all, rule sample_tab_ok)
     (simp_all add: filter_consts zero_param_def param_wf_def live_def sample_tab_def static_pid_filter_def)

text \<open>
  C20. Removal: \<open>filter_free\<close> of a registered filter removes this filter and no other one, the
  head stays well formed and its dispatch map is rebuilt.
\<close>

theorem filter_free_removes:
  assumes "tab_ok fs" "unat pid < MAX_TS_PID_NUM" "i < num (fs pid)"
  shows "\<exists>fs'. filter_free fs (Some (pid, gen (fs pid), i)) = Some (0, fs') \<and> tab_ok fs' \<and>
    mset (live (fs pid)) = add_mset (live (fs pid) ! i) (mset (live (fs' pid))) \<and>
    (\<forall>q. q \<noteq> pid \<longrightarrow> fs' q = fs q)"
  using assms by (rule filter_free_law)

theorem filter_free_removes_witness:
  "\<exists>fs'. filter_free sample_tab (Some (0, gen (sample_tab 0), 0)) = Some (0, fs') \<and> tab_ok fs' \<and>
    mset (live (sample_tab 0)) = add_mset (live (sample_tab 0) ! 0) (mset (live (fs' 0))) \<and>
    (\<forall>q. q \<noteq> 0 \<longrightarrow> fs' q = sample_tab q)"
  by (rule filter_free_removes, rule sample_tab_ok) (simp_all add: filter_consts sample_tab_def)

end
