(* ===== verification/Section.thy ===== *)
theory Section
  imports Ts_Prelude
begin

unbundle bit_operations_syntax

text \<open>
  Reassembly of PSI sections and PES packets from the payloads of transport packets:
  \<open>struct section_parser\<close> and \<open>section_preproc\<close> of \<^verbatim>\<open>src/ts.c\<close>.
\<close>

section \<open>State\<close>

definition MAX_SECTION_BUF :: nat where "MAX_SECTION_BUF = 65535"

record section_parser =
  total_len :: int
  limit_len :: int
  sp_cc :: u8
  buffer :: "bytes option"
  sp_cap :: nat

type_synonym sec_tab = "u16 \<Rightarrow> section_parser"

definition static_sec :: sec_tab where
  "static_sec = (\<lambda>_. \<lparr>total_len = 0, limit_len = 0, sp_cc = 0, buffer = None, sp_cap = 0\<rparr>)"

definition sec_getbuf :: "alloc_env \<Rightarrow> section_parser \<Rightarrow> bytes option \<times> section_parser" where
  "sec_getbuf e p = (case buffer p of
     Some b \<Rightarrow> (Some b, p)
   | None \<Rightarrow> (let b = (if mok e 0 then Some (malloc_bytes e MAX_SECTION_BUF) else None) in
              (b, p\<lparr>sp_cap := MAX_SECTION_BUF, buffer := b\<rparr>)))"

definition uninit_section_parser :: "sec_tab \<Rightarrow> sec_tab" where
  "uninit_section_parser sec = (\<lambda>pid. if unat pid < 8192
     then (sec pid)\<lparr>buffer := None, sp_cap := 0, total_len := 0, limit_len := 0\<rparr> else sec pid)"

datatype psi_or_pes = TS_IS_PSI | TS_IS_PES

section \<open>One packet\<close>

text \<open>
  Copying into the reassembly buffer: \<open>sec_getbuf\<close>, and \<open>memcpy(pbuf + off, src, n)\<close>.
  The result is the buffer (null when the allocation failed) and the parser.
\<close>

definition buf_copy :: "alloc_env \<Rightarrow> section_parser \<Rightarrow> int \<Rightarrow> bytes \<Rightarrow> int \<Rightarrow> (bytes option \<times> section_parser) option" where
  "buf_copy e p off src n = (case sec_getbuf e p of
     (None, p) \<Rightarrow> Some (None, p)
   | (Some b, p) \<Rightarrow> do { b' \<leftarrow> memcpy b off src n; Some (Some b', p\<lparr>buffer := Some b'\<rparr>) })"

type_synonym preproc_result = "int \<times> bytes option \<times> section_parser"

definition start_psi :: "alloc_env \<Rightarrow> section_parser \<Rightarrow> bytes \<Rightarrow> u16 \<Rightarrow> preproc_result option" where
  "start_psi e p pkt len = do {
     pointer_field \<leftarrow> rdb pkt 0;
     let k = unat pointer_field;
     a \<leftarrow> rdb pkt (2 + k);
     b \<leftarrow> rdb pkt (3 + k);
     let p = p\<lparr>total_len := uint len - 1 - int k, limit_len := (uint a * 256 + uint b) mod 4096 + 3\<rparr>;
     if limit_len p \<le> total_len p then Some (i16 (limit_len p), Some (drop (1 + k) pkt), p)
     else do {
       (r, p) \<leftarrow> buf_copy e p 0 (drop (1 + k) pkt) (total_len p);
       Some (-1, None, p) } }"

definition start_pes :: "alloc_env \<Rightarrow> section_parser \<Rightarrow> bytes \<Rightarrow> u16 \<Rightarrow> preproc_result option" where
  "start_pes e p pkt len = do {
     a \<leftarrow> rdb pkt 4;
     b \<leftarrow> rdb pkt 5;
     let l = uint a * 256 + uint b;
     let p = p\<lparr>total_len := uint len, limit_len := (if l > 0 then l + 6 else l)\<rparr>;
     if limit_len p = 0 then Some (0, None, p)
     else if limit_len p \<le> total_len p then Some (i16 (total_len p), Some pkt, p)
     else do {
       (r, p) \<leftarrow> buf_copy e p 0 pkt (total_len p);
       Some (-1, None, p) } }"

definition cont_psi :: "alloc_env \<Rightarrow> section_parser \<Rightarrow> bytes \<Rightarrow> u16 \<Rightarrow> preproc_result option" where
  "cont_psi e p pkt len =
     (if total_len p = 0 then Some (-1, None, p)
      else do {
        (r, p) \<leftarrow> buf_copy e p (total_len p) pkt (uint len);
        case r of None \<Rightarrow> Some (-1, None, p)
        | Some pbuf \<Rightarrow>
            let p = p\<lparr>total_len := total_len p + uint len\<rparr> in
            if limit_len p \<le> total_len p then Some (i16 (limit_len p), Some pbuf, p\<lparr>total_len := 0\<rparr>)
            else Some (-1, None, p) })"

definition cont_pes :: "alloc_env \<Rightarrow> section_parser \<Rightarrow> bytes \<Rightarrow> u16 \<Rightarrow> preproc_result option" where
  "cont_pes e p pkt len =
     (if limit_len p = 0 then Some (0, None, p)
      else do {
        (r, p) \<leftarrow> buf_copy e p (total_len p) pkt (uint len);
        case r of None \<Rightarrow> Some (0, None, p)
        | Some pbuf \<Rightarrow>
            let p = p\<lparr>total_len := total_len p + uint len\<rparr> in
            if limit_len p \<le> total_len p then Some (i16 (limit_len p), Some pbuf, p)
            else Some (-1, None, p) })"

definition section_preproc ::
  "alloc_env \<Rightarrow> sec_tab \<Rightarrow> u16 \<Rightarrow> bytes \<Rightarrow> u16 \<Rightarrow> u8 \<Rightarrow> u8 \<Rightarrow> psi_or_pes \<Rightarrow>
   (int \<times> bytes option \<times> sec_tab) option" where
  "section_preproc e sec pid pkt len payload_unit_start_indicator continuity_counter psi_or_pes =
     (if 8192 \<le> unat pid then None else do {
        let p = sec pid;
        (r, buffering, p) \<leftarrow>
          (if payload_unit_start_indicator = 1 then
             let p = p\<lparr>sp_cc := continuity_counter\<rparr> in
             (case psi_or_pes of TS_IS_PSI \<Rightarrow> start_psi e p pkt len | TS_IS_PES \<Rightarrow> start_pes e p pkt len)
           else
             (case psi_or_pes of TS_IS_PSI \<Rightarrow> cont_psi e p pkt len | TS_IS_PES \<Rightarrow> cont_pes e p pkt len));
        Some (r, buffering, sec(pid := p)) })"

section \<open>Buffers\<close>

definition buf_wf :: "section_parser \<Rightarrow> bool" where
  "buf_wf p \<longleftrightarrow> (case buffer p of None \<Rightarrow> True | Some b \<Rightarrow> length b = MAX_SECTION_BUF)"

text \<open>What the parser has collected of the unit it is reassembling.\<close>

definition collected :: "section_parser \<Rightarrow> bytes" where
  "collected p = (case buffer p of None \<Rightarrow> [] | Some b \<Rightarrow> take (nat (total_len p)) b)"

lemma i16_small: "0 \<le> x \<Longrightarrow> x < 32768 \<Longrightarrow> i16 x = x"
  by (simp add: i16_def sint_sbintrunc' signed_take_bit_int_eq_self)

lemma sec_getbuf_ok:
  assumes "buf_wf p"
  shows "\<exists>b. sec_getbuf (always_ok j) p = (Some b, p\<lparr>sp_cap := (if buffer p = None then MAX_SECTION_BUF else sp_cap p), buffer := Some b\<rparr>)
    \<and> length b = MAX_SECTION_BUF \<and> (\<forall>b'. buffer p = Some b' \<longrightarrow> b = b')"
  using assms by (auto simp: sec_getbuf_def buf_wf_def Let_def split: option.splits)

lemma buf_copy_ok:
  assumes wf: "buf_wf p" and n: "n \<le> length src" "0 \<le> off" "off + int n \<le> int MAX_SECTION_BUF"
    and pre: "nat off = length pre" "buffer p = None \<longrightarrow> pre = []" "\<forall>b. buffer p = Some b \<longrightarrow> take (nat off) b = pre"
  shows "\<exists>b c. buf_copy (always_ok j) p off src (int n) = Some (Some b, p\<lparr>sp_cap := c, buffer := Some b\<rparr>) \<and>
    length b = MAX_SECTION_BUF \<and> take (nat off + n) b = pre @ take n src"
proof -
  from sec_getbuf_ok [OF wf, of j] obtain b c where
    g: "sec_getbuf (always_ok j) p = (Some b, p\<lparr>sp_cap := c, buffer := Some b\<rparr>)"
    and len: "length b = MAX_SECTION_BUF" and same: "\<forall>b'. buffer p = Some b' \<longrightarrow> b = b'" by blast
  have take: "take (nat off) b = pre"
    using pre same by (cases "buffer p") auto
  have fits: "nat off + n \<le> length b" using n len by linarith
  let ?b = "take (nat off) b @ take n src @ drop (nat off + n) b"
  have "memcpy b off src (int n) = Some ?b"
    using n fits by (simp add: memcpy_def)
  moreover have "length ?b = MAX_SECTION_BUF"
    using n fits len by simp
  moreover have "take (nat off + n) ?b = pre @ take n src"
    using n fits take pre(1) by simp
  ultimately show ?thesis
    by (intro exI [of _ ?b] exI [of _ c]) (simp add: buf_copy_def g)
qed

section \<open>Reassembly of a section\<close>

text \<open>The size a section header announces: \<open>section_length\<close> and the three bytes before it.\<close>

definition section_size :: "bytes \<Rightarrow> nat" where
  "section_size s = (unat (s ! 1) * 256 + unat (s ! 2)) mod 4096 + 3"

text \<open>A sequence of packets (start indicator, continuity counter, payload) on one PID.\<close>

fun sec_feed ::
  "psi_or_pes \<Rightarrow> alloc_env \<Rightarrow> sec_tab \<Rightarrow> u16 \<Rightarrow> (u8 \<times> u8 \<times> bytes) list \<Rightarrow> ((int \<times> bytes option) list \<times> sec_tab) option" where
  "sec_feed kind e sec pid [] = Some ([], sec)"
| "sec_feed kind e sec pid ((pusi, cc, pkt) # ps) = do {
     (r, b, sec) \<leftarrow> section_preproc e sec pid pkt (of_nat (length pkt)) pusi cc kind;
     (outs, sec) \<leftarrow> sec_feed kind e sec pid ps;
     Some ((r, b) # outs, sec) }"

text \<open>The parser has the bytes \<open>acc\<close> of a section of \<open>n\<close> bytes.\<close>

definition gathering :: "section_parser \<Rightarrow> bytes \<Rightarrow> nat \<Rightarrow> bool" where
  "gathering p acc n \<longleftrightarrow> total_len p = int (length acc) \<and> limit_len p = int n \<and> acc \<noteq> [] \<and> n < 32768 \<and>
     (\<exists>b. buffer p = Some b \<and> length b = MAX_SECTION_BUF \<and> take (length acc) b = acc)"

lemma uint_of_nat_len: "n < 65536 \<Longrightarrow> uint (of_nat n :: u16) = int n"
  by (simp add: unsigned_of_nat take_bit_nat_eq_self)

lemma section_size_less: "section_size s < 4099"
  by (simp add: section_size_def)

lemma cont_psi_gather:
  assumes g: "gathering p acc n" and len: "length acc + length c \<le> MAX_SECTION_BUF"
  shows "length acc + length c < n \<Longrightarrow>
      \<exists>p'. cont_psi (always_ok j) p c (of_nat (length c)) = Some (-1, None, p') \<and> gathering p' (acc @ c) n"
    and "n \<le> length acc + length c \<Longrightarrow>
      \<exists>b p'. cont_psi (always_ok j) p c (of_nat (length c)) = Some (int n, Some b, p') \<and>
        length b = MAX_SECTION_BUF \<and> take n b = take n (acc @ c) \<and> total_len p' = 0"
proof -
  from g obtain b0 where p: "total_len p = int (length acc)" "limit_len p = int n" "acc \<noteq> []"
    "buffer p = Some b0" "length b0 = MAX_SECTION_BUF" "take (length acc) b0 = acc" "n < 32768"
    by (auto simp: gathering_def)
  have c: "uint (of_nat (length c) :: u16) = int (length c)"
    using len by (intro uint_of_nat_len) (simp add: MAX_SECTION_BUF_def)
  obtain b k where b: "buf_copy (always_ok j) p (int (length acc)) c (int (length c)) =
      Some (Some b, p\<lparr>sp_cap := k, buffer := Some b\<rparr>)" "length b = MAX_SECTION_BUF"
      "take (length acc + length c) b = acc @ c"
    using buf_copy_ok [of p "length c" c "int (length acc)" acc j] p len by (auto simp: buf_wf_def)
  {
    assume "length acc + length c < n"
    then show "\<exists>p'. cont_psi (always_ok j) p c (of_nat (length c)) = Some (-1, None, p') \<and> gathering p' (acc @ c) n"
      using p b by (auto simp: cont_psi_def c gathering_def)
  next
    assume n: "n \<le> length acc + length c"
    then have "take n b = take n (acc @ c)"
      using b(3) by (metis min_def take_take)
    with n show "\<exists>b p'. cont_psi (always_ok j) p c (of_nat (length c)) = Some (int n, Some b, p') \<and>
        length b = MAX_SECTION_BUF \<and> take n b = take n (acc @ c) \<and> total_len p' = 0"
      using p b by (auto simp: cont_psi_def c i16_small)
  }
qed

lemma start_psi_gather:
  assumes wf: "buf_wf p" and pkt: "pkt = k # skip @ c" "length skip = unat k" "3 \<le> length c"
    and n: "length c < section_size c" and len: "length pkt \<le> MAX_SECTION_BUF"
  shows "\<exists>p'. start_psi (always_ok j) p pkt (of_nat (length pkt)) = Some (-1, None, p') \<and>
    gathering p' c (section_size c)"
proof -
  have rd: "rdb pkt 0 = Some k" "rdb pkt (2 + unat k) = Some (c ! 1)" "rdb pkt (3 + unat k) = Some (c ! 2)"
    "drop (1 + unat k) pkt = c"
    using pkt by (simp_all add: numeral_eq_Suc nth_append)
  have tot: "uint (of_nat (length pkt) :: u16) - 1 - int (unat k) = int (length c)"
    using len pkt by (subst uint_of_nat_len) (simp_all add: MAX_SECTION_BUF_def)
  have lim: "(uint (c ! 1) * 256 + uint (c ! 2)) mod 4096 + 3 = int (section_size c)"
    by (simp add: section_size_def zmod_int)
  let ?p = "p\<lparr>total_len := int (length c), limit_len := int (section_size c)\<rparr>"
  have "buf_wf ?p" using wf by (simp add: buf_wf_def)
  then obtain b m where b: "buf_copy (always_ok j) ?p 0 c (int (length c)) = Some (Some b, ?p\<lparr>sp_cap := m, buffer := Some b\<rparr>)"
    "length b = MAX_SECTION_BUF" "take (length c) b = c"
    using buf_copy_ok [of ?p "length c" c 0 "[]" j] len pkt by auto
  have "start_psi (always_ok j) p pkt (of_nat (length pkt)) = Some (-1, None, ?p\<lparr>sp_cap := m, buffer := Some b\<rparr>)"
    unfolding start_psi_def rd Option.bind_lunit Let_def tot lim using n b by simp
  moreover have "c \<noteq> []" using pkt(3) by auto
  ultimately show ?thesis
    using b section_size_less [of c] by (simp add: gathering_def)
qed

lemma section_preproc_psi:
  assumes "unat pid < 8192"
  shows "section_preproc e sec pid pkt len pusi cc TS_IS_PSI =
    map_option (\<lambda>(r, b, p). (r, b, sec(pid := p)))
      (if pusi = 1 then start_psi e ((sec pid)\<lparr>sp_cc := cc\<rparr>) pkt len else cont_psi e (sec pid) pkt len)"
  using assms by (auto simp: section_preproc_def Let_def split: Option.bind_splits)

lemma psi_feed_conts:
  assumes "unat pid < 8192" "gathering (sec pid) acc n"
    "length acc + length (concat (map snd cs)) < n" "n \<le> length acc + length (concat (map snd cs)) + length z"
    "length acc + length (concat (map snd cs)) + length z \<le> MAX_SECTION_BUF"
  shows "\<exists>b sec'. sec_feed TS_IS_PSI (always_ok j) sec pid (map (\<lambda>(cc, c). (0, cc, c)) cs @ [(0, cz, z)]) =
      Some (replicate (length cs) (-1, None) @ [(int n, Some b)], sec') \<and>
    length b = MAX_SECTION_BUF \<and> take n b = take n (acc @ concat (map snd cs) @ z)"
  using assms
proof (induction cs arbitrary: sec acc)
  case Nil
  then obtain b p' where "cont_psi (always_ok j) (sec pid) z (of_nat (length z)) = Some (int n, Some b, p')"
    "length b = MAX_SECTION_BUF" "take n b = take n (acc @ z)"
    using cont_psi_gather(2) [OF Nil(2), of z j] by auto
  with Nil(1) show ?case by (simp add: section_preproc_psi)
next
  case (Cons a cs)
  obtain cc c where a: "a = (cc, c)" by fastforce
  obtain p' where p': "cont_psi (always_ok j) (sec pid) c (of_nat (length c)) = Some (-1, None, p')"
    "gathering p' (acc @ c) n"
    using cont_psi_gather(1) [OF Cons.prems(2), of c j] Cons.prems(3,5) a by auto
  define sec1 where "sec1 = sec(pid := p')"
  obtain b sec' where "sec_feed TS_IS_PSI (always_ok j) sec1 pid (map (\<lambda>(cc, c). (0, cc, c)) cs @ [(0, cz, z)]) =
      Some (replicate (length cs) (-1, None) @ [(int n, Some b)], sec')"
    "length b = MAX_SECTION_BUF" "take n b = take n ((acc @ c) @ concat (map snd cs) @ z)"
  proof -
    have "gathering (sec1 pid) (acc @ c) n" using p'(2) by (simp add: sec1_def)
    then show thesis
      using that Cons.IH [of sec1 "acc @ c"] Cons.prems a
      by (simp add: add.assoc del: take_append) blast
  qed
  with p'(1) Cons.prems(1) a show ?case by (simp add: section_preproc_psi sec1_def)
qed

section \<open>Memory safety\<close>

definition psi_inv :: "section_parser \<Rightarrow> bool" where
  "psi_inv p \<longleftrightarrow> buf_wf p \<and> 0 \<le> total_len p \<and> total_len p \<le> 4352 \<and> 0 \<le> limit_len p \<and> limit_len p \<le> 4098"

lemma buf_copy_safe:
  assumes "buf_wf p" "n \<le> length src" "0 \<le> off" "off + int n \<le> int MAX_SECTION_BUF"
  obtains r c where "buf_copy e p off src (int n) = Some (r, p\<lparr>sp_cap := c, buffer := r\<rparr>)"
    "r = None \<or> (\<exists>b. r = Some b \<and> length b = MAX_SECTION_BUF)"
proof -
  have fits: "nat off + n \<le> MAX_SECTION_BUF" using assms by linarith
  have mc: "length b = MAX_SECTION_BUF \<Longrightarrow> \<exists>b'. memcpy b off src (int n) = Some b' \<and> length b' = MAX_SECTION_BUF" for b
    using assms fits by (simp add: memcpy_def)
  have noop: "p = p\<lparr>sp_cap := sp_cap p, buffer := buffer p\<rparr>" by simp
  show thesis
  proof (cases "buffer p")
    case (Some b)
    with assms(1) mc [of b] obtain b' where "memcpy b off src (int n) = Some b'" "length b' = MAX_SECTION_BUF"
      by (auto simp: buf_wf_def)
    with Some show thesis
      by (intro that [of "Some b'" "sp_cap p"]) (simp_all add: buf_copy_def sec_getbuf_def)
  next
    case None
    obtain b' where "memcpy (malloc_bytes e MAX_SECTION_BUF) off src (int n) = Some b'" "length b' = MAX_SECTION_BUF"
      using mc [of "malloc_bytes e MAX_SECTION_BUF"] by auto
    with None show thesis
      by (intro that [of "if mok e 0 then Some b' else None" MAX_SECTION_BUF])
         (auto simp: buf_copy_def sec_getbuf_def Let_def)
  qed
qed

lemma start_psi_safe:
  assumes inv: "psi_inv p" and len: "unat len \<le> length pkt" "unat len \<le> 255"
    and ptr: "pkt \<noteq> []" "unat (pkt ! 0) + 4 \<le> unat len"
  shows "\<exists>r b p'. start_psi e p pkt len = Some (r, b, p') \<and> psi_inv p' \<and>
    (r = -1 \<and> b = None \<or> (\<exists>d. b = Some d \<and> 3 \<le> r \<and> r \<le> 4098 \<and> nat r \<le> length d))"
proof -
  define k where "k = unat (pkt ! 0)"
  define t where "t = unat len - 1 - k"
  define n where "n = (unat (pkt ! (2 + k)) * 256 + unat (pkt ! (3 + k))) mod 4096 + 3"
  have rd: "rdb pkt 0 = Some (pkt ! 0)" "rdb pkt (2 + k) = Some (pkt ! (2 + k))" "rdb pkt (3 + k) = Some (pkt ! (3 + k))"
    using len ptr by (auto simp: rdb_def k_def)
  have tot: "uint len - 1 - int k = int t"
    using ptr(2) unfolding t_def k_def uint_nat [of len] by linarith
  have lim: "(uint (pkt ! (2 + k)) * 256 + uint (pkt ! (3 + k))) mod 4096 + 3 = int n"
    by (simp add: n_def zmod_int)
  have n: "3 \<le> n" "n \<le> 4098" by (auto simp: n_def)
  have t: "t \<le> 255" "t \<le> length (drop (1 + k) pkt)"
    using len ptr(2) by (auto simp: t_def k_def)
  let ?p = "p\<lparr>total_len := int t, limit_len := int n\<rparr>"
  have eq: "start_psi e p pkt len = (if int n \<le> int t then Some (i16 (int n), Some (drop (1 + k) pkt), ?p)
      else buf_copy e ?p 0 (drop (1 + k) pkt) (int t) \<bind> (\<lambda>(r, p). Some (-1, None, p)))"
    unfolding start_psi_def rd(1) Option.bind_lunit Let_def k_def [symmetric] rd(2,3) tot lim by simp
  show ?thesis
  proof (cases "n \<le> t")
    case True
    then show ?thesis
      using inv n t by (simp add: eq psi_inv_def buf_wf_def i16_small)
  next
    case False
    have "buf_wf ?p" using inv by (simp add: psi_inv_def buf_wf_def)
    then obtain r c where "buf_copy e ?p 0 (drop (1 + k) pkt) (int t) = Some (r, ?p\<lparr>sp_cap := c, buffer := r\<rparr>)"
      "r = None \<or> (\<exists>b. r = Some b \<and> length b = MAX_SECTION_BUF)"
      using buf_copy_safe [of ?p t "drop (1 + k) pkt" 0 e] t by (auto simp: MAX_SECTION_BUF_def)
    with False n t show ?thesis
      by (auto simp: eq psi_inv_def buf_wf_def)
  qed
qed

lemma cont_psi_safe:
  assumes inv: "psi_inv p" and len: "unat len \<le> length pkt" "unat len \<le> 255"
  shows "\<exists>r b p'. cont_psi e p pkt len = Some (r, b, p') \<and> psi_inv p' \<and>
    (r = -1 \<and> b = None \<or> (\<exists>d. b = Some d \<and> 0 \<le> r \<and> r \<le> 4098 \<and> nat r \<le> length d))"
proof (cases "total_len p = 0")
  case True
  with inv show ?thesis by (simp add: cont_psi_def)
next
  case False
  have u: "uint len = int (unat len)" by simp
  with len(2) have len': "0 \<le> uint len" "uint len \<le> 255" by linarith+
  obtain r c where r: "buf_copy e p (total_len p) pkt (uint len) = Some (r, p\<lparr>sp_cap := c, buffer := r\<rparr>)"
      "r = None \<or> (\<exists>b. r = Some b \<and> length b = MAX_SECTION_BUF)"
  proof -
    have "total_len p + int (unat len) \<le> int MAX_SECTION_BUF"
      using inv len(2) unfolding psi_inv_def MAX_SECTION_BUF_def by linarith
    then show thesis
      using buf_copy_safe [of p "unat len" pkt "total_len p" e] inv len(1) that unfolding u psi_inv_def by blast
  qed
  from r(2) show ?thesis
  proof
    assume "r = None"
    with r(1) False inv show ?thesis
      by (simp add: cont_psi_def psi_inv_def buf_wf_def)
  next
    assume "\<exists>b. r = Some b \<and> length b = MAX_SECTION_BUF"
    then obtain b where "r = Some b" "length b = MAX_SECTION_BUF" by blast
    with r(1) False inv len' show ?thesis
      by (auto simp: cont_psi_def psi_inv_def buf_wf_def MAX_SECTION_BUF_def i16_small Let_def)
  qed
qed

section \<open>Properties\<close>

text \<open>
  C7. Reassembly: a section whose first bytes follow the pointer field of a start packet and
  whose rest comes in any number of continuation packets is delivered once, with the packet
  that completes it, with its announced size and byte for byte, whatever the parser was doing
  before.
\<close>

theorem psi_reassembly:
  assumes pid: "unat pid < 8192" and wf: "buf_wf (sec pid)"
    and pkt: "pkt = k # skip @ c" "length skip = unat k" "3 \<le> length c" "length pkt \<le> MAX_SECTION_BUF"
    and more: "length c + length (concat (map snd cs)) < section_size c"
    and enough: "section_size c \<le> length c + length (concat (map snd cs)) + length z"
    and room: "length c + length (concat (map snd cs)) + length z \<le> MAX_SECTION_BUF"
  shows "\<exists>b sec'. sec_feed TS_IS_PSI (always_ok j) sec pid
      ((1, c0, pkt) # map (\<lambda>(cc, c). (0, cc, c)) cs @ [(0, cz, z)]) =
      Some ((-1, None) # replicate (length cs) (-1, None) @ [(int (section_size c), Some b)], sec') \<and>
    take (section_size c) b = take (section_size c) (c @ concat (map snd cs) @ z)"
proof -
  have "buf_wf ((sec pid)\<lparr>sp_cc := c0\<rparr>)" using wf by (simp add: buf_wf_def)
  moreover have "length c < section_size c" using more by simp
  ultimately obtain p' where p': "start_psi (always_ok j) ((sec pid)\<lparr>sp_cc := c0\<rparr>) pkt (of_nat (length pkt)) = Some (-1, None, p')"
    "gathering p' c (section_size c)"
    using start_psi_gather pkt by blast
  define sec1 where "sec1 = sec(pid := p')"
  have "gathering (sec1 pid) c (section_size c)" using p'(2) by (simp add: sec1_def)
  from psi_feed_conts [where sec = sec1, OF pid this more enough room, of j cz]
  obtain b sec' where "sec_feed TS_IS_PSI (always_ok j) sec1 pid (map (\<lambda>(cc, c). (0, cc, c)) cs @ [(0, cz, z)]) =
      Some (replicate (length cs) (-1, None) @ [(int (section_size c), Some b)], sec')"
    "take (section_size c) b = take (section_size c) (c @ concat (map snd cs) @ z)" by blast
  with p'(1) pid show ?thesis by (simp add: section_preproc_psi sec1_def)
qed

theorem psi_reassembly_witness:
  "\<exists>b sec'. sec_feed TS_IS_PSI (always_ok (\<lambda>_. 0)) static_sec 0
      ((1, 0, [1, 0xFF, 0, 0xB0, 6]) # map (\<lambda>(cc, c). (0, cc, c)) [(1, [1, 2])] @ [(0, 2, [3, 4, 5, 6, 0xFF])]) =
      Some ((-1, None) # replicate (length [(1 :: u8, [1 :: u8, 2])]) (-1, None) @ [(int (section_size [0, 0xB0, 6]), Some b)], sec') \<and>
    take (section_size [0, 0xB0, 6]) b =
      take (section_size [0, 0xB0, 6]) ([0, 0xB0, 6] @ concat (map snd [(1 :: u8, [1, 2])]) @ [3, 4, 5, 6, 0xFF])"
  by (rule psi_reassembly [where k = 1 and skip = "[0xFF]"])
     (simp_all add: static_sec_def buf_wf_def MAX_SECTION_BUF_def section_size_def)



text \<open>
  C21. The guard the reassembly lacks: a start packet whose pointer field reaches past the
  payload (with bytes after it, so that the header can be read) makes \<open>total_len\<close> negative,
  and the copy of a negative number of bytes is undefined.
\<close>

theorem pointer_field_overrun:
  assumes "unat pid < 8192" "unat len \<le> unat (pkt ! 0)" "mok e 0"
  shows "section_preproc e sec pid pkt len 1 cc TS_IS_PSI = None"
proof -
  have neg: "uint len - 1 - int (unat (pkt ! 0)) < 0"
    using assms(2) unfolding uint_nat by linarith
  have getbuf: "\<exists>b p'. sec_getbuf e p = (Some b, p')" for p
    using assms(3) by (auto simp: sec_getbuf_def Let_def split: option.splits)
  have copy: "n < 0 \<Longrightarrow> buf_copy e p off src n = None" for p off src n
    using getbuf [of p] by (auto simp: buf_copy_def memcpy_def)
  have "start_psi e p pkt len = None" for p
    using neg copy by (auto simp: start_psi_def Let_def simp del: int_nat_eq split: Option.bind_splits if_splits)
  with assms(1) show ?thesis by (simp add: section_preproc_psi)
qed

theorem pointer_field_overrun_witness:
  "section_preproc (always_ok (\<lambda>_. 0)) static_sec 0 (200 # replicate 300 0) 184 1 0 TS_IS_PSI = None"
  by (rule pointer_field_overrun) simp_all

lemma section_preproc_pes:
  assumes "unat pid < 8192"
  shows "section_preproc e sec pid pkt len pusi cc TS_IS_PES =
    map_option (\<lambda>(r, b, p). (r, b, sec(pid := p)))
      (if pusi = 1 then start_pes e ((sec pid)\<lparr>sp_cc := cc\<rparr>) pkt len else cont_pes e (sec pid) pkt len)"
  using assms by (auto simp: section_preproc_def Let_def split: Option.bind_splits)

lemma cont_pes_step:
  assumes "limit_len p \<noteq> 0" "buf_wf p" "length c < 65536"
    "cont_pes (always_ok j) p c (of_nat (length c)) = Some (r, b, p')"
  shows "limit_len p' = limit_len p" "buf_wf p'" "total_len p' = total_len p + int (length c)"
    "total_len p' \<le> int MAX_SECTION_BUF"
proof -
  obtain b0 k where g: "sec_getbuf (always_ok j) p = (Some b0, p\<lparr>sp_cap := k, buffer := Some b0\<rparr>)"
    "length b0 = MAX_SECTION_BUF"
    using sec_getbuf_ok [OF assms(2)] by blast
  have u: "uint (of_nat (length c) :: u16) = int (length c)" by (rule uint_of_nat_len) (rule assms(3))
  obtain b1 where m: "memcpy b0 (total_len p) c (int (length c)) = Some b1"
    using assms(1,4) by (auto simp: cont_pes_def buf_copy_def g u split: Option.bind_splits)
  have p': "p' = p\<lparr>sp_cap := k, buffer := Some b1, total_len := total_len p + int (length c)\<rparr>"
    using assms(1,4) by (auto simp: cont_pes_def buf_copy_def g u m Let_def split: if_splits)
  show "limit_len p' = limit_len p" "buf_wf p'" "total_len p' = total_len p + int (length c)"
    using memcpy_length [OF m] g(2) by (simp_all add: p' buf_wf_def)
  show "total_len p' \<le> int MAX_SECTION_BUF"
    using memcpy_SomeD(1,2,4) [OF m] g(2) by (simp add: p')
qed

text \<open>
  C26. A PES parser never forgets: \<open>total_len\<close> is not reset when a packet is complete, so every
  further continuation packet is appended; as soon as the continuation packets of one unit add
  up to more than the 65535 bytes of the buffer, the copy leaves it, whatever length the PES
  header announced.
\<close>

theorem pes_buffer_overflow:
  assumes "unat pid < 8192" "buf_wf (sec pid)" "limit_len (sec pid) \<noteq> 0"
    and "\<forall>(cc, c) \<in> set cs. length c < 65536"
    and "int MAX_SECTION_BUF < total_len (sec pid) + int (length (concat (map snd cs)))" "cs \<noteq> []"
  shows "sec_feed TS_IS_PES (always_ok j) sec pid (map (\<lambda>(cc, c). (0, cc, c)) cs) = None"
  using assms
proof (induction cs arbitrary: sec)
  case (Cons a cs)
  obtain cc c where a: "a = (cc, c)" by fastforce
  show ?case
  proof (cases "cont_pes (always_ok j) (sec pid) c (of_nat (length c))")
    case None
    with Cons.prems(1) a show ?thesis by (simp add: section_preproc_pes)
  next
    case (Some x)
    obtain r b p' where x: "x = (r, b, p')" by (cases x)
    have "length c < 65536" using Cons.prems(4) a by simp
    note s = cont_pes_step [OF Cons.prems(3,2) this Some [unfolded x]]
    define sec1 where "sec1 = sec(pid := p')"
    have "cs \<noteq> []" using s(3,4) Cons.prems(5) a by auto
    moreover have "sec1 pid = p'" by (simp add: sec1_def)
    ultimately have "sec_feed TS_IS_PES (always_ok j) sec1 pid (map (\<lambda>(cc, c). (0, cc, c)) cs) = None"
      using Cons.IH [of sec1] Cons.prems s a by simp
    with Some x a Cons.prems(1) show ?thesis by (simp add: section_preproc_pes sec1_def)
  qed
qed simp

theorem pes_buffer_overflow_witness:
  "sec_feed TS_IS_PES (always_ok (\<lambda>_. 0)) (static_sec(0x100 := \<lparr>total_len = 184, limit_len = 200, sp_cc = 0, buffer = None, sp_cap = 0\<rparr>))
     0x100 (map (\<lambda>(cc, c). (0, cc, c)) (replicate 356 (0, replicate 184 0))) = None"
  by (rule pes_buffer_overflow)
     (simp_all add: buf_wf_def MAX_SECTION_BUF_def length_concat sum_list_replicate)

end
