(* ===== verification/Ts_Probe.thy ===== *)
theory Ts_Probe
  imports Ts_Prelude
begin

unbundle bit_operations_syntax

text \<open>
  Detection of the packet size: \<open>analyze\<close> and \<open>mpegts_probe\<close> of \<^verbatim>\<open>src/ts.c\<close>.
\<close>

definition TS_PACKET_SIZE :: nat where "TS_PACKET_SIZE = 188"
definition TS_DVHS_PACKET_SIZE :: nat where "TS_DVHS_PACKET_SIZE = 192"
definition TS_FEC_PACKET_SIZE :: nat where "TS_FEC_PACKET_SIZE = 204"
definition CHECK_COUNT :: nat where "CHECK_COUNT = 10"

lemmas packet_sizes = TS_PACKET_SIZE_def TS_DVHS_PACKET_SIZE_def TS_FEC_PACKET_SIZE_def CHECK_COUNT_def

section \<open>The code\<close>

text \<open>The condition of the loop; the later bytes are only read when the earlier ones match.\<close>

definition looks_synced :: "bytes \<Rightarrow> nat \<Rightarrow> bool option" where
  "looks_synced buf i = do {
     a \<leftarrow> rdb buf i;
     if a \<noteq> 0x47 then Some False
     else do {
       b \<leftarrow> rdb buf (i + 1);
       if b AND 0x80 \<noteq> 0 then Some False
       else do {
         d \<leftarrow> rdb buf (i + 3);
         Some (d AND 0x30 \<noteq> 0) } } }"

text \<open>
  The loop: \<open>k\<close> iterations are left, \<open>stat\<close> has \<open>packet_size\<close> counters, and \<open>index\<close> is
  what has been stored through the pointer so far, if anything.
\<close>

fun analyze_loop ::
  "bytes \<Rightarrow> nat \<Rightarrow> nat \<Rightarrow> nat \<Rightarrow> nat \<Rightarrow> nat list \<Rightarrow> nat \<Rightarrow> nat option \<Rightarrow> (nat \<times> nat option) option" where
  "analyze_loop buf packet_size 0 i x stat best index = Some (best, index)"
| "analyze_loop buf packet_size (Suc k) i x stat best index = do {
     s \<leftarrow> looks_synced buf i;
     let stat = (if s then stat[x := stat ! x + 1] else stat);
     let up = (s \<and> stat ! x > best);
     let best = (if up then stat ! x else best);
     let index = (if up then Some x else index);
     let x = (if x + 1 = packet_size then 0 else x + 1);
     analyze_loop buf packet_size k (i + 1) x stat best index }"

definition analyze :: "bytes \<Rightarrow> int \<Rightarrow> nat \<Rightarrow> (nat \<times> nat option) option" where
  "analyze buf sz packet_size = analyze_loop buf packet_size (nat (sz - 3)) 0 0 (replicate packet_size 0) 0 None"

definition mpegts_probe :: "bytes \<Rightarrow> nat \<Rightarrow> int option" where
  "mpegts_probe buf buf_size = (let check_count = buf_size div TS_FEC_PACKET_SIZE in
     if check_count < CHECK_COUNT then Some (-1)
     else do {
       (a, _) \<leftarrow> analyze buf (int (TS_PACKET_SIZE * check_count)) TS_PACKET_SIZE;
       (b, _) \<leftarrow> analyze buf (int (TS_DVHS_PACKET_SIZE * check_count)) TS_DVHS_PACKET_SIZE;
       (c, _) \<leftarrow> analyze buf (int (TS_FEC_PACKET_SIZE * check_count)) TS_FEC_PACKET_SIZE;
       let score = a * CHECK_COUNT div check_count;
       let dvhs_score = b * CHECK_COUNT div check_count;
       let fec_score = c * CHECK_COUNT div check_count;
       Some (if score > fec_score \<and> score > dvhs_score \<and> score > 6 then 0
             else if dvhs_score > score \<and> dvhs_score > fec_score \<and> dvhs_score > 6 then 1
             else if fec_score > 6 then 2
             else -1) })"

text \<open>The packet size \<open>ts_process\<close> takes from the result of the probe.\<close>

definition probe_pktlen :: "int \<Rightarrow> nat option" where
  "probe_pktlen typ = (if typ = 0 then Some TS_PACKET_SIZE else if typ = 1 then Some TS_DVHS_PACKET_SIZE
     else if typ = 2 then Some TS_FEC_PACKET_SIZE else None)"

section \<open>What it counts\<close>

definition sync_at :: "bytes \<Rightarrow> nat \<Rightarrow> bool" where
  "sync_at buf i \<longleftrightarrow> buf ! i = 0x47 \<and> buf ! (i + 1) AND 0x80 = 0 \<and> buf ! (i + 3) AND 0x30 \<noteq> 0"

text \<open>The sync patterns among the first \<open>n\<close> positions that lie at \<open>x\<close> modulo \<open>m\<close>.\<close>

definition sync_count :: "bytes \<Rightarrow> nat \<Rightarrow> nat \<Rightarrow> nat \<Rightarrow> nat" where
  "sync_count buf m n x = card {i. i < n \<and> i mod m = x \<and> sync_at buf i}"

lemma looks_synced_eq: "i + 3 < length buf \<Longrightarrow> looks_synced buf i = Some (sync_at buf i)"
  by (auto simp: looks_synced_def sync_at_def rdb_in)

lemma sync_count_0 [simp]: "sync_count buf m 0 x = 0"
  by (simp add: sync_count_def)

lemma sync_count_Suc:
  "sync_count buf m (Suc n) x = sync_count buf m n x + (if n mod m = x \<and> sync_at buf n then 1 else 0)"
proof -
  have "{i. i < Suc n \<and> i mod m = x \<and> sync_at buf i} =
      {i. i < n \<and> i mod m = x \<and> sync_at buf i} \<union> (if n mod m = x \<and> sync_at buf n then {n} else {})"
    by (auto simp: less_Suc_eq)
  then show ?thesis
    by (auto simp: sync_count_def)
qed

lemma mod_Suc_step: "(if i mod m + 1 = m then 0 else i mod m + 1) = Suc i mod m"
  by (simp add: mod_Suc)

text \<open>The loop invariant: the counters count, \<open>best\<close> is the largest, \<open>index\<close> attains it.\<close>

definition stat_inv :: "bytes \<Rightarrow> nat \<Rightarrow> nat \<Rightarrow> nat list \<Rightarrow> nat \<Rightarrow> nat option \<Rightarrow> bool" where
  "stat_inv buf m n stat best index \<longleftrightarrow> length stat = m \<and> (\<forall>x<m. stat ! x = sync_count buf m n x) \<and>
     (\<forall>x<m. stat ! x \<le> best) \<and>
     (case index of None \<Rightarrow> best = 0 | Some x \<Rightarrow> x < m \<and> stat ! x = best \<and> 0 < best)"

lemma stat_inv_step:
  assumes "stat_inv buf m n stat best index" "0 < m"
  defines "x \<equiv> n mod m" and "s \<equiv> sync_at buf n"
  defines "stat' \<equiv> (if s then stat[x := stat ! x + 1] else stat)"
  defines "up \<equiv> s \<and> stat' ! x > best"
  shows "stat_inv buf m (Suc n) stat' (if up then stat' ! x else best) (if up then Some x else index)"
proof -
  have x: "x < m" using assms(2) by (simp add: x_def)
  have len: "length stat = m" and cnt: "\<forall>y<m. stat ! y = sync_count buf m n y"
    and le: "\<forall>y<m. stat ! y \<le> best"
    using assms(1) by (auto simp: stat_inv_def)
  have cnt': "\<forall>y<m. stat' ! y = sync_count buf m (Suc n) y"
    using len cnt x by (auto simp: stat'_def sync_count_Suc nth_list_update s_def x_def)
  have le': "\<forall>y<m. stat' ! y \<le> (if up then stat' ! x else best)"
    using len le x by (auto simp: stat'_def up_def nth_list_update)
  have "case (if up then Some x else index) of None \<Rightarrow> (if up then stat' ! x else best) = 0
      | Some y \<Rightarrow> y < m \<and> stat' ! y = (if up then stat' ! x else best) \<and> 0 < (if up then stat' ! x else best)"
    using assms(1) x len
    by (auto simp: stat_inv_def up_def stat'_def nth_list_update split: option.splits)
  moreover have "length stat' = m"
    using len by (simp add: stat'_def)
  ultimately show ?thesis
    using cnt' le' unfolding stat_inv_def by blast
qed

lemma analyze_loop_inv:
  assumes "stat_inv buf m i stat best index" "i + k + 3 \<le> length buf" "0 < m"
  shows "\<exists>stat' best' index'. analyze_loop buf m k i (i mod m) stat best index = Some (best', index') \<and>
    stat_inv buf m (i + k) stat' best' index'"
  using assms
proof (induction k arbitrary: i stat best index)
  case (Suc k)
  from Suc.prems(2) have s: "looks_synced buf i = Some (sync_at buf i)"
    by (simp add: looks_synced_eq)
  have "Suc i + k + 3 \<le> length buf" using Suc.prems(2) by simp
  from Suc.IH [OF stat_inv_step [OF Suc.prems(1,3)] this Suc.prems(3)] show ?case
    unfolding analyze_loop.simps s Option.bind_lunit Let_def mod_Suc_step add_Suc_right
    unfolding Suc_eq_plus1 [symmetric] by (simp only: add_Suc)
qed auto

lemma sync_count_le:
  assumes "0 < m" "n \<le> m * k"
  shows "sync_count buf m n x \<le> k"
proof -
  have "{i. i < n \<and> i mod m = x \<and> sync_at buf i} \<subseteq> (\<lambda>q. q * m + x) ` {..<k}"
  proof
    fix i assume i: "i \<in> {i. i < n \<and> i mod m = x \<and> sync_at buf i}"
    then have "i div m < k"
      using assms by (auto simp: less_mult_imp_div_less mult.commute)
    with i show "i \<in> (\<lambda>q. q * m + x) ` {..<k}"
      by (intro image_eqI [of _ _ "i div m"]) (auto simp: div_mult_mod_eq)
  qed
  then have "sync_count buf m n x \<le> card ((\<lambda>q. q * m + x) ` {..<k})"
    unfolding sync_count_def by (intro card_mono) auto
  also have "\<dots> \<le> k"
    using card_image_le [of "{..<k}" "\<lambda>q. q * m + x"] by simp
  finally show ?thesis .
qed

lemma analyze_max:
  assumes "0 < m" "n + 3 \<le> length buf"
  shows "\<exists>best index. analyze buf (int n + 3) m = Some (best, index) \<and>
    (\<forall>x<m. sync_count buf m n x \<le> best) \<and>
    (case index of None \<Rightarrow> best = 0 | Some x \<Rightarrow> x < m \<and> sync_count buf m n x = best \<and> 0 < best)"
proof -
  have "stat_inv buf m 0 (replicate m 0) 0 None"
    by (simp add: stat_inv_def)
  from analyze_loop_inv [OF this, of n] assms obtain stat best index where
    "analyze buf (int n + 3) m = Some (best, index)" "stat_inv buf m n stat best index"
    by (auto simp: analyze_def)
  then show ?thesis
    by (auto simp: stat_inv_def split: option.splits)
qed

section \<open>Properties\<close>

text \<open>
  C21. \<open>analyze\<close> over \<open>size\<close> readable bytes returns the largest number of sync patterns that
  share a position modulo the packet size, and stores such a position unless it found none.
\<close>

theorem analyze_best:
  assumes "0 < m" "n + 3 \<le> length buf"
  shows "\<exists>best index. analyze buf (int n + 3) m = Some (best, index) \<and>
    (\<forall>x<m. sync_count buf m n x \<le> best) \<and>
    (case index of None \<Rightarrow> best = 0 | Some x \<Rightarrow> x < m \<and> sync_count buf m n x = best \<and> 0 < best)"
  using assms by (rule analyze_max)

theorem analyze_best_witness:
  "\<exists>best index. analyze [0x47, 0, 0, 0x10, 0x47, 0, 0, 0x10, 9, 9] (int 7 + 3) 4 = Some (best, index) \<and>
    (\<forall>x<4. sync_count [0x47, 0, 0, 0x10, 0x47, 0, 0, 0x10, 9, 9] 4 7 x \<le> best) \<and>
    (case index of None \<Rightarrow> best = 0
     | Some x \<Rightarrow> x < 4 \<and> sync_count [0x47, 0, 0, 0x10, 0x47, 0, 0, 0x10, 9, 9] 4 7 x = best \<and> 0 < best)"
  by (rule analyze_best) simp_all

lemma analyze_score:
  assumes "0 < m" "m \<le> 204" "10 \<le> k" "204 * k \<le> length buf"
  shows "\<exists>a index. analyze buf (int (m * k)) m = Some (a, index) \<and> a * 10 div k \<le> 10 \<and>
    (a * 10 div k > 6 \<longrightarrow> (\<exists>x<m. 7 * k \<le> 10 * sync_count buf m (m * k - 3) x))"
proof -
  have mk: "m * k \<le> 204 * k" "10 \<le> m * k" using assms mult_le_mono [of 1 m 10 k] by auto
  from analyze_max [of m "m * k - 3" buf] assms mk obtain a index where a: "analyze buf (int (m * k)) m = Some (a, index)"
    "\<forall>x<m. sync_count buf m (m * k - 3) x \<le> a"
    "case index of None \<Rightarrow> a = 0 | Some x \<Rightarrow> x < m \<and> sync_count buf m (m * k - 3) x = a \<and> 0 < a"
    by (auto simp: of_nat_diff)
  have le: "a \<le> k"
    using a(3) sync_count_le [OF assms(1), of "m * k - 3" k buf] by (auto split: option.splits)
  have "a * 10 div k \<le> k * 10 div k" using le by (intro div_le_mono) simp
  moreover have "\<exists>x<m. 7 * k \<le> 10 * sync_count buf m (m * k - 3) x" if "a * 10 div k > 6"
  proof -
    have "7 * k \<le> a * 10" using that assms(3) by (simp add: less_eq_div_iff_mult_less_eq Suc_le_eq [symmetric])
    moreover have "a \<noteq> 0" using that by (intro notI) simp
    ultimately show ?thesis using a(3) by (auto simp: mult.commute split: option.splits)
  qed
  ultimately show ?thesis using a(1) assms(3) by auto
qed

lemma mpegts_probe_law:
  assumes "buf_size \<le> length buf"
  shows "\<exists>typ. mpegts_probe buf buf_size = Some typ \<and>
    (\<forall>m. probe_pktlen typ = Some m \<longrightarrow> (let k = buf_size div TS_FEC_PACKET_SIZE in
       10 \<le> k \<and> (\<exists>x<m. 7 * k \<le> 10 * sync_count buf m (m * k - 3) x)))"
proof (cases "buf_size div 204 < 10")
  case True
  then show ?thesis by (simp add: mpegts_probe_def packet_sizes probe_pktlen_def)
next
  case False
  define k where "k = buf_size div 204"
  have k: "10 \<le> k" "204 * k \<le> length buf" using False assms by (auto simp: k_def)
  obtain a i where a: "analyze buf (int (188 * k)) 188 = Some (a, i)"
    "a * 10 div k > 6 \<longrightarrow> (\<exists>x<188. 7 * k \<le> 10 * sync_count buf 188 (188 * k - 3) x)"
    using analyze_score [of 188 k buf] k by auto
  obtain b i' where b: "analyze buf (int (192 * k)) 192 = Some (b, i')"
    "b * 10 div k > 6 \<longrightarrow> (\<exists>x<192. 7 * k \<le> 10 * sync_count buf 192 (192 * k - 3) x)"
    using analyze_score [of 192 k buf] k by auto
  obtain c i'' where c: "analyze buf (int (204 * k)) 204 = Some (c, i'')"
    "c * 10 div k > 6 \<longrightarrow> (\<exists>x<204. 7 * k \<le> 10 * sync_count buf 204 (204 * k - 3) x)"
    using analyze_score [of 204 k buf] k by auto
  show ?thesis
    using a b c k(1) by (simp add: mpegts_probe_def packet_sizes probe_pktlen_def Let_def flip: k_def)
qed

text \<open>
  C22. The probe reads only inside its buffer, and it names a packet size only when, at one
  offset, at least seven tenths of the packets of that size it looked at start with a sync
  pattern.
\<close>

theorem mpegts_probe_majority:
  assumes "buf_size \<le> length buf"
  shows "\<exists>typ. mpegts_probe buf buf_size = Some typ \<and>
    (\<forall>m. probe_pktlen typ = Some m \<longrightarrow> (let k = buf_size div TS_FEC_PACKET_SIZE in
       10 \<le> k \<and> (\<exists>x<m. 7 * k \<le> 10 * sync_count buf m (m * k - 3) x)))"
  using assms by (rule mpegts_probe_law)

theorem mpegts_probe_majority_witness:
  "\<exists>typ. mpegts_probe (replicate 2040 0) 2040 = Some typ \<and>
    (\<forall>m. probe_pktlen typ = Some m \<longrightarrow> (let k = 2040 div TS_FEC_PACKET_SIZE in
       10 \<le> k \<and> (\<exists>x<m. 7 * k \<le> 10 * sync_count (replicate 2040 0) m (m * k - 3) x)))"
  by (rule mpegts_probe_majority) simp

end
