(* ===== verification/Descriptor.thy ===== *)
theory Descriptor
  imports Ts_Prelude
begin

unbundle bit_operations_syntax

text \<open>
  The descriptor parsers.  \<^verbatim>\<open>include/descriptor.h\<close> generates one parser per descriptor
  from a list of members, \<open>foreach_X_member\<close>, each member a macro (\<open>__m\<close>, \<open>__m1\<close>,
  \<open>__mplast\<close>, \<dots>) whose parsing expansion is defined once.  Here the macros are the
  constructors of \<open>member\<close>, their parsing expansion is \<open>member_step\<close>, and a generated
  parser is \<open>parse_members\<close> on its list.  The lists are in the theory
  \<open>Descriptor_Tables\<close>; the loop over a descriptor area is \<open>parse_descriptors\<close>, generic
  in the table of parsers.
\<close>

section \<open>Members\<close>

datatype ctype = T_uint8 | T_uint16 | T_uint24 | T_uint32 | T_uint64

text \<open>The hand-written parsers that some members call.\<close>

datatype custom =
    parse_extend_event_linkage_info
  | parse_multilingual_node
  | parse_multilingual_service_node
  | parse_cell_list
  | parse_cell_frequency_link
  | parse_compatibility
  | parse_module_info_list
  | parse_text_info

text \<open>
  Structure types appear only through their size.  \<open>Mlv\<close> has the member that counts the
  elements and a divisor (one list writes \<open>area_code_length/2\<close>); \<open>Mploop\<close> has the offset of
  the length inside the element.
\<close>

datatype member =
    M ctype string nat
  | M1 ctype string
  | Mplast nat string
  | Mplast_sub custom string
  | Mif nat string string nat
  | Mif_custom custom string string nat
  | Mrangelv_custom custom string string nat nat
  | Mlv nat string nat string
  | Mploop nat string
  | Mploop_custom custom string

text \<open>Values of fields: numbers, raw bytes in memory order, arrays and structures.\<close>

datatype fval = FNum nat | FBytes bytes | FList "fval list" | FRec "(string \<times> fval) list"

type_synonym fields = "(string \<times> fval) list"

text \<open>A field that has not been written is zero: the structure comes from \<open>calloc\<close>.\<close>

fun le_num :: "bytes \<Rightarrow> nat" where
  "le_num [] = 0"
| "le_num (b # bs) = unat b + 256 * le_num bs"

definition fnum :: "fields \<Rightarrow> string \<Rightarrow> nat" where
  "fnum fs nm = (case map_of fs nm of
     Some (FNum n) \<Rightarrow> n | Some (FBytes bs) \<Rightarrow> le_num bs | _ \<Rightarrow> 0)"

definition sizeof :: "ctype \<Rightarrow> nat" where
  "sizeof ty = (case ty of T_uint8 \<Rightarrow> 1 | T_uint16 \<Rightarrow> 2 | T_uint24 \<Rightarrow> 3 | T_uint32 \<Rightarrow> 4 | T_uint64 \<Rightarrow> 8)"

definition read_bits :: "ctype \<Rightarrow> bytes \<Rightarrow> nat \<Rightarrow> nat \<Rightarrow> nat option" where
  "read_bits ty p n off = (case ty of
     T_uint8 \<Rightarrow> map_option unat (TS_READ8_BITS p n off)
   | T_uint16 \<Rightarrow> map_option unat (TS_READ16_BITS p n off)
   | T_uint24 \<Rightarrow> map_option unat (TS_READ64_BITS p n off)
   | T_uint32 \<Rightarrow> map_option unat (TS_READ32_BITS p n off)
   | T_uint64 \<Rightarrow> map_option unat (TS_READ64_BITS p n off))"

definition ts_read_uint24 :: "bytes \<Rightarrow> bytes option" where
  "ts_read_uint24 p = do { a \<leftarrow> rdb p 0; b \<leftarrow> rdb p 1; c \<leftarrow> rdb p 2; Some [a, b, c] }"

definition read_whole :: "ctype \<Rightarrow> bytes \<Rightarrow> fval option" where
  "read_whole ty p = (case ty of
     T_uint8 \<Rightarrow> map_option (\<lambda>x. FNum (unat x)) (TS_READ8 p)
   | T_uint16 \<Rightarrow> map_option (\<lambda>x. FNum (unat x)) (TS_READ16 p)
   | T_uint24 \<Rightarrow> map_option FBytes (ts_read_uint24 p)
   | T_uint32 \<Rightarrow> map_option (\<lambda>x. FNum (unat x)) (TS_READ32 p)
   | T_uint64 \<Rightarrow> map_option (\<lambda>x. FNum (unat x)) (TS_READ64 p))"

text \<open>\<open>memcpy\<close> of \<open>n\<close> bytes at offset \<open>off\<close> into a fresh object of that size.\<close>

definition rd_bytes :: "bytes \<Rightarrow> nat \<Rightarrow> nat \<Rightarrow> bytes option" where
  "rd_bytes p off n = (if off + n \<le> length p then Some (take n (drop off p)) else None)"


section \<open>The hand-written parsers\<close>

text \<open>
  Each returns the number of bytes its caller has to skip and the structure.  When an
  allocation fails it returns an error number, which the caller adds to its offset all the
  same; the structure is then what has been filled in so far.
\<close>

definition r8 :: "bytes \<Rightarrow> nat \<Rightarrow> nat option" where
  "r8 p off = map_option unat (TS_READ8 (drop off p))"
definition r16 :: "bytes \<Rightarrow> nat \<Rightarrow> nat option" where
  "r16 p off = map_option unat (TS_READ16 (drop off p))"
definition r32 :: "bytes \<Rightarrow> nat \<Rightarrow> nat option" where
  "r32 p off = map_option unat (TS_READ32 (drop off p))"

text \<open>
  One entry of the loop of \<open>__parse_extend_event_linkage_info\<close>: the flags are read from
  \<open>buf\<close>, the start of the structure, and not from the running pointer.
\<close>

definition eel_entry :: "bytes \<Rightarrow> nat \<Rightarrow> (fval \<times> nat) option" where
  "eel_entry buf ptr = do {
     target_event_id \<leftarrow> r16 buf ptr;
     target_listed \<leftarrow> read_bits T_uint8 buf 1 0;
     event_simulcast \<leftarrow> read_bits T_uint8 buf 1 1;
     link_type \<leftarrow> read_bits T_uint8 buf 2 2;
     target_id_type \<leftarrow> read_bits T_uint8 buf 2 4;
     original_network_id_flag \<leftarrow> read_bits T_uint8 buf 1 6;
     service_id_flag \<leftarrow> read_bits T_uint8 buf 1 7;
     let common = [(''target_event_id'', FNum target_event_id), (''target_listed'', FNum target_listed),
       (''event_simulcast'', FNum event_simulcast), (''link_type'', FNum link_type),
       (''target_id_type'', FNum target_id_type), (''original_network_id_flag'', FNum original_network_id_flag),
       (''service_id_flag'', FNum service_id_flag)];
     let p = ptr + 3;
     if target_id_type = 3 then do {
       u \<leftarrow> r16 buf p;
       Some (FRec (common @ [(''user_defined_id'', FNum u)]), 5) }
     else do {
       (f1, p1) \<leftarrow> (if target_id_type = 1 then do { t \<leftarrow> r16 buf p; Some ([(''target_transport_stream_id'', FNum t)], p + 2) }
                    else Some ([], p));
       (f2, p2) \<leftarrow> (if original_network_id_flag \<noteq> 0 then do { t \<leftarrow> r16 buf p1; Some ([(''target_original_network_id'', FNum t)], p1 + 2) }
                    else Some ([], p1));
       (f3, p3) \<leftarrow> (if service_id_flag \<noteq> 0 then do { t \<leftarrow> r16 buf p2; Some ([(''target_service_id'', FNum t)], p2 + 2) }
                    else Some ([], p2));
       Some (FRec (common @ f1 @ f2 @ f3), p3 - ptr) } }"

text \<open>The loop advances by at least three; the fuel \<open>k\<close> is the number of bytes left.\<close>

fun eel_loop :: "alloc_env \<Rightarrow> bytes \<Rightarrow> nat \<Rightarrow> nat \<Rightarrow> nat \<Rightarrow> nat \<Rightarrow> fval list \<Rightarrow> (int \<times> fval) option" where
  "eel_loop e buf n k l i acc = (let res = FRec [(''loop_length'', FNum n), (''subinfo'', FList acc)] in
     if n \<le> l then Some (int n + 1, res)
     else if \<not> mok e i then Some (ENOMEM, res)
     else case k of 0 \<Rightarrow> None
     | Suc k \<Rightarrow> do {
         (r, d) \<leftarrow> eel_entry buf (l + 1);
         eel_loop e buf n k (l + d) (Suc i) (acc @ [r]) })"

definition extend_event_linkage_info :: "alloc_env \<Rightarrow> bytes \<Rightarrow> (int \<times> fval) option" where
  "extend_event_linkage_info e buf = do {
     n \<leftarrow> r8 buf 0;
     eel_loop e buf n n 0 0 [] }"

definition multilingual_node :: "alloc_env \<Rightarrow> bytes \<Rightarrow> (int \<times> fval) option" where
  "multilingual_node e buf = do {
     code \<leftarrow> read_bits T_uint32 buf 24 0;
     n \<leftarrow> read_bits T_uint32 buf 8 24;
     let hd = [(''ISO_639_language_code'', FNum code), (''name_length'', FNum n)];
     if \<not> mok e 0 then Some (ENOMEM, FRec hd)
     else do {
       t \<leftarrow> rd_bytes buf 4 n;
       Some (int n + 4, FRec (hd @ [(''text_char'', FBytes t)])) } }"

definition multilingual_service_node :: "alloc_env \<Rightarrow> bytes \<Rightarrow> (int \<times> fval) option" where
  "multilingual_service_node e buf = do {
     code \<leftarrow> read_bits T_uint32 buf 24 0;
     n \<leftarrow> read_bits T_uint32 buf 8 24;
     let hd = [(''ISO_639_language_code'', FNum code), (''name_length'', FNum n)];
     if \<not> mok e 0 then Some (ENOMEM, FRec hd)
     else do {
       t \<leftarrow> rd_bytes buf 4 n;
       m \<leftarrow> r8 buf (4 + n);
       let hd = hd @ [(''text_char'', FBytes t), (''service_name_length'', FNum m)];
       if \<not> mok e 1 then Some (ENOMEM, FRec hd)
       else do {
         s \<leftarrow> rd_bytes buf (5 + n) m;
         Some (int n + 5 + int m, FRec (hd @ [(''service_char'', FBytes s)])) } } }"

fun subcells :: "bytes \<Rightarrow> nat \<Rightarrow> nat \<Rightarrow> fval list option" where
  "subcells buf ptr 0 = Some []"
| "subcells buf ptr (Suc k) = do {
     a \<leftarrow> read_bits T_uint64 (drop ptr buf) 8 0;
     b \<leftarrow> read_bits T_uint64 (drop ptr buf) 16 8;
     c \<leftarrow> read_bits T_uint64 (drop ptr buf) 16 24;
     d \<leftarrow> read_bits T_uint64 (drop ptr buf) 12 40;
     f \<leftarrow> read_bits T_uint64 (drop ptr buf) 12 52;
     rest \<leftarrow> subcells buf (ptr + 8) k;
     Some (FRec [(''cell_id_extension'', FNum a), (''subcell_latitude'', FNum b), (''subcell_longitude'', FNum c),
       (''subcell_extent_of_latitude'', FNum d), (''subcell_extent_of_longitude'', FNum f)] # rest) }"

definition cell_list_node :: "alloc_env \<Rightarrow> bytes \<Rightarrow> (int \<times> fval) option" where
  "cell_list_node e buf = do {
     cell_id \<leftarrow> r16 buf 0;
     lat \<leftarrow> r16 buf 2;
     lon \<leftarrow> r16 buf 4;
     elat \<leftarrow> read_bits T_uint32 (drop 6 buf) 12 0;
     elon \<leftarrow> read_bits T_uint32 (drop 6 buf) 12 12;
     n \<leftarrow> read_bits T_uint32 (drop 6 buf) 8 24;
     let hd = [(''cell_id'', FNum cell_id), (''cell_latitude'', FNum lat), (''cell_longitude'', FNum lon),
       (''cell_extent_of_latitude'', FNum elat), (''cell_extent_of_longitude'', FNum elon),
       (''subcell_info_loop_length'', FNum n)];
     if \<not> mok e 0 then Some (ENOMEM, FRec hd)
     else do {
       subs \<leftarrow> subcells buf 10 (n div 8);
       Some (int (10 + 8 * (n div 8)), FRec (hd @ [(''subcell_list'', FList subs)])) } }"

fun subcell_freqs :: "bytes \<Rightarrow> nat \<Rightarrow> nat \<Rightarrow> fval list option" where
  "subcell_freqs buf ptr 0 = Some []"
| "subcell_freqs buf ptr (Suc k) = do {
     a \<leftarrow> r8 buf ptr;
     f \<leftarrow> r32 buf (ptr + 1);
     rest \<leftarrow> subcell_freqs buf (ptr + 5) k;
     Some (FRec [(''cell_id_extension'', FNum a), (''transposer_frequency'', FNum f)] # rest) }"

definition cell_frequency_node :: "alloc_env \<Rightarrow> bytes \<Rightarrow> (int \<times> fval) option" where
  "cell_frequency_node e buf = do {
     cell_id \<leftarrow> r16 buf 0;
     freq \<leftarrow> r32 buf 2;
     n \<leftarrow> r8 buf 6;
     let hd = [(''cell_id'', FNum cell_id), (''frequency'', FNum freq), (''subcell_info_loop_length'', FNum n)];
     if \<not> mok e 0 then Some (ENOMEM, FRec hd)
     else do {
       subs \<leftarrow> subcell_freqs buf 7 (n div 5);
       Some (int (7 + 5 * (n div 5)), FRec (hd @ [(''subcell_info_list'', FList subs)])) } }"

text \<open>
  The three parsers of the ISDB \<open>download_content\<close> descriptor.  The running pointer is an
  offset; \<open>Inl\<close> is the early return after a failed allocation.
\<close>

fun sub_descriptors :: "alloc_env \<Rightarrow> bytes \<Rightarrow> nat \<Rightarrow> nat \<Rightarrow> nat \<Rightarrow> fval list \<Rightarrow> (fval list + fval list \<times> nat) option" where
  "sub_descriptors e buf ptr j 0 acc = Some (Inr (acc, ptr))"
| "sub_descriptors e buf ptr j (Suc k) acc = do {
     tag \<leftarrow> r8 buf ptr;
     n \<leftarrow> r8 buf (ptr + 1);
     let hd = [(''sub_descriptor_tag'', FNum tag), (''sub_descriptor_length'', FNum n)];
     if \<not> mok e j then Some (Inl (acc @ [FRec hd]))
     else do {
       b \<leftarrow> rd_bytes buf (ptr + 2) n;
       sub_descriptors e buf (ptr + 2 + n) (Suc j) k (acc @ [FRec (hd @ [(''sub_descriptor_byte'', FBytes b)])]) } }"

fun compat_list :: "alloc_env \<Rightarrow> bytes \<Rightarrow> nat \<Rightarrow> nat \<Rightarrow> nat \<Rightarrow> fval list \<Rightarrow> (fval list + fval list \<times> nat) option" where
  "compat_list e buf ptr i 0 acc = Some (Inr (acc, ptr))"
| "compat_list e buf ptr i (Suc k) acc = do {
     ty \<leftarrow> r8 buf ptr;
     len \<leftarrow> r8 buf (ptr + 1);
     st \<leftarrow> read_bits T_uint32 (drop (ptr + 2) buf) 8 0;
     sd \<leftarrow> read_bits T_uint32 (drop (ptr + 2) buf) 24 8;
     mdl \<leftarrow> r16 buf (ptr + 6);
     ver \<leftarrow> r16 buf (ptr + 8);
     n \<leftarrow> r8 buf (ptr + 10);
     let hd = [(''type'', FNum ty), (''length'', FNum len), (''specifierType'', FNum st), (''specifierData'', FNum sd),
       (''model'', FNum mdl), (''version'', FNum ver), (''count'', FNum n)];
     if \<not> mok e i then Some (Inl (acc @ [FRec hd]))
     else do {
       r \<leftarrow> sub_descriptors e buf (ptr + 11) 0 n [];
       (case r of
          Inl subs \<Rightarrow> Some (Inl (acc @ [FRec (hd @ [(''sub'', FList subs)])]))
        | Inr (subs, ptr') \<Rightarrow> compat_list e buf ptr' (Suc i) k (acc @ [FRec (hd @ [(''sub'', FList subs)])])) } }"

definition compatibility_descriptor :: "alloc_env \<Rightarrow> bytes \<Rightarrow> (int \<times> fval) option" where
  "compatibility_descriptor e buf = do {
     len \<leftarrow> r16 buf 0;
     n \<leftarrow> r16 buf 2;
     let hd = [(''length'', FNum len), (''count'', FNum n)];
     if \<not> mok e 0 then Some (- ENOMEM, FRec hd)
     else do {
       r \<leftarrow> compat_list e buf 4 0 n [];
       (case r of
          Inl subs \<Rightarrow> Some (- ENOMEM, FRec (hd @ [(''sub'', FList subs)]))
        | Inr (subs, ptr) \<Rightarrow> Some (int ptr, FRec (hd @ [(''sub'', FList subs)]))) } }"

fun module_infos :: "alloc_env \<Rightarrow> bytes \<Rightarrow> nat \<Rightarrow> nat \<Rightarrow> nat \<Rightarrow> fval list \<Rightarrow> (fval list + fval list \<times> nat) option" where
  "module_infos e buf ptr i 0 acc = Some (Inr (acc, ptr))"
| "module_infos e buf ptr i (Suc k) acc = do {
     module_id \<leftarrow> r16 buf ptr;
     module_size \<leftarrow> r32 buf (ptr + 2);
     n \<leftarrow> r8 buf (ptr + 6);
     let hd = [(''module_id'', FNum module_id), (''module_size'', FNum module_size), (''module_info_length'', FNum n)];
     if \<not> mok e i then Some (Inl (acc @ [FRec hd]))
     else do {
       b \<leftarrow> rd_bytes buf (ptr + 7) n;
       module_infos e buf (ptr + 7 + n) (Suc i) k (acc @ [FRec (hd @ [(''module_info_byte'', FBytes b)])]) } }"

definition module_info_list :: "alloc_env \<Rightarrow> bytes \<Rightarrow> (int \<times> fval) option" where
  "module_info_list e buf = do {
     n \<leftarrow> r16 buf 0;
     let hd = [(''num_of_modules'', FNum n)];
     if \<not> mok e 0 then Some (- ENOMEM, FRec hd)
     else do {
       r \<leftarrow> module_infos e buf 2 0 n [];
       (case r of
          Inl ms \<Rightarrow> Some (- ENOMEM, FRec (hd @ [(''info'', FList ms)]))
        | Inr (ms, ptr) \<Rightarrow> Some (int ptr, FRec (hd @ [(''info'', FList ms)]))) } }"

definition text_info :: "alloc_env \<Rightarrow> bytes \<Rightarrow> (int \<times> fval) option" where
  "text_info e buf = do {
     code \<leftarrow> read_bits T_uint32 buf 24 0;
     n \<leftarrow> read_bits T_uint32 buf 8 24;
     let hd = [(''ISO_639_language_code'', FNum code), (''text_length'', FNum n)];
     if \<not> mok e 0 then Some (ENOMEM, FRec hd)
     else do {
       t \<leftarrow> rd_bytes buf 4 n;
       Some (int n + 4, FRec (hd @ [(''text_char'', FBytes t)])) } }"

definition custom_parse :: "alloc_env \<Rightarrow> custom \<Rightarrow> bytes \<Rightarrow> (int \<times> fval) option" where
  "custom_parse e c buf = (case c of
     parse_extend_event_linkage_info \<Rightarrow> extend_event_linkage_info e buf
   | parse_multilingual_node \<Rightarrow> multilingual_node e buf
   | parse_multilingual_service_node \<Rightarrow> multilingual_service_node e buf
   | parse_cell_list \<Rightarrow> cell_list_node e buf
   | parse_cell_frequency_link \<Rightarrow> cell_frequency_node e buf
   | parse_compatibility \<Rightarrow> compatibility_descriptor e buf
   | parse_module_info_list \<Rightarrow> module_info_list e buf
   | parse_text_info \<Rightarrow> text_info e buf)"

section \<open>The parsing expansion of the members\<close>

text \<open>
  \<open>bits_off\<close> and \<open>bytes_off\<close> are the local variables of a generated parser, \<open>dr\<close> the
  structure it fills.  A member continues (\<open>Inr\<close>) or makes the parser return (\<open>Inl\<close>).
\<close>

record pstate =
  bits_off :: nat
  bytes_off :: nat
  dr :: fields

type_synonym pres = "((int \<times> fields) + pstate) option"

definition put :: "string \<Rightarrow> fval \<Rightarrow> pstate \<Rightarrow> pstate" where
  "put nm v s = s\<lparr>dr := (nm, v) # dr s\<rparr>"

text \<open>
  The loop of \<open>__mplast\<close>: it ends when \<open>bytes_off\<close> \<^emph>\<open>equals\<close> the end of the
  descriptor, since the difference is unsigned; past the end it goes on reading.
\<close>

function plast_loop :: "alloc_env \<Rightarrow> nat \<Rightarrow> bytes \<Rightarrow> nat \<Rightarrow> nat \<Rightarrow> fval list \<Rightarrow> (fval list + fval list \<times> nat) option" where
  "plast_loop e sz buf lim off acc =
     (if off = lim then Some (Inr (acc, off))
      else if \<not> mok e (length acc) then Some (Inl acc)
      else if sz = 0 \<or> length buf < off + sz then None
      else plast_loop e sz buf lim (off + sz) (acc @ [FBytes (take sz (drop off buf))]))"
  by pat_completeness auto
termination
  by (relation "measure (\<lambda>(e, sz, buf, lim, off, acc). length buf - off)") auto

text \<open>
  The loops that call a hand-written parser, until the end is met exactly (\<open>exact\<close>) or
  passed.  Every such parser reads at \<open>off\<close> and skips at least one byte.
\<close>

function sub_loop :: "alloc_env \<Rightarrow> custom \<Rightarrow> bool \<Rightarrow> bytes \<Rightarrow> nat \<Rightarrow> nat \<Rightarrow> fval list \<Rightarrow> (fval list + fval list \<times> nat) option" where
  "sub_loop e c exact buf lim off acc =
     (if (if exact then off = lim else lim \<le> off) then Some (Inr (acc, off))
      else if \<not> mok e (length acc) then Some (Inl acc)
      else case custom_parse e c (drop off buf) of
        None \<Rightarrow> None
      | Some (r, v) \<Rightarrow>
          (if r \<le> 0 \<or> length buf \<le> off then None
           else sub_loop e c exact buf lim (off + nat r) (acc @ [v])))"
  by pat_completeness auto
termination
  by (relation "measure (\<lambda>(e, c, ex, buf, lim, off, acc). length buf - off)") auto

text \<open>The loop of \<open>__mploop\<close>: \<open>k\<close> bytes, a length, and that many bytes.\<close>

function ploop_loop :: "alloc_env \<Rightarrow> nat \<Rightarrow> bytes \<Rightarrow> nat \<Rightarrow> nat \<Rightarrow> fval list \<Rightarrow> (fval list + fval list \<times> nat) option" where
  "ploop_loop e k buf lim off acc =
     (if off = lim then Some (Inr (acc, off))
      else if \<not> mok e (length acc) then Some (Inl acc)
      else case (rd_bytes buf off k, r8 buf (off + k)) of
        (Some h, Some n) \<Rightarrow>
          (case rd_bytes buf (off + k + 1) n of
             None \<Rightarrow> None
           | Some b \<Rightarrow> ploop_loop e k buf lim (off + k + 1 + n)
               (acc @ [FRec [(''head'', FBytes h), (''length'', FNum n), (''bytes'', FBytes b)]]))
      | _ \<Rightarrow> None)"
  by pat_completeness auto
termination
  by (relation "measure (\<lambda>(e, k, buf, lim, off, acc). length buf - off)")
     (auto simp: rd_bytes_def split: if_splits)

definition finish_loop :: "string \<Rightarrow> pstate \<Rightarrow> fval list + fval list \<times> nat \<Rightarrow> pres" where
  "finish_loop nm s r = (case r of
     Inl acc \<Rightarrow> Some (Inl (ENOMEM, (nm, FList acc) # dr s))
   | Inr (acc, off) \<Rightarrow> Some (Inr ((put nm (FList acc) s)\<lparr>bytes_off := off\<rparr>)))"

text \<open>\<open>bytes_off += r\<close> for the \<open>uint32_t\<close> offset and an \<open>int\<close> result.\<close>

definition advance :: "int \<Rightarrow> pstate \<Rightarrow> pstate" where
  "advance r s = s\<lparr>bytes_off := nat ((int (bytes_off s) + r) mod 4294967296)\<rparr>"

definition call_custom :: "alloc_env \<Rightarrow> custom \<Rightarrow> string \<Rightarrow> bytes \<Rightarrow> pstate \<Rightarrow> pres" where
  "call_custom e c nm buf s = do {
     (r, v) \<leftarrow> custom_parse e c (drop (bytes_off s) buf);
     Some (Inr (advance r (put nm v s))) }"

fun member_step :: "alloc_env \<Rightarrow> bytes \<Rightarrow> nat \<Rightarrow> nat \<Rightarrow> member \<Rightarrow> pstate \<Rightarrow> pres" where
  "member_step e buf len dlen (M ty nm bits) s = do {
     v \<leftarrow> read_bits ty (drop (bytes_off s) buf) bits (bits_off s);
     let b = bits_off s + bits;
     Some (Inr ((put nm (FNum v) s)\<lparr>bits_off := b mod 8, bytes_off := bytes_off s + b div 8\<rparr>)) }"
| "member_step e buf len dlen (M1 ty nm) s =
     (if bytes_off s < len then do {
        v \<leftarrow> read_whole ty (drop (bytes_off s) buf);
        Some (Inr ((put nm v s)\<lparr>bytes_off := bytes_off s + sizeof ty\<rparr>)) }
      else Some (Inr s))"
| "member_step e buf len dlen (Mplast sz nm) s =
     plast_loop e sz buf (dlen + 2) (bytes_off s) [] \<bind> finish_loop nm s"
| "member_step e buf len dlen (Mplast_sub c nm) s =
     sub_loop e c True buf (dlen + 2) (bytes_off s) [] \<bind> finish_loop nm s"
| "member_step e buf len dlen (Mif sz nm cond val) s =
     (if fnum (dr s) cond = val then do {
        b \<leftarrow> rd_bytes buf (bytes_off s) sz;
        Some (Inr ((put nm (FBytes b) s)\<lparr>bytes_off := bytes_off s + sz\<rparr>)) }
      else Some (Inr s))"
| "member_step e buf len dlen (Mif_custom c nm cond val) s =
     (if fnum (dr s) cond = val then call_custom e c nm buf s else Some (Inr s))"
| "member_step e buf len dlen (Mrangelv_custom c nm cond lo hi) s =
     (if lo \<le> fnum (dr s) cond \<and> fnum (dr s) cond \<le> hi then call_custom e c nm buf s else Some (Inr s))"
| "member_step e buf len dlen (Mlv sz cntname d nm) s =
     (if \<not> mok e 0 then Some (Inl (ENOMEM, dr s))
      else do {
        let n = fnum (dr s) cntname div d;
        b \<leftarrow> rd_bytes buf (bytes_off s) (n * sz);
        Some (Inr ((put nm (FBytes b) s)\<lparr>bytes_off := bytes_off s + n * sz\<rparr>)) })"
| "member_step e buf len dlen (Mploop k nm) s =
     ploop_loop e k buf len (bytes_off s) [] \<bind> finish_loop nm s"
| "member_step e buf len dlen (Mploop_custom c nm) s =
     sub_loop e c False buf len (bytes_off s) [] \<bind> finish_loop nm s"

fun members_loop :: "alloc_env \<Rightarrow> bytes \<Rightarrow> nat \<Rightarrow> nat \<Rightarrow> member list \<Rightarrow> pstate \<Rightarrow> pres" where
  "members_loop e buf len dlen [] s = Some (Inr s)"
| "members_loop e buf len dlen (m # ms) s = do {
     r \<leftarrow> member_step e buf len dlen m s;
     (case r of Inl ret \<Rightarrow> Some (Inl ret) | Inr s' \<Rightarrow> members_loop e buf len dlen ms s') }"

text \<open>
  \<open>parse_X_descriptor\<close>.  The final \<open>assert(bits_off == 0)\<close> is part of it.
\<close>

definition parse_members :: "alloc_env \<Rightarrow> u8 \<Rightarrow> member list \<Rightarrow> bytes \<Rightarrow> nat \<Rightarrow> (int \<times> fields) option" where
  "parse_members e tag ms buf len = do {
     t \<leftarrow> rdb buf 0;
     if t \<noteq> tag then Some (-1, [])
     else do {
       n \<leftarrow> rdb buf 1;
       r \<leftarrow> members_loop e buf len (unat n) ms \<lparr>bits_off = 0, bytes_off = 2, dr = []\<rparr>;
       (case r of
          Inl ret \<Rightarrow> Some ret
        | Inr s \<Rightarrow> if bits_off s = 0 then Some (0, dr s) else None) } }"

section \<open>The loop over a descriptor area\<close>

text \<open>
  An entry of \<open>des_ops\<close>: the generic parser for unknown tags, or a generated one.  The
  object of the generic one has room for 253 bytes of data.
\<close>

datatype desc_ops = Reserved | Generated u8 "member list"

record descriptor =
  d_tag :: u8
  d_length :: u8
  d_body :: fields

definition parse_reserved_descriptor :: "bytes \<Rightarrow> (int \<times> fields) option" where
  "parse_reserved_descriptor buf = do {
     n \<leftarrow> rdb buf 1;
     if 253 < unat n then None
     else do { b \<leftarrow> rd_bytes buf 2 (unat n); Some (0, [(''data'', FBytes b)]) } }"

definition descriptor_parse :: "alloc_env \<Rightarrow> desc_ops \<Rightarrow> bytes \<Rightarrow> nat \<Rightarrow> (int \<times> fields) option" where
  "descriptor_parse e ops buf len = (case ops of
     Reserved \<Rightarrow> parse_reserved_descriptor buf
   | Generated tag ms \<Rightarrow> parse_members e tag ms buf len)"

text \<open>
  \<open>parse_descriptors\<close>: \<open>i\<close> counts the descriptors allocated so far.  The result of the
  allocation is not checked: a null pointer is written through.
\<close>

function desc_loop :: "alloc_env \<Rightarrow> (u8 \<Rightarrow> desc_ops) \<Rightarrow> bytes \<Rightarrow> int \<Rightarrow> nat \<Rightarrow> descriptor list option" where
  "desc_loop e des_ops ptr l i =
     (if l \<le> 0 then Some []
      else do {
        tag \<leftarrow> rdb ptr 0;
        n \<leftarrow> rdb ptr 1;
        if \<not> mok e i then None
        else do {
          (rc, body) \<leftarrow> descriptor_parse (in_node e i) (des_ops tag) ptr (unat n + 2);
          rest \<leftarrow> desc_loop e des_ops (drop (unat n + 2) ptr) (l - (int (unat n) + 2)) (Suc i);
          Some (\<lparr>d_tag = tag, d_length = n, d_body = body\<rparr> # rest) } })"
  by pat_completeness auto
termination
  by (relation "measure (\<lambda>(e, ops, ptr, l, i). nat l)") (auto intro: order.strict_trans1 [of _ 0])

definition parse_descriptors :: "alloc_env \<Rightarrow> (u8 \<Rightarrow> desc_ops) \<Rightarrow> bytes \<Rightarrow> int \<Rightarrow> descriptor list option" where
  "parse_descriptors e des_ops buf len = desc_loop e des_ops buf len 0"

definition has_descritpor_tag :: "descriptor list \<Rightarrow> u8 \<Rightarrow> bool" where
  "has_descritpor_tag ds tag = list_ex (\<lambda>d. d_tag d = tag) ds"

declare plast_loop.simps [simp del] sub_loop.simps [simp del] ploop_loop.simps [simp del] desc_loop.simps [simp del]
  eel_loop.simps [simp del]

section \<open>Parsers do not look past their input\<close>

lemma stable_case_sum [stable_intros]:
  "\<lbrakk>\<And>a. stable (\<lambda>p. f p a); \<And>b. stable (\<lambda>p. g p b)\<rbrakk> \<Longrightarrow> stable (\<lambda>p. case x of Inl a \<Rightarrow> f p a | Inr b \<Rightarrow> g p b)"
  by (cases x) auto

lemma stable_case_prod [stable_intros]:
  "(\<And>a b. stable (\<lambda>p. f p a b)) \<Longrightarrow> stable (\<lambda>p. case x of (a, b) \<Rightarrow> f p a b)"
  by (cases x) auto

lemma stable_let [stable_intros]: "stable (\<lambda>p. f p v) \<Longrightarrow> stable (\<lambda>p. let x = v in f p x)"
  by (simp add: Let_def)

lemma stable_rd_bytes [stable_intros]: "stable (\<lambda>p. rd_bytes p off n)"
  by (auto simp: stable_def rd_bytes_def)

lemma stable_r [stable_intros]: "stable (\<lambda>p. r8 p off)" "stable (\<lambda>p. r16 p off)" "stable (\<lambda>p. r32 p off)"
  unfolding r8_def r16_def r32_def by (intro stable_intros)+

lemma stable_read_bits [stable_intros]: "stable (\<lambda>p. read_bits ty p n off)"
  by (cases ty) (auto simp: read_bits_def intro!: stable_intros)

lemma stable_read_whole [stable_intros]: "stable (\<lambda>p. read_whole ty p)"
  by (cases ty) (auto simp: read_whole_def ts_read_uint24_def intro!: stable_intros)

lemma stable_eel_entry [stable_intros]: "stable (\<lambda>p. eel_entry p ptr)"
  unfolding eel_entry_def by (intro stable_intros)

lemma stable_eel_loop [stable_intros]: "stable (\<lambda>p. eel_loop e p n k l i acc)"
proof (induction k arbitrary: l i acc)
  case 0
  show ?case by (subst eel_loop.simps) (auto simp: Let_def intro!: stable_intros)
next
  case (Suc k)
  show ?case by (subst eel_loop.simps) (auto simp: Let_def intro!: stable_intros Suc)
qed

lemma stable_sub_descriptors [stable_intros]: "stable (\<lambda>p. sub_descriptors e p ptr j k acc)"
  by (induction k arbitrary: ptr j acc) (auto intro!: stable_intros)

lemma stable_compat_list [stable_intros]: "stable (\<lambda>p. compat_list e p ptr i k acc)"
  by (induction k arbitrary: ptr i acc) (auto intro!: stable_intros)

lemma stable_module_infos [stable_intros]: "stable (\<lambda>p. module_infos e p ptr i k acc)"
  by (induction k arbitrary: ptr i acc) (auto intro!: stable_intros)

lemma stable_subcells [stable_intros]: "stable (\<lambda>p. subcells p ptr k)" "stable (\<lambda>p. subcell_freqs p ptr k)"
  by (induction k arbitrary: ptr) (auto intro!: stable_intros)

lemma stable_custom_parse [stable_intros]: "stable (\<lambda>p. custom_parse e c p)"
  by (cases c)
     (auto simp: custom_parse_def extend_event_linkage_info_def multilingual_node_def multilingual_service_node_def
        cell_list_node_def cell_frequency_node_def compatibility_descriptor_def module_info_list_def text_info_def
        intro!: stable_intros)

lemma stable_plast_loop [stable_intros]: "stable (\<lambda>p. plast_loop e sz p lim off acc)"
proof (rule stableI)
  fix p q r
  show "plast_loop e sz p lim off acc = Some r \<Longrightarrow> plast_loop e sz (p @ q) lim off acc = Some r"
  proof (induction e sz p lim off acc rule: plast_loop.induct)
    case (1 e sz p lim off acc)
    from "1.prems" show ?case
      using "1.IH" by (subst (asm) plast_loop.simps, subst plast_loop.simps) (auto split: if_splits)
  qed
qed

lemma stable_sub_loop [stable_intros]: "stable (\<lambda>p. sub_loop e c exact p lim off acc)"
proof (rule stableI)
  fix p q r
  show "sub_loop e c exact p lim off acc = Some r \<Longrightarrow> sub_loop e c exact (p @ q) lim off acc = Some r"
  proof (induction e c exact p lim off acc rule: sub_loop.induct)
    case (1 e c exact p lim off acc)
    have st: "custom_parse e c (drop off p) = Some x \<Longrightarrow> custom_parse e c (drop off (p @ q)) = Some x" for x
      by (rule stableD [OF stable_drop [OF stable_custom_parse]])
    from "1.prems" show ?case
      using "1.IH" st
      by (subst (asm) sub_loop.simps, subst sub_loop.simps) (auto split: if_splits option.splits prod.splits)
  qed
qed

lemma stable_ploop_loop [stable_intros]: "stable (\<lambda>p. ploop_loop e k p lim off acc)"
proof (rule stableI)
  fix p q r
  show "ploop_loop e k p lim off acc = Some r \<Longrightarrow> ploop_loop e k (p @ q) lim off acc = Some r"
  proof (induction e k p lim off acc rule: ploop_loop.induct)
    case (1 e k p lim off acc)
    have st: "rd_bytes p a n = Some x \<Longrightarrow> rd_bytes (p @ q) a n = Some x" "r8 p a = Some y \<Longrightarrow> r8 (p @ q) a = Some y" for a n x y
      by (rule stableD [OF stable_rd_bytes], assumption) (rule stableD [OF stable_r(1)])
    from "1.prems" show ?case
      using "1.IH"
      by (subst (asm) ploop_loop.simps, subst ploop_loop.simps) (auto simp: st split: if_splits option.splits)
  qed
qed

lemma stable_member_step [stable_intros]: "stable (\<lambda>p. member_step e p len dlen m s)"
  by (cases m) (auto simp: call_custom_def intro!: stable_intros)

lemma stable_members_loop [stable_intros]: "stable (\<lambda>p. members_loop e p len dlen ms s)"
  by (induction ms arbitrary: s) (auto intro!: stable_intros)

lemma stable_parse_members [stable_intros]: "stable (\<lambda>p. parse_members e tag ms p len)"
  unfolding parse_members_def by (intro stable_intros)

lemma stable_descriptor_parse [stable_intros]: "stable (\<lambda>p. descriptor_parse e ops p len)"
  by (cases ops) (auto simp: descriptor_parse_def parse_reserved_descriptor_def intro!: stable_intros)

section \<open>Framing\<close>

text \<open>A descriptor on the wire, and the frames a walk over an area of \<open>l\<close> bytes sees.\<close>

definition encode :: "u8 \<times> bytes \<Rightarrow> bytes" where
  "encode d = fst d # of_nat (length (snd d)) # snd d"

text \<open>What a table of parsers makes of one descriptor alone.\<close>

definition parse_alone :: "(nat \<Rightarrow> u8) \<Rightarrow> (u8 \<Rightarrow> desc_ops) \<Rightarrow> u8 \<times> bytes \<Rightarrow> (int \<times> fields) option" where
  "parse_alone j des_ops d = descriptor_parse (always_ok j) (des_ops (fst d)) (encode d) (length (snd d) + 2)"

text \<open>
  The contract of a table of parsers: a parser that handles a descriptor alone handles it the
  same way inside an area.  From it follows that the loop handles every descriptor on its own.
\<close>

locale descriptor_table =
  fixes parse :: "u8 \<times> bytes \<Rightarrow> bytes \<Rightarrow> 'b option"
    and area :: "bytes \<Rightarrow> int \<Rightarrow> nat \<Rightarrow> 'd list option"
    and mk :: "u8 \<times> bytes \<Rightarrow> 'b \<Rightarrow> 'd"
  assumes locality: "\<lbrakk>length (snd d) < 256; parse d (encode d) = Some b\<rbrakk> \<Longrightarrow> parse d (encode d @ rest) = Some b"
    and area_nil: "l \<le> 0 \<Longrightarrow> area ptr l i = Some []"
    and area_cons: "\<lbrakk>length (snd d) < 256; 0 < l; parse d (encode d @ rest) = Some b\<rbrakk> \<Longrightarrow>
      area (encode d @ rest) l i = map_option (Cons (mk d b)) (area rest (l - int (length (snd d) + 2)) (Suc i))"
begin

lemma area_encoded:
  assumes "\<forall>(d, b) \<in> set dbs. length (snd d) < 256 \<and> parse d (encode d) = Some b"
  shows "area (concat (map (encode \<circ> fst) dbs) @ rest) (int (length (concat (map (encode \<circ> fst) dbs)))) i =
    Some (map (\<lambda>(d, b). mk d b) dbs)"
  using assms
proof (induction dbs arbitrary: i)
  case Nil
  then show ?case by (simp add: area_nil)
next
  case (Cons a dbs)
  obtain d b where a: "a = (d, b)" by fastforce
  let ?rest = "concat (map (encode \<circ> fst) dbs) @ rest"
  let ?n = "int (length (concat (map (encode \<circ> fst) dbs)))"
  from Cons.prems a have d: "length (snd d) < 256" "parse d (encode d @ ?rest) = Some b"
    using locality [of d b ?rest] by auto
  have len: "int (length (concat (map (encode \<circ> fst) (a # dbs)))) = ?n + int (length (snd d) + 2)"
    by (simp add: a encode_def)
  have "area (encode d @ ?rest) (int (length (concat (map (encode \<circ> fst) (a # dbs))))) i =
      map_option (Cons (mk d b)) (area ?rest ?n (Suc i))"
    unfolding len using area_cons [OF d(1) _ d(2), of "?n + int (length (snd d) + 2)" i] by simp
  also have "\<dots> = Some (map (\<lambda>(d, b). mk d b) (a # dbs))"
    using Cons by (simp add: a comp_def)
  finally show ?case by (simp add: a comp_def)
qed

end

definition mk_descriptor :: "u8 \<times> bytes \<Rightarrow> int \<times> fields \<Rightarrow> descriptor" where
  "mk_descriptor d b = \<lparr>d_tag = fst d, d_length = of_nat (length (snd d)), d_body = snd b\<rparr>"

lemma descriptor_table_desc_loop:
  "descriptor_table (\<lambda>d p. descriptor_parse (always_ok j) (des_ops (fst d)) p (length (snd d) + 2))
     (desc_loop (always_ok j) des_ops) mk_descriptor"
proof
  show "desc_loop (always_ok j) des_ops ptr l i = Some []" if "l \<le> 0" for ptr l i
    using that by (subst desc_loop.simps) simp
next
  fix d :: "u8 \<times> bytes" and b rest
  assume "descriptor_parse (always_ok j) (des_ops (fst d)) (encode d) (length (snd d) + 2) = Some b"
  then show "descriptor_parse (always_ok j) (des_ops (fst d)) (encode d @ rest) (length (snd d) + 2) = Some b"
    by (rule stableD [OF stable_descriptor_parse])
next
  fix d :: "u8 \<times> bytes" and l :: int and rest b i
  assume len: "length (snd d) < 256" and l: "0 < l"
    and p: "descriptor_parse (always_ok j) (des_ops (fst d)) (encode d @ rest) (length (snd d) + 2) = Some b"
  have n: "unat (of_nat (length (snd d)) :: u8) = length (snd d)"
    using len by (simp add: unsigned_of_nat take_bit_nat_eq_self)
  have rd: "rdb (encode d @ rest) 0 = Some (fst d)" "rdb (encode d @ rest) 1 = Some (of_nat (length (snd d)))"
    "drop (length (snd d) + 2) (encode d @ rest) = rest"
    by (simp_all add: encode_def)
  show "desc_loop (always_ok j) des_ops (encode d @ rest) l i =
      map_option (Cons (mk_descriptor d b)) (desc_loop (always_ok j) des_ops rest (l - int (length (snd d) + 2)) (Suc i))"
    using l p
    by (subst desc_loop.simps, unfold rd n Option.bind_lunit)
       (cases b, auto simp: rd(3) mk_descriptor_def add.commute map_option_case split: Option.bind_splits)
qed

interpretation des: descriptor_table
  "\<lambda>d p. descriptor_parse (always_ok j) (des_ops (fst d)) p (length (snd d) + 2)"
  "desc_loop (always_ok j) des_ops" mk_descriptor for j des_ops
  by (rule descriptor_table_desc_loop)

section \<open>Bit fields\<close>

text \<open>Bit \<open>k\<close> of a byte sequence read as a bit string, most significant bit first.\<close>

definition stream_bit :: "bytes \<Rightarrow> nat \<Rightarrow> bool" where
  "stream_bit p k = bit (p ! (k div 8)) (7 - k mod 8)"

definition width :: "ctype \<Rightarrow> nat" where
  "width ty = (case ty of T_uint8 \<Rightarrow> 8 | T_uint16 \<Rightarrow> 16 | T_uint24 \<Rightarrow> 64 | T_uint32 \<Rightarrow> 32 | T_uint64 \<Rightarrow> 64)"

lemma bit_push_ucast:
  "bit (push_bit k (ucast (b :: u8)) :: 'a::len word) i \<longleftrightarrow> k \<le> i \<and> i < LENGTH('a) \<and> i - k < 8 \<and> bit b (i - k)"
  by (auto simp: bit_push_bit_iff bit_unsigned_iff dest: bit_imp_le_length)

lemma stream_bit_be:
  "\<lbrakk>r < 8; q \<le> m\<rbrakk> \<Longrightarrow> stream_bit p (8 * m + 7 - (8 * q + r)) = bit (p ! (m - q)) r"
proof -
  assume r: "r < 8" and q: "q \<le> m"
  have "8 * m + 7 - (8 * q + r) = 8 * (m - q) + (7 - r)"
    using r q by linarith
  moreover have "(8 * (m - q) + (7 - r)) div 8 = m - q" "(8 * (m - q) + (7 - r)) mod 8 = 7 - r"
    by simp_all
  ultimately show ?thesis
    using r by (simp only: stream_bit_def) simp
qed

lemma bit_ucast_byte: "bit (ucast (b :: u8) :: 'a::len word) i \<longleftrightarrow> i < LENGTH('a) \<and> i < 8 \<and> bit b i"
  using bit_push_ucast [of 0 b i] by simp

text \<open>Bit \<open>i\<close> of a big-endian read is the bit string's bit counted from the other end.\<close>

lemma bit_READ8: "1 \<le> length p \<Longrightarrow> i < 8 \<Longrightarrow> bit (the (TS_READ8 p)) i = stream_bit p (7 - i)"
  using stream_bit_be [of i 0 0 p] by (auto simp: TS_READ8_def rdb_def)

lemma bit_READ16:
  assumes "2 \<le> length p" "i < 16"
  shows "bit (the (TS_READ16 p)) i = stream_bit p (15 - i)"
proof -
  define q r where "q = i div 8" and "r = i mod 8"
  have i: "i = 8 * q + r" and r: "r < 8" by (simp_all add: q_def r_def)
  have "q < 2" using assms(2) by (simp add: q_def)
  then have "q \<in> {0, 1}" by auto
  then show ?thesis
    using stream_bit_be [OF r, of q 1 p] r assms(1)
    by (elim insertE emptyE) (simp_all add: i TS_READ16_in bit_or_iff bit_push_ucast bit_ucast_byte)
qed

lemma bit_READ32:
  assumes "4 \<le> length p" "i < 32"
  shows "bit (the (TS_READ32 p)) i = stream_bit p (31 - i)"
proof -
  define q r where "q = i div 8" and "r = i mod 8"
  have i: "i = 8 * q + r" and r: "r < 8" by (simp_all add: q_def r_def)
  have "q < 4" using assms(2) by (simp add: q_def)
  then have "q \<in> {0, 1, 2, 3}" by auto
  then show ?thesis
    using stream_bit_be [OF r, of q 3 p] r assms(1)
    by (elim insertE emptyE) (simp_all add: i TS_READ32_in bit_or_iff bit_push_ucast bit_ucast_byte)
qed

lemma TS_READ64_in:
  "8 \<le> length p \<Longrightarrow> TS_READ64 p = Some (push_bit 56 (ucast (p ! 0)) OR push_bit 48 (ucast (p ! 1)) OR
     push_bit 40 (ucast (p ! 2)) OR push_bit 32 (ucast (p ! 3)) OR push_bit 24 (ucast (p ! 4)) OR
     push_bit 16 (ucast (p ! 5)) OR push_bit 8 (ucast (p ! 6)) OR ucast (p ! 7))"
  by (frule length_ge_imp_pos) (simp add: TS_READ64_def rdb_in)

lemma bit_READ64:
  assumes "8 \<le> length p" "i < 64"
  shows "bit (the (TS_READ64 p)) i = stream_bit p (63 - i)"
proof -
  define q r where "q = i div 8" and "r = i mod 8"
  have i: "i = 8 * q + r" and r: "r < 8" by (simp_all add: q_def r_def)
  have "q < 8" using assms(2) by (simp add: q_def)
  then have "q \<in> {0, 1, 2, 3, 4, 5, 6, 7}" by auto
  then show ?thesis
    using stream_bit_be [OF r, of q 7 p] r assms(1)
    by (elim insertE emptyE) (simp_all add: i TS_READ64_in bit_or_iff bit_push_ucast bit_ucast_byte)
qed

text \<open>The number whose binary digits are \<open>n\<close> bits of the bit string, from bit \<open>o'\<close> on.\<close>

definition field_val :: "bytes \<Rightarrow> nat \<Rightarrow> nat \<Rightarrow> nat" where
  "field_val p o' n = horner_sum of_bool 2 (rev (map (\<lambda>k. stream_bit p (o' + k)) [0..<n]))"

lemma bit_field_val: "bit (field_val p o' n) i \<longleftrightarrow> i < n \<and> stream_bit p (o' + n - 1 - i)"
  by (auto simp: field_val_def bit_horner_sum_bit_iff rev_nth)

lemma unat_bits_at:
  assumes "\<And>i. i < LENGTH('a) \<Longrightarrow> bit (w :: 'a::len word) i = stream_bit p (LENGTH('a) - 1 - i)"
    and "off + n \<le> LENGTH('a)"
  shows "unat (bits_at w n off) = field_val p off n"
proof (rule bit_eqI)
  fix i
  have "bit w (LENGTH('a) - off - n + i) = stream_bit p (off + n - 1 - i)" if "i < n"
  proof -
    have "LENGTH('a) - 1 - (LENGTH('a) - off - n + i) = off + n - 1 - i" using that assms(2) by simp
    then show ?thesis using assms that by simp
  qed
  then show "bit (unat (bits_at w n off)) i = bit (field_val p off n) i"
    using assms(2) by (auto simp: bit_unsigned_iff bit_bits_at bit_field_val dest: bit_imp_le_length)
qed

lemma read_bits_val:
  assumes "off + n \<le> width ty" "width ty \<le> 8 * length p"
  shows "read_bits ty p n off = Some (field_val p off n)"
proof -
  have the_in: "x \<noteq> None \<Longrightarrow> map_option f x = Some (f (the x))" for x :: "'x option" and f :: "'x \<Rightarrow> 'y"
    by (cases x) auto
  have d: "1 \<le> length p \<Longrightarrow> TS_READ8 p \<noteq> None" "2 \<le> length p \<Longrightarrow> TS_READ16 p \<noteq> None"
    "4 \<le> length p \<Longrightarrow> TS_READ32 p \<noteq> None" "8 \<le> length p \<Longrightarrow> TS_READ64 p \<noteq> None"
    by (auto simp: TS_READ8_def rdb_def TS_READ16_in TS_READ32_in TS_READ64_in)
  have v: "1 \<le> length p \<Longrightarrow> off + n \<le> 8 \<Longrightarrow> unat (bits_at (the (TS_READ8 p)) n off) = field_val p off n"
    "2 \<le> length p \<Longrightarrow> off + n \<le> 16 \<Longrightarrow> unat (bits_at (the (TS_READ16 p)) n off) = field_val p off n"
    "4 \<le> length p \<Longrightarrow> off + n \<le> 32 \<Longrightarrow> unat (bits_at (the (TS_READ32 p)) n off) = field_val p off n"
    "8 \<le> length p \<Longrightarrow> off + n \<le> 64 \<Longrightarrow> unat (bits_at (the (TS_READ64 p)) n off) = field_val p off n"
    by (intro unat_bits_at; simp add: bit_READ8 bit_READ16 bit_READ32 bit_READ64)+
  show ?thesis
    using assms d v
    by (cases ty)
       (simp_all add: read_bits_def width_def TS_READ8_BITS_def TS_READ16_BITS_def TS_READ32_BITS_def
          TS_READ64_BITS_def option.map_comp comp_def the_in)
qed

lemma field_val_drop: "m \<le> length p \<Longrightarrow> field_val (drop m p) o' n = field_val p (8 * m + o') n"
  by (simp add: field_val_def stream_bit_def add.assoc)

text \<open>The fields of a list of adjacent bit fields that starts at bit \<open>o'\<close>.\<close>

fun bit_fields :: "bytes \<Rightarrow> nat \<Rightarrow> member list \<Rightarrow> fields" where
  "bit_fields p o' (M ty nm n # ms) = (nm, FNum (field_val p o' n)) # bit_fields p (o' + n) ms"
| "bit_fields p o' _ = []"

fun bits_only :: "member list \<Rightarrow> bool" where
  "bits_only [] = True"
| "bits_only (M ty nm n # ms) = bits_only ms"
| "bits_only _ = False"

fun bits_total :: "member list \<Rightarrow> nat" where
  "bits_total (M ty nm n # ms) = n + bits_total ms"
| "bits_total _ = 0"

text \<open>
  The layout check: no bit field reaches past the word it is read from, whole members start at a
  byte, and the list ends at one.
\<close>

fun layout_ok :: "nat \<Rightarrow> member list \<Rightarrow> bool" where
  "layout_ok b [] \<longleftrightarrow> b = 0"
| "layout_ok b (M ty nm n # ms) \<longleftrightarrow> b + n \<le> width ty \<and> layout_ok ((b + n) mod 8) ms"
| "layout_ok b (_ # ms) \<longleftrightarrow> b = 0 \<and> layout_ok 0 ms"

lemma member_step_bits_off:
  "member_step e buf len dlen m s = Some (Inr s') \<Longrightarrow>
   bits_off s' = (case m of M ty nm n \<Rightarrow> (bits_off s + n) mod 8 | _ \<Rightarrow> bits_off s)"
  by (cases m)
     (auto simp: put_def finish_loop_def call_custom_def advance_def Let_def
        split: Option.bind_splits sum.splits if_splits)

lemma layout_ok_bits_off:
  "\<lbrakk>layout_ok (bits_off s) ms; members_loop e buf len dlen ms s = Some (Inr s')\<rbrakk> \<Longrightarrow> bits_off s' = 0"
proof (induction ms arbitrary: s)
  case (Cons m ms)
  from Cons.prems(2) obtain s1 where s1: "member_step e buf len dlen m s = Some (Inr s1)"
    "members_loop e buf len dlen ms s1 = Some (Inr s')"
    by (auto split: Option.bind_splits sum.splits)
  have "layout_ok (bits_off s1) ms"
    using Cons.prems(1) member_step_bits_off [OF s1(1)] by (cases m) auto
  with Cons.IH s1(2) show ?case by blast
qed simp

lemma bits_final:
  "\<lbrakk>bits_only ms; members_loop e buf len dlen ms s = Some (Inr s')\<rbrakk> \<Longrightarrow>
   bits_off s' = (bits_off s + bits_total ms) mod 8 \<or> ms = []"
proof (induction ms arbitrary: s)
  case (Cons m ms)
  then obtain ty nm n where m: "m = M ty nm n" "bits_only ms"
    by (cases m) auto
  from Cons.prems(2) obtain s1 where s1: "member_step e buf len dlen m s = Some (Inr s1)"
    "members_loop e buf len dlen ms s1 = Some (Inr s')"
    by (auto split: Option.bind_splits sum.splits)
  have "bits_off s1 = (bits_off s + n) mod 8"
    using member_step_bits_off [OF s1(1)] m by simp
  with Cons.IH [OF m(2) s1(2)] s1(2) m show ?case
    by (cases ms) (auto simp: mod_simps ac_simps)
qed simp

lemma bits_parse:
  assumes "bits_only ms" "layout_ok (bits_off s) ms" "bits_off s < 8"
    and "\<forall>ty nm n. M ty nm n \<in> set ms \<longrightarrow> 8 * bytes_off s + bits_off s + bits_total ms + width ty \<le> 8 * length buf"
  shows "\<exists>s'. members_loop e buf len dlen ms s = Some (Inr s') \<and>
    dr s' = rev (bit_fields buf (8 * bytes_off s + bits_off s) ms) @ dr s \<and>
    8 * bytes_off s' + bits_off s' = 8 * bytes_off s + bits_off s + bits_total ms \<and> bits_off s' < 8"
  using assms
proof (induction ms arbitrary: s)
  case (Cons m ms)
  from Cons.prems(1) obtain ty nm n where m: "m = M ty nm n" "bits_only ms"
    by (cases m) auto
  let ?b = "bits_off s + n"
  have fit: "?b \<le> width ty" and ok: "layout_ok (?b mod 8) ms"
    using Cons.prems(2) m by auto
  have room: "8 * bytes_off s + bits_off s + (n + bits_total ms) + width ty \<le> 8 * length buf"
    using Cons.prems(4) m by simp
  then have le: "bytes_off s \<le> length buf" and w: "width ty \<le> 8 * length (drop (bytes_off s) buf)"
    by auto
  let ?s = "(put nm (FNum (field_val buf (8 * bytes_off s + bits_off s) n)) s)
      \<lparr>bits_off := ?b mod 8, bytes_off := bytes_off s + ?b div 8\<rparr>"
  have step: "member_step e buf len dlen m s = Some (Inr ?s)"
    using read_bits_val [OF fit w] field_val_drop [OF le] by (simp add: m Let_def)
  have pos: "8 * bytes_off ?s + bits_off ?s = 8 * bytes_off s + bits_off s + n"
    by simp
  have "\<forall>ty nm n. M ty nm n \<in> set ms \<longrightarrow> 8 * bytes_off ?s + bits_off ?s + bits_total ms + width ty \<le> 8 * length buf"
    using Cons.prems(4) m unfolding pos by (auto simp: add.assoc)
  with Cons.IH [of ?s] ok m(2) obtain s' where "members_loop e buf len dlen ms ?s = Some (Inr s')"
    "dr s' = rev (bit_fields buf (8 * bytes_off ?s + bits_off ?s) ms) @ dr ?s"
    "8 * bytes_off s' + bits_off s' = 8 * bytes_off ?s + bits_off ?s + bits_total ms" "bits_off s' < 8"
    by auto
  moreover from this(1) step have "members_loop e buf len dlen (m # ms) s = Some (Inr s')"
    by simp
  ultimately show ?case
    unfolding pos by (intro exI [of _ s']) (simp add: m put_def ac_simps)
qed simp

lemma members_loop_bits_off:
  "members_loop e buf len dlen ms s = Some (Inr s') \<Longrightarrow>
   bits_off s' = fold (\<lambda>m b. case m of M ty nm n \<Rightarrow> (b + n) mod 8 | _ \<Rightarrow> b) ms (bits_off s)"
proof (induction ms arbitrary: s)
  case (Cons m ms)
  from Cons.prems obtain s1 where s1: "member_step e buf len dlen m s = Some (Inr s1)"
    "members_loop e buf len dlen ms s1 = Some (Inr s')"
    by (auto split: Option.bind_splits sum.splits)
  with Cons.IH [OF s1(2)] member_step_bits_off [OF s1(1)] show ?case
    by (cases m) auto
qed simp

text \<open>With memory to spare no parser returns early.\<close>

lemma plast_loop_no_early: "mok e = (\<lambda>_. True) \<Longrightarrow> plast_loop e sz buf lim off acc \<noteq> Some (Inl x)"
  by (induction e sz buf lim off acc rule: plast_loop.induct) (subst plast_loop.simps, auto)

lemma sub_loop_no_early: "mok e = (\<lambda>_. True) \<Longrightarrow> sub_loop e c ex buf lim off acc \<noteq> Some (Inl x)"
  by (induction e c ex buf lim off acc rule: sub_loop.induct)
     (subst sub_loop.simps, auto split: option.splits)

lemma ploop_loop_no_early: "mok e = (\<lambda>_. True) \<Longrightarrow> ploop_loop e k buf lim off acc \<noteq> Some (Inl x)"
  by (induction e k buf lim off acc rule: ploop_loop.induct)
     (subst ploop_loop.simps, auto split: option.splits)

lemma member_step_no_early: "mok e = (\<lambda>_. True) \<Longrightarrow> member_step e buf len dlen m s \<noteq> Some (Inl r)"
  by (cases m)
     (auto simp: call_custom_def finish_loop_def plast_loop_no_early sub_loop_no_early ploop_loop_no_early Let_def
        split: Option.bind_splits sum.splits)

lemma members_loop_no_early: "mok e = (\<lambda>_. True) \<Longrightarrow> members_loop e buf len dlen ms s \<noteq> Some (Inl r)"
  by (induction ms arbitrary: s) (auto simp: member_step_no_early split: Option.bind_splits sum.splits)

section \<open>Trailing arrays\<close>

text \<open>The elements of \<open>sz\<close> bytes from \<open>off\<close> on.\<close>

fun chunks :: "nat \<Rightarrow> bytes \<Rightarrow> nat \<Rightarrow> nat \<Rightarrow> fval list" where
  "chunks sz buf off 0 = []"
| "chunks sz buf off (Suc k) = FBytes (take sz (drop off buf)) # chunks sz buf (off + sz) k"

lemma plast_loop_exact:
  assumes "0 < sz" "off + k * sz \<le> length buf"
  shows "plast_loop (always_ok j) sz buf (off + k * sz) off acc = Some (Inr (acc @ chunks sz buf off k, off + k * sz))"
  using assms
proof (induction k arbitrary: off acc)
  case 0
  then show ?case by (subst plast_loop.simps) simp
next
  case (Suc k)
  have "plast_loop (always_ok j) sz buf ((off + sz) + k * sz) (off + sz) (acc @ [FBytes (take sz (drop off buf))]) =
      Some (Inr ((acc @ [FBytes (take sz (drop off buf))]) @ chunks sz buf (off + sz) k, (off + sz) + k * sz))"
    using Suc.prems by (intro Suc.IH) (simp_all add: add.assoc)
  with Suc.prems show ?case
    by (subst plast_loop.simps) (simp add: add.assoc)
qed

lemma plast_loop_misfit:
  assumes "0 < sz" "\<forall>k. lim \<noteq> off + k * sz"
  shows "plast_loop (always_ok j) sz buf lim off acc = None"
  using assms
proof (induction "always_ok j" sz buf lim off acc rule: plast_loop.induct)
  case (1 sz buf lim off acc)
  have "off \<noteq> lim" using "1.prems"(2) [rule_format, of 0] by simp
  moreover have "\<forall>k. lim \<noteq> (off + sz) + k * sz"
    using "1.prems"(2) by (metis add.assoc mult_Suc)
  ultimately show ?case
    using "1.hyps" "1.prems"(1) by (subst plast_loop.simps) auto
qed

lemma plast_alone:
  assumes "length data < 256" "0 < sz"
  shows "parse_members (always_ok j) tag [Mplast sz nm] (encode (tag, data)) len =
    (if sz dvd length data then Some (0, [(nm, FList (chunks sz (encode (tag, data)) 2 (length data div sz)))]) else None)"
proof -
  have n: "unat (of_nat (length data) :: u8) = length data"
    using assms(1) by (simp add: unsigned_of_nat take_bit_nat_eq_self)
  let ?buf = "encode (tag, data)"
  have len: "length ?buf = length data + 2" by (simp add: encode_def)
  have rd: "rdb ?buf 0 = Some tag" "rdb ?buf 1 = Some (of_nat (length data))"
    by (simp_all add: encode_def)
  show ?thesis
  proof (cases "sz dvd length data")
    case True
    then have k: "length data + 2 = 2 + length data div sz * sz" by simp
    have "plast_loop (always_ok j) sz ?buf (length data + 2) 2 [] =
        Some (Inr ([] @ chunks sz ?buf 2 (length data div sz), 2 + length data div sz * sz))"
      using plast_loop_exact [OF assms(2), of 2 "length data div sz" ?buf j "[]"] True len k by simp
    with True rd n show ?thesis
      by (simp add: parse_members_def finish_loop_def put_def del: rdb_Some_iff One_nat_def)
  next
    case False
    have "plast_loop (always_ok j) sz ?buf (length data + 2) 2 [] = None"
      using False by (intro plast_loop_misfit [OF assms(2)]) (metis add.commute add_left_imp_eq dvd_triv_right)
    with False rd n show ?thesis
      by (simp add: parse_members_def del: rdb_Some_iff One_nat_def)
  qed
qed

end
