(* ===== verification/Descriptor_Tables.thy ===== *)
theory Descriptor_Tables
  imports Descriptor
begin

text \<open>
  The member lists of the descriptors (\<^verbatim>\<open>include/descriptor.h\<close> and the descriptor
  headers of DVB, ATSC and ISDB) and the table that \<open>init_descriptor_parsers\<close> fills.  A
  structure type is given by its size under the LP64 ABI, packed where the source packs it.
\<close>

section \<open>Descriptors of ISO/IEC 13818-1\<close>

definition foreach_video_stream_member :: "member list" where
  "foreach_video_stream_member = [M T_uint8 ''multiple_frame_rate_flag'' 1,
     M T_uint8 ''frame_rate_code'' 4, M T_uint8 ''MPEG_1_only_flag'' 1,
     M T_uint8 ''constrained_parameter_flag'' 1, M T_uint8 ''still_picture_flag'' 1,
     M1 T_uint8 ''profile_and_level_indication'', M T_uint8 ''chroma_format'' 2,
     M T_uint8 ''frame_rate_extension_flag'' 1, M T_uint8 ''reserved'' 5]"

definition foreach_audio_stream_member :: "member list" where
  "foreach_audio_stream_member = [M T_uint8 ''free_format_flag'' 1, M T_uint8 ''ID'' 1,
     M T_uint8 ''layer'' 2, M T_uint8 ''variable_rate_audio_indicator'' 1, M T_uint8 ''reserved'' 3]"

definition foreach_hierarchy_member :: "member list" where
  "foreach_hierarchy_member = [M T_uint8 ''reserved'' 4, M T_uint8 ''hierarchy_type'' 4,
     M T_uint8 ''reserved1'' 2, M T_uint8 ''hierarchy_layer_index'' 6, M T_uint8 ''reserved2'' 2,
     M T_uint8 ''hierarchy_embedded_layer_index'' 6, M T_uint8 ''reserved3'' 2,
     M T_uint8 ''hierarchy_channel'' 6]"

definition foreach_registration_member :: "member list" where
  "foreach_registration_member = [M1 T_uint32 ''format_identifier'',
     M1 T_uint8 ''additional_identification_info'']"

definition foreach_data_stream_alignment_member :: "member list" where
  "foreach_data_stream_alignment_member = [M1 T_uint8 ''alignment_type'']"

definition foreach_target_background_grid_member :: "member list" where
  "foreach_target_background_grid_member = [M T_uint32 ''horizontal_size'' 14,
     M T_uint32 ''vertical_size'' 14, M T_uint32 ''aspect_ratio_information'' 4]"

definition foreach_video_window_member :: "member list" where
  "foreach_video_window_member = [M T_uint32 ''horizontal_offset'' 14,
     M T_uint32 ''vertical_offset'' 14, M T_uint32 ''window_priority'' 4]"

definition foreach_CA_member :: "member list" where
  "foreach_CA_member = [M1 T_uint16 ''CA_system_ID'', M T_uint16 ''reserved'' 3,
     M T_uint16 ''CA_PID'' 13, Mplast 1 ''private_data_byte'']"

definition foreach_ISO_639_language_member :: "member list" where
  "foreach_ISO_639_language_member = [Mplast 4 ''languages'']"

definition foreach_system_clock_member :: "member list" where
  "foreach_system_clock_member = [M T_uint8 ''external_clock_reference_indicator'' 1,
     M T_uint8 ''reserved'' 1, M T_uint8 ''clock_accuracy_integer'' 6,
     M T_uint8 ''clock_accuracy_exponent'' 3, M T_uint8 ''reserved1'' 5]"

definition foreach_multiplex_buffer_utilization_member :: "member list" where
  "foreach_multiplex_buffer_utilization_member = [M T_uint16 ''bound_valid_flag'' 1,
     M T_uint16 ''LTW_offset_lower_bound'' 15, M T_uint16 ''reserved'' 1,
     M T_uint16 ''LTW_offset_upper_bound'' 15]"

definition foreach_copyright_member :: "member list" where
  "foreach_copyright_member = [M1 T_uint32 ''copyright_identifier'',
     Mplast 1 ''additional_copyright_info'']"

definition foreach_maximum_bitrate_member :: "member list" where
  "foreach_maximum_bitrate_member = [M T_uint8 ''reserved'' 2, M T_uint8 ''maximum_bitrate_h'' 6,
     M1 T_uint8 ''maximum_bitrate_l'']"

definition foreach_private_data_indicator_member :: "member list" where
  "foreach_private_data_indicator_member = [M1 T_uint32 ''private_data_indicator'']"

definition foreach_smoothing_buffer_member :: "member list" where
  "foreach_smoothing_buffer_member = [M T_uint32 ''reserved'' 2, M T_uint32 ''sb_leak_rate'' 22,
     M T_uint32 ''reserved1'' 2, M T_uint32 ''sb_size'' 6, M1 T_uint16 ''sb_size_l'']"

definition foreach_STD_member :: "member list" where
  "foreach_STD_member = [M T_uint8 ''reserved'' 7, M T_uint8 ''leak_valid_flag'' 1]"

definition foreach_ibp_member :: "member list" where
  "foreach_ibp_member = [M T_uint16 ''closed_gop_flag'' 1, M T_uint16 ''identical_gop_flag'' 1,
     M T_uint16 ''max_gop_length'' 14]"

definition foreach_carousel_identifier_member :: "member list" where
  "foreach_carousel_identifier_member = [M1 T_uint32 ''carousel_id'', Mplast 1 ''private_data_byte'']"

definition foreach_association_tag_member :: "member list" where
  "foreach_association_tag_member = [M1 T_uint16 ''association_tag'', M1 T_uint16 ''use'',
     M1 T_uint8 ''selector_byte_length'', Mlv 1 ''selector_byte_length'' 1 ''selector_byte'',
     Mplast 1 ''private_data_byte'']"

definition foreach_deferred_association_tags_member :: "member list" where
  "foreach_deferred_association_tags_member = [M1 T_uint8 ''association_tags_loop_length'',
     Mlv 2 ''association_tags_loop_length'' 1 ''association_tag'', M1 T_uint16 ''tansport_stream_id'',
     M1 T_uint16 ''program_number'', Mplast 1 ''private_data_byte'']"

definition foreach_NPTRefrence_member :: "member list" where
  "foreach_NPTRefrence_member = [M T_uint8 ''postDiscontinuityIndicator'' 1, M T_uint8 ''contentId'' 7,
     M T_uint8 ''reserved'' 7, M T_uint8 ''STC_Reference'' 1, M1 T_uint32 ''STC_Reference_2'',
     M T_uint64 ''reserved1'' 31, M T_uint64 ''NPT_Reference'' 33, M1 T_uint16 ''scaleNumerator'',
     M1 T_uint16 ''scaleDenominator'']"

definition foreach_NPTEndpoint_member :: "member list" where
  "foreach_NPTEndpoint_member = [M T_uint16 ''reserved'' 15, M T_uint16 ''startNPT'' 1,
     M1 T_uint32 ''startNPT_2'', M T_uint64 ''reserved1'' 31, M T_uint64 ''stopNPT'' 33]"

definition foreach_StreamMode_member :: "member list" where
  "foreach_StreamMode_member = [M1 T_uint8 ''streamMode'', M1 T_uint8 ''reserved'']"

definition foreach_StreamEvent_member :: "member list" where
  "foreach_StreamEvent_member = [M1 T_uint16 ''eventId'', M T_uint64 ''reserved'' 31,
     M T_uint64 ''eventNPT'' 33, Mplast 1 ''privateDataByte'']"

definition foreach_MPEG4_video_member :: "member list" where
  "foreach_MPEG4_video_member = [M1 T_uint8 ''MPEG4_visual_profile_and_level'']"

definition foreach_MPEG4_audio_member :: "member list" where
  "foreach_MPEG4_audio_member = [M1 T_uint8 ''MPEG4_audio_profile_and_level'']"

definition foreach_IOD_member :: "member list" where
  "foreach_IOD_member = [M1 T_uint8 ''Scope_of_IOD_label'', M1 T_uint8 ''IOD_label'']"

definition foreach_SL_member :: "member list" where
  "foreach_SL_member = [M1 T_uint16 ''ES_ID'']"

definition foreach_FMC_member :: "member list" where
  "foreach_FMC_member = [Mplast 3 ''FMCs'']"

definition foreach_external_ES_ID_member :: "member list" where
  "foreach_external_ES_ID_member = [M1 T_uint16 ''external_ES_ID'']"

definition foreach_muxcode_member :: "member list" where
  "foreach_muxcode_member = [Mplast 18 ''entries'']"

definition foreach_FmxBufferSize_member :: "member list" where
  "foreach_FmxBufferSize_member = [M1 T_uint32 ''FB_DefaultBufferSize'',
     Mplast 4 ''FlexMuxBufferDescriptor'']"

definition foreach_MultiplexBuffer_member :: "member list" where
  "foreach_MultiplexBuffer_member = [M T_uint32 ''MB_buffer_size'' 24, M T_uint32 ''TB_leak_rate'' 24]"

section \<open>DVB descriptors\<close>

definition foreach_network_name_member :: "member list" where
  "foreach_network_name_member = [Mplast 1 ''text_byte'']"

definition foreach_service_list_member :: "member list" where
  "foreach_service_list_member = [Mplast 3 ''services'']"

definition foreach_stuffing_member :: "member list" where
  "foreach_stuffing_member = [Mplast 1 ''stuffing_byte'']"

definition foreach_satellite_delivery_system_member :: "member list" where
  "foreach_satellite_delivery_system_member = [M1 T_uint32 ''frequency'',
     M1 T_uint16 ''orbital_position'', M T_uint8 ''west_east_flag'' 1, M T_uint8 ''polarization'' 2,
     M T_uint8 ''roll_off'' 2, M T_uint8 ''modulation_system'' 1, M T_uint8 ''modulation_type'' 2,
     M T_uint32 ''symbol_rate'' 28, M T_uint32 ''FEC_inner'' 4]"

definition foreach_cable_delivery_system_member :: "member list" where
  "foreach_cable_delivery_system_member = [M1 T_uint32 ''frequency'',
     M T_uint16 ''reserved_future_use'' 12, M T_uint16 ''FEC_outer'' 4, M1 T_uint8 ''modulation'',
     M T_uint32 ''symbol_rate'' 28, M T_uint32 ''FEC_inner'' 4]"

definition foreach_VBI_data_member :: "member list" where
  "foreach_VBI_data_member = [Mploop 1 ''vbi_data'']"

definition foreach_VBI_teletext_member :: "member list" where
  "foreach_VBI_teletext_member = [Mplast 5 ''vbi_teletext'']"

definition foreach_bouquet_name_member :: "member list" where
  "foreach_bouquet_name_member = [Mplast 1 ''sub_table'']"

definition foreach_service_member :: "member list" where
  "foreach_service_member = [M1 T_uint8 ''service_type'', M1 T_uint8 ''service_provider_name_length'',
     Mlv 1 ''service_provider_name_length'' 1 ''provider_name'', M1 T_uint8 ''service_name_length'',
     Mlv 1 ''service_name_length'' 1 ''service_name'']"

definition foreach_country_availability_member :: "member list" where
  "foreach_country_availability_member = [M T_uint8 ''country_availability_flag'' 1,
     M T_uint8 ''reserved_future_use'' 7, Mplast 3 ''cuontries'']"

definition foreach_linkage_member :: "member list" where
  "foreach_linkage_member = [M1 T_uint16 ''transport_stream_id'', M1 T_uint16 ''original_network_id'',
     M1 T_uint16 ''service_id'', M1 T_uint8 ''linkage_type'',
     Mif 3 ''mobile_handover'' ''linkage_type'' 8, Mif 3 ''event_linkage'' ''linkage_type'' 13,
     Mrangelv_custom parse_extend_event_linkage_info ''extend_event_linkage'' ''linkage_type'' 14 31,
     Mplast 1 ''private_data_byte'']"

definition foreach_NVOD_reference_member :: "member list" where
  "foreach_NVOD_reference_member = [Mplast 6 ''references'']"

definition foreach_time_shifted_service_member :: "member list" where
  "foreach_time_shifted_service_member = [M1 T_uint8 ''reference_service_id'']"

definition foreach_short_event_member :: "member list" where
  "foreach_short_event_member = [M T_uint32 ''ISO_639_language_code'' 24,
     M1 T_uint8 ''event_name_length'', Mlv 1 ''event_name_length'' 1 ''event_name_char'',
     M1 T_uint8 ''text_length'', Mlv 1 ''text_length'' 1 ''text_char'']"

definition foreach_extended_event_member :: "member list" where
  "foreach_extended_event_member = [M T_uint32 ''descriptor_number'' 4,
     M T_uint32 ''last_descriptor_number'' 4, M T_uint32 ''ISO_639_language_code'' 24,
     M1 T_uint8 ''length_of_items'', Mlv 32 ''length_of_items'' 1 ''items'', M1 T_uint8 ''text_length'',
     Mlv 1 ''text_length'' 1 ''text_char'']"

definition foreach_time_shifted_event_member :: "member list" where
  "foreach_time_shifted_event_member = [M1 T_uint16 ''reference_service_id'',
     M1 T_uint16 ''reference_event_id'']"

definition foreach_component_member :: "member list" where
  "foreach_component_member = [M T_uint8 ''stream_content_ext'' 4, M T_uint8 ''stream_content'' 4,
     M1 T_uint8 ''component_type'', M T_uint32 ''component_tag'' 8,
     M T_uint32 ''ISO_639_language_code'' 24, Mplast 1 ''text_char'']"

definition foreach_mosaic_member :: "member list" where
  "foreach_mosaic_member = [M T_uint8 ''mosaic_entry_point'' 1,
     M T_uint8 ''number_of_horizontal_elementary_cells'' 3, M T_uint8 ''reserved_futrue_use'' 1,
     M T_uint8 ''number_of_vertical_elementary_cells'' 3]"

definition foreach_stream_identifier_member :: "member list" where
  "foreach_stream_identifier_member = [M1 T_uint8 ''component_tag'']"

definition foreach_CA_identifier_member :: "member list" where
  "foreach_CA_identifier_member = [Mplast 2 ''CA_system_id'']"

definition foreach_content_member :: "member list" where
  "foreach_content_member = [Mplast 2 ''contents'']"

definition foreach_parental_rating_member :: "member list" where
  "foreach_parental_rating_member = [Mplast 4 ''countrycode_and_rating'']"

definition foreach_teletext_member :: "member list" where
  "foreach_teletext_member = [Mplast 5 ''teletext_infos'']"

definition foreach_telephone_member :: "member list" where
  "foreach_telephone_member = [M T_uint8 ''reserved_future_use'' 2,
     M T_uint8 ''foreign_availability'' 1, M T_uint8 ''connection_type'' 5,
     M T_uint8 ''reserved_future_use1'' 1, M T_uint8 ''country_prefix_length'' 2,
     M T_uint8 ''international_area_code_length'' 3, M T_uint8 ''operator_code_length'' 2,
     M T_uint8 ''reserved_future_use2'' 1, M T_uint8 ''national_area_code_length'' 3,
     M T_uint8 ''core_number_length'' 4, Mlv 1 ''country_prefix_length'' 1 ''country_prefix_char'',
     Mlv 1 ''international_area_code_length'' 1 ''international_area_code_char'',
     Mlv 1 ''operator_code_length'' 1 ''operator_code_char'',
     Mlv 1 ''national_area_code_length'' 1 ''national_area_code_char'',
     Mlv 1 ''core_number_length'' 1 ''core_number_char'']"

definition foreach_local_time_offset_member :: "member list" where
  "foreach_local_time_offset_member = [Mplast 13 ''time_list'']"

definition foreach_subtitling_member :: "member list" where
  "foreach_subtitling_member = [Mplast 8 ''subtitle_list'']"

definition foreach_terrestrial_delivery_system_member :: "member list" where
  "foreach_terrestrial_delivery_system_member = [M1 T_uint32 ''centre_frequency'',
     M T_uint8 ''bandwidth'' 3, M T_uint8 ''priority'' 1, M T_uint8 ''time_slicing_indicator'' 1,
     M T_uint8 ''MPE_FEC_indicator'' 1, M T_uint8 ''reserved_future_use'' 2,
     M T_uint8 ''constellation'' 2, M T_uint8 ''hierarchy_information'' 3,
     M T_uint8 ''code_rate_HP_stream'' 3, M T_uint8 ''code_rate_LP_stream'' 3,
     M T_uint8 ''guard_interval'' 2, M T_uint8 ''transmission_mode'' 2,
     M T_uint8 ''other_frequency_flag'' 1, M1 T_uint32 ''reserved_future_use1'']"

definition foreach_multilingual_network_name_member :: "member list" where
  "foreach_multilingual_network_name_member = [Mploop_custom parse_multilingual_node ''network_name'']"

definition foreach_multilingual_bouquet_name_member :: "member list" where
  "foreach_multilingual_bouquet_name_member = [Mploop_custom parse_multilingual_node ''bouquet_name'']"

definition foreach_multilingual_service_name_member :: "member list" where
  "foreach_multilingual_service_name_member = [
     Mploop_custom parse_multilingual_service_node ''service_name'']"

definition foreach_multilingual_component_member :: "member list" where
  "foreach_multilingual_component_member = [M1 T_uint8 ''component_tag'',
     Mploop_custom parse_multilingual_node ''component'']"

definition foreach_private_data_specifier_member :: "member list" where
  "foreach_private_data_specifier_member = [M1 T_uint32 ''private_data_specifier'']"

definition foreach_service_move_member :: "member list" where
  "foreach_service_move_member = [M1 T_uint16 ''new_original_network_id'',
     M1 T_uint16 ''new_transport_stream_id'', M1 T_uint16 ''new_service_id'']"

definition foreach_short_smoothing_buffer_member :: "member list" where
  "foreach_short_smoothing_buffer_member = [M T_uint8 ''sb_size'' 2, M T_uint8 ''sb_leak_rate'' 6,
     Mplast 1 ''DVB_reserved'']"

definition foreach_frequency_list_member :: "member list" where
  "foreach_frequency_list_member = [M T_uint8 ''reserved_future_use'' 6, M T_uint8 ''coding_type'' 2,
     Mplast 4 ''centre_frequency'']"

definition foreach_partial_transport_stream_member :: "member list" where
  "foreach_partial_transport_stream_member = [M T_uint64 ''DVB_reserved_future_use'' 2,
     M T_uint64 ''peak_rate'' 22, M T_uint64 ''DVB_reserved_future_use1'' 2,
     M T_uint64 ''minimum_overall_smoothing_rate'' 22, M T_uint64 ''DVB_reserved_future_use2'' 2,
     M T_uint64 ''maximum_overall_smoothing_buffer'' 14]"

definition foreach_data_broadcast_member :: "member list" where
  "foreach_data_broadcast_member = [M1 T_uint16 ''data_broadcast_id'', M1 T_uint8 ''component_tag'',
     M1 T_uint8 ''selector_length'', Mlv 1 ''selector_length'' 1 ''selector_byte'',
     M T_uint32 ''ISO_639_language_code'' 24, M T_uint32 ''text_length'' 8,
     Mlv 1 ''text_length'' 1 ''text_char'']"

definition foreach_scrambling_member :: "member list" where
  "foreach_scrambling_member = [M1 T_uint8 ''scrambling_mode'']"

definition foreach_data_broadcast_id_member :: "member list" where
  "foreach_data_broadcast_id_member = [M1 T_uint16 ''data_broadcast_id'', Mplast 1 ''id_selector_byte'']"

definition foreach_transport_stream_member :: "member list" where
  "foreach_transport_stream_member = [Mplast 1 ''byte'']"

definition foreach_DSNG_member :: "member list" where
  "foreach_DSNG_member = [Mplast 1 ''byte'']"

definition foreach_PDC_member :: "member list" where
  "foreach_PDC_member = [M T_uint8 ''reserved_for_futrue'' 4,
     M T_uint8 ''programme_identification_label_h'' 4, M1 T_uint16 ''programme_identification_label'']"

definition foreach_AC3_member :: "member list" where
  "foreach_AC3_member = [M T_uint8 ''component_type_flag'' 1, M T_uint8 ''bsid_flag'' 1,
     M T_uint8 ''mainid_flag'' 1, M T_uint8 ''asvc_flag'' 1, M T_uint8 ''reserved_flags'' 4,
     Mif 1 ''component_type'' ''component_type_flag'' 1, Mif 1 ''bsid'' ''bsid_flag'' 1,
     Mif 1 ''mainid'' ''mainid_flag'' 1, Mif 1 ''asvc'' ''asvc_flag'' 1,
     Mplast 1 ''additional_info_byte'']"

definition foreach_ancillary_data_member :: "member list" where
  "foreach_ancillary_data_member = [M1 T_uint8 ''ancillary_data_identifier'']"

definition foreach_cell_list_member :: "member list" where
  "foreach_cell_list_member = [Mplast_sub parse_cell_list ''cell_list'']"

definition foreach_cell_frequency_link_member :: "member list" where
  "foreach_cell_frequency_link_member = [Mplast_sub parse_cell_frequency_link ''cell_frequency_list'']"

definition foreach_announcement_support_member :: "member list" where
  "foreach_announcement_support_member = [M1 T_uint16 ''announcement_support_indicator'',
     Mplast 8 ''announcement_support'']"

definition foreach_application_signalling_member :: "member list" where
  "foreach_application_signalling_member = [Mplast 3 ''signalling'']"

definition foreach_adaptation_field_data_member :: "member list" where
  "foreach_adaptation_field_data_member = [M1 T_uint8 ''adaptation_field_data_identifier'']"

definition foreach_service_identifier_member :: "member list" where
  "foreach_service_identifier_member = [Mplast 1 ''textual_service_identifier_bytes'']"

definition foreach_service_availability_member :: "member list" where
  "foreach_service_availability_member = [M T_uint8 ''availability_flag'' 1, M T_uint8 ''reserved'' 7,
     Mplast 2 ''cell_id'']"

definition foreach_default_authority_member :: "member list" where
  "foreach_default_authority_member = [Mplast 1 ''default_authority_byte'']"

definition foreach_related_content_member :: "member list" where
  "foreach_related_content_member = [Mplast 1 ''related_content_bytes'']"

definition foreach_TVA_id_member :: "member list" where
  "foreach_TVA_id_member = [Mplast 3 ''TVA_ids'']"

definition foreach_content_identifier_member :: "member list" where
  "foreach_content_identifier_member = [Mplast 1 ''content_identifier_byte'']"

definition foreach_time_slice_fec_identifier_member :: "member list" where
  "foreach_time_slice_fec_identifier_member = [M T_uint8 ''time_slicing'' 1, M T_uint8 ''mpe_fec'' 2,
     M T_uint8 ''reserved'' 2, M T_uint8 ''frame_size'' 3, M1 T_uint8 ''max_burst_duration'',
     M T_uint8 ''max_average_rate'' 4, M T_uint8 ''time_slice_fec_id'' 4, Mplast 1 ''id_selector_byte'']"

definition foreach_ECM_repetition_rate_member :: "member list" where
  "foreach_ECM_repetition_rate_member = [M1 T_uint16 ''CA_system_ID'',
     M1 T_uint16 ''ECM_repetition_rate'', Mplast 1 ''private_data_byte'']"

definition foreach_S2_satellite_delivery_system_member :: "member list" where
  "foreach_S2_satellite_delivery_system_member = [M T_uint8 ''scrambling_sequence_selector'' 1,
     M T_uint8 ''multiple_input_stream_flag'' 1, M T_uint8 ''backwards_compatibility_indicator'' 1,
     M T_uint8 ''reserved_future_use'' 5,
     Mif 3 ''scrambling_sequence_index'' ''scrambling_sequence_selector'' 1,
     Mif 1 ''input_stream_identifier'' ''multiple_input_stream_flag'' 1]"

definition foreach_enhanced_AC3_member :: "member list" where
  "foreach_enhanced_AC3_member = [M T_uint8 ''component_type_flag'' 1, M T_uint8 ''bsid_flag'' 1,
     M T_uint8 ''mainid_flag'' 1, M T_uint8 ''asvc_flag'' 1, M T_uint8 ''mixinfoexists'' 1,
     M T_uint8 ''substream1_flag'' 1, M T_uint8 ''substream2_flag'' 1, M T_uint8 ''substream3_flag'' 1,
     Mif 1 ''component_type'' ''component_type_flag'' 1, Mif 1 ''bsid'' ''bsid_flag'' 1,
     Mif 1 ''mainid'' ''mainid_flag'' 1, Mif 1 ''asvc'' ''asvc_flag'' 1,
     Mif 1 ''substream1'' ''substream1_flag'' 1, Mif 1 ''substream2'' ''substream2_flag'' 1,
     Mif 1 ''substream3'' ''substream3_flag'' 1, Mplast 1 ''additional_info_byte'']"

definition foreach_DTS_member :: "member list" where
  "foreach_DTS_member = [M T_uint32 ''sample_rate_code'' 4, M T_uint32 ''bit_rate_code'' 6,
     M T_uint32 ''nblks'' 7, M T_uint32 ''fsize'' 14, M T_uint32 ''surround_mode_h'' 1,
     M T_uint8 ''surround_mode'' 5, M T_uint8 ''lfe_flag'' 1, M T_uint8 ''extended_surround_flag'' 2,
     Mplast 1 ''additional_info_byte'']"

definition foreach_AAC_member :: "member list" where
  "foreach_AAC_member = [M1 T_uint8 ''profile_and_level'', M T_uint8 ''AAC_type_flag'' 1,
     M T_uint8 ''SAOC_DE_flag'' 1, M T_uint8 ''reserved_future_use'' 6, M1 T_uint8 ''AAC_type'',
     Mplast 1 ''additional_info_byte'']"

definition foreach_XAIT_location_member :: "member list" where
  "foreach_XAIT_location_member = [M1 T_uint16 ''xait_original_network_id'',
     M1 T_uint16 ''xait_service_id'', M T_uint8 ''xait_version_number'' 5,
     M T_uint8 ''xait_update_policy'' 3]"

definition foreach_FTA_content_management_member :: "member list" where
  "foreach_FTA_content_management_member = [M T_uint8 ''user_defined'' 1,
     M T_uint8 ''reserved_future_use'' 3, M T_uint8 ''do_not_scramble'' 1,
     M T_uint8 ''control_remote_access_over_internet'' 2, M T_uint8 ''do_not_apply_revocation'' 1]"

definition foreach_extension_member :: "member list" where
  "foreach_extension_member = [M1 T_uint8 ''descriptor_tag_extension'', Mplast 1 ''selector_byte'']"

section \<open>ATSC descriptors\<close>

definition foreach_atsc_stuffing_member :: "member list" where
  "foreach_atsc_stuffing_member = [Mplast 1 ''ignore'']"

definition foreach_AC3_audio_stream_member :: "member list" where
  "foreach_AC3_audio_stream_member = [M T_uint8 ''sample_rate_code'' 3, M T_uint8 ''bsid'' 5,
     M T_uint8 ''bit_rate_code'' 6, M T_uint8 ''surround_mode'' 2, M T_uint8 ''bsmod'' 3,
     M T_uint8 ''num_channels'' 4, M T_uint8 ''full_svc'' 1, M1 T_uint8 ''langcod'',
     Mif 1 ''langcod2'' ''num_channels'' 0, M T_uint8 ''mainid'' 3, M T_uint8 ''priority'' 2,
     M T_uint8 ''reserved'' 3, M T_uint8 ''textlen'' 7, M T_uint8 ''text_code'' 1,
     Mlv 1 ''textlen'' 1 ''text'', M T_uint8 ''language_flag'' 1, M T_uint8 ''language_flag_2'' 1,
     M T_uint8 ''reserved1'' 6, Mif 3 ''language'' ''language_flag'' 1,
     Mif 3 ''language_2'' ''language_flag_2'' 1, Mplast 1 ''additional_info'']"

definition foreach_caption_service_member :: "member list" where
  "foreach_caption_service_member = [M T_uint8 ''reserved'' 3, M T_uint8 ''number_of_services'' 5,
     Mplast 5 ''captions'']"

definition foreach_content_advisory_member :: "member list" where
  "foreach_content_advisory_member = [M T_uint8 ''reserved'' 2, M T_uint8 ''rating_region_count'' 6,
     Mplast 32 ''rating_region'']"

definition foreach_extended_channel_name_member :: "member list" where
  "foreach_extended_channel_name_member = [Mplast 1 ''long_channel_name_text'']"

definition foreach_service_location_member :: "member list" where
  "foreach_service_location_member = [M T_uint16 ''reserved'' 3, M T_uint16 ''PCR_PID'' 13,
     M1 T_uint8 ''number_elements'', Mlv 6 ''number_elements'' 1 ''service_locations'']"

definition foreach_atsc_time_shifted_service_member :: "member list" where
  "foreach_atsc_time_shifted_service_member = [M T_uint8 ''reserved'' 3,
     M T_uint8 ''number_of_services'' 5, Mlv 5 ''number_of_services'' 1 ''time_shift_services'']"

definition foreach_component_name_member :: "member list" where
  "foreach_component_name_member = [Mplast 1 ''component_name_string'']"

definition foreach_dcc_departing_request_member :: "member list" where
  "foreach_dcc_departing_request_member = [M1 T_uint8 ''dcc_departing_request_type'',
     M1 T_uint8 ''dcc_departing_request_text_length'',
     Mlv 1 ''dcc_departing_request_text_length'' 1 ''dcc_departing_request_text'']"

definition foreach_dcc_arriving_request_member :: "member list" where
  "foreach_dcc_arriving_request_member = [M1 T_uint8 ''dcc_arriving_request_type'',
     M1 T_uint8 ''dcc_arriving_request_text_length'',
     Mlv 1 ''dcc_arriving_request_text_length'' 1 ''dcc_arriving_request_text'']"

definition foreach_rc_member :: "member list" where
  "foreach_rc_member = [Mplast 1 ''rc_information'']"

definition foreach_genre_member :: "member list" where
  "foreach_genre_member = [M T_uint8 ''reserved'' 3, M T_uint8 ''attribute_count'' 5,
     Mlv 1 ''attribute_count'' 1 ''attribute'']"

definition foreach_private_information_member :: "member list" where
  "foreach_private_information_member = [M1 T_uint32 ''format_identifier'',
     Mplast 1 ''private_data_byte'']"

definition foreach_enhanced_signaling_member :: "member list" where
  "foreach_enhanced_signaling_member = [M T_uint8 ''linkage_preference'' 2, M T_uint8 ''tx_method'' 2,
     M T_uint8 ''linked_component_tag'' 4]"

definition foreach_enhanced_AC3_audio_stream_member :: "member list" where
  "foreach_enhanced_AC3_audio_stream_member = [M T_uint8 ''reserved'' 1, M T_uint8 ''bsid_flag'' 1,
     M T_uint8 ''mainid_flag'' 1, M T_uint8 ''asvc_flag'' 1, M T_uint8 ''mixinfoexists'' 1,
     M T_uint8 ''substream1_flag'' 1, M T_uint8 ''substream2_flag'' 1, M T_uint8 ''substream3_flag'' 1,
     M T_uint8 ''reserved1'' 1, M T_uint8 ''full_service_flag'' 1, M T_uint8 ''audio_service_type'' 3,
     M T_uint8 ''number_of_channels'' 3, M T_uint8 ''language_flag'' 1, M T_uint8 ''language_flag_2'' 1,
     M T_uint8 ''bsid'' 5, Mif 1 ''priority_mainid'' ''mainid_flag'' 1, Mif 1 ''asvc'' ''asvc_flag'' 1,
     Mif 1 ''substream1'' ''substream1_flag'' 1, Mif 1 ''substream2'' ''substream2_flag'' 1,
     Mif 1 ''substream3'' ''substream3_flag'' 1, Mif 3 ''language'' ''language_flag'' 1,
     Mif 3 ''language_2'' ''language_flag_2'' 1, Mif 3 ''substream1_lang'' ''substream1_flag'' 1,
     Mif 3 ''substream2_lang'' ''substream2_flag'' 1, Mif 3 ''substream3_lang'' ''substream3_flag'' 1,
     Mplast 1 ''additional_info_byte'']"

section \<open>ISDB descriptors\<close>

definition foreach_AVC_video_member :: "member list" where
  "foreach_AVC_video_member = [M1 T_uint8 ''AVC_profile'', M T_uint8 ''set0_constraint_flag'' 1,
     M T_uint8 ''set1_constraint_flag'' 1, M T_uint8 ''set2_constraint_flag'' 1,
     M T_uint8 ''AVC_compatible_flag'' 5, M1 T_uint8 ''AVC_level'', M T_uint8 ''AVC_still_picture'' 1,
     M T_uint8 ''AVC_24_hours_video_flag'' 1, M T_uint8 ''reserved'' 6]"

definition foreach_AVC_timing_and_HRD_member :: "member list" where
  "foreach_AVC_timing_and_HRD_member = [M T_uint8 ''HRD_management_valid_flag'' 1,
     M T_uint8 ''reserved'' 6, M T_uint8 ''picture_and_timing_info_present'' 1,
     Mif 1 ''_90kHz_flag'' ''picture_and_timing_info_present'' 1, Mif 4 ''N'' ''_90kHz_flag'' 0,
     Mif 4 ''K'' ''_90kHz_flag'' 0,
     Mif 4 ''time_calculation_unit'' ''picture_and_timing_info_present'' 1,
     M T_uint8 ''fixed_flame_late_flag'' 1, M T_uint8 ''time_POC_flag'' 1,
     M T_uint8 ''video_display_conversion_flag'' 1, M T_uint8 ''reserved1'' 5]"

definition foreach_hierarchical_transmission_member :: "member list" where
  "foreach_hierarchical_transmission_member = [M T_uint8 ''reserved'' 7,
     M T_uint8 ''hierarchical_level'' 1, M T_uint16 ''reserved1'' 3, M T_uint16 ''reference_PID'' 13]"

definition foreach_digital_copy_control_member :: "member list" where
  "foreach_digital_copy_control_member = [M T_uint8 ''digital_copy_control_info'' 2,
     M T_uint8 ''maximum_bitrate_flag'' 1, M T_uint8 ''component_control_flag'' 1,
     M T_uint8 ''user_defined'' 4, Mif 1 ''maximum_bitrate'' ''maximum_bitrate_flag'' 1,
     Mif 1 ''component_control_length'' ''component_control_flag'' 1, Mplast 3 ''coponents'']"

definition foreach_network_identification_member :: "member list" where
  "foreach_network_identification_member = [M1 T_uint24 ''country_code'', M1 T_uint16 ''media_type'',
     M1 T_uint16 ''network_id'', Mplast 1 ''private_data'']"

definition foreach_Partial_Transport_Stream_time_member :: "member list" where
  "foreach_Partial_Transport_Stream_time_member = [Mplast 1 ''tbd'']"

definition foreach_audio_component_member :: "member list" where
  "foreach_audio_component_member = [M T_uint8 ''reserved'' 4, M T_uint8 ''stream_content'' 4,
     M1 T_uint8 ''component_type'', M1 T_uint8 ''component_tag'', M1 T_uint8 ''stream_type'',
     M1 T_uint8 ''simulcast_group_tag'', M T_uint32 ''ES_multi_language_flag'' 1,
     M T_uint32 ''main_component_flag'' 1, M T_uint32 ''quality_indicator'' 2,
     M T_uint32 ''sampling_rate'' 3, M T_uint32 ''reserved_for_future'' 1, M T_uint32 ''audio_lang'' 1,
     Mif 3 ''audio_lang2'' ''ES_multi_language_flag'' 1, Mplast 1 ''text_byte'']"

definition foreach_hyperlink_member :: "member list" where
  "foreach_hyperlink_member = [M1 T_uint16 ''hyper_linkage_type'', M1 T_uint8 ''link_destination_type'',
     M1 T_uint8 ''selector_length'', Mlv 1 ''selector_length'' 1 ''selector_byte'',
     Mplast 1 ''private_area'']"

definition foreach_target_region_member :: "member list" where
  "foreach_target_region_member = [M1 T_uint8 ''region_spec_type'', Mplast 1 ''target_region_spec'']"

definition foreach_data_content_member :: "member list" where
  "foreach_data_content_member = [M1 T_uint16 ''data_component_id'', M1 T_uint8 ''entry_component'',
     M1 T_uint8 ''selector_length'', Mlv 1 ''selector_length'' 1 ''selector_byte'',
     M1 T_uint8 ''number_of_component_ref'', Mlv 1 ''number_of_component_ref'' 1 ''component_ref'',
     M T_uint32 ''lang_code'' 24, M T_uint32 ''text_length'' 8, Mlv 1 ''text_length'' 1 ''text_char'']"

definition foreach_video_decode_control_member :: "member list" where
  "foreach_video_decode_control_member = [M T_uint8 ''still_picture_flag'' 1,
     M T_uint8 ''sequence_end_code_flag'' 1, M T_uint8 ''video_encode_format'' 4,
     M T_uint8 ''reserved'' 2]"

definition foreach_download_content_member :: "member list" where
  "foreach_download_content_member = [M T_uint8 ''reboot'' 1, M T_uint8 ''add_on'' 1,
     M T_uint8 ''compatibility_flag'' 1, M T_uint8 ''module_info_flag'' 1,
     M T_uint8 ''text_info_flag'' 1, M T_uint8 ''reserved1'' 3, M1 T_uint32 ''component_size'',
     M1 T_uint32 ''download_id'', M1 T_uint32 ''time_out_value_DII'', M T_uint32 ''leak_rate'' 22,
     M T_uint32 ''reserved2'' 2, M T_uint32 ''component_tag'' 8,
     Mif_custom parse_compatibility ''compat_desc'' ''compatibility_flag'' 1,
     Mif_custom parse_module_info_list ''modules'' ''module_info_flag'' 1,
     M1 T_uint8 ''private_data_length'', Mlv 1 ''private_data_length'' 1 ''private_data_byte'',
     Mif_custom parse_text_info ''text'' ''text_info_flag'' 1]"

definition foreach_CA_emm_ts_member :: "member list" where
  "foreach_CA_emm_ts_member = [M1 T_uint16 ''CA_system_id'', M1 T_uint16 ''transport_stream_id'',
     M1 T_uint16 ''original_network_id'', M1 T_uint8 ''power_supply_period'']"

definition foreach_CA_contract_info_member :: "member list" where
  "foreach_CA_contract_info_member = [M1 T_uint16 ''CA_system_id'', M T_uint8 ''CA_unit_id'' 4,
     M T_uint8 ''num_of_component'' 4, Mlv 1 ''num_of_component'' 1 ''component_tag'',
     M1 T_uint8 ''contract_verification_info_length'',
     Mlv 1 ''contract_verification_info_length'' 1 ''contract_verification_info'',
     M1 T_uint8 ''fee_name_length'', Mlv 1 ''fee_name_length'' 1 ''fee_name'']"

definition foreach_CA_service_member :: "member list" where
  "foreach_CA_service_member = [M1 T_uint16 ''CA_system_id'', M1 T_uint8 ''ca_broadcaster_group_id'',
     M1 T_uint8 ''message_control'', Mplast 2 ''service_id'']"

definition foreach_ts_information_member :: "member list" where
  "foreach_ts_information_member = [M1 T_uint8 ''remote_control_key_identification'',
     M T_uint8 ''length_of_ts_name'' 6, M T_uint8 ''transmission_type_count'' 2,
     Mlv 1 ''length_of_ts_name'' 1 ''ts_name_char'', Mploop 1 ''info'', Mplast 1 ''reserved_for_future'']"

definition foreach_extended_broadcaster_member :: "member list" where
  "foreach_extended_broadcaster_member = [M T_uint8 ''broadcaster_type'' 4, M T_uint8 ''reserved'' 4,
     M1 T_uint16 ''terrestrial_broadcaster_ID'', M T_uint8 ''number_of_affiliation_ID_loop'' 4,
     M T_uint8 ''number_of_broadcaster_ID'' 4,
     Mlv 1 ''number_of_affiliation_ID_loop'' 1 ''affiliation_ID'',
     Mlv 3 ''number_of_broadcaster_ID'' 1 ''broadcaster_id'', Mplast 1 ''parivate_data'']"

definition foreach_logo_transmission_member :: "member list" where
  "foreach_logo_transmission_member = [M1 T_uint8 ''logo_transmission_type'',
     Mif 6 ''logo_iden_1'' ''logo_transmission_type'' 1,
     Mif 2 ''logo_iden_2'' ''logo_transmission_type'' 2, Mplast 1 ''logo_char'']"

definition foreach_basic_local_event_member :: "member list" where
  "foreach_basic_local_event_member = [M T_uint8 ''reserved'' 4, M T_uint8 ''segmentation_mode'' 4,
     M1 T_uint8 ''segmentation_info_length'',
     Mlv 1 ''segmentation_info_length'' 1 ''segmentation_info'', Mplast 1 ''component_tag'']"

definition foreach_reference_member :: "member list" where
  "foreach_reference_member = [M1 T_uint16 ''information_provider_id'',
     M1 T_uint16 ''event_relation_id'', Mplast 4 ''references'']"

definition foreach_node_relation_member :: "member list" where
  "foreach_node_relation_member = [M T_uint8 ''reference_type'' 4,
     M T_uint8 ''external_reference_flag'' 1, M T_uint8 ''reserved'' 3,
     Mif 2 ''information_provider_id'' ''external_reference_flag'' 1,
     Mif 2 ''event_relation_id'' ''external_reference_flag'' 1, M1 T_uint16 ''reference_node_id'',
     M1 T_uint8 ''reference_number'']"

definition foreach_short_node_information_member :: "member list" where
  "foreach_short_node_information_member = [M T_uint32 ''lang_code'' 24,
     M T_uint32 ''node_name_length'' 8, Mlv 1 ''node_name_length'' 1 ''node_name_char'',
     M1 T_uint8 ''text_length'', Mlv 1 ''text_length'' 1 ''text_char'']"

definition foreach_STC_reference_member :: "member list" where
  "foreach_STC_reference_member = [M T_uint8 ''reserved'' 3, M T_uint8 ''external_event_flag'' 1,
     M T_uint8 ''STC_reference_mode'' 4, Mif 2 ''external_event_id'' ''external_event_flag'' 1,
     Mif 2 ''external_service_id'' ''external_event_flag'' 1,
     Mif 2 ''external_network_id'' ''external_event_flag'' 1, Mplast 1 ''references'']"

definition foreach_series_member :: "member list" where
  "foreach_series_member = [M1 T_uint16 ''series_id'', M T_uint8 ''repeat_label'' 4,
     M T_uint8 ''program_pattern'' 3, M T_uint8 ''expire_date_valid_flag'' 1,
     M1 T_uint16 ''expire_time'', M1 T_uint8 ''expire_name'', M1 T_uint16 ''last_expire_number'',
     Mplast 1 ''series_name_char'']"

definition foreach_event_group_member :: "member list" where
  "foreach_event_group_member = [M T_uint8 ''group_type'' 4, M T_uint8 ''event_count'' 4,
     Mlv 4 ''event_count'' 1 ''event_groups'', Mplast 8 ''private_data'']"

definition foreach_SI_parameter_member :: "member list" where
  "foreach_SI_parameter_member = [M1 T_uint8 ''parameter_version'', M1 T_uint16 ''update_time'',
     Mploop 1 ''parameter'']"

definition foreach_broadcaster_name_member :: "member list" where
  "foreach_broadcaster_name_member = [Mplast 1 ''text_char'']"

definition foreach_component_group_member :: "member list" where
  "foreach_component_group_member = [M T_uint8 ''component_group_type'' 3,
     M T_uint8 ''total_bit_rate_flag'' 1, M T_uint8 ''num_of_group'' 4]"

definition foreach_SI_prime_TS_member :: "member list" where
  "foreach_SI_prime_TS_member = [M1 T_uint8 ''parameter_version'', M1 T_uint16 ''update_time'',
     M1 T_uint16 ''SI_prime_ts_network_id'', M1 T_uint16 ''SI_prime_transport_stream_id'',
     Mploop 1 ''parameter'']"

definition foreach_board_information_member :: "member list" where
  "foreach_board_information_member = [M1 T_uint8 ''title_length'', Mlv 1 ''title_length'' 1 ''title'',
     M1 T_uint8 ''text_length'', Mlv 1 ''text_length'' 1 ''text'']"

definition foreach_LDT_linkage_member :: "member list" where
  "foreach_LDT_linkage_member = [M1 T_uint16 ''original_service_id'',
     M1 T_uint16 ''transport_stream_id'', M1 T_uint16 ''original_network_id'', Mplast 4 ''linkage'']"

definition foreach_connected_transmission_member :: "member list" where
  "foreach_connected_transmission_member = [M1 T_uint16 ''connected_transmission_group_id'',
     M T_uint8 ''segment_type'' 2, M T_uint8 ''modulation_type_A'' 2, M T_uint8 ''modulation_type_B'' 2,
     M T_uint8 ''reserved'' 2, Mplast 1 ''additional_connected_transmission_info'']"

definition foreach_content_availability_member :: "member list" where
  "foreach_content_availability_member = [M T_uint8 ''reserved'' 1,
     M T_uint8 ''copy_restriction_mode'' 1, M T_uint8 ''image_constraint_token'' 1,
     M T_uint8 ''temporal_accumulation_control_bit'' 1,
     M T_uint8 ''allowable_time_of_temporal_accumulation'' 3, M T_uint8 ''output_protection_bit'' 1,
     Mplast 1 ''reserved_for_future'']"

definition foreach_composite_member :: "member list" where
  "foreach_composite_member = [M1 T_uint8 ''sub_descriptor_tag'', M1 T_uint8 ''sub_descriptor_length'',
     Mlv 1 ''sub_descriptor_length'' 1 ''data_byte'']"

definition foreach_service_group_member :: "member list" where
  "foreach_service_group_member = [M T_uint8 ''service_group_type'' 4, M T_uint8 ''undefined'' 4,
     Mplast 4 ''service_info'']"

definition foreach_carousel_compatible_composite_member :: "member list" where
  "foreach_carousel_compatible_composite_member = [Mploop 1 ''subdescriptor'']"

definition foreach_conditional_playback_member :: "member list" where
  "foreach_conditional_playback_member = [M1 T_uint16 ''conditional_playback_system_identifier'',
     M T_uint16 ''reserved'' 3, M T_uint16 ''conditional_playback_PID'' 13, Mplast 1 ''private_data'']"

definition foreach_isdb_terrestrial_delivery_system_member :: "member list" where
  "foreach_isdb_terrestrial_delivery_system_member = [M T_uint16 ''area_code'' 12,
     M T_uint16 ''guard_interval'' 2, M T_uint16 ''transmission_mode'' 2, Mplast 2 ''frequency'']"

definition foreach_partial_reception_member :: "member list" where
  "foreach_partial_reception_member = [Mplast 2 ''service_id'']"

definition foreach_emergency_information_member :: "member list" where
  "foreach_emergency_information_member = [M1 T_uint16 ''service_id'', M T_uint8 ''start_end_flag'' 1,
     M T_uint8 ''signal_level'' 1, M T_uint8 ''reserved'' 6, M1 T_uint8 ''area_code_length'',
     Mlv 2 ''area_code_length'' 2 ''areas'']"

definition foreach_data_component_member :: "member list" where
  "foreach_data_component_member = [M1 T_uint16 ''data_component_id'',
     Mplast 1 ''additional_identifier_info'']"

definition foreach_system_management_member :: "member list" where
  "foreach_system_management_member = [M1 T_uint16 ''system_management_id'',
     Mplast 1 ''additional_identifier_info'']"

section \<open>The table\<close>

definition foreach_enum_dvb_descriptor :: "(string \<times> u8 \<times> member list) list" where
  "foreach_enum_dvb_descriptor = [
     (''network_name'', 0x40, foreach_network_name_member),
     (''service_list'', 0x41, foreach_service_list_member),
     (''stuffing'', 0x42, foreach_stuffing_member),
     (''satellite_delivery_system'', 0x43, foreach_satellite_delivery_system_member),
     (''cable_delivery_system'', 0x44, foreach_cable_delivery_system_member),
     (''VBI_data'', 0x45, foreach_VBI_data_member),
     (''VBI_teletext'', 0x46, foreach_VBI_teletext_member),
     (''bouquet_name'', 0x47, foreach_bouquet_name_member),
     (''service'', 0x48, foreach_service_member),
     (''country_availability'', 0x49, foreach_country_availability_member),
     (''linkage'', 0x4A, foreach_linkage_member),
     (''NVOD_reference'', 0x4B, foreach_NVOD_reference_member),
     (''time_shifted_service'', 0x4C, foreach_time_shifted_service_member),
     (''short_event'', 0x4D, foreach_short_event_member),
     (''extended_event'', 0x4E, foreach_extended_event_member),
     (''time_shifted_event'', 0x4F, foreach_time_shifted_event_member),
     (''component'', 0x50, foreach_component_member),
     (''mosaic'', 0x51, foreach_mosaic_member),
     (''stream_identifier'', 0x52, foreach_stream_identifier_member),
     (''CA_identifier'', 0x53, foreach_CA_identifier_member),
     (''content'', 0x54, foreach_content_member),
     (''parental_rating'', 0x55, foreach_parental_rating_member),
     (''teletext'', 0x56, foreach_teletext_member),
     (''telephone'', 0x57, foreach_telephone_member),
     (''local_time_offset'', 0x58, foreach_local_time_offset_member),
     (''subtitling'', 0x59, foreach_subtitling_member),
     (''terrestrial_delivery_system'', 0x5A, foreach_terrestrial_delivery_system_member),
     (''multilingual_network_name'', 0x5B, foreach_multilingual_network_name_member),
     (''multilingual_bouquet_name'', 0x5C, foreach_multilingual_bouquet_name_member),
     (''multilingual_service_name'', 0x5D, foreach_multilingual_service_name_member),
     (''multilingual_component'', 0x5E, foreach_multilingual_component_member),
     (''private_data_specifier'', 0x5F, foreach_private_data_specifier_member),
     (''service_move'', 0x60, foreach_service_move_member),
     (''short_smoothing_buffer'', 0x61, foreach_short_smoothing_buffer_member),
     (''frequency_list'', 0x62, foreach_frequency_list_member),
     (''partial_transport_stream'', 0x63, foreach_partial_transport_stream_member),
     (''data_broadcast'', 0x64, foreach_data_broadcast_member),
     (''scrambling'', 0x65, foreach_scrambling_member),
     (''data_broadcast_id'', 0x66, foreach_data_broadcast_id_member),
     (''transport_stream'', 0x67, foreach_transport_stream_member),
     (''DSNG'', 0x68, foreach_DSNG_member),
     (''PDC'', 0x69, foreach_PDC_member),
     (''AC3'', 0x6A, foreach_AC3_member),
     (''ancillary_data'', 0x6B, foreach_ancillary_data_member),
     (''cell_list'', 0x6C, foreach_cell_list_member),
     (''cell_frequency_link'', 0x6D, foreach_cell_frequency_link_member),
     (''announcement_support'', 0x6E, foreach_announcement_support_member),
     (''application_signalling'', 0x6F, foreach_application_signalling_member),
     (''adaptation_field_data'', 0x70, foreach_adaptation_field_data_member),
     (''service_identifier'', 0x71, foreach_service_identifier_member),
     (''service_availability'', 0x72, foreach_service_availability_member),
     (''default_authority'', 0x73, foreach_default_authority_member),
     (''related_content'', 0x74, foreach_related_content_member),
     (''TVA_id'', 0x75, foreach_TVA_id_member),
     (''content_identifier'', 0x76, foreach_content_identifier_member),
     (''time_slice_fec_identifier'', 0x77, foreach_time_slice_fec_identifier_member),
     (''ECM_repetition_rate'', 0x78, foreach_ECM_repetition_rate_member),
     (''S2_satellite_delivery_system'', 0x79, foreach_S2_satellite_delivery_system_member),
     (''enhanced_AC3'', 0x7A, foreach_enhanced_AC3_member),
     (''DTS'', 0x7B, foreach_DTS_member),
     (''AAC'', 0x7C, foreach_AAC_member),
     (''XAIT_location'', 0x7D, foreach_XAIT_location_member),
     (''FTA_content_management'', 0x7E, foreach_FTA_content_management_member),
     (''extension'', 0x7F, foreach_extension_member)]"

definition foreach_enum_atsc_descriptor :: "(string \<times> u8 \<times> member list) list" where
  "foreach_enum_atsc_descriptor = [
     (''atsc_stuffing'', 0x80, foreach_atsc_stuffing_member),
     (''AC3_audio_stream'', 0x81, foreach_AC3_audio_stream_member),
     (''caption_service'', 0x86, foreach_caption_service_member),
     (''content_advisory'', 0x87, foreach_content_advisory_member),
     (''extended_channel_name'', 0xA0, foreach_extended_channel_name_member),
     (''service_location'', 0xA1, foreach_service_location_member),
     (''atsc_time_shifted_service'', 0xA2, foreach_atsc_time_shifted_service_member),
     (''component_name'', 0xA3, foreach_component_name_member),
     (''dcc_departing_request'', 0xA8, foreach_dcc_departing_request_member),
     (''dcc_arriving_request'', 0xA9, foreach_dcc_arriving_request_member),
     (''rc'', 0xAA, foreach_rc_member),
     (''genre'', 0xAB, foreach_genre_member),
     (''private_information'', 0xAD, foreach_private_information_member),
     (''enhanced_signaling'', 0xB2, foreach_enhanced_signaling_member),
     (''enhanced_AC3_audio_stream'', 0xCC, foreach_enhanced_AC3_audio_stream_member)]"

definition foreach_enum_isdb_descriptor :: "(string \<times> u8 \<times> member list) list" where
  "foreach_enum_isdb_descriptor = [
     (''AVC_video'', 0x28, foreach_AVC_video_member),
     (''AVC_timing_and_HRD'', 0x2A, foreach_AVC_timing_and_HRD_member),
     (''hierarchical_transmission'', 0xC0, foreach_hierarchical_transmission_member),
     (''digital_copy_control'', 0xC1, foreach_digital_copy_control_member),
     (''network_identification'', 0xC2, foreach_network_identification_member),
     (''Partial_Transport_Stream_time'', 0xC3, foreach_Partial_Transport_Stream_time_member),
     (''audio_component'', 0xC4, foreach_audio_component_member),
     (''hyperlink'', 0xC5, foreach_hyperlink_member),
     (''target_region'', 0xC6, foreach_target_region_member),
     (''data_content'', 0xC7, foreach_data_content_member),
     (''video_decode_control'', 0xC8, foreach_video_decode_control_member),
     (''download_content'', 0xC9, foreach_download_content_member),
     (''CA_emm_ts'', 0xCA, foreach_CA_emm_ts_member),
     (''CA_contract_info'', 0xCB, foreach_CA_contract_info_member),
     (''CA_service'', 0xCC, foreach_CA_service_member),
     (''ts_information'', 0xCD, foreach_ts_information_member),
     (''extended_broadcaster'', 0xCE, foreach_extended_broadcaster_member),
     (''logo_transmission'', 0xCF, foreach_logo_transmission_member),
     (''basic_local_event'', 0xD0, foreach_basic_local_event_member),
     (''reference'', 0xD1, foreach_reference_member),
     (''node_relation'', 0xD2, foreach_node_relation_member),
     (''short_node_information'', 0xD3, foreach_short_node_information_member),
     (''STC_reference'', 0xD4, foreach_STC_reference_member),
     (''series'', 0xD5, foreach_series_member),
     (''event_group'', 0xD6, foreach_event_group_member),
     (''SI_parameter'', 0xD7, foreach_SI_parameter_member),
     (''broadcaster_name'', 0xD8, foreach_broadcaster_name_member),
     (''component_group'', 0xD9, foreach_component_group_member),
     (''SI_prime_TS'', 0xDA, foreach_SI_prime_TS_member),
     (''board_information'', 0xDB, foreach_board_information_member),
     (''LDT_linkage'', 0xDC, foreach_LDT_linkage_member),
     (''connected_transmission'', 0xDD, foreach_connected_transmission_member),
     (''content_availability'', 0xDE, foreach_content_availability_member),
     (''composite'', 0xDF, foreach_composite_member),
     (''service_group'', 0xE0, foreach_service_group_member),
     (''carousel_compatible_composite'', 0xF7, foreach_carousel_compatible_composite_member),
     (''conditional_playback'', 0xF8, foreach_conditional_playback_member),
     (''isdb_terrestrial_delivery_system'', 0xFA, foreach_isdb_terrestrial_delivery_system_member),
     (''partial_reception'', 0xFB, foreach_partial_reception_member),
     (''emergency_information'', 0xFC, foreach_emergency_information_member),
     (''data_component'', 0xFD, foreach_data_component_member),
     (''system_management'', 0xFE, foreach_system_management_member)]"

definition foreach_enum_descriptor :: "(string \<times> u8 \<times> member list) list" where
  "foreach_enum_descriptor = [
     (''video_stream'', 0x02, foreach_video_stream_member),
     (''audio_stream'', 0x03, foreach_audio_stream_member),
     (''hierarchy'', 0x04, foreach_hierarchy_member),
     (''registration'', 0x05, foreach_registration_member),
     (''data_stream_alignment'', 0x06, foreach_data_stream_alignment_member),
     (''target_background_grid'', 0x07, foreach_target_background_grid_member),
     (''video_window'', 0x08, foreach_video_window_member),
     (''CA'', 0x09, foreach_CA_member),
     (''ISO_639_language'', 0x0A, foreach_ISO_639_language_member),
     (''system_clock'', 0x0B, foreach_system_clock_member),
     (''multiplex_buffer_utilization'', 0x0C, foreach_multiplex_buffer_utilization_member),
     (''copyright'', 0x0D, foreach_copyright_member),
     (''maximum_bitrate'', 0x0E, foreach_maximum_bitrate_member),
     (''private_data_indicator'', 0x0F, foreach_private_data_indicator_member),
     (''smoothing_buffer'', 0x10, foreach_smoothing_buffer_member),
     (''STD'', 0x11, foreach_STD_member),
     (''ibp'', 0x12, foreach_ibp_member),
     (''carousel_identifier'', 0x13, foreach_carousel_identifier_member),
     (''association_tag'', 0x14, foreach_association_tag_member),
     (''deferred_association_tags'', 0x15, foreach_deferred_association_tags_member),
     (''NPTRefrence'', 0x17, foreach_NPTRefrence_member),
     (''NPTEndpoint'', 0x18, foreach_NPTEndpoint_member),
     (''StreamMode'', 0x19, foreach_StreamMode_member),
     (''StreamEvent'', 0x1A, foreach_StreamEvent_member),
     (''MPEG4_video'', 0x1B, foreach_MPEG4_video_member),
     (''MPEG4_audio'', 0x1C, foreach_MPEG4_audio_member),
     (''IOD'', 0x1D, foreach_IOD_member),
     (''SL'', 0x1E, foreach_SL_member),
     (''FMC'', 0x1F, foreach_FMC_member),
     (''external_ES_ID'', 0x20, foreach_external_ES_ID_member),
     (''muxcode'', 0x21, foreach_muxcode_member),
     (''FmxBufferSize'', 0x22, foreach_FmxBufferSize_member),
     (''MultiplexBuffer'', 0x23, foreach_MultiplexBuffer_member)] @ foreach_enum_dvb_descriptor @ foreach_enum_atsc_descriptor @ foreach_enum_isdb_descriptor"

text \<open>
  \<open>init_descriptor_parsers\<close>: every tag gets the generic parser, then the entries are
  written in order, so that the last one for a tag stays.
\<close>

definition init_descriptor_parsers :: "u8 \<Rightarrow> desc_ops" where
  "init_descriptor_parsers =
     fold (\<lambda>(nm, tag, ms) ops. ops(tag := Generated tag ms)) foreach_enum_descriptor (\<lambda>_. Reserved)"

lemmas member_lists =
  foreach_video_stream_member_def foreach_audio_stream_member_def foreach_hierarchy_member_def
  foreach_registration_member_def foreach_data_stream_alignment_member_def
  foreach_target_background_grid_member_def foreach_video_window_member_def foreach_CA_member_def
  foreach_ISO_639_language_member_def foreach_system_clock_member_def
  foreach_multiplex_buffer_utilization_member_def foreach_copyright_member_def
  foreach_maximum_bitrate_member_def foreach_private_data_indicator_member_def
  foreach_smoothing_buffer_member_def foreach_STD_member_def foreach_ibp_member_def
  foreach_carousel_identifier_member_def foreach_association_tag_member_def
  foreach_deferred_association_tags_member_def foreach_NPTRefrence_member_def
  foreach_NPTEndpoint_member_def foreach_StreamMode_member_def foreach_StreamEvent_member_def
  foreach_MPEG4_video_member_def foreach_MPEG4_audio_member_def foreach_IOD_member_def
  foreach_SL_member_def foreach_FMC_member_def foreach_external_ES_ID_member_def
  foreach_muxcode_member_def foreach_FmxBufferSize_member_def foreach_MultiplexBuffer_member_def
  foreach_network_name_member_def foreach_service_list_member_def foreach_stuffing_member_def
  foreach_satellite_delivery_system_member_def foreach_cable_delivery_system_member_def
  foreach_VBI_data_member_def foreach_VBI_teletext_member_def foreach_bouquet_name_member_def
  foreach_service_member_def foreach_country_availability_member_def foreach_linkage_member_def
  foreach_NVOD_reference_member_def foreach_time_shifted_service_member_def foreach_short_event_member_def
  foreach_extended_event_member_def foreach_time_shifted_event_member_def foreach_component_member_def
  foreach_mosaic_member_def foreach_stream_identifier_member_def foreach_CA_identifier_member_def
  foreach_content_member_def foreach_parental_rating_member_def foreach_teletext_member_def
  foreach_telephone_member_def foreach_local_time_offset_member_def foreach_subtitling_member_def
  foreach_terrestrial_delivery_system_member_def foreach_multilingual_network_name_member_def
  foreach_multilingual_bouquet_name_member_def foreach_multilingual_service_name_member_def
  foreach_multilingual_component_member_def foreach_private_data_specifier_member_def
  foreach_service_move_member_def foreach_short_smoothing_buffer_member_def
  foreach_frequency_list_member_def foreach_partial_transport_stream_member_def
  foreach_data_broadcast_member_def foreach_scrambling_member_def foreach_data_broadcast_id_member_def
  foreach_transport_stream_member_def foreach_DSNG_member_def foreach_PDC_member_def
  foreach_AC3_member_def foreach_ancillary_data_member_def foreach_cell_list_member_def
  foreach_cell_frequency_link_member_def foreach_announcement_support_member_def
  foreach_application_signalling_member_def foreach_adaptation_field_data_member_def
  foreach_service_identifier_member_def foreach_service_availability_member_def
  foreach_default_authority_member_def foreach_related_content_member_def foreach_TVA_id_member_def
  foreach_content_identifier_member_def foreach_time_slice_fec_identifier_member_def
  foreach_ECM_repetition_rate_member_def foreach_S2_satellite_delivery_system_member_def
  foreach_enhanced_AC3_member_def foreach_DTS_member_def foreach_AAC_member_def
  foreach_XAIT_location_member_def foreach_FTA_content_management_member_def foreach_extension_member_def
  foreach_atsc_stuffing_member_def foreach_AC3_audio_stream_member_def foreach_caption_service_member_def
  foreach_content_advisory_member_def foreach_extended_channel_name_member_def
  foreach_service_location_member_def foreach_atsc_time_shifted_service_member_def
  foreach_component_name_member_def foreach_dcc_departing_request_member_def
  foreach_dcc_arriving_request_member_def foreach_rc_member_def foreach_genre_member_def
  foreach_private_information_member_def foreach_enhanced_signaling_member_def
  foreach_enhanced_AC3_audio_stream_member_def foreach_AVC_video_member_def
  foreach_AVC_timing_and_HRD_member_def foreach_hierarchical_transmission_member_def
  foreach_digital_copy_control_member_def foreach_network_identification_member_def
  foreach_Partial_Transport_Stream_time_member_def foreach_audio_component_member_def
  foreach_hyperlink_member_def foreach_target_region_member_def foreach_data_content_member_def
  foreach_video_decode_control_member_def foreach_download_content_member_def foreach_CA_emm_ts_member_def
  foreach_CA_contract_info_member_def foreach_CA_service_member_def foreach_ts_information_member_def
  foreach_extended_broadcaster_member_def foreach_logo_transmission_member_def
  foreach_basic_local_event_member_def foreach_reference_member_def foreach_node_relation_member_def
  foreach_short_node_information_member_def foreach_STC_reference_member_def foreach_series_member_def
  foreach_event_group_member_def foreach_SI_parameter_member_def foreach_broadcaster_name_member_def
  foreach_component_group_member_def foreach_SI_prime_TS_member_def foreach_board_information_member_def
  foreach_LDT_linkage_member_def foreach_connected_transmission_member_def
  foreach_content_availability_member_def foreach_composite_member_def foreach_service_group_member_def
  foreach_carousel_compatible_composite_member_def foreach_conditional_playback_member_def
  foreach_isdb_terrestrial_delivery_system_member_def foreach_partial_reception_member_def
  foreach_emergency_information_member_def foreach_data_component_member_def
  foreach_system_management_member_def

lemmas descriptor_enums = foreach_enum_descriptor_def foreach_enum_dvb_descriptor_def
  foreach_enum_atsc_descriptor_def foreach_enum_isdb_descriptor_def

section \<open>Properties\<close>

text \<open>
  C18. The area of a descriptor loop that consists of well-formed descriptors is split into exactly
  these descriptors, each filled as its own parser fills it alone, for every table of parsers and
  whatever follows the area.
\<close>

theorem parse_descriptors_area:
  assumes "\<forall>(d, b) \<in> set dbs. length (snd d) < 256 \<and> parse_alone j init_descriptor_parsers d = Some b"
  shows "parse_descriptors (always_ok j) init_descriptor_parsers
      (concat (map (encode \<circ> fst) dbs) @ rest) (int (length (concat (map (encode \<circ> fst) dbs)))) =
    Some (map (\<lambda>(d, b). mk_descriptor d b) dbs)"
  unfolding parse_descriptors_def
  using assms by (intro des.area_encoded) (auto simp: parse_alone_def)

theorem parse_descriptors_area_witness:
  "parse_descriptors (always_ok (\<lambda>_. 0)) init_descriptor_parsers
      (concat (map (encode \<circ> fst) [((0x30, [7, 8]), (0 :: int, [(''data'', FBytes [7, 8])]))]) @ [1])
      (int (length (concat (map (encode \<circ> fst) [((0x30, [7, 8]), (0 :: int, [(''data'', FBytes [7, 8])]))])))) =
    Some (map (\<lambda>(d, b). mk_descriptor d b) [((0x30, [7, 8]), (0, [(''data'', FBytes [7, 8])]))])"
proof (rule parse_descriptors_area)
  have "init_descriptor_parsers 0x30 = Reserved"
    unfolding init_descriptor_parsers_def descriptor_enums by simp
  then show "\<forall>(d, b) \<in> set [((0x30, [7, 8]), (0, [(''data'', FBytes [7, 8])]))]. length (snd d) < 256 \<and>
      parse_alone (\<lambda>_. 0) init_descriptor_parsers d = Some b"
    by (simp add: parse_alone_def encode_def descriptor_parse_def parse_reserved_descriptor_def rd_bytes_def)
qed

text \<open>
  C19. A run of bit fields (\<open>__m\<close> members) that fits its words is read as the big-endian bit
  string it is on the wire: every field gets the number its bits spell at its position, and the
  parser stands after the last one.
\<close>

theorem members_loop_bit_fields:
  assumes "bits_only ms" "layout_ok (bits_off s) ms" "bits_off s < 8"
    and "\<forall>ty nm n. M ty nm n \<in> set ms \<longrightarrow> 8 * bytes_off s + bits_off s + bits_total ms + width ty \<le> 8 * length buf"
  shows "\<exists>s'. members_loop e buf len dlen ms s = Some (Inr s') \<and>
    dr s' = rev (bit_fields buf (8 * bytes_off s + bits_off s) ms) @ dr s \<and>
    8 * bytes_off s' + bits_off s' = 8 * bytes_off s + bits_off s + bits_total ms"
  using bits_parse [OF assms] by blast

theorem members_loop_bit_fields_witness:
  "\<exists>s'. members_loop (always_ok (\<lambda>_. 0)) [4, 4, 0xF3, 0xC1, 0xC2, 0xC3, 0, 0] 6 4 foreach_hierarchy_member
      \<lparr>bits_off = 0, bytes_off = 2, dr = []\<rparr> = Some (Inr s') \<and>
    dr s' = rev (bit_fields [4, 4, 0xF3, 0xC1, 0xC2, 0xC3, 0, 0] (8 * bytes_off \<lparr>bits_off = 0, bytes_off = 2, dr = []\<rparr> +
        bits_off \<lparr>bits_off = 0, bytes_off = 2, dr = []\<rparr>) foreach_hierarchy_member) @ dr \<lparr>bits_off = 0, bytes_off = 2, dr = []\<rparr> \<and>
    8 * bytes_off s' + bits_off s' = 8 * bytes_off \<lparr>bits_off = 0, bytes_off = 2, dr = []\<rparr> +
      bits_off \<lparr>bits_off = 0, bytes_off = 2, dr = []\<rparr> + bits_total foreach_hierarchy_member"
  by (rule members_loop_bit_fields) (auto simp: foreach_hierarchy_member_def width_def)

lemma layouts_checked:
  "list_all (\<lambda>(nm, tag, ms). nm = ''audio_component'' \<or> nm = ''enhanced_AC3_audio_stream'' \<or> layout_ok 0 ms)
     foreach_enum_descriptor"
  unfolding descriptor_enums member_lists by (simp add: width_def)

text \<open>
  C25. Every generated parser but two has a consistent layout: the final \<open>assert(bits_off == 0)\<close>
  never fires, however the descriptor looks.  The exceptions are \<open>audio_component\<close> and
  \<open>enhanced_AC3_audio_stream\<close>.
\<close>

theorem descriptor_assert_holds:
  assumes "(nm, tag, ms) \<in> set foreach_enum_descriptor"
    and "nm \<noteq> ''audio_component''" "nm \<noteq> ''enhanced_AC3_audio_stream''"
    and "members_loop e buf len dlen ms \<lparr>bits_off = 0, bytes_off = 2, dr = []\<rparr> = Some (Inr s)"
  shows "bits_off s = 0"
proof -
  have "layout_ok 0 ms"
    using layouts_checked assms(1-3) by (auto simp: list_all_iff)
  then show ?thesis
    using layout_ok_bits_off [OF _ assms(4)] by simp
qed

theorem descriptor_assert_holds_witness:
  "bits_off \<lparr>bits_off = 0, bytes_off = 3, dr = [(''alignment_type'', FNum 2)]\<rparr> = 0"
proof (rule descriptor_assert_holds)
  show "(''data_stream_alignment'', 0x06, foreach_data_stream_alignment_member) \<in> set foreach_enum_descriptor"
    unfolding foreach_enum_descriptor_def by simp
  show "members_loop (always_ok (\<lambda>_. 0)) [6, 1, 2] 3 1 foreach_data_stream_alignment_member \<lparr>bits_off = 0, bytes_off = 2, dr = []\<rparr> =
      Some (Inr \<lparr>bits_off = 0, bytes_off = 3, dr = [(''alignment_type'', FNum 2)]\<rparr>)"
    by (simp add: foreach_data_stream_alignment_member_def read_whole_def TS_READ8_def put_def sizeof_def)
qed simp_all

lemma audio_component_bits:
  assumes "members_loop e buf len dlen foreach_audio_component_member \<lparr>bits_off = 0, bytes_off = 2, dr = []\<rparr> = Some (Inr s)"
  shows "bits_off s = 1"
proof -
  have "bits_off s = fold (\<lambda>m b. case m of M ty nm n \<Rightarrow> (b + n) mod 8 | _ \<Rightarrow> b) foreach_audio_component_member 0"
    using members_loop_bits_off [OF assms] by simp
  also have "\<dots> = 1" by (simp add: foreach_audio_component_member_def)
  finally show ?thesis .
qed

text \<open>
  The parser of the ISDB audio component descriptor (tag 0xC4) never returns: its language
  code is declared one bit wide instead of 24, so the closing assertion fails on every input.
\<close>

theorem audio_component_aborts:
  "parse_members (always_ok j) 0xC4 foreach_audio_component_member (0xC4 # n # data) len = None"
proof -
  let ?s = "\<lparr>bits_off = 0, bytes_off = 2, dr = []\<rparr>"
  have "members_loop (always_ok j) (0xC4 # n # data) len (unat n) foreach_audio_component_member ?s \<noteq> Some (Inl r)" for r
    by (rule members_loop_no_early) simp
  then show ?thesis
    using audio_component_bits
    by (auto simp: parse_members_def split: Option.bind_splits sum.splits)
qed

text \<open>
  Unknown descriptors: the generic parser keeps the data of a descriptor of at most 253 bytes,
  and writes past its allocation for one of 254 or 255 bytes.
\<close>

lemma reserved_descriptor:
  assumes "length data < 256"
  shows "parse_alone j (\<lambda>_. Reserved) (tag, data) =
    (if length data \<le> 253 then Some (0, [(''data'', FBytes data)]) else None)"
  using assms
  by (simp add: parse_alone_def encode_def descriptor_parse_def parse_reserved_descriptor_def rd_bytes_def
      unsigned_of_nat take_bit_nat_eq_self)

text \<open>
  Trailing arrays (here the ISO 639 language descriptor, four bytes per entry): a descriptor
  whose length is a multiple of the element size gives its elements in order; for every other
  length the loop steps over its end and reads until it leaves the buffer.
\<close>

theorem ISO_639_language_elements:
  assumes "length data < 256"
  shows "parse_members (always_ok j) 0x0A foreach_ISO_639_language_member (encode (0x0A, data)) (length data + 2) =
    (if 4 dvd length data
     then Some (0, [(''languages'', FList (chunks 4 (encode (0x0A, data)) 2 (length data div 4)))]) else None)"
  unfolding foreach_ISO_639_language_member_def using plast_alone [OF assms, of 4] by simp

theorem ISO_639_language_elements_witness:
  "parse_members (always_ok (\<lambda>_. 0)) 0x0A foreach_ISO_639_language_member (encode (0x0A, [1, 2, 3, 4, 5])) (length [1 :: u8, 2, 3, 4, 5] + 2) =
    (if 4 dvd length [1 :: u8, 2, 3, 4, 5]
     then Some (0, [(''languages'', FList (chunks 4 (encode (0x0A, [1, 2, 3, 4, 5])) 2 (length [1 :: u8, 2, 3, 4, 5] div 4)))]) else None)"
  by (rule ISO_639_language_elements) simp

end
