(* ===== verification/Table_Header.thy ===== *)
theory Table_Header
  imports Utils Section
begin

unbundle bit_operations_syntax

text \<open>
  What all tables share (\<^verbatim>\<open>src/table.c\<close>, \<^verbatim>\<open>include/table.h\<close>): the header of a
  section, the version check, the collection of the sections of a table and their
  concatenation.
\<close>

section \<open>Data\<close>

definition NULL_PTR :: int where "NULL_PTR = -1"
definition INVALID_SEC_LEN :: int where "INVALID_SEC_LEN = -3"
definition DUPLICATE_DATA :: int where "DUPLICATE_DATA = -4"
definition MAX_SECTION_NUM :: nat where "MAX_SECTION_NUM = 256"

text \<open>A pointer to a heap block: null, the block, or a block that has been freed.\<close>

datatype blk = Null | Blk bytes | Freed

definition free_blk :: "blk \<Rightarrow> blk option" where
  "free_blk b = (case b of Null \<Rightarrow> Some Null | Blk _ \<Rightarrow> Some Freed | Freed \<Rightarrow> None)"

record section_node =
  sn_len :: u16
  sn_ptr :: blk

text \<open>
  \<open>th_alias\<close> says that \<open>private_data_byte\<close> and \<open>sections[0].ptr\<close> are the same pointer, as
  a section without the long header leaves them.
\<close>

record table_header =
  th_table_id :: u8
  th_syntax :: u8
  th_private :: u8
  th_section_length :: u16
  th_table_id_ext :: u16
  th_version :: u8
  th_current_next :: u8
  th_last_section :: u8
  th_bitmap :: bitmap
  th_sections :: "nat \<Rightarrow> section_node"
  th_data :: blk
  th_alias :: bool

definition zero_header :: table_header where
  "zero_header = \<lparr>th_table_id = 0, th_syntax = 0, th_private = 0, th_section_length = 0, th_table_id_ext = 0,
     th_version = 0, th_current_next = 0, th_last_section = 0, th_bitmap = [0, 0, 0, 0],
     th_sections = (\<lambda>_. \<lparr>sn_len = 0, sn_ptr = Null\<rparr>), th_data = Null, th_alias = False\<rparr>"

section \<open>Operations\<close>

definition check_section_header_version :: "bytes \<Rightarrow> u8 \<Rightarrow> int option" where
  "check_section_header_version pbuf cur_version = do {
     section_syntax_indicator \<leftarrow> TS_READ_BIT (drop 1 pbuf) 7;
     if section_syntax_indicator = 0 then Some 0
     else do {
       version \<leftarrow> TS_READ8_BITS (drop 5 pbuf) 5 1;
       Some (if cur_version = version then 0
             else if version > cur_version \<or> cur_version = 0x1F \<and> version \<noteq> 0x1F then 1
             else 2) } }"

fun clear_loop :: "(nat \<Rightarrow> section_node) \<Rightarrow> nat \<Rightarrow> nat \<Rightarrow> (nat \<Rightarrow> section_node) option" where
  "clear_loop nodes i 0 = Some nodes"
| "clear_loop nodes i (Suc k) = do {
     p \<leftarrow> (if sn_len (nodes i) \<noteq> 0 then free_blk (sn_ptr (nodes i)) else Some (sn_ptr (nodes i)));
     clear_loop (nodes(i := \<lparr>sn_len = 0, sn_ptr = p\<rparr>)) (Suc i) k }"

definition clear_sections :: "(nat \<Rightarrow> section_node) \<Rightarrow> nat \<Rightarrow> (nat \<Rightarrow> section_node) option" where
  "clear_sections nodes n = clear_loop nodes 0 (min n MAX_SECTION_NUM)"

fun concat_loop :: "(nat \<Rightarrow> section_node) \<Rightarrow> nat \<Rightarrow> nat \<Rightarrow> nat \<Rightarrow> bytes \<Rightarrow> nat \<Rightarrow> (bytes \<times> nat) option" where
  "concat_loop nodes tot i 0 ret len = Some (ret, len)"
| "concat_loop nodes tot i (Suc k) ret len =
     (if len < tot then
        (if sn_len (nodes i) = 0 then concat_loop nodes tot (Suc i) k ret len
         else (case sn_ptr (nodes i) of
           Blk b \<Rightarrow> do {
             ret' \<leftarrow> memcpy ret (int len) b (uint (sn_len (nodes i)));
             concat_loop nodes tot (Suc i) k ret' (len + unat (sn_len (nodes i))) }
         | _ \<Rightarrow> None))
      else Some (ret, len))"

text \<open>The result is null when the allocation fails or the lengths do not add up.\<close>

definition concat_sections ::
  "alloc_env \<Rightarrow> (nat \<Rightarrow> section_node) \<Rightarrow> nat \<Rightarrow> nat \<Rightarrow> (blk \<times> (nat \<Rightarrow> section_node)) option" where
  "concat_sections e nodes tot n =
     (if \<not> mok e 1 then Some (Null, nodes)
      else do {
        (ret, len) \<leftarrow> concat_loop nodes tot 0 n (replicate tot 0) 0;
        if len \<noteq> tot then Some (Null, nodes)
        else do {
          nodes' \<leftarrow> clear_sections nodes n;
          Some (Blk ret, nodes') } })"

text \<open>\<open>malloc(n)\<close> for an \<open>int\<close>: a negative \<open>n\<close> is a huge request, which fails.\<close>

definition malloc_int :: "alloc_env \<Rightarrow> int \<Rightarrow> bytes option" where
  "malloc_int e n = (if n < 0 \<or> \<not> mok e 0 then None else Some (malloc_bytes e (nat n)))"

text \<open>
  The section without the long header: the first buffer is replaced and
  \<open>private_data_byte\<close> points to it.
\<close>

definition short_section :: "alloc_env \<Rightarrow> bytes \<Rightarrow> u16 \<Rightarrow> table_header \<Rightarrow> (int \<times> table_header) option" where
  "short_section e pdata buf_size h = do {
     old \<leftarrow> free_blk (sn_ptr (th_sections h 0));
     let h = (if th_alias h then h\<lparr>th_data := old\<rparr> else h);
     let n = uint buf_size - 3;
     (case malloc_int e n of
        None \<Rightarrow> Some (ENOMEM, h\<lparr>th_sections := (th_sections h)(0 := \<lparr>sn_len = buf_size - 3, sn_ptr = Null\<rparr>), th_alias := False\<rparr>)
      | Some b \<Rightarrow> do {
          b' \<leftarrow> memcpy b 0 pdata n;
          Some (0, h\<lparr>th_sections := (th_sections h)(0 := \<lparr>sn_len = buf_size - 3, sn_ptr = Blk b'\<rparr>),
                     th_data := Blk b', th_alias := True\<rparr>) }) }"

text \<open>
  The section with the long header, after the header fields have been stored: the bitmap, the
  copy of the section, and, when all sections are there, their concatenation.
\<close>

definition long_section :: "alloc_env \<Rightarrow> bytes \<Rightarrow> u16 \<Rightarrow> u8 \<Rightarrow> table_header \<Rightarrow> (int \<times> table_header) option" where
  "long_section e pdata buf_size cur_sec h = do {
     dup \<leftarrow> bitmap64_get (th_bitmap h) (unat cur_sec);
     if dup then Some (DUPLICATE_DATA, h)
     else do {
       bm \<leftarrow> bitmap64_set (th_bitmap h) (unat cur_sec);
       let i = unat cur_sec;
       let h = h\<lparr>th_bitmap := bm, th_alias := (th_alias h \<and> i \<noteq> 0)\<rparr>;
       (case malloc_int e (uint buf_size - 3) of
          None \<Rightarrow> Some (ENOMEM, h\<lparr>th_sections := (th_sections h)(i := \<lparr>sn_len = buf_size - 3, sn_ptr = Null\<rparr>)\<rparr>)
        | Some b \<Rightarrow> do {
            b' \<leftarrow> memcpy b 0 pdata (uint buf_size - 8);
            let h = h\<lparr>th_sections := (th_sections h)(i := \<lparr>sn_len = buf_size - 3, sn_ptr = Blk b'\<rparr>)\<rparr>;
            full \<leftarrow> bitmap64_full (th_bitmap h) (unat (th_last_section h));
            if full \<noteq> 0 then Some (1, h)
            else do {
              old \<leftarrow> free_blk (th_data h);
              let h = (if th_alias h then h\<lparr>th_sections := (th_sections h)(0 := (th_sections h 0)\<lparr>sn_ptr := old\<rparr>)\<rparr> else h);
              (ret, nodes) \<leftarrow> concat_sections e (th_sections h) (unat (th_section_length h)) (unat (th_last_section h) + 1);
              Some (0, h\<lparr>th_data := ret, th_sections := nodes, th_alias := False\<rparr>) } }) } }"

definition parse_section_header :: "alloc_env \<Rightarrow> bytes \<Rightarrow> u16 \<Rightarrow> table_header \<Rightarrow> (int \<times> table_header) option" where
  "parse_section_header e pbuf buf_size h = do {
     tableid \<leftarrow> TS_READ8 pbuf;
     section_syntax_indicator \<leftarrow> TS_READ_BIT (drop 1 pbuf) 7;
     private_bit \<leftarrow> TS_READ_BIT (drop 1 pbuf) 6;
     w \<leftarrow> TS_READ16 (drop 1 pbuf);
     let section_len = w AND 0x0FFF;
     if section_syntax_indicator = 1 \<and> section_len > 0x3FD then Some (INVALID_SEC_LEN, h)
     else if section_syntax_indicator = 0 \<and> section_len > 0xFFD then Some (INVALID_SEC_LEN, h)
     else if section_syntax_indicator = 0 then
       short_section e (drop 3 pbuf) buf_size
         (h\<lparr>th_syntax := 0, th_table_id := tableid, th_private := private_bit, th_section_length := section_len\<rparr>)
     else do {
       tableid_ext \<leftarrow> TS_READ16 (drop 3 pbuf);
       version_num \<leftarrow> TS_READ8_BITS (drop 5 pbuf) 5 1;
       current_next_indicator \<leftarrow> TS_READ_BIT (drop 5 pbuf) 0;
       cur_sec \<leftarrow> TS_READ8 (drop 6 pbuf);
       last_sec \<leftarrow> TS_READ8 (drop 7 pbuf);
       long_section e (drop 8 pbuf) buf_size cur_sec
         (h\<lparr>th_version := version_num, th_last_section := last_sec, th_table_id := tableid,
            th_private := private_bit, th_syntax := section_syntax_indicator,
            th_section_length := section_len, th_table_id_ext := tableid_ext,
            th_current_next := current_next_indicator\<rparr>) } }"

section \<open>Reading the header\<close>

lemma unat_and_fff: "unat ((w :: u16) AND 0x0FFF) = unat w mod 4096"
proof -
  have "(0x0FFF :: u16) = mask 12" by (simp add: mask_eq_exp_minus_1)
  then show ?thesis by (simp only: take_bit_eq_mask [symmetric] unsigned_take_bit_eq) (simp add: take_bit_eq_mod)
qed

lemma section_length_field:
  assumes "3 \<le> length p"
  obtains w where "TS_READ16 (drop 1 p) = Some w" "unat (w AND 0x0FFF) + 3 = section_size p"
proof -
  obtain w where w: "TS_READ16 (drop 1 p) = Some w"
    using assms by (simp add: TS_READ16_in)
  have "unat w = unat (p ! 1) * 256 + unat (p ! 2)"
    using unat_READ16 [OF _ w] assms by (simp add: numeral_2_eq_2)
  with that w show thesis
    by (simp add: unat_and_fff section_size_def)
qed

section \<open>A table of one section\<close>

definition header_ok :: "table_header \<Rightarrow> bool" where
  "header_ok h \<longleftrightarrow> length (th_bitmap h) = 4 \<and> th_data h \<noteq> Freed \<and> \<not> th_alias h"

text \<open>A long-header section with number 0 of 0 that fits its buffer.\<close>

definition single_section :: "bytes \<Rightarrow> bool" where
  "single_section p \<longleftrightarrow> section_size p \<le> length p \<and> 12 \<le> section_size p \<and> section_size p \<le> 0x400 \<and>
     bit (p ! 1) 7 \<and> p ! 6 = 0 \<and> p ! 7 = 0"

lemma bitmap64_full_single:
  "length bm = 4 \<Longrightarrow> 0 \<in> bitmap_abs bm \<Longrightarrow> bitmap64_full bm 0 = Some 0"
  by (simp add: bitmap64_full_small bitmap_abs_def mask_eq_exp_minus_1 and_one_eq mod2_eq_if bit_0 flip: One_nat_def)

lemma READ_BIT_1: "0 < length p \<Longrightarrow> TS_READ_BIT p k = Some (if bit (p ! 0) k then 1 else 0)"
  by (simp add: TS_READ_BIT_def rdb_def and_one_eq bit_iff_odd_drop_bit mod2_eq_if)

lemma concat_single:
  assumes "sn_len (nodes 0) = of_nat n" "sn_ptr (nodes 0) = Blk b" "length b = n" "n < 65536" "0 < n"
  shows "concat_sections (always_ok j) nodes n 1 =
    Some (Blk b, nodes(0 := \<lparr>sn_len = 0, sn_ptr = Freed\<rparr>))"
proof -
  have u: "unat (of_nat n :: u16) = n" "uint (of_nat n :: u16) = int n" "(of_nat n :: u16) \<noteq> 0"
    using assms(4,5) by (auto simp: unsigned_of_nat take_bit_nat_eq_self uint_of_nat_len dest: arg_cong [where f = unat])
  have "memcpy (replicate n 0) 0 b (int n) = Some b"
    using assms(3) by (simp add: memcpy_def)
  then show ?thesis
    using assms u by (simp add: concat_sections_def clear_sections_def MAX_SECTION_NUM_def free_blk_def)
qed

lemma long_section_single:
  assumes h: "header_ok h" "0 \<notin> bitmap_abs (th_bitmap h)" "th_last_section h = 0"
    and n: "unat (th_section_length h) = n" "unat buf_size = n + 3" "9 \<le> n" "n < 4096" "n - 5 \<le> length pdata"
  shows "\<exists>h' t. long_section (always_ok j) pdata buf_size 0 h = Some (0, h') \<and>
    th_data h' = Blk (take (n - 5) pdata @ t) \<and> length t = 5 \<and> header_ok h' \<and>
    th_section_length h' = th_section_length h \<and> th_table_id h' = th_table_id h \<and>
    th_table_id_ext h' = th_table_id_ext h \<and> th_version h' = th_version h \<and>
    bitmap_abs (th_bitmap h') = insert 0 (bitmap_abs (th_bitmap h))"
proof -
  have b4: "length (th_bitmap h) = 4" and fr: "th_data h \<noteq> Freed" and al: "\<not> th_alias h"
    using h(1) by (auto simp: header_ok_def)
  have get: "bitmap64_get (th_bitmap h) 0 = Some False"
    using section_bm.get_abs [OF b4, of 0] h(2) by simp
  obtain bm where bm: "bitmap64_set (th_bitmap h) 0 = Some bm" "length bm = 4" "bitmap_abs bm = insert 0 (bitmap_abs (th_bitmap h))"
    using section_bm.set_abs [OF b4, of 0] by auto
  have full: "bitmap64_full bm 0 = Some 0"
    using bm by (intro bitmap64_full_single) auto
  have ub: "uint buf_size = int n + 3" using n(2) unfolding uint_nat by simp
  have blen: "buf_size - 3 = (of_nat n :: u16)"
  proof -
    have "buf_size = of_nat (n + 3)" unfolding n(2) [symmetric] by simp
    then show ?thesis by simp
  qed
  let ?b = "take (n - 5) pdata @ drop (n - 5) (malloc_bytes (always_ok j) n)"
  have mc: "memcpy (malloc_bytes (always_ok j) n) 0 pdata (int n + 3 - 8) = Some ?b"
    using n(3,5) by (simp add: memcpy_def nat_diff_distrib')
  have lb: "length ?b = n" using n(3,5) by simp
  obtain old where old: "free_blk (th_data h) = Some old"
    using fr by (cases "th_data h") (auto simp: free_blk_def)
  let ?nodes = "(th_sections h)(0 := \<lparr>sn_len = of_nat n, sn_ptr = Blk ?b\<rparr>)"
  have cc: "concat_sections (always_ok j) ?nodes n 1 = Some (Blk ?b, ?nodes(0 := \<lparr>sn_len = 0, sn_ptr = Freed\<rparr>))"
    using n(3,4) lb by (intro concat_single) auto
  have ml: "malloc_int (always_ok j) (int n + 3 - 3) = Some (malloc_bytes (always_ok j) n)"
    by (simp add: malloc_int_def)
  show ?thesis
    unfolding long_section_def ub blen
    using get bm full mc old cc ml al h(3) n(1,3) lb
    by (intro exI [of _ "h\<lparr>th_bitmap := bm, th_alias := False, th_data := Blk ?b,
          th_sections := ?nodes(0 := \<lparr>sn_len = 0, sn_ptr = Freed\<rparr>)\<rparr>"] exI [of _ "drop (n - 5) (malloc_bytes (always_ok j) n)"])
       (simp add: header_ok_def del: int_ops)
qed

lemma single_section_prefix:
  assumes "12 \<le> length p" "bit (p ! 1) 7" "section_size p \<le> 0x400"
  shows "\<exists>tid pb ext ver cni w. TS_READ16 (drop 1 p) = Some w \<and> unat (w AND 0x0FFF) + 3 = section_size p \<and>
    tid = p ! 0 \<and> TS_READ16 (drop 3 p) = Some ext \<and> TS_READ8_BITS (drop 5 p) 5 1 = Some ver \<and>
    parse_section_header e p buf_size h = long_section e (drop 8 p) buf_size (p ! 6)
      (h\<lparr>th_version := ver, th_last_section := p ! 7, th_table_id := tid, th_private := pb, th_syntax := 1,
         th_section_length := w AND 0x0FFF, th_table_id_ext := ext, th_current_next := cni\<rparr>)"
proof -
  obtain w where w: "TS_READ16 (drop 1 p) = Some w" "unat (w AND 0x0FFF) + 3 = section_size p"
    using section_length_field [of p] assms(1) by auto
  obtain ext where ext: "TS_READ16 (drop 3 p) = Some ext"
    using assms(1) by (simp add: TS_READ16_in)
  obtain ver where ver: "TS_READ8_BITS (drop 5 p) 5 1 = Some ver"
    using assms(1) by (simp add: TS_READ8_BITS_in)
  have le: "\<not> w AND 0x0FFF > 0x3FD"
    using w(2) assms(3) by (simp add: word_less_nat_alt)
  have rd: "TS_READ8 p = Some (p ! 0)" "TS_READ8 (drop 6 p) = Some (p ! 6)" "TS_READ8 (drop 7 p) = Some (p ! 7)"
    using assms(1) by (auto simp: TS_READ8_def rdb_def)
  have bt: "TS_READ_BIT (drop 1 p) 7 = Some 1"
    "TS_READ_BIT (drop 1 p) 6 = Some (if bit (p ! 1) 6 then 1 else 0)"
    "TS_READ_BIT (drop 5 p) 0 = Some (if bit (p ! 5) 0 then 1 else 0)"
    using assms(1,2) by (simp_all add: READ_BIT_1)
  show ?thesis
    using w ext ver le rd bt
    by (intro exI [of _ "p ! 0"] exI [of _ "if bit (p ! 1) 6 then 1 else 0"] exI [of _ ext] exI [of _ ver]
          exI [of _ "if bit (p ! 5) 0 then 1 else 0"] exI [of _ w])
       (simp add: parse_section_header_def)
qed

lemma single_section_parsed:
  assumes s: "single_section p" "unat buf_size = section_size p"
    and h: "header_ok h" "0 \<notin> bitmap_abs (th_bitmap h)"
  shows "\<exists>h' t ext ver. parse_section_header (always_ok j) p buf_size h = Some (0, h') \<and>
    th_data h' = Blk (take (section_size p - 8) (drop 8 p) @ t) \<and> length t = 5 \<and> header_ok h' \<and>
    unat (th_section_length h') = section_size p - 3 \<and> th_table_id h' = p ! 0 \<and>
    TS_READ16 (drop 3 p) = Some ext \<and> th_table_id_ext h' = ext \<and>
    TS_READ8_BITS (drop 5 p) 5 1 = Some ver \<and> th_version h' = ver \<and>
    bitmap_abs (th_bitmap h') = insert 0 (bitmap_abs (th_bitmap h))"
proof -
  have len: "12 \<le> length p" and sz: "section_size p \<le> 0x400" and b: "bit (p ! 1) 7" and z: "p ! 6 = 0" "p ! 7 = 0"
    using s(1) by (auto simp: single_section_def)
  obtain pb ext ver cni w where w: "unat (w AND 0x0FFF) + 3 = section_size p"
    and ext: "TS_READ16 (drop 3 p) = Some ext" and ver: "TS_READ8_BITS (drop 5 p) 5 1 = Some ver"
    and eq: "parse_section_header (always_ok j) p buf_size h = long_section (always_ok j) (drop 8 p) buf_size 0
      (h\<lparr>th_version := ver, th_last_section := 0, th_table_id := p ! 0, th_private := pb, th_syntax := 1,
         th_section_length := w AND 0x0FFF, th_table_id_ext := ext, th_current_next := cni\<rparr>)"
    using single_section_prefix [OF len b sz, of "always_ok j" buf_size h] z by auto
  let ?h = "h\<lparr>th_version := ver, th_last_section := 0, th_table_id := p ! 0, th_private := pb, th_syntax := 1,
         th_section_length := w AND 0x0FFF, th_table_id_ext := ext, th_current_next := cni\<rparr>"
  have "header_ok ?h" using h(1) by (simp add: header_ok_def)
  moreover have "unat (th_section_length ?h) = section_size p - 3" using w by simp
  moreover have "unat buf_size = (section_size p - 3) + 3" "9 \<le> section_size p - 3" "section_size p - 3 < 4096"
    "section_size p - 3 - 5 \<le> length (drop 8 p)"
    using s len sz by (auto simp: single_section_def)
  ultimately obtain h' t where "long_section (always_ok j) (drop 8 p) buf_size 0 ?h = Some (0, h')"
    "th_data h' = Blk (take (section_size p - 3 - 5) (drop 8 p) @ t)" "length t = 5" "header_ok h'"
    "th_section_length h' = w AND 0x0FFF" "th_table_id h' = p ! 0" "th_table_id_ext h' = ext" "th_version h' = ver"
    "bitmap_abs (th_bitmap h') = insert 0 (bitmap_abs (th_bitmap h))"
    using long_section_single [of ?h "section_size p - 3" buf_size "drop 8 p" j] h(2) by auto
  with eq ext ver w show ?thesis
    by (intro exI [of _ h'] exI [of _ t] exI [of _ ext] exI [of _ ver]) auto
qed

lemma bitmap_abs_zero4: "bitmap_abs [0, 0, 0, 0] = {}"
  using bitmap_abs_replicate_0 [of 4] by (simp add: numeral_eq_Suc)

text \<open>A long-header section, whichever number it has.\<close>

definition long_header :: "bytes \<Rightarrow> bool" where
  "long_header p \<longleftrightarrow> 12 \<le> length p \<and> bit (p ! 1) 7 \<and> section_size p \<le> 0x400"

lemma long_section_dup:
  assumes "length (th_bitmap h) = 4" "unat cur \<in> bitmap_abs (th_bitmap h)"
  shows "long_section e pdata buf_size cur h = Some (DUPLICATE_DATA, h)"
proof -
  have "unat cur < 256" by (rule order_less_le_trans [OF unsigned_less]) simp
  then show ?thesis
    using section_bm.get_abs [OF assms(1)] assms(2) by (simp add: long_section_def)
qed

lemma long_section_incomplete:
  assumes h: "length (th_bitmap h) = 4" "bitmap_abs (th_bitmap h) \<subseteq> {..unat (th_last_section h)}"
    and lst: "1 \<le> unat (th_last_section h)" "unat (th_last_section h) \<le> 3"
    and cur: "unat cur \<le> unat (th_last_section h)" "unat cur \<notin> bitmap_abs (th_bitmap h)"
    and b: "8 \<le> unat buf_size" "unat buf_size - 8 \<le> length pdata"
  shows "\<exists>h'. long_section (always_ok j) pdata buf_size cur h = Some (1, h') \<and> length (th_bitmap h') = 4 \<and>
    bitmap_abs (th_bitmap h') = insert (unat cur) (bitmap_abs (th_bitmap h)) \<and>
    th_last_section h' = th_last_section h \<and> th_data h' = th_data h"
proof -
  have c: "unat cur < 256" by (rule order_less_le_trans [OF unsigned_less]) simp
  have get: "bitmap64_get (th_bitmap h) (unat cur) = Some False"
    using section_bm.get_abs [OF h(1) c] cur(2) by simp
  obtain bm where bm: "bitmap64_set (th_bitmap h) (unat cur) = Some bm" "length bm = 4"
    "bitmap_abs bm = insert (unat cur) (bitmap_abs (th_bitmap h))"
    using section_bm.set_abs [OF h(1) c] by auto
  have nf: "bitmap64_full bm (unat (th_last_section h)) = Some (-1)"
    using bm h(2) lst cur(1) by (intro bitmap64_full_stuck) auto
  let ?n = "unat buf_size"
  have ub: "uint buf_size = int ?n" by simp
  have n8: "8 \<le> uint buf_size" "nat (uint buf_size) = ?n" using b(1) unfolding uint_nat by linarith+
  have ml: "malloc_int (always_ok j) (uint buf_size - 3) = Some (malloc_bytes (always_ok j) (?n - 3))"
    using n8 by (simp add: malloc_int_def nat_diff_distrib')
  have "memcpy (malloc_bytes (always_ok j) (?n - 3)) 0 pdata (uint buf_size - 8) \<noteq> None"
    using n8 b by (simp add: memcpy_def nat_diff_distrib')
  then obtain b' where mc: "memcpy (malloc_bytes (always_ok j) (?n - 3)) 0 pdata (uint buf_size - 8) = Some b'" by blast
  show ?thesis
    using get bm nf ml mc by (simp add: long_section_def Let_def)
qed

section \<open>Properties\<close>

text \<open>
  A section whose number is already marked is refused and the table's body is kept.  Since
  the marks are never cleared this includes the sections of a new version: the stored version
  number changes, the body does not.
\<close>

theorem marked_section_refused:
  assumes "long_header p" "length (th_bitmap h) = 4" "unat (p ! 6) \<in> bitmap_abs (th_bitmap h)"
  shows "\<exists>h' ver. parse_section_header e p buf_size h = Some (DUPLICATE_DATA, h') \<and> th_data h' = th_data h \<and>
    th_bitmap h' = th_bitmap h \<and> TS_READ8_BITS (drop 5 p) 5 1 = Some ver \<and> th_version h' = ver"
proof -
  have p: "12 \<le> length p" "bit (p ! 1) 7" "section_size p \<le> 0x400"
    using assms(1) by (auto simp: long_header_def)
  from single_section_prefix [OF p, of e buf_size h] obtain pb ext ver cni w where
    "TS_READ8_BITS (drop 5 p) 5 1 = Some ver"
    "parse_section_header e p buf_size h = long_section e (drop 8 p) buf_size (p ! 6)
      (h\<lparr>th_version := ver, th_last_section := p ! 7, th_table_id := p ! 0, th_private := pb, th_syntax := 1,
         th_section_length := w AND 0x0FFF, th_table_id_ext := ext, th_current_next := cni\<rparr>)"
    by auto
  then show ?thesis
    using assms(2,3) by (simp add: long_section_dup)
qed

theorem marked_section_refused_witness:
  "\<exists>h' ver. parse_section_header (always_ok (\<lambda>_. 0)) [2, 0xB0, 13, 0, 1, 0xC3, 0, 0, 0, 1, 0xE1, 0, 1, 2, 3, 4] 16
      (zero_header\<lparr>th_bitmap := [1, 0, 0, 0], th_data := Blk [7]\<rparr>) = Some (DUPLICATE_DATA, h') \<and>
    th_data h' = th_data (zero_header\<lparr>th_bitmap := [1, 0, 0, 0], th_data := Blk [7]\<rparr>) \<and>
    th_bitmap h' = th_bitmap (zero_header\<lparr>th_bitmap := [1, 0, 0, 0], th_data := Blk [7]\<rparr>) \<and>
    TS_READ8_BITS (drop 5 [2, 0xB0, 13, 0, 1, 0xC3, 0, 0, 0, 1, 0xE1, 0, 1, 2, 3, 4]) 5 1 = Some ver \<and> th_version h' = ver"
  by (rule marked_section_refused) (simp_all add: long_header_def section_size_def bitmap_abs_def)

text \<open>
  C37. A table of two to four sections is never completed: every section that arrives is
  either a duplicate or leaves the parser waiting (result 1), and the body stays what it was.
\<close>

theorem multi_section_never_complete:
  assumes "long_header p" "section_size p \<le> length p" "12 \<le> section_size p" "unat buf_size = section_size p"
    and "length (th_bitmap h) = 4" "bitmap_abs (th_bitmap h) \<subseteq> {..unat (p ! 7)}"
    and "1 \<le> unat (p ! 7)" "unat (p ! 7) \<le> 3" "unat (p ! 6) \<le> unat (p ! 7)"
  shows "\<exists>r h'. parse_section_header (always_ok j) p buf_size h = Some (r, h') \<and> r \<in> {1, DUPLICATE_DATA} \<and>
    th_data h' = th_data h \<and> length (th_bitmap h') = 4 \<and> bitmap_abs (th_bitmap h') \<subseteq> {..unat (p ! 7)}"
proof -
  have p: "12 \<le> length p" "bit (p ! 1) 7" "section_size p \<le> 0x400"
    using assms(1) by (auto simp: long_header_def)
  from single_section_prefix [OF p, of "always_ok j" buf_size h] obtain pb ext ver cni w where
    eq: "parse_section_header (always_ok j) p buf_size h = long_section (always_ok j) (drop 8 p) buf_size (p ! 6)
      (h\<lparr>th_version := ver, th_last_section := p ! 7, th_table_id := p ! 0, th_private := pb, th_syntax := 1,
         th_section_length := w AND 0x0FFF, th_table_id_ext := ext, th_current_next := cni\<rparr>)"
    by auto
  let ?h = "h\<lparr>th_version := ver, th_last_section := p ! 7, th_table_id := p ! 0, th_private := pb, th_syntax := 1,
         th_section_length := w AND 0x0FFF, th_table_id_ext := ext, th_current_next := cni\<rparr>"
  show ?thesis
  proof (cases "unat (p ! 6) \<in> bitmap_abs (th_bitmap h)")
    case True
    then show ?thesis using assms(5,6) by (simp add: eq long_section_dup)
  next
    case False
    have "8 \<le> unat buf_size" "unat buf_size - 8 \<le> length (drop 8 p)"
      using assms(2-4) by auto
    with long_section_incomplete [of ?h "p ! 6" buf_size "drop 8 p" j] assms(5-9) False show ?thesis
      unfolding eq by (auto simp: DUPLICATE_DATA_def)
  qed
qed

theorem multi_section_never_complete_witness:
  "\<exists>r h'. parse_section_header (always_ok (\<lambda>_. 0)) [0x42, 0xB0, 13, 0, 1, 0xC1, 0, 1, 0, 1, 0xE1, 0, 1, 2, 3, 4] 16 zero_header = Some (r, h') \<and>
    r \<in> {1, DUPLICATE_DATA} \<and> th_data h' = th_data zero_header \<and> length (th_bitmap h') = 4 \<and>
    bitmap_abs (th_bitmap h') \<subseteq> {..unat ([0x42, 0xB0, 13, 0, 1, 0xC1, 0, 1, 0, 1, 0xE1, 0, 1, 2, 3, 4] ! 7 :: u8)}"
  by (rule multi_section_never_complete)
     (simp_all add: long_header_def section_size_def zero_header_def bitmap_abs_zero4)

text \<open>
  The version check accepts a section for the current version, asks for a new table for a
  greater one or when no version is known (0x1F), and skips every smaller one: after version 30
  the wrapped-around version 0 is taken for an old one.
\<close>

lemma version_check:
  assumes "6 \<le> length p" "bit (p ! 1) 7" "TS_READ8_BITS (drop 5 p) 5 1 = Some ver" "unat cur < 32"
  shows "check_section_header_version p cur =
    Some (if ver = cur then 0 else if cur = 31 \<or> unat cur < unat ver then 1 else 2)"
proof -
  have "TS_READ_BIT (drop 1 p) 7 = Some 1"
    using assms(1,2) by (simp add: READ_BIT_1)
  moreover have "unat ver < 32"
    using assms(1,3) unat_bits_at_less [of 5 "p ! 5" 1] by (auto simp: TS_READ8_BITS_in)
  ultimately show ?thesis
    using assms(3) by (auto simp: check_section_header_version_def word_less_nat_alt)
qed

lemma version_field:
  assumes "6 \<le> length p"
  shows "\<exists>ver. TS_READ8_BITS (drop 5 p) 5 1 = Some ver \<and>
    unat ver = (if bit (p ! 5) 6 then 16 else 0) + unat (p ! 5) div 2 mod 32 div 2"
proof -
  have r: "TS_READ8_BITS (drop 5 p) 5 1 = Some (bits_at (p ! 5) 5 1)"
    using assms by (simp add: TS_READ8_BITS_in)
  have "unat (p ! 5) < 256" by (rule order_less_le_trans [OF unsigned_less]) simp
  then have "unat (bits_at (p ! 5) 5 1) = unat (p ! 5) div 4 mod 32"
    unfolding bits_at_def take_bit_eq_mask [symmetric] unsigned_take_bit_eq unsigned_drop_bit_eq
    by (simp add: drop_bit_eq_div take_bit_eq_mod)
  moreover have "bit (p ! 5) 6 \<longleftrightarrow> odd (unat (p ! 5) div 64)"
  proof -
    have "bit (unat (p ! 5)) 6 = bit (p ! 5) 6" by (simp add: bit_unsigned_iff)
    then show ?thesis by (simp add: bit_iff_odd)
  qed
  moreover have "n div 4 mod 32 = (if odd (n div 64) then 16 else 0) + n div 2 mod 32 div 2" for n :: nat
    using mod_mult2_eq [of "n div 4" 16 2] mod_mult2_eq [of "n div 2" 2 16] div_mult2_eq [of n 4 16] div_mult2_eq [of n 2 2]
    by (auto simp: mod2_eq_if)
  ultimately show ?thesis
    using r by simp
qed

text \<open>
  The version number the code stores is not the field of the standard (two reserved bits, five
  bits of version, the current/next flag): it is read one bit too far to the left, so its top
  bit is the second reserved bit and two successive versions 2k and 2k+1 read the same.
\<close>

theorem version_number_misread:
  assumes "single_section p" "unat buf_size = section_size p" "header_ok h" "0 \<notin> bitmap_abs (th_bitmap h)"
  shows "\<exists>h'. parse_section_header (always_ok j) p buf_size h = Some (0, h') \<and>
    unat (th_version h') = (if bit (p ! 5) 6 then 16 else 0) + unat (p ! 5) div 2 mod 32 div 2"
proof -
  have "6 \<le> length p" using assms(1) by (auto simp: single_section_def)
  from version_field [OF this] single_section_parsed [OF assms, of j] show ?thesis by fastforce
qed

theorem version_number_misread_witness:
  "\<exists>h'. parse_section_header (always_ok (\<lambda>_. 0)) [0, 0xB0, 13, 0, 1, 0xC5, 0, 0, 0, 1, 0xE1, 0, 1, 2, 3, 4] 16 zero_header = Some (0, h') \<and>
    unat (th_version h') = (if bit ([0, 0xB0, 13, 0, 1, 0xC5, 0, 0, 0, 1, 0xE1, 0, 1, 2, 3, 4 :: u8] ! 5) 6 then 16 else 0) +
      unat ([0, 0xB0, 13, 0, 1, 0xC5, 0, 0, 0, 1, 0xE1, 0, 1, 2, 3, 4 :: u8] ! 5) div 2 mod 32 div 2"
proof (rule version_number_misread)
  show "header_ok zero_header" "0 \<notin> bitmap_abs (th_bitmap zero_header)"
    by (simp_all add: header_ok_def zero_header_def bitmap_abs_zero4)
qed (simp_all add: single_section_def section_size_def)

end
