(* ===== verification/Dvb_Si.thy ===== *)
theory Dvb_Si
  imports Table_Header Descriptor
begin

unbundle bit_operations_syntax

text \<open>
  The parsers of the DVB service information (\<^verbatim>\<open>src/dvb_si.c\<close>): NIT, BAT, SDT, EIT, TDT and
  TOT.  Each takes a section, collects it with \<open>parse_section_header\<close>, and rebuilds the
  structure of the table from the body.

  The loops count down a 16-bit \<open>section_len\<close> and move the pointer \<open>pdata\<close> on; they end
  because every round reads at least five more bytes of the body.
\<close>

section \<open>Data\<close>

record transport_stream_node =
  tn_transport_stream_id :: u16
  tn_original_network_id :: u16
  tn_transport_descriptors_length :: u16
  tn_list :: "descriptor list"

record nit_t =
  nit_network_id :: u16
  nit_header :: table_header
  nit_network_descriptors_length :: u16
  nit_list :: "descriptor list"
  nit_transport_stream_loop_length :: u16
  nit_h :: "transport_stream_node list"

record bat_t =
  bat_header :: table_header
  bat_bouquet_id :: u16
  bat_bouquet_descriptors_length :: u16
  bat_list :: "descriptor list"
  bat_transport_stream_loop_length :: u16
  bat_h :: "transport_stream_node list"

record service_node =
  sv_service_id :: u16
  sv_EIT_schedule_flag :: u8
  sv_EIT_present_following_flag :: u8
  sv_running_status :: u16
  sv_free_CA_mode :: u16
  sv_descriptors_loop_length :: u16
  sv_list :: "descriptor list"

record sdt_t =
  sdt_header :: table_header
  sdt_original_network_id :: u16
  sdt_h :: "service_node list"

record event_node =
  ev_event_id :: u16
  ev_start_time :: u64
  ev_duration :: u64
  ev_running_status :: u16
  ev_free_CA_mode :: u16
  ev_descriptors_loop_length :: u16
  ev_list :: "descriptor list"

record eit_t =
  eit_header :: table_header
  eit_transport_stream_id :: u16
  eit_original_network_id :: u16
  eit_segment_last_section_number :: u8
  eit_last_table_id :: u8
  eit_h :: "event_node list"

record tdt_t =
  tdt_section_length :: u16
  tdt_utc_time :: bytes

record tot_t =
  tot_section_length :: u16
  tot_utc_time :: bytes
  tot_descriptors_loop_length :: u16
  tot_list :: "descriptor list"

text \<open>The tables as \<open>memset\<close> leaves them.\<close>

definition zero_nit :: nit_t where
  "zero_nit = \<lparr>nit_network_id = 0, nit_header = zero_header, nit_network_descriptors_length = 0, nit_list = [],
     nit_transport_stream_loop_length = 0, nit_h = []\<rparr>"

definition zero_bat :: bat_t where
  "zero_bat = \<lparr>bat_header = zero_header, bat_bouquet_id = 0, bat_bouquet_descriptors_length = 0, bat_list = [],
     bat_transport_stream_loop_length = 0, bat_h = []\<rparr>"

definition zero_sdt :: sdt_t where
  "zero_sdt = \<lparr>sdt_header = zero_header, sdt_original_network_id = 0, sdt_h = []\<rparr>"

definition zero_eit :: eit_t where
  "zero_eit = \<lparr>eit_header = zero_header, eit_transport_stream_id = 0, eit_original_network_id = 0,
     eit_segment_last_section_number = 0, eit_last_table_id = 0, eit_h = []\<rparr>"

definition zero_tdt :: tdt_t where
  "zero_tdt = \<lparr>tdt_section_length = 0, tdt_utc_time = replicate 5 0\<rparr>"

definition zero_tot :: tot_t where
  "zero_tot = \<lparr>tot_section_length = 0, tot_utc_time = replicate 5 0, tot_descriptors_loop_length = 0, tot_list = []\<rparr>"

definition TDT_TID :: u8 where "TDT_TID = 0x70"
definition TOT_TID :: u8 where "TOT_TID = 0x73"

section \<open>Operations\<close>

text \<open>Reading through \<open>private_data_byte\<close>: undefined for a null or freed pointer.\<close>

definition blk_bytes :: "blk \<Rightarrow> bytes option" where
  "blk_bytes b = (case b of Blk p \<Rightarrow> Some p | _ \<Rightarrow> None)"

text \<open>
  The loop over transport streams, the same in NIT and BAT: the 12-bit field that takes the
  length cuts off what \<open>parse_nit\<close> does not mask.
\<close>

function ts_loop ::
  "alloc_env \<Rightarrow> (u8 \<Rightarrow> desc_ops) \<Rightarrow> int \<Rightarrow> bytes \<Rightarrow> nat \<Rightarrow> (int \<times> transport_stream_node list) option" where
  "ts_loop e des_ops section_len pdata i =
     (if section_len \<le> 0 then Some (0, [])
      else if \<not> mok e i then Some (ENOMEM, [])
      else do {
        tsid \<leftarrow> TS_READ16 pdata;
        onid \<leftarrow> TS_READ16 (drop 2 pdata);
        w \<leftarrow> TS_READ16 (drop 4 pdata);
        let n = w AND 0xFFF;
        ds \<leftarrow> parse_descriptors (in_node e i) des_ops (drop 6 pdata) (uint n);
        (r, ns) \<leftarrow> ts_loop e des_ops (i16 (section_len - (6 + uint n))) (drop (6 + unat n) pdata) (Suc i);
        Some (r, \<lparr>tn_transport_stream_id = tsid, tn_original_network_id = onid,
                  tn_transport_descriptors_length = n, tn_list = ds\<rparr> # ns) })"
  by pat_completeness auto
termination
  by (relation "measure (\<lambda>(e, ops, l, p, i). length p)") (auto dest: TS_READ16_pos)

definition parse_nit ::
  "alloc_env \<Rightarrow> (u8 \<Rightarrow> desc_ops) \<Rightarrow> bytes \<Rightarrow> u16 \<Rightarrow> nit_t \<Rightarrow> (int \<times> nit_t) option" where
  "parse_nit e des_ops pbuf buf_size nit = do {
     (ret, h) \<leftarrow> parse_section_header (in_node e 0) pbuf buf_size (nit_header nit);
     let nit = nit\<lparr>nit_header := h\<rparr>;
     if ret \<noteq> 0 then Some (ret, nit)
     else do {
       let section_len = i16 (uint (th_section_length h) - (5 + 4));
       pdata \<leftarrow> blk_bytes (th_data h);
       w \<leftarrow> TS_READ16 pdata;
       let n = w AND 0xFFF;
       ds \<leftarrow> parse_descriptors (in_node e 1) des_ops (drop 2 pdata) (uint n);
       w' \<leftarrow> TS_READ16 (drop (2 + unat n) pdata);
       (r, ns) \<leftarrow> ts_loop (in_node e 2) des_ops (i16 (section_len - (4 + uint n))) (drop (4 + unat n) pdata) 0;
       Some (r, nit\<lparr>nit_network_descriptors_length := n, nit_list := ds,
                    nit_transport_stream_loop_length := w' AND 0xFFF, nit_h := ns\<rparr>) } }"

definition parse_bat ::
  "alloc_env \<Rightarrow> (u8 \<Rightarrow> desc_ops) \<Rightarrow> bytes \<Rightarrow> u16 \<Rightarrow> bat_t \<Rightarrow> (int \<times> bat_t) option" where
  "parse_bat e des_ops pbuf buf_size bat = do {
     (ret, h) \<leftarrow> parse_section_header (in_node e 0) pbuf buf_size (bat_header bat);
     let bat = bat\<lparr>bat_header := h\<rparr>;
     if ret \<noteq> 0 then Some (ret, bat)
     else do {
       let section_len = i16 (uint (th_section_length h) - (5 + 4));
       pdata \<leftarrow> blk_bytes (th_data h);
       w \<leftarrow> TS_READ16 pdata;
       let n = w AND 0xFFF;
       ds \<leftarrow> parse_descriptors (in_node e 1) des_ops (drop 2 pdata) (uint n);
       let section_len = i16 (i16 (section_len - 2) - uint n);
       w' \<leftarrow> TS_READ16 (drop (2 + unat n) pdata);
       (r, ns) \<leftarrow> ts_loop (in_node e 2) des_ops (i16 (section_len - 2)) (drop (4 + unat n) pdata) 0;
       Some (r, bat\<lparr>bat_bouquet_id := ucast (th_table_id h), bat_bouquet_descriptors_length := n, bat_list := ds,
                    bat_transport_stream_loop_length := w' AND 0xFFF, bat_h := ns\<rparr>) } }"

function service_loop ::
  "alloc_env \<Rightarrow> (u8 \<Rightarrow> desc_ops) \<Rightarrow> int \<Rightarrow> bytes \<Rightarrow> nat \<Rightarrow> (int \<times> service_node list) option" where
  "service_loop e des_ops section_len pdata i =
     (if section_len \<le> 0 then Some (0, [])
      else if \<not> mok e i then Some (ENOMEM, [])
      else do {
        sid \<leftarrow> TS_READ16 pdata;
        b \<leftarrow> TS_READ8 (drop 2 pdata);
        w \<leftarrow> TS_READ16 (drop 3 pdata);
        let n = w AND 0x0FFF;
        ds \<leftarrow> parse_descriptors (in_node e i) des_ops (drop 5 pdata) (uint n);
        (r, ns) \<leftarrow> service_loop e des_ops (i16 (section_len - (5 + uint n))) (drop (5 + unat n) pdata) (Suc i);
        Some (r, \<lparr>sv_service_id = sid, sv_EIT_schedule_flag = drop_bit 1 b AND 1,
                  sv_EIT_present_following_flag = b AND 1, sv_running_status = drop_bit 13 w AND 7,
                  sv_free_CA_mode = drop_bit 12 w AND 1, sv_descriptors_loop_length = n, sv_list = ds\<rparr> # ns) })"
  by pat_completeness auto
termination
  by (relation "measure (\<lambda>(e, ops, l, p, i). length p)") (auto dest: TS_READ16_pos)

definition parse_sdt ::
  "alloc_env \<Rightarrow> (u8 \<Rightarrow> desc_ops) \<Rightarrow> bytes \<Rightarrow> u16 \<Rightarrow> sdt_t \<Rightarrow> (int \<times> sdt_t) option" where
  "parse_sdt e des_ops pbuf buf_size sdt = do {
     (ret, h) \<leftarrow> parse_section_header (in_node e 0) pbuf buf_size (sdt_header sdt);
     let sdt = sdt\<lparr>sdt_header := h\<rparr>;
     if ret \<noteq> 0 then Some (ret, sdt)
     else do {
       let section_len = i16 (uint (th_section_length h) - (5 + 4));
       pdata \<leftarrow> blk_bytes (th_data h);
       onid \<leftarrow> TS_READ16 pdata;
       (r, ns) \<leftarrow> service_loop (in_node e 1) des_ops (i16 (section_len - 3)) (drop 3 pdata) 0;
       Some (r, sdt\<lparr>sdt_original_network_id := onid, sdt_h := ns\<rparr>) } }"

text \<open>
  The events: \<open>section_len\<close> is unsigned here, \<open>pdata\<close> is moved past the fixed part of an
  event only, and a diagnostic print reads up to 45 bytes from there.
\<close>

function event_loop ::
  "alloc_env \<Rightarrow> (u8 \<Rightarrow> desc_ops) \<Rightarrow> u16 \<Rightarrow> u16 \<Rightarrow> bytes \<Rightarrow> nat \<Rightarrow> (int \<times> event_node list) option" where
  "event_loop e des_ops buf_size section_len pdata i =
     (if section_len = 0 then Some (0, [])
      else if \<not> mok e i then Some (ENOMEM, [])
      else do {
        eid \<leftarrow> TS_READ16 pdata;
        st \<leftarrow> TS_READ64_BITS (drop 2 pdata) 40 0;
        du \<leftarrow> TS_READ64_BITS (drop 2 pdata) 24 40;
        rs \<leftarrow> TS_READ16_BITS (drop 10 pdata) 3 0;
        ca \<leftarrow> TS_READ16_BITS (drop 10 pdata) 1 3;
        n \<leftarrow> TS_READ16_BITS (drop 10 pdata) 12 4;
        if length (drop 12 pdata) < min 45 (unat buf_size) then None
        else do {
          ds \<leftarrow> parse_descriptors (in_node e i) des_ops (drop 12 pdata) (uint n);
          (r, ns) \<leftarrow> event_loop e des_ops buf_size (section_len - (12 + n)) (drop 12 pdata) (Suc i);
          Some (r, \<lparr>ev_event_id = eid, ev_start_time = st, ev_duration = du, ev_running_status = rs,
                    ev_free_CA_mode = ca, ev_descriptors_loop_length = n, ev_list = ds\<rparr> # ns) } })"
  by pat_completeness auto
termination
  by (relation "measure (\<lambda>(e, ops, b, l, p, i). length p)") (auto dest: TS_READ16_pos)

definition parse_eit ::
  "alloc_env \<Rightarrow> (u8 \<Rightarrow> desc_ops) \<Rightarrow> bytes \<Rightarrow> u16 \<Rightarrow> eit_t \<Rightarrow> (int \<times> eit_t) option" where
  "parse_eit e des_ops pbuf buf_size eit = do {
     (ret, h) \<leftarrow> parse_section_header (in_node e 0) pbuf buf_size (eit_header eit);
     let eit = eit\<lparr>eit_header := h\<rparr>;
     if ret \<noteq> 0 then Some (ret, eit)
     else do {
       pdata \<leftarrow> blk_bytes (th_data h);
       let section_len = th_section_length h - (5 + 4);
       tsid \<leftarrow> TS_READ16 pdata;
       onid \<leftarrow> TS_READ16 (drop 2 pdata);
       seg \<leftarrow> TS_READ8 (drop 4 pdata);
       lst \<leftarrow> TS_READ8 (drop 5 pdata);
       (r, ns) \<leftarrow> event_loop (in_node e 1) des_ops buf_size (section_len - 6) (drop 6 pdata) 0;
       Some (r, eit\<lparr>eit_transport_stream_id := tsid, eit_original_network_id := onid,
                    eit_segment_last_section_number := seg, eit_last_table_id := lst, eit_h := eit_h eit @ ns\<rparr>) } }"

definition parse_tdt :: "bytes \<Rightarrow> tdt_t \<Rightarrow> (int \<times> tdt_t) option" where
  "parse_tdt pbuf tdt = do {
     tid \<leftarrow> rdb pbuf 0;
     if tid \<noteq> TDT_TID then Some (-1, tdt)
     else do {
       w \<leftarrow> TS_READ16 (drop 1 pbuf);
       utc \<leftarrow> memcpy (tdt_utc_time tdt) 0 (drop 3 pbuf) 5;
       Some (0, tdt\<lparr>tdt_section_length := w AND 0xFFF, tdt_utc_time := utc\<rparr>) } }"

definition parse_tot ::
  "alloc_env \<Rightarrow> (u8 \<Rightarrow> desc_ops) \<Rightarrow> bytes \<Rightarrow> tot_t \<Rightarrow> (int \<times> tot_t) option" where
  "parse_tot e des_ops pbuf tot = do {
     tid \<leftarrow> rdb pbuf 0;
     if tid \<noteq> TOT_TID then Some (-1, tot)
     else do {
       w \<leftarrow> TS_READ16 (drop 1 pbuf);
       utc \<leftarrow> memcpy (tot_utc_time tot) 0 (drop 3 pbuf) 5;
       w' \<leftarrow> TS_READ16 (drop 8 pbuf);
       let n = w' AND 0xFFF;
       ds \<leftarrow> parse_descriptors e des_ops (drop 10 pbuf) (uint n);
       Some (0, tot\<lparr>tot_section_length := w AND 0xFFF, tot_utc_time := utc, tot_descriptors_loop_length := n,
                    tot_list := ds\<rparr>) } }"

declare ts_loop.simps [simp del] service_loop.simps [simp del] event_loop.simps [simp del]

section \<open>Tables on the wire\<close>

text \<open>A 12-bit length below four other bits.\<close>

definition len12 :: "nat \<Rightarrow> nat \<Rightarrow> bytes" where
  "len12 t n = be16 (t * 4096 + n)"

lemma length_len12 [simp]: "length (len12 t n) = 2"
  by (simp add: len12_def)

lemma READ16_len12:
  assumes "t < 16" "n < 4096"
  shows "TS_READ16 (len12 t n @ r) = Some (of_nat (t * 4096 + n))"
  using assms by (simp add: len12_def READ16_be16)

lemma and_fff_len12:
  assumes "t < 16" "n < 4096"
  shows "(of_nat (t * 4096 + n) :: u16) AND 0xFFF = of_nat n"
proof (rule unsigned_word_eqI)
  have "unat (of_nat (t * 4096 + n) :: u16) = t * 4096 + n"
    using assms by (simp only: unat_of_nat) (simp add: unsigned_of_nat take_bit_nat_eq_self)
  then show "unat ((of_nat (t * 4096 + n) :: u16) AND 0xFFF) = unat (of_nat n :: u16)"
    using assms by (simp add: unat_and_fff unsigned_of_nat take_bit_nat_eq_self)
qed

text \<open>A descriptor area whose descriptors the parsers handle, and what they make of it.\<close>

definition darea :: "(u8 \<times> bytes) list \<Rightarrow> bytes" where
  "darea ds = concat (map encode ds)"

definition dok :: "(nat \<Rightarrow> u8) \<Rightarrow> (u8 \<Rightarrow> desc_ops) \<Rightarrow> (u8 \<times> bytes) list \<Rightarrow> bool" where
  "dok j des_ops ds \<longleftrightarrow> (\<forall>d \<in> set ds. length (snd d) < 256 \<and> parse_alone j des_ops d \<noteq> None)"

definition dparsed :: "(nat \<Rightarrow> u8) \<Rightarrow> (u8 \<Rightarrow> desc_ops) \<Rightarrow> (u8 \<times> bytes) list \<Rightarrow> descriptor list" where
  "dparsed j des_ops ds = map (\<lambda>d. mk_descriptor d (the (parse_alone j des_ops d))) ds"

lemma parse_darea:
  assumes "dok j des_ops ds"
  shows "parse_descriptors (always_ok j) des_ops (darea ds @ rest) (int (length (darea ds))) = Some (dparsed j des_ops ds)"
  unfolding parse_descriptors_def
  using des.area_encoded [of "map (\<lambda>d. (d, the (parse_alone j des_ops d))) ds" j des_ops rest 0] assms
  by (auto simp: dok_def parse_alone_def darea_def dparsed_def comp_def)

text \<open>
  The contract of a loop over the entries of a table: it stops when no length is left, and an
  entry at the front of the data becomes one node and one action on the state.  Then a body
  that is a sequence of entries becomes the nodes of these entries, in order.
\<close>

locale entry_loop =
  fixes loop :: "'s \<Rightarrow> int \<Rightarrow> bytes \<Rightarrow> nat \<Rightarrow> (int \<times> 'n list \<times> 's) option"
    and enc :: "'w \<Rightarrow> bytes" and node :: "'w \<Rightarrow> 'n" and ok :: "'w \<Rightarrow> bool"
    and act :: "nat \<Rightarrow> 'w \<Rightarrow> 's \<Rightarrow> 's option"
  assumes loop_stop: "l \<le> 0 \<Longrightarrow> loop s l p i = Some (0, [], s)"
    and loop_step: "\<lbrakk>ok w; act i w s = Some s'; 0 < l; l < 4096; int (length (enc w)) \<le> l\<rbrakk> \<Longrightarrow>
      loop s l (enc w @ rest) i =
        map_option (\<lambda>(r, ns, s). (r, node w # ns, s)) (loop s' (l - int (length (enc w))) rest (Suc i))"
    and enc_nonempty: "ok w \<Longrightarrow> enc w \<noteq> []"
begin

fun acts :: "nat \<Rightarrow> 'w list \<Rightarrow> 's \<Rightarrow> 's option" where
  "acts i [] s = Some s"
| "acts i (w # ws) s = act i w s \<bind> acts (Suc i) ws"

lemma loop_entries:
  assumes "\<forall>w \<in> set ws. ok w" "length (concat (map enc ws)) < 4096" "acts i ws s = Some s'"
  shows "loop s (int (length (concat (map enc ws)))) (concat (map enc ws) @ rest) i = Some (0, map node ws, s')"
  using assms
proof (induction ws arbitrary: i s)
  case Nil
  then show ?case by (simp add: loop_stop)
next
  case (Cons w ws)
  let ?n = "int (length (concat (map enc (w # ws))))"
  obtain s1 where s1: "act i w s = Some s1" "acts (Suc i) ws s1 = Some s'"
    using Cons.prems(3) by (auto simp: Option.bind_eq_Some_conv)
  have "loop s ?n (enc w @ concat (map enc ws) @ rest) i =
      map_option (\<lambda>(r, ns, s). (r, node w # ns, s)) (loop s1 (?n - int (length (enc w))) (concat (map enc ws) @ rest) (Suc i))"
    using Cons.prems s1(1) enc_nonempty [of w] by (intro loop_step) (auto simp: add_pos_nonneg)
  also have "?n - int (length (enc w)) = int (length (concat (map enc ws)))" by simp
  finally show ?case
    using Cons.IH [OF _ _ s1(2)] Cons.prems by simp
qed

end

lemma i16_id: "\<lbrakk>- 32768 \<le> x; x < 32768\<rbrakk> \<Longrightarrow> i16 x = x"
  by (simp add: i16_def sint_sbintrunc' signed_take_bit_int_eq_self)

subsection \<open>Transport streams\<close>

record wire_ts =
  w_tsid :: u16
  w_onid :: u16
  w_ts_res :: nat
  w_ts_descs :: "(u8 \<times> bytes) list"

definition enc_ts :: "wire_ts \<Rightarrow> bytes" where
  "enc_ts w = be16 (unat (w_tsid w)) @ be16 (unat (w_onid w)) @
     len12 (w_ts_res w) (length (darea (w_ts_descs w))) @ darea (w_ts_descs w)"

definition ts_ok :: "(nat \<Rightarrow> u8) \<Rightarrow> (u8 \<Rightarrow> desc_ops) \<Rightarrow> wire_ts \<Rightarrow> bool" where
  "ts_ok j des_ops w \<longleftrightarrow> w_ts_res w < 16 \<and> length (darea (w_ts_descs w)) < 4096 \<and> dok j des_ops (w_ts_descs w)"

definition ts_node :: "(nat \<Rightarrow> u8) \<Rightarrow> (u8 \<Rightarrow> desc_ops) \<Rightarrow> wire_ts \<Rightarrow> transport_stream_node" where
  "ts_node j des_ops w = \<lparr>tn_transport_stream_id = w_tsid w, tn_original_network_id = w_onid w,
     tn_transport_descriptors_length = of_nat (length (darea (w_ts_descs w))), tn_list = dparsed j des_ops (w_ts_descs w)\<rparr>"

definition ts_loop_s :: "(nat \<Rightarrow> u8) \<Rightarrow> (u8 \<Rightarrow> desc_ops) \<Rightarrow> unit \<Rightarrow> int \<Rightarrow> bytes \<Rightarrow> nat \<Rightarrow> (int \<times> transport_stream_node list \<times> unit) option" where
  "ts_loop_s j des_ops s l p i = map_option (\<lambda>(r, ns). (r, ns, s)) (ts_loop (always_ok j) des_ops l p i)"

lemma ts_loop_entry:
  assumes "ts_ok j des_ops w" "0 < l" "l < 4096" "int (length (enc_ts w)) \<le> l"
  shows "ts_loop (always_ok j) des_ops l (enc_ts w @ rest) i =
    map_option (\<lambda>(r, ns). (r, ts_node j des_ops w # ns))
      (ts_loop (always_ok j) des_ops (l - int (length (enc_ts w))) rest (Suc i))"
proof -
  let ?n = "length (darea (w_ts_descs w))"
  have ok: "w_ts_res w < 16" "?n < 4096" "dok j des_ops (w_ts_descs w)"
    using assms(1) by (auto simp: ts_ok_def)
  let ?p = "enc_ts w @ rest"
  have d: "drop 2 ?p = be16 (unat (w_onid w)) @ len12 (w_ts_res w) ?n @ darea (w_ts_descs w) @ rest"
    "drop 4 ?p = len12 (w_ts_res w) ?n @ darea (w_ts_descs w) @ rest"
    "drop 6 ?p = darea (w_ts_descs w) @ rest" "drop (6 + ?n) ?p = rest"
    by (simp_all add: enc_ts_def)
  have r: "TS_READ16 ?p = Some (w_tsid w)" "TS_READ16 (drop 2 ?p) = Some (w_onid w)"
    "TS_READ16 (drop 4 ?p) = Some (of_nat (w_ts_res w * 4096 + ?n))"
    using ok unfolding d by (simp_all add: enc_ts_def READ16_be16_unat READ16_len12 del: of_nat_add of_nat_mult)
  have n: "(of_nat (w_ts_res w * 4096 + ?n) :: u16) AND 0xFFF = of_nat ?n"
    by (rule and_fff_len12 [OF ok(1,2)])
  have u: "uint (of_nat ?n :: u16) = int ?n" "unat (of_nat ?n :: u16) = ?n"
    using ok(2) by (simp_all add: uint_of_nat_len unsigned_of_nat take_bit_nat_eq_self)
  have l: "i16 (l - (6 + int ?n)) = l - int (length (enc_ts w))"
    using assms(2-4) by (simp add: enc_ts_def i16_id)
  show ?thesis
    using assms(2)
    by (subst ts_loop.simps, unfold r Option.bind_lunit Let_def n u d(3,4))
       (simp add: parse_darea [OF ok(3)] l ts_node_def map_option_case split: Option.bind_splits option.splits)
qed

interpretation tsl: entry_loop "ts_loop_s j des_ops" enc_ts "ts_node j des_ops" "ts_ok j des_ops" "\<lambda>_ _. Some" for j des_ops
proof
  show "ts_loop_s j des_ops s l p i = Some (0, [], s)" if "l \<le> 0" for s l p i
    using that by (simp add: ts_loop_s_def ts_loop.simps)
next
  fix w l rest i and s s' :: unit
  assume "ts_ok j des_ops w" "Some s = Some s'" "0 < l" "l < 4096" "int (length (enc_ts w)) \<le> l"
  then show "ts_loop_s j des_ops s l (enc_ts w @ rest) i =
      map_option (\<lambda>(r, ns, s). (r, ts_node j des_ops w # ns, s)) (ts_loop_s j des_ops s' (l - int (length (enc_ts w))) rest (Suc i))"
    by (simp add: ts_loop_s_def ts_loop_entry option.map_comp comp_def split_def)
next
  show "enc_ts w \<noteq> []" for w by (simp add: enc_ts_def be16_def)
qed

lemma tsl_acts [simp]: "tsl.acts i ws s = Some s"
  by (induction ws arbitrary: i) auto

lemma ts_loop_entries:
  assumes "\<forall>w \<in> set ws. ts_ok j des_ops w" "length (concat (map enc_ts ws)) < 4096"
  shows "ts_loop (always_ok j) des_ops (int (length (concat (map enc_ts ws)))) (concat (map enc_ts ws) @ rest) i =
    Some (0, map (ts_node j des_ops) ws)"
  using tsl.loop_entries [OF assms, of i "()" "()" rest] by (auto simp: ts_loop_s_def)

subsection \<open>Services\<close>

record wire_service =
  w_sid :: u16
  w_flags :: u8
  w_running :: nat
  w_free_CA :: bool
  w_sv_descs :: "(u8 \<times> bytes) list"

definition sv_top :: "wire_service \<Rightarrow> nat" where
  "sv_top w = 2 * w_running w + of_bool (w_free_CA w)"

definition enc_service :: "wire_service \<Rightarrow> bytes" where
  "enc_service w = be16 (unat (w_sid w)) @ [w_flags w] @
     len12 (sv_top w) (length (darea (w_sv_descs w))) @ darea (w_sv_descs w)"

definition service_ok :: "(nat \<Rightarrow> u8) \<Rightarrow> (u8 \<Rightarrow> desc_ops) \<Rightarrow> wire_service \<Rightarrow> bool" where
  "service_ok j des_ops w \<longleftrightarrow> w_running w < 8 \<and> length (darea (w_sv_descs w)) < 4096 \<and> dok j des_ops (w_sv_descs w)"

definition sv_node :: "(nat \<Rightarrow> u8) \<Rightarrow> (u8 \<Rightarrow> desc_ops) \<Rightarrow> wire_service \<Rightarrow> service_node" where
  "sv_node j des_ops w = \<lparr>sv_service_id = w_sid w, sv_EIT_schedule_flag = of_bool (bit (w_flags w) 1),
     sv_EIT_present_following_flag = of_bool (bit (w_flags w) 0), sv_running_status = of_nat (w_running w),
     sv_free_CA_mode = of_bool (w_free_CA w), sv_descriptors_loop_length = of_nat (length (darea (w_sv_descs w))),
     sv_list = dparsed j des_ops (w_sv_descs w)\<rparr>"

definition service_loop_s :: "(nat \<Rightarrow> u8) \<Rightarrow> (u8 \<Rightarrow> desc_ops) \<Rightarrow> unit \<Rightarrow> int \<Rightarrow> bytes \<Rightarrow> nat \<Rightarrow> (int \<times> service_node list \<times> unit) option" where
  "service_loop_s j des_ops s l p i = map_option (\<lambda>(r, ns). (r, ns, s)) (service_loop (always_ok j) des_ops l p i)"

lemma len12_top:
  assumes "r < 8" "n < 4096"
  shows "drop_bit 13 (of_nat ((2 * r + of_bool b) * 4096 + n) :: u16) AND 7 = of_nat r"
    "drop_bit 12 (of_nat ((2 * r + of_bool b) * 4096 + n) :: u16) AND 1 = of_bool b"
proof -
  let ?v = "(2 * r + of_bool b) * 4096 + n"
  have v: "?v < 65536" using assms by (cases b) auto
  have u: "unat (of_nat ?v :: u16) = ?v"
    using v by (simp only: unsigned_of_nat) (simp add: take_bit_nat_eq_self)
  have q: "?v div 4096 = 2 * r + of_bool b" using assms(2) by simp
  have m: "(7 :: u16) = mask 3" "(1 :: u16) = mask 1" by (simp_all add: mask_eq_exp_minus_1)
  show "drop_bit 13 (of_nat ?v :: u16) AND 7 = of_nat r"
  proof (rule unsigned_word_eqI)
    show "unat (drop_bit 13 (of_nat ?v :: u16) AND 7) = unat (of_nat r :: u16)"
      using assms unfolding m take_bit_eq_mask [symmetric] unsigned_take_bit_eq unsigned_drop_bit_eq u
      by (cases b) (auto simp: drop_bit_eq_div take_bit_eq_mod unsigned_of_nat)
  qed
  show "drop_bit 12 (of_nat ?v :: u16) AND 1 = of_bool b"
  proof (rule unsigned_word_eqI)
    show "unat (drop_bit 12 (of_nat ?v :: u16) AND 1) = unat (of_bool b :: u16)"
      using v q unfolding m take_bit_eq_mask [symmetric] unsigned_take_bit_eq unsigned_drop_bit_eq u
      by (simp add: drop_bit_eq_div take_bit_eq_mod del: of_bool_eq)
  qed
qed

lemma flag_bits: "drop_bit 1 (b :: u8) AND 1 = of_bool (bit b 1)" "(b :: u8) AND 1 = of_bool (bit b 0)"
  by (simp_all add: and_one_eq mod2_eq_if bit_iff_odd drop_bit_eq_div bit_0)

lemma service_loop_entry:
  assumes "service_ok j des_ops w" "0 < l" "l < 4096" "int (length (enc_service w)) \<le> l"
  shows "service_loop (always_ok j) des_ops l (enc_service w @ rest) i =
    map_option (\<lambda>(r, ns). (r, sv_node j des_ops w # ns))
      (service_loop (always_ok j) des_ops (l - int (length (enc_service w))) rest (Suc i))"
proof -
  let ?n = "length (darea (w_sv_descs w))"
  have ok: "w_running w < 8" "?n < 4096" "dok j des_ops (w_sv_descs w)"
    using assms(1) by (auto simp: service_ok_def)
  have top: "sv_top w < 16" using ok(1) by (simp add: sv_top_def of_bool_def)
  let ?p = "enc_service w @ rest"
  have d: "drop 2 ?p = w_flags w # len12 (sv_top w) ?n @ darea (w_sv_descs w) @ rest"
    "drop 3 ?p = len12 (sv_top w) ?n @ darea (w_sv_descs w) @ rest"
    "drop 5 ?p = darea (w_sv_descs w) @ rest" "drop (5 + ?n) ?p = rest"
    by (simp_all add: enc_service_def drop_Cons')
  have r: "TS_READ16 ?p = Some (w_sid w)" "TS_READ8 (drop 2 ?p) = Some (w_flags w)"
    "TS_READ16 (drop 3 ?p) = Some (of_nat (sv_top w * 4096 + ?n))"
    using ok top unfolding d
    by (simp_all add: enc_service_def READ16_be16_unat READ16_len12 TS_READ8_def del: of_nat_add of_nat_mult)
  have n: "(of_nat (sv_top w * 4096 + ?n) :: u16) AND 0x0FFF = of_nat ?n"
    by (rule and_fff_len12 [OF top ok(2)])
  have u: "uint (of_nat ?n :: u16) = int ?n" "unat (of_nat ?n :: u16) = ?n"
    using ok(2) by (simp_all add: uint_of_nat_len unsigned_of_nat take_bit_nat_eq_self)
  have t: "drop_bit 13 (of_nat (sv_top w * 4096 + ?n) :: u16) AND 7 = of_nat (w_running w)"
    "drop_bit 12 (of_nat (sv_top w * 4096 + ?n) :: u16) AND 1 = of_bool (w_free_CA w)"
    unfolding sv_top_def by (rule len12_top [OF ok(1,2)])+
  have l: "i16 (l - (5 + int ?n)) = l - int (length (enc_service w))"
    using assms(2-4) by (simp add: enc_service_def i16_id)
  show ?thesis
    using assms(2)
    by (subst service_loop.simps, unfold r Option.bind_lunit Let_def n u t flag_bits d(3,4))
       (simp add: parse_darea [OF ok(3)] l sv_node_def map_option_case bit_drop_bit_eq split: Option.bind_splits option.splits)
qed

interpretation svl: entry_loop "service_loop_s j des_ops" enc_service "sv_node j des_ops" "service_ok j des_ops" "\<lambda>_ _. Some" for j des_ops
proof
  show "service_loop_s j des_ops s l p i = Some (0, [], s)" if "l \<le> 0" for s l p i
    using that by (simp add: service_loop_s_def service_loop.simps)
next
  fix w l rest i and s s' :: unit
  assume "service_ok j des_ops w" "Some s = Some s'" "0 < l" "l < 4096" "int (length (enc_service w)) \<le> l"
  then show "service_loop_s j des_ops s l (enc_service w @ rest) i =
      map_option (\<lambda>(r, ns, s). (r, sv_node j des_ops w # ns, s)) (service_loop_s j des_ops s' (l - int (length (enc_service w))) rest (Suc i))"
    by (simp add: service_loop_s_def service_loop_entry option.map_comp comp_def split_def)
next
  show "enc_service w \<noteq> []" for w by (simp add: enc_service_def be16_def)
qed

lemma svl_acts [simp]: "svl.acts i ws s = Some s"
  by (induction ws arbitrary: i) auto

lemma service_loop_entries:
  assumes "\<forall>w \<in> set ws. service_ok j des_ops w" "length (concat (map enc_service ws)) < 4096"
  shows "service_loop (always_ok j) des_ops (int (length (concat (map enc_service ws)))) (concat (map enc_service ws) @ rest) i =
    Some (0, map (sv_node j des_ops) ws)"
  using svl.loop_entries [OF assms, of i "()" "()" rest] by (auto simp: service_loop_s_def)

section \<open>Properties\<close>

text \<open>
  The body that the parsers get from a table of one section; \<open>stuff\<close> is the rest of the packet
  behind the section.
\<close>

lemma section_size_append: "12 \<le> length p \<Longrightarrow> section_size (p @ stuff) = section_size p"
  by (simp add: section_size_def nth_append)

lemma single_section_append: "single_section p \<Longrightarrow> single_section (p @ stuff)"
  by (simp add: single_section_def section_size_append nth_append)

lemma READ16_append: "n + 2 \<le> length p \<Longrightarrow> TS_READ16 (drop n (p @ stuff)) = TS_READ16 (drop n p)"
  by (simp add: TS_READ16_def rdb_def nth_append)

lemma single_section_body:
  assumes "single_section p" "section_size p = length p" "unat buf_size = length p"
    and "header_ok h" "0 \<notin> bitmap_abs (th_bitmap h)"
  obtains h' t where "parse_section_header (always_ok j) (p @ stuff) buf_size h = Some (0, h')"
    "blk_bytes (th_data h') = Some (drop 8 p @ t)" "header_ok h'"
    "uint (th_section_length h') = int (length p) - 3" "12 \<le> length p" "length p \<le> 0x400"
    "th_table_id h' = p ! 0" "bitmap_abs (th_bitmap h') = insert 0 (bitmap_abs (th_bitmap h))"
    "TS_READ16 (drop 3 p) = Some (th_table_id_ext h')"
proof -
  have p: "12 \<le> length p" "length p \<le> 0x400"
    using assms(1,2) by (auto simp: single_section_def)
  have sz: "section_size (p @ stuff) = length p" using p(1) assms(2) by (simp add: section_size_append)
  obtain h' t where h': "parse_section_header (always_ok j) (p @ stuff) buf_size h = Some (0, h')"
    "th_data h' = Blk (take (length p - 8) (drop 8 (p @ stuff)) @ t)" "header_ok h'"
    "unat (th_section_length h') = length p - 3" "th_table_id h' = (p @ stuff) ! 0"
    "bitmap_abs (th_bitmap h') = insert 0 (bitmap_abs (th_bitmap h))"
    "TS_READ16 (drop 3 (p @ stuff)) = Some (th_table_id_ext h')"
    using single_section_parsed [OF single_section_append [OF assms(1)] _ assms(4,5), of buf_size stuff j] assms(3)
    unfolding sz by auto
  have "uint (th_section_length h') = int (length p) - 3"
    using h'(4) p(1) unfolding uint_nat by linarith
  moreover have "(p @ stuff) ! 0 = p ! 0" using p(1) by (cases p) simp_all
  ultimately show thesis
    using h' p READ16_append [of 3 p stuff] by (intro that [of h' t]) (auto simp: blk_bytes_def)
qed

text \<open>
  C28. A network information table of one section is read back as it was written: its network
  descriptors and, in order, its transport streams, each with its identifiers and descriptors,
  whatever table of descriptor parsers is installed and whatever follows in the packet.
\<close>

theorem parse_nit_roundtrip:
  assumes p: "p = hdr @ len12 r1 (length (darea ds)) @ darea ds @
      len12 r2 (length (concat (map enc_ts ws))) @ concat (map enc_ts ws) @ crc"
    and sz: "length hdr = 8" "length crc = 4" "r1 < 16" "r2 < 16"
    and sec: "single_section p" "section_size p = length p" "unat buf_size = length p"
    and ok: "dok j des_ops ds" "\<forall>w \<in> set ws. ts_ok j des_ops w"
    and h: "header_ok (nit_header nit)" "0 \<notin> bitmap_abs (th_bitmap (nit_header nit))"
  shows "\<exists>nit'. parse_nit (always_ok j) des_ops (p @ stuff) buf_size nit = Some (0, nit') \<and>
    nit_list nit' = dparsed j des_ops ds \<and> nit_h nit' = map (ts_node j des_ops) ws \<and>
    unat (nit_network_descriptors_length nit') = length (darea ds) \<and>
    unat (nit_transport_stream_loop_length nit') = length (concat (map enc_ts ws)) \<and>
    header_ok (nit_header nit')"
proof -
  let ?n = "length (darea ds)" and ?m = "length (concat (map enc_ts ws))"
  obtain h' t where h': "parse_section_header (always_ok j) (p @ stuff) buf_size (nit_header nit) = Some (0, h')"
    "blk_bytes (th_data h') = Some (drop 8 p @ t)" "header_ok h'"
    "uint (th_section_length h') = int (length p) - 3" "length p \<le> 0x400"
    using single_section_body [OF sec h, of j stuff] by metis
  let ?q = "drop 8 p @ t" and ?e = "concat (map enc_ts ws)"
  have len: "length p = 16 + ?n + ?m" "?n < 4096" "?m < 4096"
    using h'(5) sz by (simp_all add: p)
  have d: "?q = len12 r1 ?n @ darea ds @ len12 r2 ?m @ ?e @ crc @ t"
    "drop 2 ?q = darea ds @ len12 r2 ?m @ ?e @ crc @ t"
    "drop (2 + ?n) ?q = len12 r2 ?m @ ?e @ crc @ t"
    "drop (4 + ?n) ?q = ?e @ crc @ t"
    using sz(1) by (simp_all add: p)
  have r: "TS_READ16 ?q = Some (of_nat (r1 * 4096 + ?n))"
    "TS_READ16 (drop (2 + ?n) ?q) = Some (of_nat (r2 * 4096 + ?m))"
    unfolding d using sz len by (simp_all add: READ16_len12 del: of_nat_add of_nat_mult)
  have m: "(of_nat (r1 * 4096 + ?n) :: u16) AND 0xFFF = of_nat ?n" "(of_nat (r2 * 4096 + ?m) :: u16) AND 0xFFF = of_nat ?m"
    using sz len by (simp_all only: and_fff_len12)
  have u: "uint (of_nat ?n :: u16) = int ?n" "unat (of_nat ?n :: u16) = ?n" "unat (of_nat ?m :: u16) = ?m"
    using len by (simp_all add: uint_of_nat_len unsigned_of_nat take_bit_nat_eq_self)
  have l: "i16 (i16 (int (length p) - 3 - (5 + 4)) - (4 + int ?n)) = int ?m"
    using h'(5) len by (simp add: i16_id)
  have a: "parse_descriptors (always_ok j) des_ops (drop 2 ?q) (int ?n) = Some (dparsed j des_ops ds)"
    unfolding d(2) by (rule parse_darea [OF ok(1)])
  have b: "ts_loop (always_ok j) des_ops (int ?m) (drop (4 + ?n) ?q) 0 = Some (0, map (ts_node j des_ops) ws)"
    unfolding d(4) by (rule ts_loop_entries [OF ok(2) len(3)])
  show ?thesis
    unfolding parse_nit_def in_node_always_ok h'(1,2,4) Option.bind_lunit Let_def prod.case r m u l a b
    using h'(2,3) by (simp add: r m u l a b h'(4))
qed

theorem parse_nit_roundtrip_witness:
  "\<exists>nit'. parse_nit (always_ok (\<lambda>_. 0)) (\<lambda>_. Reserved)
      ([0x40, 0xF0, 19, 0, 1, 0xC1, 0, 0, 0xF0, 0, 0xF0, 6, 0, 5, 0, 9, 0xF0, 0, 1, 2, 3, 4] @ [0xFF]) 22 zero_nit = Some (0, nit') \<and>
    nit_list nit' = dparsed (\<lambda>_. 0) (\<lambda>_. Reserved) [] \<and>
    nit_h nit' = map (ts_node (\<lambda>_. 0) (\<lambda>_. Reserved)) [\<lparr>w_tsid = 5, w_onid = 9, w_ts_res = 15, w_ts_descs = []\<rparr>] \<and>
    unat (nit_network_descriptors_length nit') = length (darea []) \<and>
    unat (nit_transport_stream_loop_length nit') =
      length (concat (map enc_ts [\<lparr>w_tsid = 5, w_onid = 9, w_ts_res = 15, w_ts_descs = []\<rparr>])) \<and>
    header_ok (nit_header nit')"
proof (rule parse_nit_roundtrip)
  show "[0x40, 0xF0, 19, 0, 1, 0xC1, 0, 0, 0xF0, 0, 0xF0, 6, 0, 5, 0, 9, 0xF0, 0, 1, 2, 3, 4] =
    [0x40, 0xF0, 19, 0, 1, 0xC1, 0, 0] @ len12 15 (length (darea [])) @ darea [] @
      len12 15 (length (concat (map enc_ts [\<lparr>w_tsid = 5, w_onid = 9, w_ts_res = 15, w_ts_descs = []\<rparr>]))) @
      concat (map enc_ts [\<lparr>w_tsid = 5, w_onid = 9, w_ts_res = 15, w_ts_descs = []\<rparr>]) @ [1, 2, 3, 4]"
    by (simp add: len12_def be16_def darea_def enc_ts_def)
qed (simp_all add: single_section_def section_size_def dok_def ts_ok_def darea_def zero_nit_def header_ok_def
      zero_header_def bitmap_abs_zero4)

text \<open>
  C29. A service description table of one section is read back as it was written: the network and,
  in order, the services, each with its identifier, flags, running status, scrambling flag and
  descriptors.
\<close>

theorem parse_sdt_roundtrip:
  assumes p: "p = hdr @ be16 (unat onid) @ [res] @ concat (map enc_service ws) @ crc"
    and sz: "length hdr = 8" "length crc = 4"
    and sec: "single_section p" "section_size p = length p" "unat buf_size = length p"
    and ok: "\<forall>w \<in> set ws. service_ok j des_ops w"
    and h: "header_ok (sdt_header sdt)" "0 \<notin> bitmap_abs (th_bitmap (sdt_header sdt))"
  shows "\<exists>sdt'. parse_sdt (always_ok j) des_ops (p @ stuff) buf_size sdt = Some (0, sdt') \<and>
    sdt_original_network_id sdt' = onid \<and> sdt_h sdt' = map (sv_node j des_ops) ws \<and> header_ok (sdt_header sdt')"
proof -
  let ?e = "concat (map enc_service ws)"
  obtain h' t where h': "parse_section_header (always_ok j) (p @ stuff) buf_size (sdt_header sdt) = Some (0, h')"
    "blk_bytes (th_data h') = Some (drop 8 p @ t)" "header_ok h'"
    "uint (th_section_length h') = int (length p) - 3" "length p \<le> 0x400"
    using single_section_body [OF sec h, of j stuff] by metis
  let ?q = "drop 8 p @ t"
  have len: "length p = 15 + length ?e" "length ?e < 4096"
    using h'(5) sz by (simp_all add: p)
  have d: "?q = be16 (unat onid) @ res # ?e @ crc @ t" "drop 3 ?q = ?e @ crc @ t"
    using sz(1) by (simp_all add: p)
  have r: "TS_READ16 ?q = Some onid"
    unfolding d by (rule READ16_be16_unat)
  have l: "i16 (i16 (int (length p) - 12) - 3) = int (length ?e)"
    using h'(5) len by (simp add: i16_id)
  have b: "service_loop (always_ok j) des_ops (int (length ?e)) (drop 3 ?q) 0 = Some (0, map (sv_node j des_ops) ws)"
    unfolding d(2) by (rule service_loop_entries [OF ok len(2)])
  show ?thesis
    unfolding parse_sdt_def in_node_always_ok h'(1,2,4) Option.bind_lunit Let_def prod.case
    using h'(3) by (simp del: drop_append add: h'(2) h'(4) r l b)
qed

theorem parse_sdt_roundtrip_witness:
  "\<exists>sdt'. parse_sdt (always_ok (\<lambda>_. 0)) (\<lambda>_. Reserved)
      ([0x42, 0xF0, 17, 0, 1, 0xC1, 0, 0, 0, 7, 0xFF, 0, 5, 0xFD, 0x80, 0, 1, 2, 3, 4] @ [0xFF]) 20 zero_sdt = Some (0, sdt') \<and>
    sdt_original_network_id sdt' = 7 \<and>
    sdt_h sdt' = map (sv_node (\<lambda>_. 0) (\<lambda>_. Reserved))
      [\<lparr>w_sid = 5, w_flags = 0xFD, w_running = 4, w_free_CA = False, w_sv_descs = []\<rparr>] \<and> header_ok (sdt_header sdt')"
proof (rule parse_sdt_roundtrip)
  show "[0x42, 0xF0, 17, 0, 1, 0xC1, 0, 0, 0, 7, 0xFF, 0, 5, 0xFD, 0x80, 0, 1, 2, 3, 4] =
    [0x42, 0xF0, 17, 0, 1, 0xC1, 0, 0] @ be16 (unat (7 :: u16)) @ [0xFF] @
      concat (map enc_service [\<lparr>w_sid = 5, w_flags = 0xFD, w_running = 4, w_free_CA = False, w_sv_descs = []\<rparr>]) @ [1, 2, 3, 4]"
    by (simp add: len12_def be16_def darea_def enc_service_def sv_top_def)
qed (simp_all add: single_section_def section_size_def dok_def service_ok_def darea_def zero_sdt_def header_ok_def
      zero_header_def bitmap_abs_zero4)

text \<open>
  The event loop does not skip the descriptors of an event: after an event with descriptors it
  goes on reading the next event from the first byte of these descriptors, while the length left is
  reduced by their size.
\<close>

theorem event_loop_misaligned:
  assumes "length ev = 10" "t < 16" "dok j des_ops ds" "length (darea ds) < 4096"
    and "section_len \<noteq> 0" "min 45 (unat buf_size) \<le> length (darea ds @ rest)"
  shows "\<exists>node. ev_list node = dparsed j des_ops ds \<and>
    event_loop (always_ok j) des_ops buf_size section_len (ev @ len12 t (length (darea ds)) @ darea ds @ rest) i =
    map_option (\<lambda>(r, ns). (r, node # ns))
      (event_loop (always_ok j) des_ops buf_size (section_len - (12 + of_nat (length (darea ds)))) (darea ds @ rest) (Suc i))"
proof -
  let ?n = "length (darea ds)" and ?p = "ev @ len12 t (length (darea ds)) @ darea ds @ rest"
  have d: "drop 10 ?p = len12 t ?n @ darea ds @ rest" "drop 12 ?p = darea ds @ rest"
    using assms(1) by simp_all
  obtain eid st du where r: "TS_READ16 ?p = Some eid" "TS_READ64_BITS (drop 2 ?p) 40 0 = Some st"
    "TS_READ64_BITS (drop 2 ?p) 24 40 = Some du"
    using assms(1) by (simp add: TS_READ16_in TS_READ64_BITS_def TS_READ64_in)
  have w: "TS_READ16 (len12 t ?n @ darea ds @ rest) = Some (of_nat (t * 4096 + ?n))"
    using assms by (simp add: READ16_len12 del: of_nat_add of_nat_mult)
  have n: "bits_at (of_nat (t * 4096 + ?n) :: u16) 12 4 = of_nat ?n"
    using and_fff_len12 [OF assms(2,4)] by (simp add: bits_at_def mask_eq_exp_minus_1 del: of_nat_add of_nat_mult)
  obtain rs ca where b: "TS_READ16_BITS (drop 10 ?p) 3 0 = Some rs" "TS_READ16_BITS (drop 10 ?p) 1 3 = Some ca"
    "TS_READ16_BITS (drop 10 ?p) 12 4 = Some (of_nat ?n)"
    unfolding d TS_READ16_BITS_def w by (simp add: n del: of_nat_add of_nat_mult)
  have u: "uint (of_nat ?n :: u16) = int ?n"
    using assms(4) by (simp add: uint_of_nat_len)
  have nl: "\<not> length (drop 12 ?p) < min 45 (unat buf_size)"
    unfolding d using assms(6) by (rule leD)
  show ?thesis
    using assms(5) nl
    by (subst event_loop.simps, unfold r b Option.bind_lunit Let_def u d(2))
       (intro exI [of _ "\<lparr>ev_event_id = eid, ev_start_time = st, ev_duration = du, ev_running_status = rs,
          ev_free_CA_mode = ca, ev_descriptors_loop_length = of_nat ?n, ev_list = dparsed j des_ops ds\<rparr>"],
        simp add: parse_darea [OF assms(3)] map_option_case not_less split: Option.bind_splits option.splits)
qed

theorem event_loop_misaligned_witness:
  "\<exists>node. ev_list node = dparsed (\<lambda>_. 0) (\<lambda>_. Reserved) [(0x30, [])] \<and>
    event_loop (always_ok (\<lambda>_. 0)) (\<lambda>_. Reserved) 100 28 (replicate 10 0 @ len12 0 (length (darea [(0x30, [])])) @
      darea [(0x30, [])] @ replicate 60 0) 0 =
    map_option (\<lambda>(r, ns). (r, node # ns))
      (event_loop (always_ok (\<lambda>_. 0)) (\<lambda>_. Reserved) 100 (28 - (12 + of_nat (length (darea [(0x30, [])]))))
        (darea [(0x30, [])] @ replicate 60 0) (Suc 0))"
  by (rule event_loop_misaligned)
     (simp_all add: dok_def darea_def encode_def parse_alone_def descriptor_parse_def parse_reserved_descriptor_def rd_bytes_def)

end
