(* ===== verification/Teletext.thy ===== *)
theory Teletext
  imports Ts_Prelude
begin

unbundle bit_operations_syntax

text \<open>
  Teletext (\<^verbatim>\<open>src/teletext.c\<close>): the Hamming and parity codes, the page store
  \<open>g_text\<close>, and the parser of the data units of a PES packet.
\<close>

section \<open>State\<close>

record data_unit =
  du_data_unit_id :: u8
  du_data_unit_length :: u8
  du_field_parity :: u8
  du_line_offset :: u8
  du_framing_code :: u8
  du_magazine_and_packet_address :: u16
  du_data_block :: bytes

record teletext_pes_data =
  tt_data_identifier :: u8
  tt_n_units :: int
  tt_units :: "data_unit list option"

text \<open>
  The static variables: the pages, indexed by magazine, page, row and column, and the page
  \<open>P\<close> of the last header.
\<close>

record teletext_store =
  g_text :: "int \<Rightarrow> int \<Rightarrow> int \<Rightarrow> int \<Rightarrow> u8"
  page_P :: int

definition zero_store :: teletext_store where
  "zero_store = \<lparr>g_text = (\<lambda>_ _ _ _. 0), page_P = 0\<rparr>"

definition composite_teletext_pages :: "teletext_store \<Rightarrow> int \<Rightarrow> int \<Rightarrow> int \<Rightarrow> int \<Rightarrow> u8 \<Rightarrow> teletext_store option" where
  "composite_teletext_pages s X P Y z v =
     (if 0 \<le> X \<and> X < 8 \<and> 0 \<le> P \<and> P < 100 \<and> 0 \<le> Y \<and> Y < 32 \<and> 0 \<le> z \<and> z < 40
      then Some (s\<lparr>g_text := (\<lambda>a b c d. if a = X \<and> b = P \<and> c = Y \<and> d = z then v else g_text s a b c d)\<rparr>)
      else None)"

section \<open>Codes\<close>

definition popcount :: "u8 \<Rightarrow> nat" where
  "popcount x = length (filter (bit x) [0..<8])"

definition odd_parity8_test :: "u8 \<Rightarrow> bool" where
  "odd_parity8_test v \<longleftrightarrow> popcount v mod 2 = 1"

definition odd_parity24_test :: "u8 \<Rightarrow> u8 \<Rightarrow> u8 \<Rightarrow> bool" where
  "odd_parity24_test v1 v2 v3 \<longleftrightarrow> (popcount v1 + popcount v2 + popcount v3) mod 2 = 1"

definition REVERSE_BIT :: "u8 \<Rightarrow> nat \<Rightarrow> u8" where
  "REVERSE_BIT x v = NOT (push_bit v 1) AND x"

definition bits4_lookup :: "u8 list" where
  "bits4_lookup = [0x0, 0x8, 0x4, 0xc, 0x2, 0xa, 0x6, 0xe, 0x1, 0x9, 0x5, 0xd, 0x3, 0xb, 0x7, 0xf]"

definition reverse_byte :: "u8 \<Rightarrow> u8" where
  "reverse_byte n = push_bit 4 (bits4_lookup ! unat (n AND 0xf)) OR bits4_lookup ! unat (drop_bit 4 n)"

text \<open>\<open>HAMMING8_DATA\<close> is applied to an \<open>int\<close>, which is -1 for a rejected code.\<close>

definition HAMMING8_DATA :: "int \<Rightarrow> int" where
  "HAMMING8_DATA x = (drop_bit 6 (x AND 0x55) AND 0x1) OR (drop_bit 3 (x AND 0x55) AND 0x2) OR
     ((x AND 0x55) AND 0x4) OR (push_bit 3 (x AND 0x55) AND 0x8)"

definition decode_hamming8_code :: "u8 \<Rightarrow> int" where
  "decode_hamming8_code code =
     (let A = odd_parity8_test (code AND 0xC5);
          B = odd_parity8_test (code AND 0x71);
          C = odd_parity8_test (code AND 0x5C);
          D = odd_parity8_test (code AND 0xFF) in
      if A \<and> B \<and> C then (if D then uint code else uint (REVERSE_BIT code 1))
      else if D then -1
      else if A \<and> B \<and> \<not> C then uint (REVERSE_BIT code 3)
      else if A \<and> C \<and> \<not> B then uint (REVERSE_BIT code 5)
      else if \<not> A \<and> B \<and> C then uint (REVERSE_BIT code 7)
      else if \<not> A \<and> \<not> B \<and> C then uint (REVERSE_BIT code 0)
      else if \<not> A \<and> \<not> C \<and> B then uint (REVERSE_BIT code 2)
      else if A \<and> \<not> B \<and> \<not> C then uint (REVERSE_BIT code 4)
      else uint (REVERSE_BIT code 6))"

text \<open>The position of a single error may lie past the three bytes.\<close>

definition decode_hamming24_code :: "u8 \<Rightarrow> u8 \<Rightarrow> u8 \<Rightarrow> (int \<times> bytes) option" where
  "decode_hamming24_code d0 d1 d2 =
     (let A = odd_parity24_test (d0 AND 0xAA) (d1 AND 0xAA) (d2 AND 0xAA);
          B = odd_parity24_test (d0 AND 0x66) (d1 AND 0x66) (d2 AND 0x66);
          C = odd_parity24_test (d0 AND 0x1E) (d1 AND 0x1E) (d2 AND 0x1E);
          D = odd_parity24_test (d0 AND 1) (d1 AND 0xFE) 0;
          E = odd_parity24_test 0 (d1 AND 0x1) (d2 AND 0xFE);
          F = odd_parity24_test d0 d1 d2;
          data = [d0, d1, d2] in
      if A \<and> B \<and> C \<and> D \<and> E then (if F then Some (0, data) else Some (0, data[2 := REVERSE_BIT d2 0]))
      else if F then Some (-1, data)
      else
        let pos = (if \<not> E then 16 else 0) + (if \<not> D then 8 else 0) + (if \<not> C then 4 else 0) +
                  (if \<not> B then 2 else 0) + (if \<not> A then 1 else 0 :: nat);
            k = (pos - 1) div 8 in
        if k < 3 then Some (0, data[k := REVERSE_BIT (data ! k) (pos mod 8)]) else None)"

text \<open>The result is the row \<open>Y\<close> and, unless the address is rejected, the magazine \<open>X\<close>.\<close>

definition decode_hamming_address :: "u16 \<Rightarrow> int \<times> int option" where
  "decode_hamming_address addr =
     (let magazine = ucast (drop_bit 8 addr AND 0xFF) :: u8;
          packet = ucast (addr AND 0xFF) :: u8;
          ret = decode_hamming8_code magazine in
      if ret < 0 then (-1, None)
      else ((drop_bit 3 (HAMMING8_DATA ret) AND 0x1) OR push_bit 1 (HAMMING8_DATA (decode_hamming8_code packet)),
            Some (HAMMING8_DATA ret AND 0x7)))"

definition decode_odd_parity :: "u8 \<Rightarrow> int" where
  "decode_odd_parity data = (if \<not> odd_parity8_test data then -1 else uint (reverse_byte data AND 0x7F))"

section \<open>Packets\<close>

text \<open>The row of forty columns written from \<open>i\<close> on, and the rows blanked from \<open>j\<close> on.\<close>

fun write_row :: "teletext_store \<Rightarrow> int \<Rightarrow> int \<Rightarrow> int \<Rightarrow> int \<Rightarrow> bytes \<Rightarrow> teletext_store option" where
  "write_row s X P Y i [] = Some s"
| "write_row s X P Y i (v # vs) = do { s \<leftarrow> composite_teletext_pages s X P Y i v; write_row s X P Y (i + 1) vs }"

fun erase_rows :: "teletext_store \<Rightarrow> int \<Rightarrow> int \<Rightarrow> int \<Rightarrow> nat \<Rightarrow> teletext_store option" where
  "erase_rows s X P j 0 = Some s"
| "erase_rows s X P j (Suc k) = do { s \<leftarrow> write_row s X P j 0 (replicate 40 0x20); erase_rows s X P (j + 1) k }"

definition parse_teletext_data :: "teletext_store \<Rightarrow> u16 \<Rightarrow> bytes \<Rightarrow> (int \<times> teletext_store) option" where
  "parse_teletext_data s addr data =
     (case decode_hamming_address addr of (Y, X) \<Rightarrow>
        if Y = 0 then do {
          d0 \<leftarrow> rdb data 0; d1 \<leftarrow> rdb data 1; d3 \<leftarrow> rdb data 3;
          let units = HAMMING8_DATA (decode_hamming8_code d0);
          let tens = HAMMING8_DATA (decode_hamming8_code d1);
          let s = s\<lparr>page_P := tens * 10 + units\<rparr>;
          let erase = drop_bit 3 (HAMMING8_DATA (decode_hamming8_code d3)) AND 0x1;
          if erase \<noteq> 0 then do { x \<leftarrow> X; s \<leftarrow> erase_rows s x (page_P s) 1 28; Some (0, s) }
          else Some (0, s) }
        else if Y > 25 then Some (0, s)
        else do {
          x \<leftarrow> X;
          s \<leftarrow> write_row s x (page_P s) Y 0 (map (\<lambda>b. word_of_int (decode_odd_parity b)) data);
          Some (0, s) })"

text \<open>
  One round of the loop of \<open>parse_teletext\<close>: the unit \<open>i\<close> is filled (undefined when there is
  no such unit, or an assertion fails) and its text goes into the store.
\<close>

definition parse_unit :: "bytes \<Rightarrow> data_unit option" where
  "parse_unit pdata = do {
     uid \<leftarrow> TS_READ8 pdata;
     ul \<leftarrow> TS_READ8 (drop 1 pdata);
     fp \<leftarrow> TS_READ8_BITS (drop 2 pdata) 1 2;
     lo \<leftarrow> TS_READ8_BITS (drop 2 pdata) 5 3;
     fc \<leftarrow> TS_READ8 (drop 3 pdata);
     ad \<leftarrow> TS_READ16 (drop 4 pdata);
     if (uid = 0x2 \<or> uid = 0x3 \<or> uid = 0xff) \<and> ul = 0x2c \<and> 46 \<le> length pdata
     then Some \<lparr>du_data_unit_id = uid, du_data_unit_length = ul, du_field_parity = fp, du_line_offset = lo,
                du_framing_code = fc, du_magazine_and_packet_address = ad, du_data_block = take 40 (drop 6 pdata)\<rparr>
     else None }"

function units_loop :: "int \<Rightarrow> int \<Rightarrow> bytes \<Rightarrow> nat \<Rightarrow> data_unit list \<Rightarrow> teletext_store \<Rightarrow> (data_unit list \<times> teletext_store) option" where
  "units_loop t_len len pdata i us s =
     (if len \<le> t_len then Some (us, s)
      else if length us \<le> i then None
      else do {
        u \<leftarrow> parse_unit pdata;
        (_, s) \<leftarrow> parse_teletext_data s (du_magazine_and_packet_address u) (du_data_block u);
        units_loop (t_len + 46) len (drop 46 pdata) (Suc i) (us[i := u]) s })"
  by pat_completeness auto
termination
  by (relation "measure (\<lambda>(t, l, p, i, us, s). nat (l - t))") auto

declare units_loop.simps [simp del]

definition zero_unit :: data_unit where
  "zero_unit = \<lparr>du_data_unit_id = 0, du_data_unit_length = 0, du_field_parity = 0, du_line_offset = 0,
     du_framing_code = 0, du_magazine_and_packet_address = 0, du_data_block = replicate 40 0\<rparr>"

text \<open>
  \<open>(len - 1) / (2 + sizeof(struct data_field))\<close> is computed in \<open>size_t\<close> and stored in an
  \<open>int\<close>; a negative number of units makes \<open>calloc\<close> fail.
\<close>

definition n_units_of :: "int \<Rightarrow> int" where
  "n_units_of len = sint (word_of_int (uint (word_of_int (len - 1) :: u64) div 46) :: u32)"

definition parse_teletext ::
  "alloc_env \<Rightarrow> bytes \<Rightarrow> int \<Rightarrow> teletext_pes_data \<times> teletext_store \<Rightarrow> (int \<times> teletext_pes_data \<times> teletext_store) option" where
  "parse_teletext e pbuf len st = (case st of (txt, s) \<Rightarrow> do {
     di \<leftarrow> TS_READ8 pbuf;
     let n = n_units_of len;
     let txt = txt\<lparr>tt_data_identifier := di, tt_n_units := n\<rparr>;
     if n < 0 \<or> \<not> mok e 0 then Some (ENOMEM, txt\<lparr>tt_units := None\<rparr>, s)
     else do {
       (us, s) \<leftarrow> units_loop 1 len (drop 1 pbuf) 0 (replicate (nat n) zero_unit) s;
       Some (0, txt\<lparr>tt_units := Some us\<rparr>, s) } })"

definition free_teletext :: "teletext_pes_data \<Rightarrow> teletext_pes_data" where
  "free_teletext txt = txt\<lparr>tt_units := None\<rparr>"

section \<open>The Hamming 8/4 code\<close>

text \<open>
  The code words of ETS 300 706: the protection bits P1, P2, P3, P4 at the odd bits and the
  message bits D1, D2, D3, D4 at the even ones, from the most significant bit down.
\<close>

definition hamming8_encode :: "bool \<Rightarrow> bool \<Rightarrow> bool \<Rightarrow> bool \<Rightarrow> u8" where
  "hamming8_encode d1 d2 d3 d4 =
     (let p1 = (\<not> (d1 \<noteq> (d3 \<noteq> d4))); p2 = (\<not> (d1 \<noteq> (d2 \<noteq> d4))); p3 = (\<not> (d1 \<noteq> (d2 \<noteq> d3)));
          p4 = (\<not> (p1 \<noteq> (d1 \<noteq> (p2 \<noteq> (d2 \<noteq> (p3 \<noteq> (d3 \<noteq> d4))))))) in
      128 * of_bool p1 + 64 * of_bool d1 + 32 * of_bool p2 + 16 * of_bool d2 +
      8 * of_bool p3 + 4 * of_bool d3 + 2 * of_bool p4 + of_bool d4)"

definition message :: "bool \<Rightarrow> bool \<Rightarrow> bool \<Rightarrow> bool \<Rightarrow> int" where
  "message d1 d2 d3 d4 = of_bool d1 + 2 * of_bool d2 + 4 * of_bool d3 + 8 * of_bool d4"

lemma hamming8_valid_all:
  "list_all (\<lambda>d1. list_all (\<lambda>d2. list_all (\<lambda>d3. list_all (\<lambda>d4.
     HAMMING8_DATA (decode_hamming8_code (hamming8_encode d1 d2 d3 d4)) = message d1 d2 d3 d4)
     [False, True]) [False, True]) [False, True]) [False, True]"
  by code_simp

text \<open>Flipping one bit changes exactly the parities of the masks that contain it.\<close>

lemma odd_filter_toggle:
  "distinct xs \<Longrightarrow> v \<in> set xs \<Longrightarrow>
   odd (length (filter (\<lambda>i. P i \<noteq> (i = v)) xs)) \<longleftrightarrow> \<not> odd (length (filter P xs))"
proof (induction xs)
  case (Cons x xs)
  show ?case
  proof (cases "x = v")
    case True
    with Cons.prems have "filter (\<lambda>i. P i \<noteq> (i = v)) xs = filter P xs"
      by (intro filter_cong) auto
    with True show ?thesis by simp
  next
    case False
    with Cons show ?thesis by simp
  qed
qed simp

lemma parity_flip:
  assumes "v < 8"
  shows "odd_parity8_test (flip_bit v x AND m) \<longleftrightarrow> odd_parity8_test (x AND m) \<noteq> bit m v"
proof (cases "bit m v")
  case True
  have "filter (bit (flip_bit v x AND m)) [0..<8] = filter (\<lambda>i. bit (x AND m) i \<noteq> (i = v)) [0..<8]"
    using True by (intro filter_cong) (auto simp: bit_and_iff bit_flip_bit_iff)
  then show ?thesis
    using True odd_filter_toggle [of "[0..<8]" v "bit (x AND m)"] assms
    by (auto simp: odd_parity8_test_def popcount_def mod2_eq_if)
next
  case False
  then have "flip_bit v x AND m = x AND m"
    by (intro bit_word_eqI) (auto simp: bit_and_iff bit_flip_bit_iff)
  with False show ?thesis by simp
qed

definition code_word :: "u8 \<Rightarrow> bool" where
  "code_word c \<longleftrightarrow> odd_parity8_test (c AND 0xC5) \<and> odd_parity8_test (c AND 0x71) \<and>
     odd_parity8_test (c AND 0x5C) \<and> odd_parity8_test (c AND 0xFF)"

lemma code_word_encode: "code_word (hamming8_encode d1 d2 d3 d4)"
proof -
  have "list_all (\<lambda>d1. list_all (\<lambda>d2. list_all (\<lambda>d3. list_all (\<lambda>d4. code_word (hamming8_encode d1 d2 d3 d4))
     [False, True]) [False, True]) [False, True]) [False, True]"
    by code_simp
  then show ?thesis by (cases d1; cases d2; cases d3; cases d4) simp_all
qed

lemma lt8_cases: "v < (8 :: nat) \<Longrightarrow> v \<in> {0, 1, 2, 3, 4, 5, 6, 7}"
  by auto

lemma REVERSE_BIT_flip: "REVERSE_BIT (flip_bit v c) v = (if bit c v then flip_bit v c else c)"
  by (rule bit_word_eqI) (auto simp: REVERSE_BIT_def bit_and_iff bit_not_iff bit_push_bit_iff bit_flip_bit_iff bit_exp_iff)

lemma hamming8_single:
  assumes "code_word c" "v < 8"
  shows "decode_hamming8_code (flip_bit v c) = uint (if bit c v then flip_bit v c else c)"
proof -
  have "decode_hamming8_code (flip_bit v c) = uint (REVERSE_BIT (flip_bit v c) v)"
    using assms(1) lt8_cases [OF assms(2)]
    by (elim insertE emptyE)
       (simp_all add: decode_hamming8_code_def Let_def parity_flip code_word_def)
  then show ?thesis by (simp only: REVERSE_BIT_flip)
qed

lemma hamming8_double:
  assumes "code_word c" "v < 8" "w < 8" "v \<noteq> w"
  shows "decode_hamming8_code (flip_bit v (flip_bit w c)) = -1"
  using assms(1,4) lt8_cases [OF assms(2)] lt8_cases [OF assms(3)]
  by (elim insertE emptyE)
     (simp_all add: decode_hamming8_code_def Let_def parity_flip code_word_def)

lemma hamming8_valid:
  "HAMMING8_DATA (decode_hamming8_code (hamming8_encode d1 d2 d3 d4)) = message d1 d2 d3 d4"
  using hamming8_valid_all by (cases d1; cases d2; cases d3; cases d4) simp_all

lemma decode_code_word: "code_word c \<Longrightarrow> decode_hamming8_code c = uint c"
  by (simp add: decode_hamming8_code_def code_word_def)

section \<open>Addresses and rows\<close>

definition address :: "u8 \<Rightarrow> u8 \<Rightarrow> u16" where
  "address a b = push_bit 8 (ucast a) OR ucast b"

lemma address_bytes:
  "(ucast (drop_bit 8 (address a b) AND 0xFF) :: u8) = a" "(ucast (address a b AND 0xFF) :: u8) = b"
proof -
  have m: "(0xFF :: u16) = mask 8" by (simp add: mask_eq_exp_minus_1)
  show "(ucast (drop_bit 8 (address a b) AND 0xFF) :: u8) = a" "(ucast (address a b AND 0xFF) :: u8) = b"
    unfolding m address_def
    by (rule bit_word_eqI; auto simp: bit_simps dest: bit_imp_le_length)+
qed

lemma message_parts:
  "drop_bit 3 (message d1 d2 d3 d4) AND 0x1 = of_bool d4"
  "message d1 d2 d3 d4 AND 0x7 = of_bool d1 + 2 * of_bool d2 + 4 * of_bool d3"
  "(of_bool b OR push_bit 1 (message d1 d2 d3 d4)) = of_bool b + 2 * message d1 d2 d3 d4"
  by (cases d1; cases d2; cases d3; cases d4; cases b; simp add: message_def drop_bit_eq_div push_bit_eq_mult)+

lemma decode_address:
  "decode_hamming_address (address (hamming8_encode m1 m2 m3 y0) (hamming8_encode y1 y2 y3 y4)) =
   (of_bool y0 + 2 * message y1 y2 y3 y4, Some (of_bool m1 + 2 * of_bool m2 + 4 * of_bool m3))"
  unfolding decode_hamming_address_def Let_def address_bytes hamming8_valid message_parts
  by (simp add: decode_code_word code_word_encode)

lemma write_row_eq:
  assumes "0 \<le> X" "X < 8" "0 \<le> P" "P < 100" "0 \<le> Y" "Y < 32" "0 \<le> i" "i + int (length vs) \<le> 40"
  shows "\<exists>s'. write_row s X P Y i vs = Some s' \<and> page_P s' = page_P s \<and>
    (\<forall>a b c d. g_text s' a b c d =
      (if a = X \<and> b = P \<and> c = Y \<and> i \<le> d \<and> d < i + int (length vs) then vs ! nat (d - i) else g_text s a b c d))"
  using assms(7,8)
proof (induction vs arbitrary: i s)
  case Nil
  then show ?case by auto
next
  case (Cons v vs)
  define s1 where "s1 = s\<lparr>g_text := (\<lambda>a b c d. if a = X \<and> b = P \<and> c = Y \<and> d = i then v else g_text s a b c d)\<rparr>"
  have w: "composite_teletext_pages s X P Y i v = Some s1"
    using assms(1-6) Cons.prems by (simp add: composite_teletext_pages_def s1_def)
  from Cons.IH [of "i + 1" s1] Cons.prems obtain s' where s': "write_row s1 X P Y (i + 1) vs = Some s'"
    "page_P s' = page_P s1"
    "\<And>a b c d. g_text s' a b c d = (if a = X \<and> b = P \<and> c = Y \<and> i + 1 \<le> d \<and> d < i + 1 + int (length vs)
       then vs ! nat (d - (i + 1)) else g_text s1 a b c d)"
    by auto
  have sh: "vs ! nat (d - (i + 1)) = (v # vs) ! nat (d - i)" if "i + 1 \<le> d" for d
  proof -
    have "nat (d - i) = Suc (nat (d - (i + 1)))" using that by simp
    then show ?thesis by simp
  qed
  have "g_text s' a b c d = (if a = X \<and> b = P \<and> c = Y \<and> i \<le> d \<and> d < i + int (length (v # vs))
      then (v # vs) ! nat (d - i) else g_text s a b c d)" for a b c d
    unfolding s'(3) using sh [of d] by (auto simp: s1_def)
  then show ?case using w s'(1,2) by (simp add: s1_def)
qed

lemma write_row_bad_page: "\<lbrakk>vs \<noteq> []; \<not> (0 \<le> P \<and> P < 100)\<rbrakk> \<Longrightarrow> write_row s X P Y i vs = None"
  by (cases vs) (auto simp: composite_teletext_pages_def)

section \<open>Properties\<close>

text \<open>
  The Hamming 8/4 decoder returns the message of every code word, and rejects a code word
  with two wrong bits.
\<close>

lemma hamming8_detects:
  assumes "v < 8" "w < 8" "v \<noteq> w"
  shows "HAMMING8_DATA (decode_hamming8_code (hamming8_encode d1 d2 d3 d4)) = message d1 d2 d3 d4 \<and>
    decode_hamming8_code (flip_bit v (flip_bit w (hamming8_encode d1 d2 d3 d4))) = -1"
  by (simp add: hamming8_valid hamming8_double [OF code_word_encode assms])

text \<open>
  A single wrong bit is repaired when it was received as 1; a bit that was received as 0 is
  found but left at 0, because the correction clears the bit instead of inverting it.
\<close>

theorem hamming8_single_error:
  assumes "v < 8"
  shows "decode_hamming8_code (flip_bit v (hamming8_encode d1 d2 d3 d4)) =
    uint (if bit (hamming8_encode d1 d2 d3 d4) v then flip_bit v (hamming8_encode d1 d2 d3 d4)
          else hamming8_encode d1 d2 d3 d4)"
  by (rule hamming8_single [OF code_word_encode assms])

theorem hamming8_single_error_witness:
  "decode_hamming8_code (flip_bit 6 (hamming8_encode True False False True)) =
    uint (if bit (hamming8_encode True False False True) 6 then flip_bit 6 (hamming8_encode True False False True)
          else hamming8_encode True False False True)"
  by (rule hamming8_single_error) simp

text \<open>
  C35. A displayable packet: with an intact address the forty characters go, parity checked and bit
  order reversed, to the row of the current page that the address names, and nothing else of the
  store changes.
\<close>

theorem teletext_row:
  assumes "Y = of_bool y0 + 2 * message y1 y2 y3 y4" "X = of_bool m1 + 2 * of_bool m2 + 4 * of_bool m3"
    and "1 \<le> Y" "Y \<le> 25" "0 \<le> page_P s" "page_P s < 100" "length data = 40"
  shows "\<exists>s'. parse_teletext_data s (address (hamming8_encode m1 m2 m3 y0) (hamming8_encode y1 y2 y3 y4)) data = Some (0, s') \<and>
    page_P s' = page_P s \<and>
    (\<forall>a b c d. g_text s' a b c d =
      (if a = X \<and> b = page_P s \<and> c = Y \<and> 0 \<le> d \<and> d < 40 then word_of_int (decode_odd_parity (data ! nat d))
       else g_text s a b c d))"
proof -
  have X: "0 \<le> X" "X < 8" by (auto simp: assms(2) of_bool_def)
  let ?vs = "map (\<lambda>b. word_of_int (decode_odd_parity b)) data"
  obtain s' where s': "write_row s X (page_P s) Y 0 ?vs = Some s'" "page_P s' = page_P s"
    "\<forall>a b c d. g_text s' a b c d = (if a = X \<and> b = page_P s \<and> c = Y \<and> 0 \<le> d \<and> d < 0 + int (length ?vs)
       then ?vs ! nat (d - 0) else g_text s a b c d)"
    using write_row_eq [of X "page_P s" Y 0 ?vs s] X assms by auto
  have "parse_teletext_data s (address (hamming8_encode m1 m2 m3 y0) (hamming8_encode y1 y2 y3 y4)) data = Some (0, s')"
    unfolding parse_teletext_data_def decode_address prod.case assms(1,2) [symmetric] Option.bind_lunit s'(1)
    using assms(3,4) by simp
  with s'(2,3) assms(7) show ?thesis by (intro exI [of _ s']) (auto simp: nat_less_iff)
qed

theorem teletext_row_witness:
  "\<exists>s'. parse_teletext_data zero_store (address (hamming8_encode True False False True) (hamming8_encode True False False False))
      (replicate 40 0x04) = Some (0, s') \<and> page_P s' = page_P zero_store \<and>
    (\<forall>a b c d. g_text s' a b c d =
      (if a = 1 \<and> b = page_P zero_store \<and> c = 3 \<and> 0 \<le> d \<and> d < 40
       then word_of_int (decode_odd_parity (replicate 40 0x04 ! nat d)) else g_text zero_store a b c d))"
  by (rule teletext_row) (simp_all add: message_def zero_store_def)

text \<open>
  Page numbers are two hexadecimal digits, but the code computes ten times the first plus the
  second and stores 100 pages: a header that asks for erasure of a page from 100 on (the
  time-filling page FF is 165) writes past the store.
\<close>

theorem teletext_page_overflow:
  assumes "fst (decode_hamming_address addr) = 0" "length data = 40"
    and "HAMMING8_DATA (decode_hamming8_code (data ! 0)) = units" "HAMMING8_DATA (decode_hamming8_code (data ! 1)) = tens"
    and "100 \<le> tens * 10 + units"
    and "drop_bit 3 (HAMMING8_DATA (decode_hamming8_code (data ! 3))) AND 0x1 \<noteq> 0"
  shows "parse_teletext_data s addr data = None"
proof -
  obtain X where a: "decode_hamming_address addr = (0, X)"
    using assms(1) by (cases "decode_hamming_address addr") auto
  have r: "rdb data 0 = Some (data ! 0)" "rdb data 1 = Some (data ! 1)" "rdb data 3 = Some (data ! 3)"
    using assms(2) by (auto simp: rdb_def)
  have "erase_rows s' x P 1 28 = None" if "100 \<le> P" for s' x P
  proof -
    have "write_row s' x P 1 0 (replicate 40 0x20) = None"
      using that by (intro write_row_bad_page) auto
    then have "erase_rows s' x P 1 (Suc 27) = None" by (simp only: erase_rows.simps bind.simps)
    then show ?thesis by simp
  qed
  then show ?thesis
    unfolding parse_teletext_data_def a prod.case r Option.bind_lunit Let_def assms(3,4)
    using assms(5,6) by (cases X) auto
qed

theorem teletext_page_overflow_witness:
  "parse_teletext_data zero_store (address (hamming8_encode True False False False) (hamming8_encode False False False False))
     (replicate 40 (hamming8_encode True True True True)) = None"
  by (rule teletext_page_overflow [where units = 15 and tens = 15])
     (simp_all add: decode_address hamming8_valid message_def)

end
