(* ===== verification/Pes.thy ===== *)
theory Pes
  imports Utils Pid_Filter Teletext
begin

unbundle bit_operations_syntax

text \<open>
  PES packets (\<^verbatim>\<open>src/pes.c\<close>, \<^verbatim>\<open>include/pes.h\<close>): the table of registered elementary
  streams, the packet header, and the delivery of the payload to the subtitle and teletext
  decoders.

  The teletext decoder is the one of \<open>Teletext\<close>.  The subtitle decoder is a parameter: a type
  \<open>'sub\<close> for its data, the value \<open>calloc\<close> and \<open>list_head_init\<close> give, and its parser.
\<close>

section \<open>Callbacks\<close>

text \<open>The functions the program installs as filter callbacks.\<close>

datatype filter_cb = Pat_proc | Cat_proc | Tsdt_proc | Pmt_proc | Nit_proc | Eit_proc | Sdt_bat_proc | Tdt_tot_proc
  | Default_proc | Atsc_psip_proc | Pes_proc | Scte_proc

datatype pes_data_callback = Parse_subtitle | Parse_teletext

datatype 'sub priv = Priv_subtitle 'sub | Priv_teletext teletext_pes_data

record 'sub sub_ops =
  so_new :: 'sub
  so_parse :: "alloc_env \<Rightarrow> u16 \<Rightarrow> bytes \<Rightarrow> int \<Rightarrow> 'sub \<Rightarrow> (int \<times> 'sub) option"

section \<open>Data\<close>

record PTS_DTS =
  pd_flag :: u8
  pd_1 :: u8
  pd_2 :: u16
  pd_3 :: u16

record ESCR =
  ESCR_base_1 :: u8
  ESCR_base_2 :: u64
  ESCR_base_3 :: u64
  ESCR_extension :: u64

record PES_extension =
  PES_private_data_flag :: u8
  pack_header_field_flag :: u8
  program_packet_sequence_counter_flag :: u8
  P_STD_buffer_flag :: u8
  PES_extension_flag_2 :: u8
  PES_private_data :: bytes
  pack_head_length :: u8
  ppsc_counter :: u8
  ppsc_MPEG1_MPEG2_identifier :: u8
  ppsc_original_stuff_length :: u8
  PSTD_buffer_scale :: u8
  PSTD_buffer_size :: u16
  PES_extension_field_length :: u8

record non_ps =
  PES_scrambling_control :: u8
  PES_priority :: u8
  data_alignment_indicator :: u8
  copyright :: u8
  original_or_copy :: u8
  PTS_DTS_flags :: u8
  ESCR_flag :: u8
  ES_rate_flag :: u8
  DSM_trick_mode_flag :: u8
  additional_copy_info_flag :: u8
  PES_CRC_flag :: u8
  PES_extension_flag :: u8
  PES_header_data_length :: u8
  pts :: PTS_DTS
  dts :: PTS_DTS
  escr :: ESCR
  ES_rate :: u32
  DSM_trick_mode_control :: u8
  rep_cntrl :: u8
  additional_copy_info :: u8
  previous_PES_packet_CRC :: u16
  extension :: PES_extension

text \<open>
  In C \<open>packet_data\<close> and \<open>PES_packet_data_byte\<close> share their memory.  The pointer is written
  last, over the first bytes of the header, and the header is not read after that.
\<close>

record 'sub pes_t =
  pe_pid :: u16
  pe_type :: u8
  packet_start_code_prefix :: u32
  stream_id :: u8
  PES_packet_length :: u16
  packet_data :: non_ps
  PES_packet_data_byte :: "bytes option"
  pe_tag :: u8
  pe_priv :: "'sub priv option"
  pe_cb :: "pes_data_callback option"

text \<open>\<open>pes_freed\<close>: the list has been freed and the pointer to it is dangling.\<close>

record 'sub mpegts_pes_t =
  pes_pid_num :: nat
  pes_pid_bitmap :: bitmap
  pes_pid_index :: "u16 \<Rightarrow> nat"
  pes_list :: "'sub pes_t list"
  pes_freed :: bool

definition zero_non_ps :: non_ps where
  "zero_non_ps = \<lparr>PES_scrambling_control = 0, PES_priority = 0, data_alignment_indicator = 0, copyright = 0,
     original_or_copy = 0, PTS_DTS_flags = 0, ESCR_flag = 0, ES_rate_flag = 0, DSM_trick_mode_flag = 0,
     additional_copy_info_flag = 0, PES_CRC_flag = 0, PES_extension_flag = 0, PES_header_data_length = 0,
     pts = \<lparr>pd_flag = 0, pd_1 = 0, pd_2 = 0, pd_3 = 0\<rparr>, dts = \<lparr>pd_flag = 0, pd_1 = 0, pd_2 = 0, pd_3 = 0\<rparr>,
     escr = \<lparr>ESCR_base_1 = 0, ESCR_base_2 = 0, ESCR_base_3 = 0, ESCR_extension = 0\<rparr>, ES_rate = 0,
     DSM_trick_mode_control = 0, rep_cntrl = 0, additional_copy_info = 0, previous_PES_packet_CRC = 0,
     extension = \<lparr>PES_private_data_flag = 0, pack_header_field_flag = 0, program_packet_sequence_counter_flag = 0,
       P_STD_buffer_flag = 0, PES_extension_flag_2 = 0, PES_private_data = replicate 16 0, pack_head_length = 0,
       ppsc_counter = 0, ppsc_MPEG1_MPEG2_identifier = 0, ppsc_original_stuff_length = 0, PSTD_buffer_scale = 0,
       PSTD_buffer_size = 0, PES_extension_field_length = 0\<rparr>\<rparr>"

definition static_pes :: "'sub mpegts_pes_t" where
  "static_pes = \<lparr>pes_pid_num = 0, pes_pid_bitmap = replicate 128 0, pes_pid_index = (\<lambda>_. 0), pes_list = [],
     pes_freed = False\<rparr>"

section \<open>The header\<close>

text \<open>
  The reader's state: the offset of \<open>buf\<close> in the packet, the bytes counted in \<open>head_len\<close>, and
  the header.  A part of the header reads at \<open>buf\<close> and moves it on.
\<close>

type_synonym hstate = "nat \<times> int \<times> non_ps"

definition pes_flags :: "bytes \<Rightarrow> hstate \<Rightarrow> hstate option" where
  "pes_flags pkt st = (case st of (b, hl, h) \<Rightarrow> do {
     sc \<leftarrow> TS_READ8_BITS (drop b pkt) 2 2; pr \<leftarrow> TS_READ8_BITS (drop b pkt) 1 4;
     al \<leftarrow> TS_READ8_BITS (drop b pkt) 1 5; co \<leftarrow> TS_READ8_BITS (drop b pkt) 1 6;
     og \<leftarrow> TS_READ8_BITS (drop b pkt) 1 7;
     pf \<leftarrow> TS_READ8_BITS (drop (b + 1) pkt) 2 0; ef \<leftarrow> TS_READ8_BITS (drop (b + 1) pkt) 1 2;
     rf \<leftarrow> TS_READ8_BITS (drop (b + 1) pkt) 1 3; tf \<leftarrow> TS_READ8_BITS (drop (b + 1) pkt) 1 4;
     cf \<leftarrow> TS_READ8_BITS (drop (b + 1) pkt) 1 5; rcf \<leftarrow> TS_READ8_BITS (drop (b + 1) pkt) 1 6;
     xf \<leftarrow> TS_READ8_BITS (drop (b + 1) pkt) 1 7;
     dl \<leftarrow> TS_READ8 (drop (b + 2) pkt);
     Some (b + 3, hl + 3, h\<lparr>PES_scrambling_control := sc, PES_priority := pr, data_alignment_indicator := al,
       copyright := co, original_or_copy := og, PTS_DTS_flags := pf, ESCR_flag := ef, ES_rate_flag := rf,
       DSM_trick_mode_flag := tf, additional_copy_info_flag := cf, PES_CRC_flag := rcf, PES_extension_flag := xf,
       PES_header_data_length := dl\<rparr>) })"

definition read_PTS_DTS :: "bytes \<Rightarrow> nat \<Rightarrow> u8 \<Rightarrow> PTS_DTS option" where
  "read_PTS_DTS pkt b fl = do {
     x1 \<leftarrow> TS_READ8_BITS (drop b pkt) 3 4;
     x2 \<leftarrow> TS_READ16 (drop (b + 1) pkt);
     x3 \<leftarrow> TS_READ16 (drop (b + 3) pkt);
     Some \<lparr>pd_flag = fl, pd_1 = x1, pd_2 = drop_bit 1 x2, pd_3 = drop_bit 1 x3\<rparr> }"

definition pes_pts :: "bytes \<Rightarrow> hstate \<Rightarrow> hstate option" where
  "pes_pts pkt st = (case st of (b, hl, h) \<Rightarrow>
     if PTS_DTS_flags h AND 0x2 = 0x2 then do { v \<leftarrow> read_PTS_DTS pkt b 2; Some (b + 5, hl + 5, h\<lparr>pts := v\<rparr>) }
     else Some st)"

definition pes_dts :: "bytes \<Rightarrow> hstate \<Rightarrow> hstate option" where
  "pes_dts pkt st = (case st of (b, hl, h) \<Rightarrow>
     if PTS_DTS_flags h AND 0x1 = 0x1 then do { v \<leftarrow> read_PTS_DTS pkt b 3; Some (b + 5, hl + 5, h\<lparr>dts := v\<rparr>) }
     else Some st)"

definition pes_escr :: "bytes \<Rightarrow> hstate \<Rightarrow> hstate option" where
  "pes_escr pkt st = (case st of (b, hl, h) \<Rightarrow>
     if ESCR_flag h \<noteq> 0 then do {
       b0 \<leftarrow> rdb pkt b; b1 \<leftarrow> rdb pkt (b + 1); b2 \<leftarrow> rdb pkt (b + 2); b3 \<leftarrow> rdb pkt (b + 3);
       b4 \<leftarrow> rdb pkt (b + 4); b5 \<leftarrow> rdb pkt (b + 5);
       Some (b + 6, hl + 6, h\<lparr>escr := \<lparr>
         ESCR_base_1 = drop_bit 3 b0 AND 0x7,
         ESCR_base_2 = push_bit 13 (ucast (b0 AND 0x3)) OR push_bit 5 (ucast b1) OR ucast (drop_bit 3 b2),
         ESCR_base_3 = push_bit 13 (ucast (b2 AND 0x3)) OR push_bit 5 (ucast b3) OR ucast (drop_bit 3 b4),
         ESCR_extension = push_bit 8 (ucast (b4 AND 0x3)) OR ucast (drop_bit 1 b5)\<rparr>\<rparr>) }
     else Some st)"

definition pes_es_rate :: "bytes \<Rightarrow> hstate \<Rightarrow> hstate option" where
  "pes_es_rate pkt st = (case st of (b, hl, h) \<Rightarrow>
     if ES_rate_flag h \<noteq> 0 then do {
       b0 \<leftarrow> rdb pkt b; b1 \<leftarrow> rdb pkt (b + 1); b2 \<leftarrow> rdb pkt (b + 2);
       Some (b + 3, hl + 3, h\<lparr>ES_rate :=
         (push_bit 15 (ucast b0) OR push_bit 7 (ucast b1) OR ucast (drop_bit 1 b2)) AND 0x3FFFFF\<rparr>) }
     else Some st)"

definition pes_trick_mode :: "bytes \<Rightarrow> hstate \<Rightarrow> hstate option" where
  "pes_trick_mode pkt st = (case st of (b, hl, h) \<Rightarrow>
     if DSM_trick_mode_flag h \<noteq> 0 then do {
       b0 \<leftarrow> rdb pkt b;
       Some (b + 1, hl + 1, h\<lparr>DSM_trick_mode_control := drop_bit 5 b0, rep_cntrl := b0 AND 0x1F\<rparr>) }
     else Some st)"

definition pes_copy_info :: "bytes \<Rightarrow> hstate \<Rightarrow> hstate option" where
  "pes_copy_info pkt st = (case st of (b, hl, h) \<Rightarrow>
     if additional_copy_info_flag h \<noteq> 0 then do {
       c \<leftarrow> TS_READ8_BITS (drop b pkt) 7 1;
       Some (b + 1, hl + 1, h\<lparr>additional_copy_info := c\<rparr>) }
     else Some st)"

definition pes_crc :: "bytes \<Rightarrow> hstate \<Rightarrow> hstate option" where
  "pes_crc pkt st = (case st of (b, hl, h) \<Rightarrow>
     if PES_CRC_flag h \<noteq> 0 then do {
       c \<leftarrow> TS_READ16 (drop b pkt);
       Some (b + 2, hl + 2, h\<lparr>previous_PES_packet_CRC := c\<rparr>) }
     else Some st)"

text \<open>The parts of the extension.  The sequence counter moves \<open>buf\<close> but not \<open>head_len\<close>.\<close>

type_synonym xstate = "nat \<times> int \<times> PES_extension"

definition ext_flags :: "bytes \<Rightarrow> xstate \<Rightarrow> xstate option" where
  "ext_flags pkt st = (case st of (b, hl, x) \<Rightarrow> do {
     b0 \<leftarrow> rdb pkt b;
     Some (b + 1, hl + 1, x\<lparr>PES_private_data_flag := drop_bit 7 b0, pack_header_field_flag := drop_bit 6 b0 AND 0x1,
       program_packet_sequence_counter_flag := drop_bit 5 b0 AND 0x1, P_STD_buffer_flag := drop_bit 4 b0 AND 0x1,
       PES_extension_flag_2 := b0 AND 0x1\<rparr>) })"

definition ext_private :: "bytes \<Rightarrow> xstate \<Rightarrow> xstate option" where
  "ext_private pkt st = (case st of (b, hl, x) \<Rightarrow>
     if PES_private_data_flag x \<noteq> 0 then do {
       d \<leftarrow> memcpy (PES_private_data x) 0 (drop b pkt) 16;
       Some (b + 16, hl + 16, x\<lparr>PES_private_data := d\<rparr>) }
     else Some st)"

definition ext_pack :: "bytes \<Rightarrow> xstate \<Rightarrow> xstate option" where
  "ext_pack pkt st = (case st of (b, hl, x) \<Rightarrow>
     if pack_header_field_flag x \<noteq> 0 then do {
       n \<leftarrow> rdb pkt b;
       Some (b + 1 + unat n, hl + (1 + uint n), x\<lparr>pack_head_length := n\<rparr>) }
     else Some st)"

definition ext_ppsc :: "bytes \<Rightarrow> xstate \<Rightarrow> xstate option" where
  "ext_ppsc pkt st = (case st of (b, hl, x) \<Rightarrow>
     if program_packet_sequence_counter_flag x \<noteq> 0 then do {
       b0 \<leftarrow> rdb pkt b; b1 \<leftarrow> rdb pkt (b + 1);
       Some (b + 2, hl, x\<lparr>ppsc_counter := b0 AND 0x7F, ppsc_MPEG1_MPEG2_identifier := drop_bit 6 b1 AND 0x1,
         ppsc_original_stuff_length := b1 AND 0x3F\<rparr>) }
     else Some st)"

definition ext_pstd :: "bytes \<Rightarrow> xstate \<Rightarrow> xstate option" where
  "ext_pstd pkt st = (case st of (b, hl, x) \<Rightarrow>
     if P_STD_buffer_flag x \<noteq> 0 then do {
       b0 \<leftarrow> rdb pkt b; b1 \<leftarrow> rdb pkt (b + 1);
       Some (b + 2, hl + 2, x\<lparr>PSTD_buffer_scale := drop_bit 5 b0 AND 0x1,
         PSTD_buffer_size := push_bit 8 (ucast (b0 AND 0x1F)) OR ucast b1\<rparr>) }
     else Some st)"

definition ext_field :: "bytes \<Rightarrow> xstate \<Rightarrow> xstate option" where
  "ext_field pkt st = (case st of (b, hl, x) \<Rightarrow>
     if PES_extension_flag_2 x \<noteq> 0 then do {
       b0 \<leftarrow> rdb pkt b;
       let n = b0 AND 0x7F;
       Some (b + 1 + unat n, hl + (1 + uint n), x\<lparr>PES_extension_field_length := n\<rparr>) }
     else Some st)"

definition pes_extension :: "bytes \<Rightarrow> hstate \<Rightarrow> hstate option" where
  "pes_extension pkt st = (case st of (b, hl, h) \<Rightarrow>
     if PES_extension_flag h \<noteq> 0 then do {
       xs \<leftarrow> ext_flags pkt (b, hl, extension h);
       xs \<leftarrow> ext_private pkt xs;
       xs \<leftarrow> ext_pack pkt xs;
       xs \<leftarrow> ext_ppsc pkt xs;
       xs \<leftarrow> ext_pstd pkt xs;
       (b', hl', x') \<leftarrow> ext_field pkt xs;
       Some (b', hl', h\<lparr>extension := x'\<rparr>) }
     else Some st)"

text \<open>
  The whole header.  The stuffing step moves \<open>buf\<close> by \<open>9 + PES_header_data_length - head_len\<close>,
  which may be negative; the result is the offset of the payload, \<open>head_len\<close> and the header.
\<close>

definition parse_pes_header :: "bytes \<Rightarrow> non_ps \<Rightarrow> (int \<times> int \<times> non_ps) option" where
  "parse_pes_header pkt h = do {
     st \<leftarrow> pes_flags pkt (6, 6, h);
     st \<leftarrow> pes_pts pkt st;
     st \<leftarrow> pes_dts pkt st;
     st \<leftarrow> pes_escr pkt st;
     st \<leftarrow> pes_es_rate pkt st;
     st \<leftarrow> pes_trick_mode pkt st;
     st \<leftarrow> pes_copy_info pkt st;
     st \<leftarrow> pes_crc pkt st;
     (b, hl, h) \<leftarrow> pes_extension pkt st;
     let d = 9 + uint (PES_header_data_length h) - hl;
     Some (int b + d, hl + d, h) }"

section \<open>Packets\<close>

definition PES_PACKET_START :: u32 where "PES_PACKET_START = 1"

text \<open>The stream identifiers without a header, and among them the padding stream.\<close>

definition stream_id_padding_stream :: u8 where "stream_id_padding_stream = 0xBE"

definition headerless :: "u8 list" where
  "headerless = [0xBC, 0xBE, 0xBF, 0xF0, 0xF1, 0xFF, 0xF2, 0xF8]"

text \<open>
  The call \<open>pt->cb(pid, PES_packet_data_byte, PES_packet_length, pt->priv)\<close>.  It is undefined
  for a null \<open>priv\<close>.
\<close>

definition run_pes_callback ::
  "alloc_env \<Rightarrow> 'sub sub_ops \<Rightarrow> pes_data_callback \<Rightarrow> u16 \<Rightarrow> bytes \<Rightarrow> int \<Rightarrow> 'sub priv option \<times> teletext_store \<Rightarrow>
   ('sub priv option \<times> teletext_store) option" where
  "run_pes_callback e so cb pid data len st = (case st of (pv, store) \<Rightarrow>
     (case (cb, pv) of
        (Parse_subtitle, Some (Priv_subtitle v)) \<Rightarrow> do {
          (_, v') \<leftarrow> so_parse so e pid data len v; Some (Some (Priv_subtitle v'), store) }
      | (Parse_teletext, Some (Priv_teletext v)) \<Rightarrow> do {
          (_, v', store') \<leftarrow> parse_teletext e data len (v, store); Some (Some (Priv_teletext v'), store') }
      | _ \<Rightarrow> None))"

text \<open>What the packet does to the entry of its stream.\<close>

definition parse_pes_entry ::
  "alloc_env \<Rightarrow> 'sub sub_ops \<Rightarrow> u16 \<Rightarrow> bytes \<Rightarrow> 'sub pes_t \<times> teletext_store \<Rightarrow> (int \<times> 'sub pes_t \<times> teletext_store) option" where
  "parse_pes_entry e so pid pkt st = (case st of (pt, store) \<Rightarrow> do {
     b0 \<leftarrow> rdb pkt 0; b1 \<leftarrow> rdb pkt 1; b2 \<leftarrow> rdb pkt 2;
     let prefix = push_bit 16 (ucast b0) OR push_bit 8 (ucast b1) OR ucast b2;
     let pt = pt\<lparr>packet_start_code_prefix := prefix\<rparr>;
     if prefix \<noteq> PES_PACKET_START then Some (-1, pt, store)
     else do {
       sid \<leftarrow> rdb pkt 3;
       l \<leftarrow> TS_READ16 (drop 4 pkt);
       let pt = pt\<lparr>stream_id := sid, PES_packet_length := l\<rparr>;
       pt \<leftarrow>
         (if sid \<notin> set headerless then do {
            (off, hl, h) \<leftarrow> parse_pes_header pkt (packet_data pt);
            Some (pt\<lparr>packet_data := h, PES_packet_data_byte := Some (drop (nat off) pkt),
                     PES_packet_length := l - word_of_int (hl - 6)\<rparr>) }
          else if sid \<noteq> stream_id_padding_stream then Some (pt\<lparr>PES_packet_data_byte := Some (drop 6 pkt)\<rparr>)
          else Some (pt\<lparr>PES_packet_data_byte := None\<rparr>));
       (pv, store) \<leftarrow>
         (case (pe_cb pt, PES_packet_data_byte pt) of
            (Some cb, Some data) \<Rightarrow> run_pes_callback e so cb pid data (uint (PES_packet_length pt)) (pe_priv pt, store)
          | _ \<Rightarrow> Some (pe_priv pt, store));
       Some (uint (PES_packet_length pt) + 6, pt\<lparr>pe_priv := pv\<rparr>, store) } })"

definition parse_pes_packet ::
  "alloc_env \<Rightarrow> 'sub sub_ops \<Rightarrow> u16 \<Rightarrow> bytes \<Rightarrow> 'sub mpegts_pes_t \<times> teletext_store \<Rightarrow>
   (int \<times> 'sub mpegts_pes_t \<times> teletext_store) option" where
  "parse_pes_packet e so pid pkt st = (case st of (pes, store) \<Rightarrow> do {
     reg \<leftarrow> bitmap64_get (pes_pid_bitmap pes) (unat pid);
     let i = pes_pid_index pes pid;
     if \<not> reg \<or> pes_pid_num pes < i then Some (-1, pes, store)
     else if pes_freed pes \<or> length (pes_list pes) \<le> i then None
     else do {
       (r, pt, store) \<leftarrow> parse_pes_entry e so pid pkt (pes_list pes ! i, store);
       Some (r, pes\<lparr>pes_list := (pes_list pes)[i := pt]\<rparr>, store) } })"

definition pes_proc ::
  "alloc_env \<Rightarrow> 'sub sub_ops \<Rightarrow> u16 \<Rightarrow> bytes \<Rightarrow> 'sub mpegts_pes_t \<times> teletext_store \<Rightarrow>
   (int \<times> 'sub mpegts_pes_t \<times> teletext_store) option" where
  "pes_proc e so pid pkt st = do {
     (r, st') \<leftarrow> parse_pes_packet e so pid pkt st;
     Some (if r < 0 then -1 else 0, st') }"

section \<open>Registration\<close>

definition pes_private_alloc :: "alloc_env \<Rightarrow> 'sub sub_ops \<Rightarrow> u8 \<Rightarrow> 'sub priv option" where
  "pes_private_alloc e so tag =
     (if tag = 0x59 then (if mok e 0 then Some (Priv_subtitle (so_new so)) else None)
      else if tag = 0x56 then
        (if mok e 0 then Some (Priv_teletext \<lparr>tt_data_identifier = 0, tt_n_units = 0, tt_units = None\<rparr>) else None)
      else None)"

definition register_pes_data_callback ::
  "alloc_env \<Rightarrow> 'sub sub_ops \<Rightarrow> u16 \<Rightarrow> u8 \<Rightarrow> pes_data_callback \<Rightarrow> u8 \<Rightarrow> 'sub mpegts_pes_t \<Rightarrow> 'sub mpegts_pes_t option" where
  "register_pes_data_callback e so pid stream_type cb tag pes =
     (if 8192 \<le> unat pid then None
      else let i = pes_pid_index pes pid in
        if pes_pid_num pes \<le> i then Some pes
        else if pes_freed pes \<or> length (pes_list pes) \<le> i then None
        else let pt = pes_list pes ! i in
          if pe_type pt = stream_type \<and> pe_cb pt = None then
            let pt = pt\<lparr>pe_cb := Some cb\<rparr>;
                pt = (if pe_priv pt = None then pt\<lparr>pe_tag := tag, pe_priv := pes_private_alloc e so tag\<rparr> else pt)
            in Some (pes\<lparr>pes_list := (pes_list pes)[i := pt]\<rparr>)
          else Some pes)"

definition pes_filter_para :: filter_param where
  "pes_filter_para = \<lparr>fp_depth = 1, fp_coff = replicate 8 0, fp_mask = replicate 8 0, fp_negate = replicate 8 0\<rparr>"

definition zero_pes :: "u8 \<Rightarrow> u16 \<Rightarrow> 'sub pes_t" where
  "zero_pes stream_type pid = \<lparr>pe_pid = pid, pe_type = stream_type, packet_start_code_prefix = 0, stream_id = 0,
     PES_packet_length = 0, packet_data = zero_non_ps, PES_packet_data_byte = None, pe_tag = 0, pe_priv = None, pe_cb = None\<rparr>"

text \<open>
  \<open>realloc\<close> of a freed list is undefined; when it fails the PID stays marked.  The entry is
  appended: \<open>pes_pid_num\<close> is the length of the list.
\<close>

definition register_pes_ops ::
  "alloc_env \<Rightarrow> u16 \<Rightarrow> u8 \<Rightarrow> 'sub mpegts_pes_t \<times> filter_cb filter_tab \<Rightarrow> ('sub mpegts_pes_t \<times> filter_cb filter_tab) option" where
  "register_pes_ops e pid stream_type st = (case st of (pes, fs) \<Rightarrow> do {
     reg \<leftarrow> bitmap64_get (pes_pid_bitmap pes) (unat pid);
     if reg then Some (pes, fs)
     else do {
       bm \<leftarrow> bitmap64_set (pes_pid_bitmap pes) (unat pid);
       let pes = pes\<lparr>pes_pid_bitmap := bm\<rparr>;
       if pes_freed pes then None
       else if \<not> mok e 0 then Some (pes, fs)
       else do {
         let pes = pes\<lparr>pes_list := pes_list pes @ [zero_pes stream_type pid],
                       pes_pid_index := (pes_pid_index pes)(pid := pes_pid_num pes),
                       pes_pid_num := (pes_pid_num pes + 1) mod 65536\<rparr>;
         (_, fs) \<leftarrow> filter_register (in_node e 1) fs pid pes_filter_para Pes_proc;
         Some (pes, fs) } } })"

fun unregister_loop :: "'sub pes_t list \<Rightarrow> filter_cb filter_tab \<Rightarrow> filter_cb filter_tab option" where
  "unregister_loop [] fs = Some fs"
| "unregister_loop (pt # rest) fs = do {
     f \<leftarrow> filter_lookup fs (pe_pid pt) (Some pes_filter_para);
     (_, fs) \<leftarrow> (case f of None \<Rightarrow> Some (0, fs) | Some p \<Rightarrow> filter_free fs (Some p));
     unregister_loop rest fs }"

definition unregister_pes_ops :: "'sub mpegts_pes_t \<times> filter_cb filter_tab \<Rightarrow> ('sub mpegts_pes_t \<times> filter_cb filter_tab) option" where
  "unregister_pes_ops st = (case st of (pes, fs) \<Rightarrow>
     if pes_freed pes then None
     else do {
       fs \<leftarrow> unregister_loop (take (pes_pid_num pes) (pes_list pes)) fs;
       Some (pes\<lparr>pes_pid_num := 0, pes_list := [], pes_freed := (pes_list pes \<noteq> [])\<rparr>, fs) })"

text \<open>\<open>check_es_pid\<close> asks the same question for every \<open>i\<close> of its loop.\<close>

fun check_es_loop :: "nat \<Rightarrow> bitmap \<Rightarrow> u16 \<Rightarrow> bool option" where
  "check_es_loop 0 bm pid = Some False"
| "check_es_loop (Suc k) bm pid = do {
     b \<leftarrow> bitmap64_get bm (unat pid);
     if b then Some True else check_es_loop k bm pid }"

definition check_es_pid :: "bool \<Rightarrow> 'sub mpegts_pes_t \<Rightarrow> u16 \<Rightarrow> bool option" where
  "check_es_pid detail pes pid =
     (if \<not> detail then Some False else check_es_loop (0x1FFF - 0x20) (pes_pid_bitmap pes) pid)"

section \<open>The header of a packet\<close>

lemma bits_at_1: "k < 8 \<Longrightarrow> bits_at (x :: u8) 1 k = of_bool (bit x (7 - k))"
  by (simp add: bits_at_def and_one_eq bit_iff_odd_drop_bit mod2_eq_if mask_eq_exp_minus_1)

lemma and_2_iff: "(y :: u8) AND 2 = 2 \<longleftrightarrow> bit y 1"
proof
  assume "y AND 2 = 2"
  then have "bit (y AND 2) 1 = bit (2 :: u8) 1" by simp
  then show "bit y 1" by (simp add: bit_and_iff bit_2_iff)
next
  assume "bit y 1"
  then show "y AND 2 = 2" by (intro bit_word_eqI) (auto simp: bit_and_iff bit_2_iff)
qed

lemma bits_2_and:
  "bits_at (x :: u8) 2 0 AND 2 = 2 \<longleftrightarrow> bit x 7" "bits_at (x :: u8) 2 0 AND 1 = 1 \<longleftrightarrow> bit x 6"
proof -
  have "bits_at x 2 0 AND 1 = 1 \<longleftrightarrow> bit (bits_at x 2 0) 0"
    by (simp add: and_one_eq mod2_eq_if bit_0)
  then show "bits_at (x :: u8) 2 0 AND 2 = 2 \<longleftrightarrow> bit x 7" "bits_at (x :: u8) 2 0 AND 1 = 1 \<longleftrightarrow> bit x 6"
    by (simp_all add: and_2_iff bit_bits_at)
qed

text \<open>The bytes the optional fields take, by the flags byte.\<close>

definition fields_size :: "u8 \<Rightarrow> nat" where
  "fields_size f = 5 * of_bool (bit f 7) + 5 * of_bool (bit f 6) + 6 * of_bool (bit f 5) + 3 * of_bool (bit f 4) +
     of_bool (bit f 3) + of_bool (bit f 2) + 2 * of_bool (bit f 1)"

text \<open>A part of the header that has its room reads it, keeps the flags and the data length.\<close>

definition keeps :: "non_ps \<Rightarrow> non_ps \<Rightarrow> bool" where
  "keeps h h' \<longleftrightarrow> PTS_DTS_flags h' = PTS_DTS_flags h \<and> ESCR_flag h' = ESCR_flag h \<and> ES_rate_flag h' = ES_rate_flag h \<and>
     DSM_trick_mode_flag h' = DSM_trick_mode_flag h \<and> additional_copy_info_flag h' = additional_copy_info_flag h \<and>
     PES_CRC_flag h' = PES_CRC_flag h \<and> PES_extension_flag h' = PES_extension_flag h \<and>
     PES_header_data_length h' = PES_header_data_length h \<and> extension h' = extension h"

definition part_ok :: "(bytes \<Rightarrow> hstate \<Rightarrow> hstate option) \<Rightarrow> (non_ps \<Rightarrow> nat) \<Rightarrow> bool" where
  "part_ok f n \<longleftrightarrow> (\<forall>pkt b hl h. b + n h \<le> length pkt \<longrightarrow>
     (\<exists>h'. f pkt (b, hl, h) = Some (b + n h, hl + int (n h), h') \<and> keeps h h'))"

lemma part_pts: "part_ok pes_pts (\<lambda>h. 5 * of_bool (PTS_DTS_flags h AND 2 = 2))"
  and part_dts: "part_ok pes_dts (\<lambda>h. 5 * of_bool (PTS_DTS_flags h AND 1 = 1))"
  and part_escr: "part_ok pes_escr (\<lambda>h. 6 * of_bool (ESCR_flag h \<noteq> 0))"
  and part_rate: "part_ok pes_es_rate (\<lambda>h. 3 * of_bool (ES_rate_flag h \<noteq> 0))"
  and part_trick: "part_ok pes_trick_mode (\<lambda>h. of_bool (DSM_trick_mode_flag h \<noteq> 0))"
  and part_copy: "part_ok pes_copy_info (\<lambda>h. of_bool (additional_copy_info_flag h \<noteq> 0))"
  and part_crc: "part_ok pes_crc (\<lambda>h. 2 * of_bool (PES_CRC_flag h \<noteq> 0))"
  by (auto simp: part_ok_def keeps_def pes_pts_def pes_dts_def pes_escr_def pes_es_rate_def pes_trick_mode_def
      pes_copy_info_def pes_crc_def read_PTS_DTS_def rdb_in TS_READ8_BITS_in TS_READ16_in)

lemma part_okD:
  assumes "part_ok f n" "b + n h \<le> length pkt"
  obtains h' where "f pkt (b, hl, h) = Some (b + n h, hl + int (n h), h')" "keeps h h'"
  using assms unfolding part_ok_def by blast

lemma part_seq:
  assumes f: "part_ok f n" and g: "part_ok g m" and m: "\<And>h h'. keeps h h' \<Longrightarrow> m h' = m h"
  shows "part_ok (\<lambda>pkt st. f pkt st \<bind> g pkt) (\<lambda>h. n h + m h)"
  unfolding part_ok_def
proof (intro allI impI)
  fix pkt b hl h
  assume b: "b + (n h + m h) \<le> length (pkt :: bytes)"
  then have "b + n h \<le> length pkt" by simp
  from part_okD [OF f this, of hl] obtain h1 where h1: "f pkt (b, hl, h) = Some (b + n h, hl + int (n h), h1)" "keeps h h1" .
  have "(b + n h) + m h1 \<le> length pkt" using b m [OF h1(2)] by simp
  from part_okD [OF g this, of "hl + int (n h)"] obtain h2 where
    h2: "g pkt (b + n h, hl + int (n h), h1) = Some (b + n h + m h1, hl + int (n h) + int (m h1), h2)" "keeps h1 h2" .
  show "\<exists>h'. (f pkt (b, hl, h) \<bind> g pkt) = Some (b + (n h + m h), hl + int (n h + m h), h') \<and> keeps h h'"
    using h1 h2 m [OF h1(2)] by (intro exI [of _ h2]) (simp add: keeps_def)
qed

definition pes_fields :: "bytes \<Rightarrow> hstate \<Rightarrow> hstate option" where
  "pes_fields pkt st = pes_pts pkt st \<bind> pes_dts pkt \<bind> pes_escr pkt \<bind> pes_es_rate pkt \<bind>
     pes_trick_mode pkt \<bind> pes_copy_info pkt \<bind> pes_crc pkt"

lemma parse_pes_header_fields:
  "parse_pes_header pkt h = do {
     st \<leftarrow> (pes_flags pkt (6, 6, h) \<bind> pes_fields pkt);
     (b, hl, h) \<leftarrow> pes_extension pkt st;
     let d = 9 + uint (PES_header_data_length h) - hl;
     Some (int b + d, hl + d, h) }"
  by (simp add: parse_pes_header_def pes_fields_def)

lemma part_fields:
  "part_ok pes_fields (\<lambda>h. 5 * of_bool (PTS_DTS_flags h AND 2 = 2) + 5 * of_bool (PTS_DTS_flags h AND 1 = 1) +
     6 * of_bool (ESCR_flag h \<noteq> 0) + 3 * of_bool (ES_rate_flag h \<noteq> 0) + of_bool (DSM_trick_mode_flag h \<noteq> 0) +
     of_bool (additional_copy_info_flag h \<noteq> 0) + 2 * of_bool (PES_CRC_flag h \<noteq> 0))"
  unfolding pes_fields_def
  by (intro part_seq part_pts part_dts part_escr part_rate part_trick part_copy part_crc) (simp_all add: keeps_def)

lemma pes_flags_read:
  assumes "9 \<le> length pkt"
  shows "\<exists>h'. pes_flags pkt (6, 6, h) = Some (9, 9, h') \<and>
    PTS_DTS_flags h' = bits_at (pkt ! 7) 2 0 \<and> ESCR_flag h' = bits_at (pkt ! 7) 1 2 \<and>
    ES_rate_flag h' = bits_at (pkt ! 7) 1 3 \<and> DSM_trick_mode_flag h' = bits_at (pkt ! 7) 1 4 \<and>
    additional_copy_info_flag h' = bits_at (pkt ! 7) 1 5 \<and> PES_CRC_flag h' = bits_at (pkt ! 7) 1 6 \<and>
    PES_extension_flag h' = bits_at (pkt ! 7) 1 7 \<and> PES_header_data_length h' = pkt ! 8 \<and> extension h' = extension h"
  using assms by (simp add: pes_flags_def TS_READ8_BITS_in TS_READ8_def rdb_in)

text \<open>The flags and the optional fields, with room for them.\<close>

lemma pes_fields_read:
  assumes "9 + fields_size (pkt ! 7) \<le> length pkt"
  shows "\<exists>h'. (pes_flags pkt (6, 6, h) \<bind> pes_fields pkt) =
      Some (9 + fields_size (pkt ! 7), 9 + int (fields_size (pkt ! 7)), h') \<and>
    PES_extension_flag h' = of_bool (bit (pkt ! 7) 0) \<and> PES_header_data_length h' = pkt ! 8 \<and> extension h' = extension h"
proof -
  obtain h1 where h1: "pes_flags pkt (6, 6, h) = Some (9, 9, h1)"
    "PTS_DTS_flags h1 = bits_at (pkt ! 7) 2 0" "ESCR_flag h1 = bits_at (pkt ! 7) 1 2"
    "ES_rate_flag h1 = bits_at (pkt ! 7) 1 3" "DSM_trick_mode_flag h1 = bits_at (pkt ! 7) 1 4"
    "additional_copy_info_flag h1 = bits_at (pkt ! 7) 1 5" "PES_CRC_flag h1 = bits_at (pkt ! 7) 1 6"
    "PES_extension_flag h1 = bits_at (pkt ! 7) 1 7" "PES_header_data_length h1 = pkt ! 8" "extension h1 = extension h"
    using pes_flags_read [of pkt h] assms by auto
  have n: "5 * of_bool (PTS_DTS_flags h1 AND 2 = 2) + 5 * of_bool (PTS_DTS_flags h1 AND 1 = 1) +
     6 * of_bool (ESCR_flag h1 \<noteq> 0) + 3 * of_bool (ES_rate_flag h1 \<noteq> 0) + of_bool (DSM_trick_mode_flag h1 \<noteq> 0) +
     of_bool (additional_copy_info_flag h1 \<noteq> 0) + 2 * of_bool (PES_CRC_flag h1 \<noteq> 0) = fields_size (pkt ! 7)"
    unfolding h1(2-7) bits_2_and fields_size_def by (simp add: bits_at_1 del: One_nat_def) simp
  from part_okD [OF part_fields, where b = 9 and hl = 9 and h = h1 and pkt = pkt, unfolded n, OF assms] obtain h2 where
    "pes_fields pkt (9, 9, h1) = Some (9 + fields_size (pkt ! 7), 9 + int (fields_size (pkt ! 7)), h2)" "keeps h1 h2" .
  with h1 show ?thesis
    by (intro exI [of _ h2]) (simp add: keeps_def bits_at_1 del: One_nat_def)
qed

lemma header_no_extension:
  assumes "9 + fields_size (pkt ! 7) \<le> length pkt" "\<not> bit (pkt ! 7) 0"
  shows "\<exists>h'. parse_pes_header pkt h = Some (9 + uint (pkt ! 8), 9 + uint (pkt ! 8), h')"
proof -
  from pes_fields_read [OF assms(1), of h] obtain h' where
    h': "(pes_flags pkt (6, 6, h) \<bind> pes_fields pkt) = Some (9 + fields_size (pkt ! 7), 9 + int (fields_size (pkt ! 7)), h')"
    "PES_extension_flag h' = 0" "PES_header_data_length h' = pkt ! 8"
    using assms(2) by auto
  then show ?thesis
    by (simp add: parse_pes_header_fields pes_extension_def)
qed

text \<open>Only the sequence counter in the extension.\<close>

lemma header_ppsc:
  assumes "12 + fields_size (pkt ! 7) \<le> length pkt" "bit (pkt ! 7) 0" "pkt ! (9 + fields_size (pkt ! 7)) = 0x20"
  shows "\<exists>h'. parse_pes_header pkt h = Some (11 + uint (pkt ! 8), 9 + uint (pkt ! 8), h')"
proof -
  let ?n = "fields_size (pkt ! 7)"
  from pes_fields_read [of pkt h] assms obtain h' where
    h': "(pes_flags pkt (6, 6, h) \<bind> pes_fields pkt) = Some (9 + ?n, 9 + int ?n, h')"
    "PES_extension_flag h' \<noteq> 0" "PES_header_data_length h' = pkt ! 8"
    by auto
  have r: "rdb pkt (9 + ?n) = Some 0x20" "rdb pkt (10 + ?n) = Some (pkt ! (10 + ?n))"
    "rdb pkt (11 + ?n) = Some (pkt ! (11 + ?n))"
    using assms by (simp_all add: rdb_def)
  have "\<exists>x. pes_extension pkt (9 + ?n, 9 + int ?n, h') = Some (12 + ?n, 10 + int ?n, h'\<lparr>extension := x\<rparr>)"
    using h'(2)
    unfolding pes_extension_def prod.case ext_flags_def r Option.bind_lunit
    by (simp add: ext_private_def ext_pack_def ext_ppsc_def ext_pstd_def ext_field_def r(2,3) del: rdb_Some_iff) (rule exI, rule refl)
  then show ?thesis
    using h' by (auto simp: parse_pes_header_fields)
qed

section \<open>The table of streams\<close>

text \<open>
  The bitmap, the index and the list agree: a PID is marked exactly when its index leads to its
  own entry, and there is one entry for each.
\<close>

definition pes_inv :: "'sub mpegts_pes_t \<Rightarrow> bool" where
  "pes_inv pes \<longleftrightarrow> length (pes_pid_bitmap pes) = 128 \<and> \<not> pes_freed pes \<and> pes_pid_num pes = length (pes_list pes) \<and>
     length (pes_list pes) = card (bitmap_abs (pes_pid_bitmap pes)) \<and>
     (\<forall>pid. unat pid \<in> bitmap_abs (pes_pid_bitmap pes) \<longrightarrow>
        pes_pid_index pes pid < length (pes_list pes) \<and> pe_pid (pes_list pes ! pes_pid_index pes pid) = pid)"

lemma bitmap_abs_bound: "length bm = 128 \<Longrightarrow> bitmap_abs bm \<subseteq> {..<8192}"
  by (auto simp: bitmap_abs_def)

lemma pes_inv_bound: "pes_inv pes \<Longrightarrow> length (pes_list pes) \<le> 8192"
  using card_mono [OF _ bitmap_abs_bound, of "pes_pid_bitmap pes"] by (auto simp: pes_inv_def)

lemma pes_inv_static: "pes_inv static_pes"
  by (simp add: pes_inv_def static_pes_def)

lemma pes_filter_para_wf: "param_wf pes_filter_para"
  by (simp add: param_wf_def pes_filter_para_def filter_consts)

lemma filter_register_law:
  assumes "tab_ok fs" "unat pid < 8192" "param_wf p" "length (live (fs pid)) < NUM_FILTER_MAX"
  shows "\<exists>r fs'. filter_register (always_ok j) fs pid p cb = Some (r, fs') \<and> tab_ok fs' \<and>
    (\<forall>q. live (fs' q) = (if q = pid then live (fs q) @ [stored_filter pid p cb] else live (fs q)))"
proof -
  obtain fs' where fs': "tab_add j fs pid (p, cb) = Some fs'" "tab_ok fs'"
    "(\<lambda>q. live (fs' q)) = (\<lambda>q. live (fs q))(pid := live (fs pid) @ [stored_filter pid p cb])"
    using reg.add_law [of fs pid "(p, cb)" j] assms by (auto simp: filter_consts)
  have "live (fs' q) = (if q = pid then live (fs q) @ [stored_filter pid p cb] else live (fs q))" for q
    using fun_cong [OF fs'(3), of q] by auto
  with fs' show ?thesis by (auto simp: tab_add_def)
qed

lemma pes_inv_append:
  assumes inv: "pes_inv pes" and pid: "unat pid \<notin> bitmap_abs (pes_pid_bitmap pes)"
    and bm: "length bm = 128" "bitmap_abs bm = insert (unat pid) (bitmap_abs (pes_pid_bitmap pes))"
  shows "pes_inv (pes\<lparr>pes_pid_bitmap := bm, pes_list := pes_list pes @ [zero_pes ty pid],
    pes_pid_index := (pes_pid_index pes)(pid := pes_pid_num pes), pes_pid_num := (pes_pid_num pes + 1) mod 65536\<rparr>)"
proof -
  have fin: "finite (bitmap_abs (pes_pid_bitmap pes))"
    using inv bitmap_abs_bound [of "pes_pid_bitmap pes"] by (auto simp: pes_inv_def intro: finite_subset)
  have "length (pes_list pes) \<le> 8192" by (rule pes_inv_bound [OF inv])
  then show ?thesis
    using inv pid bm fin by (auto simp: pes_inv_def nth_append zero_pes_def dest: unsigned_word_eqI)
qed

lemma register_pes_ops_law:
  assumes inv: "pes_inv pes" and ok: "tab_ok fs" and pid: "unat pid < 8192"
    and room: "length (live (fs pid)) < NUM_FILTER_MAX"
  shows "\<exists>pes' fs'. register_pes_ops (always_ok j) pid ty (pes, fs) = Some (pes', fs') \<and> pes_inv pes' \<and> tab_ok fs' \<and>
    (if unat pid \<in> bitmap_abs (pes_pid_bitmap pes) then pes' = pes \<and> fs' = fs
     else pes_list pes' = pes_list pes @ [zero_pes ty pid] \<and>
       bitmap_abs (pes_pid_bitmap pes') = insert (unat pid) (bitmap_abs (pes_pid_bitmap pes)) \<and>
       (\<forall>q. live (fs' q) = (if q = pid then live (fs q) @ [stored_filter pid pes_filter_para Pes_proc] else live (fs q))))"
proof -
  have len: "length (pes_pid_bitmap pes) = 128" and nf: "\<not> pes_freed pes"
    using inv by (auto simp: pes_inv_def)
  have get: "bitmap64_get (pes_pid_bitmap pes) (unat pid) = Some (unat pid \<in> bitmap_abs (pes_pid_bitmap pes))"
    by (rule pid_bm.get_abs [OF len pid])
  show ?thesis
  proof (cases "unat pid \<in> bitmap_abs (pes_pid_bitmap pes)")
    case True
    then show ?thesis using get inv ok by (simp add: register_pes_ops_def)
  next
    case False
    obtain bm where bm: "bitmap64_set (pes_pid_bitmap pes) (unat pid) = Some bm" "length bm = 128"
      "bitmap_abs bm = insert (unat pid) (bitmap_abs (pes_pid_bitmap pes))"
      using pid_bm.set_abs [OF len pid] by auto
    obtain r fs' where fs': "filter_register (always_ok j) fs pid pes_filter_para Pes_proc = Some (r, fs')" "tab_ok fs'"
      "\<forall>q. live (fs' q) = (if q = pid then live (fs q) @ [stored_filter pid pes_filter_para Pes_proc] else live (fs q))"
      using filter_register_law [OF ok pid pes_filter_para_wf room] by blast
    let ?pes = "pes\<lparr>pes_pid_bitmap := bm, pes_list := pes_list pes @ [zero_pes ty pid],
      pes_pid_index := (pes_pid_index pes)(pid := pes_pid_num pes), pes_pid_num := (pes_pid_num pes + 1) mod 65536\<rparr>"
    have "register_pes_ops (always_ok j) pid ty (pes, fs) = Some (?pes, fs')"
      using False get bm(1) nf fs'(1) by (simp add: register_pes_ops_def)
    then show ?thesis
      using pes_inv_append [OF inv False bm(2,3)] fs'(2,3) bm(3) False
      by (intro exI [of _ ?pes] exI [of _ fs']) (simp add: fun_upd_def)
  qed
qed

section \<open>Properties\<close>

text \<open>
  C33. A PES packet with a well-formed header (no extension): the payload starts after the
  \<open>PES_header_data_length\<close> bytes, whichever optional fields there are, and the length handed on
  is the packet length less the header.
\<close>

theorem pes_payload:
  assumes pre: "pkt ! 0 = 0" "pkt ! 1 = 0" "pkt ! 2 = 1" "pkt ! 3 \<notin> set headerless"
    and hd: "\<not> bit (pkt ! 7) 0" "fields_size (pkt ! 7) \<le> unat (pkt ! 8)" "9 + unat (pkt ! 8) \<le> length pkt"
    and l: "TS_READ16 (drop 4 pkt) = Some l"
    and cb: "pe_cb pt = None"
  shows "\<exists>pt'. parse_pes_entry e so pid pkt (pt, store) = Some (uint (l - (3 + ucast (pkt ! 8))) + 6, pt', store) \<and>
    stream_id pt' = pkt ! 3 \<and> PES_packet_data_byte pt' = Some (drop (9 + unat (pkt ! 8)) pkt) \<and>
    PES_packet_length pt' = l - (3 + ucast (pkt ! 8))"
proof -
  have r: "rdb pkt 0 = Some 0" "rdb pkt 1 = Some 0" "rdb pkt 2 = Some 1" "rdb pkt 3 = Some (pkt ! 3)"
    using pre hd(3) by (auto simp: rdb_def)
  obtain h where h: "parse_pes_header pkt (packet_data pt) = Some (9 + uint (pkt ! 8), 9 + uint (pkt ! 8), h)"
    using header_no_extension [of pkt "packet_data pt"] hd by auto
  have w: "(word_of_int (9 + uint (pkt ! 8) - 6) :: u16) = 3 + ucast (pkt ! 8)"
    by (simp add: unsigned_ucast_eq)
  have n: "nat (9 + uint (pkt ! 8)) = 9 + unat (pkt ! 8)" by (simp add: nat_add_distrib)
  show ?thesis
    unfolding parse_pes_entry_def prod.case r Option.bind_lunit l Let_def
    using pre(4) cb by (simp add: PES_PACKET_START_def h n w)
qed

theorem pes_payload_witness:
  "\<exists>pt'. parse_pes_entry (always_ok (\<lambda>_. 0)) \<lparr>so_new = (), so_parse = (\<lambda>_ _ _ _ v. Some (0, v))\<rparr> 0x100
      [0, 0, 1, 0xE0, 0, 10, 0x80, 0x80, 6, 0x21, 0, 1, 0, 1, 0xFF, 0xAA] (zero_pes 2 0x100, zero_store) =
      Some (uint (10 - (3 + ucast ([0, 0, 1, 0xE0, 0, 10, 0x80, 0x80, 6, 0x21, 0, 1, 0, 1, 0xFF, 0xAA] ! 8 :: u8)) :: u16) + 6, pt', zero_store) \<and>
    stream_id pt' = [0, 0, 1, 0xE0, 0, 10, 0x80, 0x80, 6, 0x21, 0, 1, 0, 1, 0xFF, 0xAA] ! 3 \<and>
    PES_packet_data_byte pt' = Some (drop (9 + unat ([0, 0, 1, 0xE0, 0, 10, 0x80, 0x80, 6, 0x21, 0, 1, 0, 1, 0xFF, 0xAA] ! 8 :: u8))
      [0, 0, 1, 0xE0, 0, 10, 0x80, 0x80, 6, 0x21, 0, 1, 0, 1, 0xFF, 0xAA]) \<and>
    PES_packet_length pt' = 10 - (3 + ucast ([0, 0, 1, 0xE0, 0, 10, 0x80, 0x80, 6, 0x21, 0, 1, 0, 1, 0xFF, 0xAA] ! 8 :: u8))"
  by (rule pes_payload) (simp_all add: headerless_def fields_size_def TS_READ16_def zero_pes_def)

text \<open>
  With the program packet sequence counter in the extension the payload handed on starts two
  bytes too late: the counter moves the pointer but is not counted in the header length.
\<close>

lemma pes_ppsc_payload_shift:
  assumes "12 + fields_size (pkt ! 7) \<le> length pkt" "bit (pkt ! 7) 0" "pkt ! (9 + fields_size (pkt ! 7)) = 0x20"
  shows "\<exists>h'. parse_pes_header pkt h = Some (9 + uint (pkt ! 8) + 2, 9 + uint (pkt ! 8), h')"
  using header_ppsc [OF assms, of h] by (simp add: ac_simps)

text \<open>A 33-bit time stamp on the wire: 3, 15 and 15 bits, each with a marker bit below it.\<close>

definition enc_time :: "nat \<Rightarrow> nat \<Rightarrow> bytes" where
  "enc_time fl v = of_nat (fl * 16 + v div 2 ^ 30 * 2 + 1) # be16 (v div 2 ^ 15 mod 2 ^ 15 * 2 + 1) @ be16 (v mod 2 ^ 15 * 2 + 1)"

definition time_value :: "PTS_DTS \<Rightarrow> nat" where
  "time_value t = unat (pd_1 t) * 2 ^ 30 + unat (pd_2 t) * 2 ^ 15 + unat (pd_3 t)"

text \<open>
  A presentation or decoding time stamp is read back: from its five bytes on the wire the code
  gets the three parts of the 33-bit value.
\<close>

theorem time_stamp_roundtrip:
  assumes "v < 2 ^ 33" "fl < 16"
  shows "\<exists>t. read_PTS_DTS (enc_time fl v @ rest) 0 f = Some t \<and> pd_flag t = f \<and> time_value t = v"
proof -
  let ?a = "v div 2 ^ 15 mod 2 ^ 15 * 2 + 1" and ?b = "v mod 2 ^ 15 * 2 + 1" and ?c = "fl * 16 + v div 2 ^ 30 * 2 + 1"
  have lt: "?a < 65536" "?b < 65536" "v div 2 ^ 30 < 8"
    using assms by (simp_all add: less_mult_imp_div_less)
  have c: "unat (of_nat ?c :: u8) = ?c" "?c < 256"
    using lt(3) assms(2) by (simp_all only: unsigned_of_nat) (simp_all add: take_bit_nat_eq_self)
  have r: "TS_READ16 (drop 1 (enc_time fl v @ rest)) = Some (of_nat ?a)" "TS_READ16 (drop 3 (enc_time fl v @ rest)) = Some (of_nat ?b)"
    using READ16_be16 [OF lt(1)] READ16_be16 [OF lt(2)] by (simp_all add: enc_time_def)
  have r0: "TS_READ8_BITS (drop 0 (enc_time fl v @ rest)) 3 4 = Some (bits_at (of_nat ?c) 3 4)"
    by (simp add: enc_time_def TS_READ8_BITS_in)
  have "unat (bits_at (of_nat ?c :: u8) 3 4) = ?c div 2 mod 8"
    using c unfolding bits_at_def take_bit_eq_mask [symmetric] unsigned_take_bit_eq unsigned_drop_bit_eq
    by (simp add: drop_bit_eq_div take_bit_eq_mod)
  also have "\<dots> = v div 2 ^ 30" using lt(3) by simp
  finally have p1: "unat (bits_at (of_nat ?c :: u8) 3 4) = v div 2 ^ 30" .
  have half: "unat (drop_bit 1 (of_nat (n * 2 + 1) :: u16)) = n" if "n * 2 + 1 < 65536" for n
  proof -
    have u: "unat (of_nat (n * 2 + 1) :: u16) = n * 2 + 1"
      using that by (simp only: unsigned_of_nat) (simp add: take_bit_nat_eq_self)
    then show ?thesis
      using that unfolding unsigned_drop_bit_eq u by (simp add: drop_bit_eq_div take_bit_nat_eq_self)
  qed
  have "v = v div 2 ^ 30 * 2 ^ 30 + v div 2 ^ 15 mod 2 ^ 15 * 2 ^ 15 + v mod 2 ^ 15"
    using mod_mult2_eq [of v "2 ^ 15" "2 ^ 15"] div_mult_mod_eq [of v "2 ^ 30"] by simp
  then show ?thesis
    unfolding read_PTS_DTS_def add_0 r0 r Option.bind_lunit
    using p1 half [OF lt(1)] half [OF lt(2)] by (simp add: time_value_def)
qed

theorem time_stamp_roundtrip_witness:
  "\<exists>t. read_PTS_DTS (enc_time 2 8589934591 @ []) 0 2 = Some t \<and> pd_flag t = 2 \<and> time_value t = 8589934591"
  by (rule time_stamp_roundtrip) simp_all

text \<open>
  The search of \<open>check_es_pid\<close> through the PIDs comes down to one bit: with details asked for, a
  PID counts as elementary stream exactly when it has been registered.
\<close>

lemma check_es_pid_registered:
  assumes "length (pes_pid_bitmap pes) = 128" "unat pid < 8192"
  shows "check_es_pid detail pes pid = Some (detail \<and> unat pid \<in> bitmap_abs (pes_pid_bitmap pes))"
proof -
  have "check_es_loop (Suc k) (pes_pid_bitmap pes) pid = Some (unat pid \<in> bitmap_abs (pes_pid_bitmap pes))" for k
    using pid_bm.get_abs [OF assms] by (induction k) auto
  from this [of "0x1FFF - 0x20 - 1"] show ?thesis
    by (simp add: check_es_pid_def)
qed

end
