(* ===== verification/Scte.thy ===== *)
theory Scte
  imports Utils
begin

unbundle bit_operations_syntax

text \<open>
  SCTE 35 splice information (\<^verbatim>\<open>src/scte.c\<close>, \<^verbatim>\<open>include/scte/scte.h\<close>): the splice
  commands, the splice descriptors and the section that carries them.  The registration of a
  PID, which calls back into the tables, is in \<open>Table\<close>.

  The parsers move \<open>pdata\<close> and count \<open>len\<close> together; the model keeps the offset of \<open>pdata\<close>
  and returns it as the 16-bit \<open>len\<close> at the end.
\<close>

section \<open>Data\<close>

record splice_time =
  time_specified_flag :: u8
  pts_time_h :: u8
  pts_time :: u32

record event_component =
  component_tag :: u8
  ec_utc_splice_time :: u32
  ec_time :: splice_time

record break_duration =
  auto_return :: u8
  duration_h :: u8
  bd_duration :: u32

text \<open>
  In C \<open>utc_splice_time\<close> (of a schedule) and \<open>time\<close> (of an insertion) share their memory; a
  parser writes one of them only.  A null \<open>components\<close> is \<open>None\<close>.
\<close>

record splice_event =
  splice_event_id :: u32
  splice_event_cancel_indicator :: u8
  out_of_network_indicator :: u8
  program_splice_flag :: u8
  duration_flag :: u8
  splice_immediate_flag :: u8
  utc_splice_time :: u32
  evt_time :: splice_time
  component_count :: u8
  components :: "event_component list option"
  duration :: break_duration
  unique_program_id :: u16
  avail_num :: u8
  avails_expected :: u8

record splice_schedule =
  splice_count :: u8
  splices :: "splice_event list option"

datatype command = Cmd_none | Cmd_schedule splice_schedule | Cmd_event splice_event | Cmd_time splice_time

record splice_descriptor =
  sd_tag :: u8
  sd_length :: u8
  sd_data :: bytes

record scte_t =
  sc_pid :: u16
  sc_table_id :: u8
  sc_section_syntax_indicator :: u8
  sc_private_indicator :: u8
  sc_sap_type :: u8
  sc_section_length :: u16
  sc_protocol_version :: u8
  sc_encrypted_packet :: u8
  sc_encryption_algorithm :: u8
  sc_pts_adjustment_h :: u8
  sc_pts_adjustment :: u32
  sc_cw_index :: u8
  sc_tier :: u32
  sc_splice_command_length :: u32
  sc_splice_command_type :: u32
  sc_command :: command
  sc_descriptor_loop_length :: u16
  sc_list :: "splice_descriptor list"

definition zero_time :: splice_time where
  "zero_time = \<lparr>time_specified_flag = 0, pts_time_h = 0, pts_time = 0\<rparr>"

definition zero_component :: event_component where
  "zero_component = \<lparr>component_tag = 0, ec_utc_splice_time = 0, ec_time = zero_time\<rparr>"

definition zero_event :: splice_event where
  "zero_event = \<lparr>splice_event_id = 0, splice_event_cancel_indicator = 0, out_of_network_indicator = 0,
     program_splice_flag = 0, duration_flag = 0, splice_immediate_flag = 0, utc_splice_time = 0, evt_time = zero_time,
     component_count = 0, components = None, duration = \<lparr>auto_return = 0, duration_h = 0, bd_duration = 0\<rparr>,
     unique_program_id = 0, avail_num = 0, avails_expected = 0\<rparr>"

section \<open>Commands\<close>

definition parse_splice_time :: "bytes \<Rightarrow> splice_time \<Rightarrow> (nat \<times> splice_time) option" where
  "parse_splice_time pbuf t = do {
     f \<leftarrow> TS_READ8_BITS pbuf 1 0;
     h \<leftarrow> TS_READ8_BITS pbuf 1 7;
     let t = t\<lparr>time_specified_flag := f, pts_time_h := h\<rparr>;
     if f = 1 then do { v \<leftarrow> TS_READ32 (drop 1 pbuf); Some (5, t\<lparr>pts_time := v\<rparr>) }
     else Some (1, t) }"

text \<open>The parts that a scheduled and an inserted event share.\<close>

definition parse_duration :: "bytes \<Rightarrow> nat \<Rightarrow> splice_event \<Rightarrow> (nat \<times> splice_event) option" where
  "parse_duration pbuf off evt = do {
     a \<leftarrow> TS_READ8_BITS (drop off pbuf) 1 0;
     h \<leftarrow> TS_READ8_BITS (drop off pbuf) 1 7;
     v \<leftarrow> TS_READ32 (drop (off + 1) pbuf);
     Some (off + 5, evt\<lparr>duration := \<lparr>auto_return = a, duration_h = h, bd_duration = v\<rparr>\<rparr>) }"

definition parse_program :: "bytes \<Rightarrow> nat \<Rightarrow> splice_event \<Rightarrow> (nat \<times> splice_event) option" where
  "parse_program pbuf off evt = do {
     u \<leftarrow> TS_READ16 (drop off pbuf);
     a \<leftarrow> TS_READ8 (drop (off + 2) pbuf);
     x \<leftarrow> TS_READ8 (drop (off + 3) pbuf);
     Some (off + 4, evt\<lparr>unique_program_id := u, avail_num := a, avails_expected := x\<rparr>) }"

fun schedule_components :: "bytes \<Rightarrow> nat \<Rightarrow> nat \<Rightarrow> (nat \<times> event_component list) option" where
  "schedule_components pbuf off 0 = Some (off, [])"
| "schedule_components pbuf off (Suc k) = do {
     tag \<leftarrow> TS_READ8 (drop off pbuf);
     utc \<leftarrow> TS_READ32 (drop (off + 1) pbuf);
     (off', cs) \<leftarrow> schedule_components pbuf (off + 5) k;
     Some (off', zero_component\<lparr>component_tag := tag, ec_utc_splice_time := utc\<rparr> # cs) }"

text \<open>
  One event of a schedule: \<open>Inl\<close> when the allocation of its components fails, and the function
  returns.
\<close>

definition schedule_event :: "alloc_env \<Rightarrow> nat \<Rightarrow> bytes \<Rightarrow> nat \<Rightarrow> (splice_event + nat \<times> splice_event) option" where
  "schedule_event e i pbuf off = do {
     ident \<leftarrow> TS_READ32 (drop off pbuf);
     c \<leftarrow> TS_READ8_BITS (drop (off + 4) pbuf) 1 0;
     let evt = zero_event\<lparr>splice_event_id := ident, splice_event_cancel_indicator := c\<rparr>;
     if c \<noteq> 0 then Some (Inr (off + 5, evt))
     else do {
       n \<leftarrow> TS_READ8_BITS (drop (off + 5) pbuf) 1 0;
       p \<leftarrow> TS_READ8_BITS (drop (off + 5) pbuf) 1 1;
       d \<leftarrow> TS_READ8_BITS (drop (off + 5) pbuf) 1 2;
       let evt = evt\<lparr>out_of_network_indicator := n, program_splice_flag := p, duration_flag := d\<rparr>;
       r \<leftarrow>
         (if p = 1 then do {
            utc \<leftarrow> TS_READ32 (drop (off + 6) pbuf);
            Some (Inr (off + 10, evt\<lparr>utc_splice_time := utc\<rparr>)) }
          else do {
            k \<leftarrow> TS_READ8 (drop (off + 6) pbuf);
            let evt = evt\<lparr>component_count := k\<rparr>;
            if \<not> mok e (Suc i) then Some (Inl evt)
            else do {
              (off, cs) \<leftarrow> schedule_components pbuf (off + 7) (unat k);
              Some (Inr (off, evt\<lparr>components := Some cs\<rparr>)) } });
       (case r of Inl evt \<Rightarrow> Some (Inl evt)
        | Inr (off, evt) \<Rightarrow> do {
            (off, evt) \<leftarrow> (if d \<noteq> 0 then parse_duration pbuf off evt else Some (off, evt));
            (off, evt) \<leftarrow> parse_program pbuf off evt;
            Some (Inr (off, evt)) }) } }"

fun schedule_loop :: "alloc_env \<Rightarrow> nat \<Rightarrow> bytes \<Rightarrow> nat \<Rightarrow> nat \<Rightarrow> splice_event list \<Rightarrow> (int \<times> splice_event list) option" where
  "schedule_loop e i pbuf off 0 acc = Some (uint (of_nat off :: u16), acc)"
| "schedule_loop e i pbuf off (Suc k) acc = do {
     r \<leftarrow> schedule_event e i pbuf off;
     (case r of Inl evt \<Rightarrow> Some (ENOMEM, acc @ evt # replicate k zero_event)
      | Inr (off, evt) \<Rightarrow> schedule_loop e (Suc i) pbuf off k (acc @ [evt])) }"

definition parse_splice_schedule :: "alloc_env \<Rightarrow> bytes \<Rightarrow> (int \<times> splice_schedule) option" where
  "parse_splice_schedule e pbuf = do {
     n \<leftarrow> TS_READ8 pbuf;
     if \<not> mok e 0 then Some (ENOMEM, \<lparr>splice_count = n, splices = None\<rparr>)
     else do {
       (r, es) \<leftarrow> schedule_loop e 0 pbuf 1 (unat n) [];
       Some (r, \<lparr>splice_count = n, splices = Some es\<rparr>) } }"

fun insert_components :: "u8 \<Rightarrow> bytes \<Rightarrow> nat \<Rightarrow> nat \<Rightarrow> (nat \<times> event_component list) option" where
  "insert_components imm pbuf off 0 = Some (off, [])"
| "insert_components imm pbuf off (Suc k) = do {
     tag \<leftarrow> TS_READ8 (drop off pbuf);
     (n, t) \<leftarrow> (if imm = 0 then parse_splice_time (drop (off + 1) pbuf) zero_time else Some (0, zero_time));
     (off', cs) \<leftarrow> insert_components imm pbuf (off + 1 + n) k;
     Some (off', zero_component\<lparr>component_tag := tag, ec_time := t\<rparr> # cs) }"

definition parse_splice_insert :: "alloc_env \<Rightarrow> bytes \<Rightarrow> splice_event \<Rightarrow> (int \<times> splice_event) option" where
  "parse_splice_insert e pbuf evt = do {
     ident \<leftarrow> TS_READ32 pbuf;
     c \<leftarrow> TS_READ8_BITS (drop 4 pbuf) 1 0;
     let evt = evt\<lparr>splice_event_id := ident, splice_event_cancel_indicator := c\<rparr>;
     if c \<noteq> 0 then Some (5, evt)
     else do {
       n \<leftarrow> TS_READ8_BITS (drop 5 pbuf) 1 0;
       p \<leftarrow> TS_READ8_BITS (drop 5 pbuf) 1 1;
       d \<leftarrow> TS_READ8_BITS (drop 5 pbuf) 1 2;
       imm \<leftarrow> TS_READ8_BITS (drop 5 pbuf) 1 3;
       let evt = evt\<lparr>out_of_network_indicator := n, program_splice_flag := p, duration_flag := d, splice_immediate_flag := imm\<rparr>;
       (off, evt) \<leftarrow>
         (if p = 1 \<and> imm = 0 then do {
            (k, t) \<leftarrow> parse_splice_time (drop 6 pbuf) (evt_time evt); Some (6 + k, evt\<lparr>evt_time := t\<rparr>) }
          else Some (6, evt));
       r \<leftarrow>
         (if p = 0 then do {
            k \<leftarrow> TS_READ8 (drop off pbuf);
            let evt = evt\<lparr>component_count := k\<rparr>;
            if \<not> mok e 0 then Some (Inl (evt\<lparr>components := None\<rparr>))
            else do {
              (off, cs) \<leftarrow> insert_components imm pbuf (off + 1) (unat k);
              Some (Inr (off, evt\<lparr>components := Some cs\<rparr>)) } }
          else Some (Inr (off, evt)));
       (case r of Inl evt \<Rightarrow> Some (ENOMEM, evt)
        | Inr (off, evt) \<Rightarrow> do {
            (off, evt) \<leftarrow> (if d = 1 then parse_duration pbuf off evt else Some (off, evt));
            (off, evt) \<leftarrow> parse_program pbuf off evt;
            Some (uint (of_nat off :: u16), evt) }) } }"

definition parse_splice_private :: "bytes \<Rightarrow> int option" where
  "parse_splice_private pbuf = do { _ \<leftarrow> TS_READ32 pbuf; Some 4 }"

section \<open>Descriptors\<close>

text \<open>
  \<open>parse_splice_descriptors\<close>: the pointer moves by \<open>2 + 4 + length\<close>, the remaining length by
  \<open>length - 6\<close>.
\<close>

function splice_desc_loop :: "alloc_env \<Rightarrow> bytes \<Rightarrow> int \<Rightarrow> nat \<Rightarrow> (int \<times> splice_descriptor list) option" where
  "splice_desc_loop e ptr l i =
     (if l \<le> 0 then Some (0, [])
      else do {
        tag \<leftarrow> rdb ptr 0;
        n \<leftarrow> rdb ptr 1;
        if \<not> mok e i then Some (ENOMEM, [])
        else do {
          d \<leftarrow> memcpy (replicate (unat n) 0) 0 (drop 6 ptr) (uint n - 4);
          (r, ds) \<leftarrow> splice_desc_loop e (drop (6 + unat n) ptr) (l - (uint n - 6)) (Suc i);
          Some (r, \<lparr>sd_tag = tag, sd_length = n, sd_data = d\<rparr> # ds) } })"
  by pat_completeness auto
termination
  by (relation "measure (\<lambda>(e, p, l, i). length p)") auto

declare splice_desc_loop.simps [simp del]

definition parse_splice_descriptors :: "alloc_env \<Rightarrow> bytes \<Rightarrow> int \<Rightarrow> (int \<times> splice_descriptor list) option" where
  "parse_splice_descriptors e buf len = splice_desc_loop e buf len 0"

section \<open>Sections\<close>

text \<open>
  The command: \<open>schedule\<close>, \<open>evt\<close> and \<open>t\<close> share their memory, so a command of one kind starts
  from what a command of another kind has left; only the fields a command sets are read for it.
\<close>

definition parse_command :: "alloc_env \<Rightarrow> u32 \<Rightarrow> bytes \<Rightarrow> command \<Rightarrow> (int \<times> command) option" where
  "parse_command e ty pdata c =
     (if ty = 4 then map_option (apsnd Cmd_schedule) (parse_splice_schedule e pdata)
      else if ty = 5 then
        map_option (apsnd Cmd_event) (parse_splice_insert e pdata (case c of Cmd_event v \<Rightarrow> v | _ \<Rightarrow> zero_event))
      else if ty = 6 then
        map_option (map_prod int Cmd_time) (parse_splice_time pdata (case c of Cmd_time t \<Rightarrow> t | _ \<Rightarrow> zero_time))
      else if ty = 0xff then map_option (\<lambda>r. (r, c)) (parse_splice_private pdata)
      else Some (0, c))"

definition parse_splice_info :: "alloc_env \<Rightarrow> bytes \<Rightarrow> scte_t \<Rightarrow> (int \<times> scte_t) option" where
  "parse_splice_info e pbuf sp = do {
     tid \<leftarrow> TS_READ8 pbuf;
     ssi \<leftarrow> TS_READ8_BITS (drop 1 pbuf) 1 0;
     pi \<leftarrow> TS_READ8_BITS (drop 1 pbuf) 1 1;
     sap \<leftarrow> TS_READ8_BITS (drop 1 pbuf) 2 2;
     w \<leftarrow> TS_READ16 (drop 1 pbuf);
     let section_len = w AND 0x0FFF;
     let sp = sp\<lparr>sc_table_id := tid, sc_section_syntax_indicator := ssi, sc_private_indicator := pi, sc_sap_type := sap\<rparr>;
     if ssi = 1 \<and> section_len > 0x3FD then Some (-1, sp)
     else if ssi = 0 \<and> section_len > 0xFFD then Some (-1, sp)
     else do {
       ver \<leftarrow> TS_READ8 (drop 3 pbuf);
       enc \<leftarrow> TS_READ8_BITS (drop 4 pbuf) 1 0;
       alg \<leftarrow> TS_READ8_BITS (drop 4 pbuf) 6 1;
       ph \<leftarrow> TS_READ8_BITS (drop 4 pbuf) 1 7;
       pa \<leftarrow> TS_READ32 (drop 5 pbuf);
       cw \<leftarrow> TS_READ8 (drop 9 pbuf);
       tier \<leftarrow> TS_READ32_BITS (drop 10 pbuf) 12 0;
       cl \<leftarrow> TS_READ32_BITS (drop 10 pbuf) 12 12;
       ct \<leftarrow> TS_READ32_BITS (drop 10 pbuf) 8 24;
       (ret, c) \<leftarrow> parse_command (in_node e 0) ct (drop 14 pbuf) (sc_command sp);
       let off = (if cl \<noteq> 0xFFF then 14 + unat cl else 14 + nat ret);
       dl \<leftarrow> TS_READ16 (drop off pbuf);
       (_, ds) \<leftarrow> parse_splice_descriptors (in_node e 1) (drop (off + 2) pbuf) (uint dl);
       Some (0, sp\<lparr>sc_section_length := section_len, sc_protocol_version := ver, sc_encrypted_packet := enc,
         sc_encryption_algorithm := alg, sc_pts_adjustment_h := ph, sc_pts_adjustment := pa, sc_cw_index := cw,
         sc_tier := tier, sc_splice_command_length := cl, sc_splice_command_type := ct, sc_command := c,
         sc_descriptor_loop_length := dl, sc_list := ds\<rparr>) } }"

section \<open>Properties\<close>

text \<open>A splice descriptor on the wire: tag, length, identifier, and the bytes after it.\<close>

definition enc_splice :: "u8 \<Rightarrow> bytes \<Rightarrow> bytes \<Rightarrow> bytes" where
  "enc_splice tag ident body = tag # of_nat (4 + length body) # ident @ body"

lemma unat_splice_length: "length body < 252 \<Longrightarrow> unat (of_nat (4 + length body) :: u8) = 4 + length body"
  by (simp only: unsigned_of_nat) (simp add: take_bit_nat_eq_self)

text \<open>
  The loop over splice descriptors loses its place after one: it stores the body of a
  well-formed descriptor, but then goes on four bytes behind its end and, when the descriptor was
  the last one, with a remaining length of 8, so that it reads past the loop.
\<close>

theorem splice_descriptors_overrun:
  assumes "length ident = 4" "length body < 252"
  shows "splice_desc_loop (always_ok j) (enc_splice tag ident body @ rest) (int (length (enc_splice tag ident body))) i =
    map_option (\<lambda>(r, ds). (r, \<lparr>sd_tag = tag, sd_length = of_nat (4 + length body), sd_data = body @ replicate 4 0\<rparr> # ds))
      (splice_desc_loop (always_ok j) (drop 4 rest) 8 (Suc i))"
proof -
  let ?p = "enc_splice tag ident body @ rest" and ?n = "of_nat (4 + length body) :: u8"
  have n: "unat ?n = 4 + length body" "uint ?n = 4 + int (length body)"
    using unat_splice_length [OF assms(2)] unfolding uint_nat by simp_all
  have r: "rdb ?p 0 = Some tag" "rdb ?p 1 = Some ?n"
    by (simp_all add: enc_splice_def)
  have d: "drop 6 ?p = body @ rest" "drop (6 + (4 + length body)) ?p = drop 4 rest"
    using assms(1) by (simp_all add: enc_splice_def drop_Cons')
  have m: "memcpy (replicate (4 + length body) 0) 0 (body @ rest) (4 + int (length body) - 4) = Some (body @ replicate 4 0)"
    by (simp add: memcpy_def)
  have l: "int (length (enc_splice tag ident body)) = 6 + int (length body)"
    using assms(1) by (simp add: enc_splice_def)
  show ?thesis
    by (subst splice_desc_loop.simps, unfold r Option.bind_lunit n d m l)
       (simp add: map_option_case split: Option.bind_splits option.splits)
qed

theorem splice_descriptors_overrun_witness:
  "splice_desc_loop (always_ok (\<lambda>_. 0)) (enc_splice 0 [0x43, 0x55, 0x45, 0x49] [0, 0, 0, 9] @ [1, 2, 3, 4])
      (int (length (enc_splice 0 [0x43, 0x55, 0x45, 0x49] [0, 0, 0, 9]))) 0 =
    map_option (\<lambda>(r, ds). (r, \<lparr>sd_tag = 0, sd_length = of_nat (4 + length ([0, 0, 0, 9] :: bytes)),
        sd_data = [0, 0, 0, 9] @ replicate 4 0\<rparr> # ds))
      (splice_desc_loop (always_ok (\<lambda>_. 0)) (drop 4 [1, 2, 3, 4]) 8 (Suc 0))"
  by (rule splice_descriptors_overrun) simp_all

end
