(* ===== verification/Table.thy ===== *)
theory Table
  imports Dvb_Si Pes Scte Section
begin

unbundle bit_operations_syntax

text \<open>
  The PSI tables (\<^verbatim>\<open>src/table.c\<close>): PAT, CAT, TSDT and PMT, the callbacks that the filters
  run, and the registration of filters.  Here the components meet: a PAT registers filters for
  its PMTs, a PMT registers the sections, the splice information and the elementary streams it
  names, and \<open>invoke\<close> is what a filter of the whole program does.
\<close>

section \<open>State\<close>

record program_node =
  pn_program_number :: u16
  pn_program_map_PID :: u16

record pat_t =
  pat_header :: table_header
  program_bitmap :: bitmap
  pat_h :: "program_node list"

record cat_t =
  cat_header :: table_header
  cat_list :: "descriptor list"

record es_node =
  es_stream_type :: u8
  es_elementary_PID :: u16
  es_ES_info_length :: u16
  es_list :: "descriptor list"

record pmt_t =
  pmt_header :: table_header
  pmt_program_number :: u16
  pmt_PCR_PID :: u16
  pmt_program_info_length :: u16
  pmt_list :: "descriptor list"
  pmt_h :: "es_node list"

record tsdt_t =
  tsdt_header :: table_header
  tsdt_list :: "descriptor list"

record stats_t =
  pat_sections :: u64
  cat_sections :: u64
  tsdt_sections :: u64
  nit_actual_sections :: u64
  nit_other_sections :: u64
  sdt_actual_sections :: u64
  sdt_other_sections :: u64
  eit_actual_sections :: u64
  eit_other_sections :: u64
  bat_sections :: u64
  tdt_sections :: u64
  tot_sections :: u64

text \<open>
  \<open>psi.pat\<close> and \<open>psi.cat\<close> point to the last node of \<open>pat_list\<close> and \<open>cat_list\<close> (they are set
  where the node is appended), and are null when the list is empty.
\<close>

record mpeg_psi_t =
  psi_pat_list :: "pat_t list"
  psi_cat_list :: "cat_t list"
  psi_tsdt :: tsdt_t
  psi_ca_num :: nat
  psi_pmt_bitmap :: bitmap
  psi_pmt :: "u16 \<Rightarrow> pmt_t"
  psi_section_bitmap :: bitmap
  psi_nit_actual :: nit_t
  psi_nit_other :: nit_t
  psi_sdt_actual :: sdt_t
  psi_sdt_other :: sdt_t
  psi_bat :: bat_t
  psi_eit_actual :: eit_t
  psi_eit_other :: eit_t
  psi_tdt :: tdt_t
  psi_tot :: tot_t
  psi_stats :: stats_t

record mpegts_scte_t =
  scte_pid_num :: nat
  scte_pid_bitmap :: bitmap
  scte_list :: "scte_t list"
  scte_sections :: u64

text \<open>The static variables that the callbacks share; \<open>'at\<close> is the state of \<^verbatim>\<open>src/atsc_psip.c\<close>.\<close>

record ('sub, 'at) world =
  wd_filters :: "filter_cb filter_tab"
  wd_psi :: mpeg_psi_t
  wd_pes :: "'sub mpegts_pes_t"
  wd_txt :: teletext_store
  wd_scte :: mpegts_scte_t
  wd_atsc :: 'at

text \<open>
  What the callbacks get from outside: the table of descriptor parsers, the subtitle decoder, the
  ATSC callback.
\<close>

record ('sub, 'at) handlers =
  hd_des_ops :: "u8 \<Rightarrow> desc_ops"
  hd_sub :: "'sub sub_ops"
  hd_atsc :: "alloc_env \<Rightarrow> u16 \<Rightarrow> bytes \<Rightarrow> u16 \<Rightarrow> 'at \<Rightarrow> 'at option"

definition zero_pat :: pat_t where
  "zero_pat = \<lparr>pat_header = zero_header, program_bitmap = replicate 1024 0, pat_h = []\<rparr>"

definition zero_pmt :: pmt_t where
  "zero_pmt = \<lparr>pmt_header = zero_header, pmt_program_number = 0, pmt_PCR_PID = 0, pmt_program_info_length = 0,
     pmt_list = [], pmt_h = []\<rparr>"

definition psi_table_init :: mpeg_psi_t where
  "psi_table_init = \<lparr>psi_pat_list = [], psi_cat_list = [], psi_tsdt = \<lparr>tsdt_header = zero_header, tsdt_list = []\<rparr>,
     psi_ca_num = 0, psi_pmt_bitmap = replicate 128 0, psi_pmt = (\<lambda>_. zero_pmt), psi_section_bitmap = replicate 128 0,
     psi_nit_actual = zero_nit, psi_nit_other = zero_nit,
     psi_sdt_actual = zero_sdt\<lparr>sdt_header := zero_header\<lparr>th_version := 0x1F\<rparr>\<rparr>, psi_sdt_other = zero_sdt,
     psi_bat = zero_bat, psi_eit_actual = zero_eit, psi_eit_other = zero_eit, psi_tdt = zero_tdt, psi_tot = zero_tot,
     psi_stats = \<lparr>pat_sections = 0, cat_sections = 0, tsdt_sections = 0, nit_actual_sections = 0,
       nit_other_sections = 0, sdt_actual_sections = 0, sdt_other_sections = 0, eit_actual_sections = 0,
       eit_other_sections = 0, bat_sections = 0, tdt_sections = 0, tot_sections = 0\<rparr>\<rparr>"

section \<open>Constants\<close>

definition PAT_PID :: u16 where "PAT_PID = 0x0000"
definition CAT_PID :: u16 where "CAT_PID = 0x0001"
definition TSDT_PID :: u16 where "TSDT_PID = 0x0002"
definition NIT_PID :: u16 where "NIT_PID = 0x0010"
definition SDT_PID :: u16 where "SDT_PID = 0x0011"
definition BAT_PID :: u16 where "BAT_PID = 0x0011"
definition EIT_PID :: u16 where "EIT_PID = 0x0012"
definition TDT_PID :: u16 where "TDT_PID = 0x0014"
definition TOT_PID :: u16 where "TOT_PID = 0x0014"
definition MGT_PID :: u16 where "MGT_PID = 0x1FFB"

definition PAT_TID :: u8 where "PAT_TID = 0x00"
definition CAT_TID :: u8 where "CAT_TID = 0x01"
definition PMT_TID :: u8 where "PMT_TID = 0x02"
definition TSDT_TID :: u8 where "TSDT_TID = 0x03"
definition NIT_ACTUAL_TID :: u8 where "NIT_ACTUAL_TID = 0x40"
definition NIT_OTHER_TID :: u8 where "NIT_OTHER_TID = 0x41"
definition SDT_ACTUAL_TID :: u8 where "SDT_ACTUAL_TID = 0x42"
definition SDT_OTHER_TID :: u8 where "SDT_OTHER_TID = 0x46"
definition BAT_TID :: u8 where "BAT_TID = 0x4A"
definition EIT_ACTUAL_TID :: u8 where "EIT_ACTUAL_TID = 0x4E"
definition EIT_OTHER_TID :: u8 where "EIT_OTHER_TID = 0x4F"
definition SCTE_SPLICE_TID :: u8 where "SCTE_SPLICE_TID = 0xFC"

definition SCTE_MAX_PID_NUM :: nat where "SCTE_MAX_PID_NUM = 8"

section \<open>Registration\<close>

definition table_para :: "u8 \<Rightarrow> u8 \<Rightarrow> filter_param" where
  "table_para tableid msk = \<lparr>fp_depth = 1, fp_coff = tableid # replicate 7 0, fp_mask = msk # replicate 7 0,
     fp_negate = replicate 8 0\<rparr>"

definition init_table_filter ::
  "alloc_env \<Rightarrow> u16 \<Rightarrow> u8 \<Rightarrow> u8 \<Rightarrow> filter_cb \<Rightarrow> filter_cb filter_tab \<Rightarrow> filter_cb filter_tab option" where
  "init_table_filter e pid tableid msk func fs = map_option snd (filter_register e fs pid (table_para tableid msk) func)"

definition uninit_table_filter :: "u16 \<Rightarrow> u8 \<Rightarrow> u8 \<Rightarrow> filter_cb filter_tab \<Rightarrow> filter_cb filter_tab option" where
  "uninit_table_filter pid tableid msk fs = do {
     f \<leftarrow> filter_lookup fs pid (Some (table_para tableid msk));
     (case f of None \<Rightarrow> Some fs | Some p \<Rightarrow> map_option snd (filter_free fs (Some p))) }"

definition register_pmt_ops :: "alloc_env \<Rightarrow> u16 \<Rightarrow> ('sub, 'at) world \<Rightarrow> ('sub, 'at) world option" where
  "register_pmt_ops e pid w =
     (if pid = NIT_PID then Some w
      else do {
        bm \<leftarrow> bitmap64_set (psi_pmt_bitmap (wd_psi w)) (unat pid);
        fs \<leftarrow> init_table_filter e pid PMT_TID 0xFF Pmt_proc (wd_filters w);
        Some (w\<lparr>wd_psi := (wd_psi w)\<lparr>psi_pmt_bitmap := bm\<rparr>, wd_filters := fs\<rparr>) })"

definition unregister_pmt_ops :: "u16 \<Rightarrow> ('sub, 'at) world \<Rightarrow> ('sub, 'at) world option" where
  "unregister_pmt_ops pid w = do {
     bm \<leftarrow> bitmap64_clear (psi_pmt_bitmap (wd_psi w)) (unat pid);
     fs \<leftarrow> uninit_table_filter pid PMT_TID 0xFF (wd_filters w);
     Some (w\<lparr>wd_psi := (wd_psi w)\<lparr>psi_pmt_bitmap := bm\<rparr>, wd_filters := fs\<rparr>) }"

definition check_pmt_pid :: "u16 \<Rightarrow> mpeg_psi_t \<Rightarrow> bool option" where
  "check_pmt_pid pid psi = bitmap64_get (psi_pmt_bitmap psi) (unat pid)"

definition register_section_ops ::
  "alloc_env \<Rightarrow> u16 \<Rightarrow> u8 \<Rightarrow> filter_cb option \<Rightarrow> ('sub, 'at) world \<Rightarrow> ('sub, 'at) world option" where
  "register_section_ops e pid tableid callback w =
     (if pid = NIT_PID then Some w
      else do {
        b \<leftarrow> bitmap64_get (psi_section_bitmap (wd_psi w)) (unat pid);
        if b then Some w
        else do {
          bm \<leftarrow> bitmap64_set (psi_section_bitmap (wd_psi w)) (unat pid);
          fs \<leftarrow> init_table_filter e pid tableid 0xFF (case callback of Some cb \<Rightarrow> cb | None \<Rightarrow> Default_proc) (wd_filters w);
          Some (w\<lparr>wd_psi := (wd_psi w)\<lparr>psi_section_bitmap := bm\<rparr>, wd_filters := fs\<rparr>) } })"

definition unregister_section_ops :: "u16 \<Rightarrow> ('sub, 'at) world \<Rightarrow> ('sub, 'at) world option" where
  "unregister_section_ops pid w = do {
     bm \<leftarrow> bitmap64_clear (psi_section_bitmap (wd_psi w)) (unat pid);
     fs \<leftarrow> uninit_table_filter pid 0 0 (wd_filters w);
     Some (w\<lparr>wd_psi := (wd_psi w)\<lparr>psi_section_bitmap := bm\<rparr>, wd_filters := fs\<rparr>) }"

definition check_section_pid :: "u16 \<Rightarrow> mpeg_psi_t \<Rightarrow> bool option" where
  "check_section_pid pid psi = bitmap64_get (psi_section_bitmap psi) (unat pid)"

definition register_scte_ops :: "alloc_env \<Rightarrow> u16 \<Rightarrow> ('sub, 'at) world \<Rightarrow> ('sub, 'at) world option" where
  "register_scte_ops e pid w = (let sc = wd_scte w in
     if SCTE_MAX_PID_NUM \<le> scte_pid_num sc then Some w
     else do {
       b \<leftarrow> bitmap64_get (scte_pid_bitmap sc) (unat pid);
       if b then Some w
       else do {
         bm \<leftarrow> bitmap64_set (scte_pid_bitmap sc) (unat pid);
         let i = scte_pid_num sc;
         if length (scte_list sc) \<le> i then None
         else register_section_ops e pid SCTE_SPLICE_TID (Some Scte_proc)
           (w\<lparr>wd_scte := sc\<lparr>scte_pid_bitmap := bm, scte_pid_num := Suc i,
              scte_list := (scte_list sc)[i := (scte_list sc ! i)\<lparr>sc_pid := pid, sc_list := []\<rparr>]\<rparr>\<rparr>) } })"

section \<open>Tables\<close>

text \<open>
  The programs of a PAT, counted down with an unsigned 16-bit length.  \<open>i\<close> counts the programs
  registered so far.
\<close>

function pat_loop ::
  "alloc_env \<Rightarrow> u16 \<Rightarrow> bytes \<Rightarrow> nat \<Rightarrow> pat_t \<times> ('sub, 'at) world \<Rightarrow> (int \<times> pat_t \<times> ('sub, 'at) world) option" where
  "pat_loop e section_len pdata i st = (case st of (pat, w) \<Rightarrow>
     if section_len = 0 then Some (0, pat, w)
     else do {
       program_num \<leftarrow> TS_READ16 pdata;
       x \<leftarrow> TS_READ16 (drop 2 pdata);
       let program_map_PID = x AND 0x1FFF;
       if program_num = 0xFFFF then Some (0, pat, w)
       else do {
         b \<leftarrow> bitmap64_get (program_bitmap pat) (unat program_num);
         if b then
           pat_loop e (section_len - 4) (drop 4 pdata) (Suc i)
             (pat\<lparr>pat_h := map (\<lambda>pn. if pn_program_number pn = program_num then pn\<lparr>pn_program_map_PID := program_map_PID\<rparr> else pn) (pat_h pat)\<rparr>, w)
         else do {
           w \<leftarrow> register_pmt_ops (in_node e i) program_map_PID w;
           if \<not> mok e i then Some (ENOMEM, pat, w)
           else do {
             bm \<leftarrow> bitmap64_set (program_bitmap pat) (unat program_num);
             pat_loop e (section_len - 4) (drop 4 pdata) (Suc i)
               (pat\<lparr>program_bitmap := bm,
                    pat_h := pat_h pat @ [\<lparr>pn_program_number = program_num, pn_program_map_PID = program_map_PID\<rparr>]\<rparr>, w) } } } })"
  by pat_completeness auto
termination
  by (relation "measure (\<lambda>(e, l, p, i, st). length p)") (auto dest: TS_READ16_pos)

declare pat_loop.simps [simp del]

text \<open>A null or freed pointer has no bytes: only reading through it is undefined.\<close>

definition blk_ptr :: "blk \<Rightarrow> bytes" where
  "blk_ptr b = (case b of Blk p \<Rightarrow> p | _ \<Rightarrow> [])"

text \<open>
  The table for the section: the current one, a new one for a new version, or none.  A null
  pointer (no table yet, and the version check asks for no new one) makes
  \<open>parse_section_header\<close> return \<open>NULL_PTR\<close>: the header is the first member of the structure.
\<close>

definition parse_pat :: "alloc_env \<Rightarrow> bytes \<Rightarrow> u16 \<Rightarrow> ('sub, 'at) world \<Rightarrow> (int \<times> ('sub, 'at) world) option" where
  "parse_pat e pbuf buf_size w = do {
     let psi = wd_psi w;
     let cur_version = (if psi_pat_list psi = [] then 0x1F else th_version (pat_header (last (psi_pat_list psi))));
     ret \<leftarrow> check_section_header_version pbuf cur_version;
     if ret = 1 \<and> \<not> mok e 0 then Some (ENOMEM, w)
     else if ret \<noteq> 1 \<and> ret \<noteq> 0 then Some (ret, w)
     else do {
       let pats = (if ret = 1 then psi_pat_list psi @ [zero_pat\<lparr>pat_header := zero_header\<lparr>th_version := 0x1F\<rparr>\<rparr>]
                   else psi_pat_list psi);
       if pats = [] then Some (NULL_PTR, w)
       else do {
         let pat = last pats;
         (ret, h) \<leftarrow> parse_section_header (in_node e 1) pbuf buf_size (pat_header pat);
         let pat = pat\<lparr>pat_header := h\<rparr>;
         if ret \<noteq> 0 then Some (ret, w\<lparr>wd_psi := psi\<lparr>psi_pat_list := butlast pats @ [pat]\<rparr>\<rparr>)
         else do {
           let pdata = blk_ptr (th_data h);
           (r, pat, w) \<leftarrow> pat_loop (in_node e 2) (th_section_length h - (5 + 4)) pdata 0 (pat, w);
           Some (r, w\<lparr>wd_psi := (wd_psi w)\<lparr>psi_pat_list := butlast pats @ [pat]\<rparr>\<rparr>) } } } }"

definition parse_cat :: "alloc_env \<Rightarrow> (u8 \<Rightarrow> desc_ops) \<Rightarrow> bytes \<Rightarrow> u16 \<Rightarrow> mpeg_psi_t \<Rightarrow> (int \<times> mpeg_psi_t) option" where
  "parse_cat e des_ops pbuf buf_size psi = do {
     let cur_version = (if psi_cat_list psi = [] then 0x1F else th_version (cat_header (last (psi_cat_list psi))));
     ret \<leftarrow> check_section_header_version pbuf cur_version;
     if ret = 1 \<and> \<not> mok e 0 then Some (ENOMEM, psi)
     else if ret \<noteq> 1 \<and> ret \<noteq> 0 then Some (ret, psi)
     else do {
       let cats = (if ret = 1 then psi_cat_list psi @ [\<lparr>cat_header = zero_header\<lparr>th_version := 0x1F\<rparr>, cat_list = []\<rparr>]
                   else psi_cat_list psi);
       if cats = [] then Some (NULL_PTR, psi)
       else do {
         let cat = last cats;
         (ret, h) \<leftarrow> parse_section_header (in_node e 1) pbuf buf_size (cat_header cat);
         let cat = cat\<lparr>cat_header := h\<rparr>;
         if ret \<noteq> 0 then Some (ret, psi\<lparr>psi_cat_list := butlast cats @ [cat]\<rparr>)
         else do {
           let pdata = blk_ptr (th_data h);
           ds \<leftarrow> parse_descriptors (in_node e 2) des_ops pdata (uint (th_section_length h - (5 + 4)));
           Some (0, psi\<lparr>psi_cat_list := butlast cats @ [cat\<lparr>cat_list := ds\<rparr>]\<rparr>) } } } }"

definition parse_tsdt :: "alloc_env \<Rightarrow> (u8 \<Rightarrow> desc_ops) \<Rightarrow> bytes \<Rightarrow> u16 \<Rightarrow> tsdt_t \<Rightarrow> (int \<times> tsdt_t) option" where
  "parse_tsdt e des_ops pbuf buf_size tsdt = do {
     (ret, h) \<leftarrow> parse_section_header (in_node e 0) pbuf buf_size (tsdt_header tsdt);
     let tsdt = tsdt\<lparr>tsdt_header := h\<rparr>;
     if ret \<noteq> 0 then Some (ret, tsdt)
     else do {
       let pdata = blk_ptr (th_data h);
       ds \<leftarrow> parse_descriptors (in_node e 1) des_ops pdata (uint (th_section_length h - (5 + 4)));
       Some (0, tsdt\<lparr>tsdt_list := ds\<rparr>) } }"

text \<open>What the PMT does for one elementary stream, by its stream type and descriptors.\<close>

definition register_es ::
  "alloc_env \<Rightarrow> 'sub sub_ops \<Rightarrow> u8 \<Rightarrow> u16 \<Rightarrow> descriptor list \<Rightarrow> ('sub, 'at) world \<Rightarrow> ('sub, 'at) world option" where
  "register_es e so stream_type pid ds w =
     (if stream_type = 0x05 then register_section_ops e pid 0 None w
      else if 0x08 \<le> stream_type \<and> stream_type \<le> 0x0D then register_section_ops e pid 0 None w
      else if stream_type = 0x86 then register_scte_ops e pid w
      else do {
        (pes, fs) \<leftarrow> register_pes_ops (in_node e 0) pid stream_type (wd_pes w, wd_filters w);
        pes \<leftarrow>
          (if has_descritpor_tag ds 0x59 then register_pes_data_callback (in_node e 1) so pid stream_type Parse_subtitle 0x59 pes
           else if has_descritpor_tag ds 0x56 then register_pes_data_callback (in_node e 1) so pid stream_type Parse_teletext 0x56 pes
           else Some pes);
        Some (w\<lparr>wd_pes := pes, wd_filters := fs\<rparr>) })"

function es_loop ::
  "alloc_env \<Rightarrow> (u8 \<Rightarrow> desc_ops) \<Rightarrow> 'sub sub_ops \<Rightarrow> ('sub, 'at) world \<Rightarrow> int \<Rightarrow> bytes \<Rightarrow> nat \<Rightarrow>
   (int \<times> es_node list \<times> ('sub, 'at) world) option" where
  "es_loop e des_ops so w section_len pdata i =
     (if section_len \<le> 0 then Some (0, [], w)
      else if \<not> mok e i then Some (ENOMEM, [], w)
      else do {
        ty \<leftarrow> TS_READ8 pdata;
        x \<leftarrow> TS_READ16 (drop 1 pdata);
        let pid = x AND 0x1FFF;
        y \<leftarrow> TS_READ16 (drop 3 pdata);
        let n = y AND 0x0FFF;
        ds \<leftarrow> parse_descriptors (in_node (in_node e i) 0) des_ops (drop 5 pdata) (uint n);
        w \<leftarrow> register_es (in_node (in_node e i) 1) so ty pid ds w;
        (r, ns, w) \<leftarrow> es_loop e des_ops so w (i16 (section_len - (5 + uint n))) (drop (5 + unat n) pdata) (Suc i);
        Some (r, \<lparr>es_stream_type = ty, es_elementary_PID = pid, es_ES_info_length = n, es_list = ds\<rparr> # ns, w) })"
  by pat_completeness auto
termination
  by (relation "measure (\<lambda>(e, ops, so, w, l, p, i). length p)") (auto dest: TS_READ16_pos)

declare es_loop.simps [simp del]

definition parse_pmt ::
  "alloc_env \<Rightarrow> ('sub, 'at) handlers \<Rightarrow> u16 \<Rightarrow> bytes \<Rightarrow> u16 \<Rightarrow> ('sub, 'at) world \<Rightarrow> (int \<times> ('sub, 'at) world) option" where
  "parse_pmt e hs pid pbuf buf_size w =
     (if 8192 \<le> unat pid then None else do {
       let pmt = psi_pmt (wd_psi w) pid;
       (ret, h) \<leftarrow> parse_section_header (in_node e 0) pbuf buf_size (pmt_header pmt);
       let pmt = pmt\<lparr>pmt_header := h\<rparr>;
       if ret \<noteq> 0 then Some (ret, w\<lparr>wd_psi := (wd_psi w)\<lparr>psi_pmt := (psi_pmt (wd_psi w))(pid := pmt)\<rparr>\<rparr>)
       else do {
         let section_len = i16 (uint (th_section_length h) - (5 + 4));
         pdata \<leftarrow> blk_bytes (th_data h);
         x \<leftarrow> TS_READ16 pdata;
         y \<leftarrow> TS_READ16 (drop 2 pdata);
         let n = y AND 0x0FFF;
         ds \<leftarrow> parse_descriptors (in_node e 1) (hd_des_ops hs) (drop 4 pdata) (uint n);
         (r, ns, w) \<leftarrow> es_loop (in_node e 2) (hd_des_ops hs) (hd_sub hs) w (i16 (i16 (section_len - 2) - (2 + uint n)))
           (drop (4 + unat n) pdata) 0;
         let pmt = pmt\<lparr>pmt_program_number := th_table_id_ext h, pmt_PCR_PID := x AND 0x1FFF,
                       pmt_program_info_length := n, pmt_list := ds, pmt_h := ns\<rparr>;
         Some (r, w\<lparr>wd_psi := (wd_psi w)\<lparr>psi_pmt := (psi_pmt (wd_psi w))(pid := pmt)\<rparr>\<rparr>) } })"

section \<open>Callbacks\<close>

abbreviation upd_psi :: "(mpeg_psi_t \<Rightarrow> mpeg_psi_t) \<Rightarrow> ('sub, 'at) world \<Rightarrow> ('sub, 'at) world" where
  "upd_psi f w \<equiv> w\<lparr>wd_psi := f (wd_psi w)\<rparr>"

definition counted :: "((u64 \<Rightarrow> u64) \<Rightarrow> stats_t \<Rightarrow> stats_t) \<Rightarrow> mpeg_psi_t \<Rightarrow> mpeg_psi_t" where
  "counted f psi = psi\<lparr>psi_stats := f (\<lambda>n. n + 1) (psi_stats psi)\<rparr>"

definition pat_proc :: "alloc_env \<Rightarrow> bytes \<Rightarrow> u16 \<Rightarrow> ('sub, 'at) world \<Rightarrow> ('sub, 'at) world option" where
  "pat_proc e pkt len w = map_option snd (parse_pat e pkt len (upd_psi (counted pat_sections_update) w))"

text \<open>Counting the CA descriptors follows \<open>psi.cat\<close>, which may be null.\<close>

definition cat_proc :: "alloc_env \<Rightarrow> ('sub, 'at) handlers \<Rightarrow> bytes \<Rightarrow> u16 \<Rightarrow> ('sub, 'at) world \<Rightarrow> ('sub, 'at) world option" where
  "cat_proc e hs pkt len w = do {
     (_, psi) \<leftarrow> parse_cat e (hd_des_ops hs) pkt len (counted cat_sections_update (wd_psi w));
     if psi_cat_list psi = [] then None
     else Some (w\<lparr>wd_psi := psi\<lparr>psi_ca_num := length (cat_list (last (psi_cat_list psi)))\<rparr>\<rparr>) }"

definition tsdt_proc :: "alloc_env \<Rightarrow> ('sub, 'at) handlers \<Rightarrow> bytes \<Rightarrow> u16 \<Rightarrow> ('sub, 'at) world \<Rightarrow> ('sub, 'at) world option" where
  "tsdt_proc e hs pkt len w = do {
     (_, t) \<leftarrow> parse_tsdt e (hd_des_ops hs) pkt len (psi_tsdt (wd_psi w));
     Some (upd_psi (\<lambda>psi. (counted tsdt_sections_update psi)\<lparr>psi_tsdt := t\<rparr>) w) }"

definition pmt_proc :: "alloc_env \<Rightarrow> ('sub, 'at) handlers \<Rightarrow> u16 \<Rightarrow> bytes \<Rightarrow> u16 \<Rightarrow> ('sub, 'at) world \<Rightarrow> ('sub, 'at) world option" where
  "pmt_proc e hs pid pkt len w = map_option snd (parse_pmt e hs pid pkt len w)"

definition nit_proc :: "alloc_env \<Rightarrow> ('sub, 'at) handlers \<Rightarrow> bytes \<Rightarrow> u16 \<Rightarrow> ('sub, 'at) world \<Rightarrow> ('sub, 'at) world option" where
  "nit_proc e hs pkt len w = do {
     t \<leftarrow> rdb pkt 0;
     if t = NIT_ACTUAL_TID then do {
       (_, x) \<leftarrow> parse_nit e (hd_des_ops hs) pkt len (psi_nit_actual (wd_psi w));
       Some (upd_psi (\<lambda>psi. (counted nit_actual_sections_update psi)\<lparr>psi_nit_actual := x\<rparr>) w) }
     else if t = NIT_OTHER_TID then do {
       (_, x) \<leftarrow> parse_nit e (hd_des_ops hs) pkt len (psi_nit_other (wd_psi w));
       Some (upd_psi (\<lambda>psi. (counted nit_other_sections_update psi)\<lparr>psi_nit_other := x\<rparr>) w) }
     else Some w }"

definition sdt_bat_proc :: "alloc_env \<Rightarrow> ('sub, 'at) handlers \<Rightarrow> bytes \<Rightarrow> u16 \<Rightarrow> ('sub, 'at) world \<Rightarrow> ('sub, 'at) world option" where
  "sdt_bat_proc e hs pkt len w = do {
     t \<leftarrow> rdb pkt 0;
     if t = BAT_TID then do {
       (_, x) \<leftarrow> parse_bat e (hd_des_ops hs) pkt len (psi_bat (wd_psi w));
       Some (upd_psi (\<lambda>psi. (counted bat_sections_update psi)\<lparr>psi_bat := x\<rparr>) w) }
     else if t = SDT_ACTUAL_TID then do {
       (_, x) \<leftarrow> parse_sdt e (hd_des_ops hs) pkt len (psi_sdt_actual (wd_psi w));
       Some (upd_psi (\<lambda>psi. (counted sdt_actual_sections_update psi)\<lparr>psi_sdt_actual := x\<rparr>) w) }
     else if t = SDT_OTHER_TID then do {
       (_, x) \<leftarrow> parse_sdt e (hd_des_ops hs) pkt len (psi_sdt_other (wd_psi w));
       Some (upd_psi (\<lambda>psi. (counted sdt_other_sections_update psi)\<lparr>psi_sdt_other := x\<rparr>) w) }
     else Some w }"

definition eit_proc :: "alloc_env \<Rightarrow> ('sub, 'at) handlers \<Rightarrow> bytes \<Rightarrow> u16 \<Rightarrow> ('sub, 'at) world \<Rightarrow> ('sub, 'at) world option" where
  "eit_proc e hs pkt len w = do {
     t \<leftarrow> rdb pkt 0;
     if t = EIT_ACTUAL_TID then do {
       (_, x) \<leftarrow> parse_eit e (hd_des_ops hs) pkt len (psi_eit_actual (wd_psi w));
       Some (upd_psi (\<lambda>psi. (counted eit_actual_sections_update psi)\<lparr>psi_eit_actual := x\<rparr>) w) }
     else if t = EIT_OTHER_TID then do {
       (_, x) \<leftarrow> parse_eit e (hd_des_ops hs) pkt len (psi_eit_other (wd_psi w));
       Some (upd_psi (\<lambda>psi. (counted eit_other_sections_update psi)\<lparr>psi_eit_other := x\<rparr>) w) }
     else Some w }"

definition tdt_tot_proc :: "alloc_env \<Rightarrow> ('sub, 'at) handlers \<Rightarrow> bytes \<Rightarrow> u16 \<Rightarrow> ('sub, 'at) world \<Rightarrow> ('sub, 'at) world option" where
  "tdt_tot_proc e hs pkt len w = do {
     t \<leftarrow> rdb pkt 0;
     if t = TDT_TID then do {
       (_, x) \<leftarrow> parse_tdt pkt (psi_tdt (wd_psi w));
       Some (upd_psi (\<lambda>psi. (counted tdt_sections_update psi)\<lparr>psi_tdt := x\<rparr>) w) }
     else if t = TOT_TID then do {
       (_, x) \<leftarrow> parse_tot e (hd_des_ops hs) pkt (psi_tot (wd_psi w));
       Some (upd_psi (\<lambda>psi. (counted tot_sections_update psi)\<lparr>psi_tot := x\<rparr>) w) }
     else Some w }"

definition default_proc :: "alloc_env \<Rightarrow> ('sub, 'at) handlers \<Rightarrow> u16 \<Rightarrow> bytes \<Rightarrow> u16 \<Rightarrow> ('sub, 'at) world \<Rightarrow> ('sub, 'at) world option" where
  "default_proc e hs pid pkt len w =
     (if pid = PAT_PID then pat_proc e pkt len w
      else if pid = CAT_PID then cat_proc e hs pkt len w
      else if pid = NIT_PID then nit_proc e hs pkt len w
      else if pid = EIT_PID then eit_proc e hs pkt len w
      else if pid = SDT_PID then sdt_bat_proc e hs pkt len w
      else if pid = TDT_PID then tdt_tot_proc e hs pkt len w
      else Some w)"

text \<open>The first of the eight entries that has the PID; the unused ones have PID 0.\<close>

definition scte_proc :: "alloc_env \<Rightarrow> u16 \<Rightarrow> bytes \<Rightarrow> ('sub, 'at) world \<Rightarrow> ('sub, 'at) world option" where
  "scte_proc e pid pkt w =
     (let sc = (wd_scte w)\<lparr>scte_sections := scte_sections (wd_scte w) + 1\<rparr> in
      (case filter (\<lambda>i. sc_pid (scte_list sc ! i) = pid) [0..<length (scte_list sc)] of
         [] \<Rightarrow> Some (w\<lparr>wd_scte := sc\<rparr>)
       | i # _ \<Rightarrow> do {
           (_, x) \<leftarrow> parse_splice_info e pkt (scte_list sc ! i);
           Some (w\<lparr>wd_scte := sc\<lparr>scte_list := (scte_list sc)[i := x]\<rparr>\<rparr>) }))"

definition invoke :: "alloc_env \<Rightarrow> ('sub, 'at) handlers \<Rightarrow> (filter_cb, ('sub, 'at) world) invoke" where
  "invoke e hs cb pid pkt len w = (case cb of
     Pat_proc \<Rightarrow> pat_proc e pkt len w
   | Cat_proc \<Rightarrow> cat_proc e hs pkt len w
   | Tsdt_proc \<Rightarrow> tsdt_proc e hs pkt len w
   | Pmt_proc \<Rightarrow> pmt_proc e hs pid pkt len w
   | Nit_proc \<Rightarrow> nit_proc e hs pkt len w
   | Eit_proc \<Rightarrow> eit_proc e hs pkt len w
   | Sdt_bat_proc \<Rightarrow> sdt_bat_proc e hs pkt len w
   | Tdt_tot_proc \<Rightarrow> tdt_tot_proc e hs pkt len w
   | Default_proc \<Rightarrow> default_proc e hs pid pkt len w
   | Atsc_psip_proc \<Rightarrow> map_option (\<lambda>a. w\<lparr>wd_atsc := a\<rparr>) (hd_atsc hs e pid pkt len (wd_atsc w))
   | Pes_proc \<Rightarrow> do {
       (_, pes, txt) \<leftarrow> pes_proc e (hd_sub hs) pid pkt (wd_pes w, wd_txt w);
       Some (w\<lparr>wd_pes := pes, wd_txt := txt\<rparr>) }
   | Scte_proc \<Rightarrow> scte_proc e pid pkt w)"

section \<open>Start and end\<close>

text \<open>The filters installed at the start, in order.\<close>

definition table_filters :: "(u16 \<times> u8 \<times> u8 \<times> filter_cb) list" where
  "table_filters = [(PAT_PID, PAT_TID, 0xFF, Pat_proc), (CAT_PID, CAT_TID, 0xFF, Cat_proc),
     (TSDT_PID, TSDT_TID, 0xFF, Tsdt_proc), (NIT_PID, NIT_ACTUAL_TID, 0xFE, Nit_proc),
     (EIT_PID, EIT_ACTUAL_TID, 0xFE, Eit_proc), (SDT_PID, SDT_ACTUAL_TID, 0xFF, Sdt_bat_proc),
     (SDT_PID, SDT_OTHER_TID, 0xFF, Sdt_bat_proc), (BAT_PID, BAT_TID, 0xFF, Sdt_bat_proc),
     (TDT_PID, TDT_TID, 0xFF, Tdt_tot_proc), (TOT_PID, TOT_TID, 0xFF, Tdt_tot_proc),
     (MGT_PID, 0xC7, 0xFF, Atsc_psip_proc), (MGT_PID, 0xC8, 0xFF, Atsc_psip_proc),
     (MGT_PID, 0xC9, 0xFF, Atsc_psip_proc), (MGT_PID, 0xCA, 0xFF, Atsc_psip_proc),
     (MGT_PID, 0xCC, 0xFF, Atsc_psip_proc), (MGT_PID, 0xCB, 0xFF, Atsc_psip_proc),
     (MGT_PID, 0xCD, 0xFF, Atsc_psip_proc), (MGT_PID, 0xD3, 0xFF, Atsc_psip_proc),
     (MGT_PID, 0xD4, 0xFF, Atsc_psip_proc)]"

fun init_filters :: "alloc_env \<Rightarrow> nat \<Rightarrow> (u16 \<times> u8 \<times> u8 \<times> filter_cb) list \<Rightarrow> filter_cb filter_tab \<Rightarrow> filter_cb filter_tab option" where
  "init_filters e i [] fs = Some fs"
| "init_filters e i ((pid, tid, m, cb) # qs) fs =
     init_table_filter (in_node e i) pid tid m cb fs \<bind> init_filters e (Suc i) qs"

text \<open>\<open>pids\<close> is the selection of the configuration, \<open>at0\<close> what \<open>atsc_init_tables\<close> sets up.\<close>

definition init_table_ops :: "alloc_env \<Rightarrow> (u16 \<Rightarrow> bool) \<Rightarrow> 'at \<Rightarrow> ('sub, 'at) world \<Rightarrow> ('sub, 'at) world option" where
  "init_table_ops e pids at0 w = do {
     let w = w\<lparr>wd_psi := psi_table_init, wd_atsc := at0\<rparr>;
     let sel = filter pids (map of_nat [0..<8191]);
     fs \<leftarrow> init_filters e 0 (map (\<lambda>p. (p, 0, 0, Default_proc)) sel) (wd_filters w);
     if sel \<noteq> [] then Some (w\<lparr>wd_filters := fs\<rparr>)
     else do {
       fs \<leftarrow> init_filters e 8191 table_filters fs;
       bm \<leftarrow> bitmap64_set (psi_section_bitmap (wd_psi w)) (unat MGT_PID);
       Some (w\<lparr>wd_filters := fs, wd_psi := (wd_psi w)\<lparr>psi_section_bitmap := bm\<rparr>\<rparr>) } }"

fun uninit_filters :: "(u16 \<times> u8 \<times> u8 \<times> filter_cb) list \<Rightarrow> filter_cb filter_tab \<Rightarrow> filter_cb filter_tab option" where
  "uninit_filters [] fs = Some fs"
| "uninit_filters ((pid, tid, m, cb) # qs) fs = uninit_table_filter pid tid m fs \<bind> uninit_filters qs"

definition uninit_table_ops :: "filter_cb filter_tab \<Rightarrow> filter_cb filter_tab option" where
  "uninit_table_ops fs = uninit_filters table_filters fs"

fun unregister_scte_loop :: "scte_t list \<Rightarrow> filter_cb filter_tab \<Rightarrow> filter_cb filter_tab option" where
  "unregister_scte_loop [] fs = Some fs"
| "unregister_scte_loop (x # xs) fs = uninit_table_filter (sc_pid x) SCTE_SPLICE_TID 0xFF fs \<bind> unregister_scte_loop xs"

definition unregister_scte_ops :: "('sub, 'at) world \<Rightarrow> ('sub, 'at) world option" where
  "unregister_scte_ops w = do {
     fs \<leftarrow> unregister_scte_loop (take (scte_pid_num (wd_scte w)) (scte_list (wd_scte w))) (wd_filters w);
     Some (w\<lparr>wd_filters := fs, wd_scte := (wd_scte w)\<lparr>scte_pid_num := 0\<rparr>\<rparr>) }"

section \<open>Registration keeps the state consistent\<close>

text \<open>
  What holds between two callbacks: the filter table is well formed and in step, there is room
  for \<open>n\<close> more filters on every PID, the bitmaps have their size, the streams are consistent.
\<close>

definition world_ok :: "nat \<Rightarrow> ('sub, 'at) world \<Rightarrow> bool" where
  "world_ok n w \<longleftrightarrow> tab_ok (wd_filters w) \<and> (\<forall>q. length (live (wd_filters w q)) + n \<le> NUM_FILTER_MAX) \<and>
     length (psi_pmt_bitmap (wd_psi w)) = 128 \<and> length (psi_section_bitmap (wd_psi w)) = 128 \<and> pes_inv (wd_pes w) \<and>
     length (scte_pid_bitmap (wd_scte w)) = 128 \<and> length (scte_list (wd_scte w)) = SCTE_MAX_PID_NUM"

lemma world_ok_le: "world_ok n w \<Longrightarrow> m \<le> n \<Longrightarrow> world_ok m w"
  unfolding world_ok_def by (meson add_left_mono order_trans)

lemma table_para_wf: "param_wf (table_para tid m)"
  by (simp add: param_wf_def table_para_def filter_consts)

lemma init_table_filter_law:
  assumes "tab_ok fs" "unat pid < 8192" "length (live (fs pid)) < NUM_FILTER_MAX"
  shows "\<exists>fs'. init_table_filter (always_ok j) pid tid m cb fs = Some fs' \<and> tab_ok fs' \<and>
    (\<forall>q. live (fs' q) = (if q = pid then live (fs q) @ [stored_filter pid (table_para tid m) cb] else live (fs q)))"
  using filter_register_law [OF assms(1,2) table_para_wf assms(3), of j tid m cb]
  by (auto simp: init_table_filter_def)

lemma room_step:
  assumes "\<forall>q. length (live (fs q)) + Suc n \<le> N" "\<forall>q. live (fs' q) = (if q = pid then live (fs q) @ [x] else live (fs q))"
  shows "\<forall>q. length (live (fs' q)) + n \<le> N"
proof
  show "length (live (fs' q)) + n \<le> N" for q
    using assms(1) [rule_format, of q] assms(2) [rule_format, of q] by auto
qed

lemma world_ok_room:
  assumes "world_ok (Suc n) w"
  shows "length (live (wd_filters w pid)) < NUM_FILTER_MAX"
proof -
  have "length (live (wd_filters w pid)) + Suc n \<le> NUM_FILTER_MAX"
    using assms unfolding world_ok_def by blast
  then show ?thesis by linarith
qed

lemma register_pmt_ops_law:
  assumes w: "world_ok (Suc n) w" and pid: "unat pid < 8192" "pid \<noteq> NIT_PID"
  shows "\<exists>bm fs. register_pmt_ops (always_ok j) pid w = Some (w\<lparr>wd_psi := (wd_psi w)\<lparr>psi_pmt_bitmap := bm\<rparr>, wd_filters := fs\<rparr>) \<and>
    world_ok n (w\<lparr>wd_psi := (wd_psi w)\<lparr>psi_pmt_bitmap := bm\<rparr>, wd_filters := fs\<rparr>) \<and>
    bitmap_abs bm = insert (unat pid) (bitmap_abs (psi_pmt_bitmap (wd_psi w))) \<and>
    (\<forall>q. live (fs q) = (if q = pid then live (wd_filters w q) @ [stored_filter pid (table_para PMT_TID 0xFF) Pmt_proc]
       else live (wd_filters w q)))"
proof -
  have len: "length (psi_pmt_bitmap (wd_psi w)) = 128" and tab: "tab_ok (wd_filters w)"
    and room: "\<forall>q. length (live (wd_filters w q)) + Suc n \<le> NUM_FILTER_MAX"
    using w by (auto simp: world_ok_def)
  obtain bm where bm: "bitmap64_set (psi_pmt_bitmap (wd_psi w)) (unat pid) = Some bm" "length bm = 128"
    "bitmap_abs bm = insert (unat pid) (bitmap_abs (psi_pmt_bitmap (wd_psi w)))"
    using pid_bm.set_abs [OF len pid(1)] by auto
  obtain fs where fs: "init_table_filter (always_ok j) pid PMT_TID 0xFF Pmt_proc (wd_filters w) = Some fs" "tab_ok fs"
    "\<forall>q. live (fs q) = (if q = pid then live (wd_filters w q) @ [stored_filter pid (table_para PMT_TID 0xFF) Pmt_proc]
       else live (wd_filters w q))"
    using init_table_filter_law [where fs = "wd_filters w", OF tab pid(1) world_ok_room [OF w]] by blast
  have "register_pmt_ops (always_ok j) pid w = Some (w\<lparr>wd_psi := (wd_psi w)\<lparr>psi_pmt_bitmap := bm\<rparr>, wd_filters := fs\<rparr>)"
    using pid(2) bm(1) fs(1) by (simp add: register_pmt_ops_def)
  moreover have "world_ok n (w\<lparr>wd_psi := (wd_psi w)\<lparr>psi_pmt_bitmap := bm\<rparr>, wd_filters := fs\<rparr>)"
    using w bm(2) fs(2) room_step [OF room fs(3)] by (simp add: world_ok_def)
  ultimately show ?thesis using bm(3) fs(3) by blast
qed

lemma register_section_ops_law:
  assumes w: "world_ok (Suc n) w" and pid: "unat pid < 8192"
  shows "\<exists>w'. register_section_ops (always_ok j) pid tid cb w = Some w' \<and> world_ok n w' \<and> wd_pes w' = wd_pes w \<and>
    wd_scte w' = wd_scte w \<and> psi_pmt (wd_psi w') = psi_pmt (wd_psi w)"
proof (cases "pid = NIT_PID \<or> unat pid \<in> bitmap_abs (psi_section_bitmap (wd_psi w))")
  case True
  have "length (psi_section_bitmap (wd_psi w)) = 128" using w by (simp add: world_ok_def)
  from pid_bm.get_abs [OF this pid] True world_ok_le [OF w, of n] show ?thesis
    by (auto simp: register_section_ops_def)
next
  case False
  have len: "length (psi_section_bitmap (wd_psi w)) = 128" and tab: "tab_ok (wd_filters w)"
    and room: "\<forall>q. length (live (wd_filters w q)) + Suc n \<le> NUM_FILTER_MAX"
    using w by (auto simp: world_ok_def)
  obtain bm where bm: "bitmap64_set (psi_section_bitmap (wd_psi w)) (unat pid) = Some bm" "length bm = 128"
    using pid_bm.set_abs [OF len pid] by auto
  let ?cb = "case cb of Some cb \<Rightarrow> cb | None \<Rightarrow> Default_proc"
  obtain fs where fs: "init_table_filter (always_ok j) pid tid 0xFF ?cb (wd_filters w) = Some fs" "tab_ok fs"
    "\<forall>q. live (fs q) = (if q = pid then live (wd_filters w q) @ [stored_filter pid (table_para tid 0xFF) ?cb]
       else live (wd_filters w q))"
    using init_table_filter_law [where fs = "wd_filters w", OF tab pid world_ok_room [OF w]] by blast
  have "register_section_ops (always_ok j) pid tid cb w = Some (w\<lparr>wd_psi := (wd_psi w)\<lparr>psi_section_bitmap := bm\<rparr>, wd_filters := fs\<rparr>)"
    using False bm(1) fs(1) pid_bm.get_abs [OF len pid] by (simp add: register_section_ops_def)
  moreover have "world_ok n (w\<lparr>wd_psi := (wd_psi w)\<lparr>psi_section_bitmap := bm\<rparr>, wd_filters := fs\<rparr>)"
    using w bm(2) fs(2) room_step [OF room fs(3)] by (simp add: world_ok_def)
  ultimately show ?thesis by auto
qed

lemma register_scte_ops_law:
  assumes w: "world_ok (Suc n) w" and pid: "unat pid < 8192"
  shows "\<exists>w'. register_scte_ops (always_ok j) pid w = Some w' \<and> world_ok n w' \<and> wd_pes w' = wd_pes w \<and>
    psi_pmt (wd_psi w') = psi_pmt (wd_psi w)"
proof -
  have len: "length (scte_pid_bitmap (wd_scte w)) = 128" and ll: "length (scte_list (wd_scte w)) = SCTE_MAX_PID_NUM"
    using w by (auto simp: world_ok_def)
  show ?thesis
  proof (cases "SCTE_MAX_PID_NUM \<le> scte_pid_num (wd_scte w) \<or> unat pid \<in> bitmap_abs (scte_pid_bitmap (wd_scte w))")
    case True
    then show ?thesis
      using pid_bm.get_abs [OF len pid] world_ok_le [OF w, of n] by (auto simp: register_scte_ops_def Let_def)
  next
    case False
    obtain bm where bm: "bitmap64_set (scte_pid_bitmap (wd_scte w)) (unat pid) = Some bm" "length bm = 128"
      using pid_bm.set_abs [OF len pid] by auto
    let ?sc = "wd_scte w" and ?i = "scte_pid_num (wd_scte w)"
    define w1 where "w1 = w\<lparr>wd_scte := ?sc\<lparr>scte_pid_bitmap := bm, scte_pid_num := Suc ?i,
      scte_list := (scte_list ?sc)[?i := (scte_list ?sc ! ?i)\<lparr>sc_pid := pid, sc_list := []\<rparr>]\<rparr>\<rparr>"
    have "world_ok (Suc n) w1" using w bm(2) by (simp add: w1_def world_ok_def)
    from register_section_ops_law [OF this pid, of j SCTE_SPLICE_TID "Some Scte_proc"] obtain w' where
      "register_section_ops (always_ok j) pid SCTE_SPLICE_TID (Some Scte_proc) w1 = Some w'" "world_ok n w'"
      "wd_pes w' = wd_pes w1" "psi_pmt (wd_psi w') = psi_pmt (wd_psi w1)"
      by blast
    then show ?thesis
      using False bm(1) ll pid_bm.get_abs [OF len pid] by (auto simp: register_scte_ops_def Let_def w1_def)
  qed
qed

lemma pes_inv_entry:
  assumes "pes_inv pes" "pe_pid pt = pe_pid (pes_list pes ! i)"
  shows "pes_inv (pes\<lparr>pes_list := (pes_list pes)[i := pt]\<rparr>)"
  using assms by (cases "i < length (pes_list pes)") (auto simp: pes_inv_def nth_list_update)

lemma register_pes_data_callback_law:
  assumes "pes_inv pes" "unat pid < 8192"
  shows "\<exists>pes'. register_pes_data_callback e so pid ty cb tag pes = Some pes' \<and> pes_inv pes' \<and>
    pes_pid_bitmap pes' = pes_pid_bitmap pes"
proof -
  have "pes_pid_num pes = length (pes_list pes)" "\<not> pes_freed pes" using assms(1) by (auto simp: pes_inv_def)
  then show ?thesis
    using assms by (auto simp: register_pes_data_callback_def Let_def intro!: pes_inv_entry)
qed

text \<open>
  The registration of an elementary stream, whatever its type; \<open>pes_type\<close> says that the stream
  comes in PES packets.
\<close>

definition pes_type :: "u8 \<Rightarrow> bool" where
  "pes_type ty \<longleftrightarrow> \<not> (ty = 0x05 \<or> 0x08 \<le> ty \<and> ty \<le> 0x0D \<or> ty = 0x86)"

lemma register_es_law:
  assumes w: "world_ok (Suc n) w" and pid: "unat pid < 8192"
  shows "\<exists>w'. register_es (always_ok j) so ty pid ds w = Some w' \<and> world_ok n w' \<and> psi_pmt (wd_psi w') = psi_pmt (wd_psi w) \<and>
    bitmap_abs (pes_pid_bitmap (wd_pes w')) =
      (if pes_type ty then insert (unat pid) (bitmap_abs (pes_pid_bitmap (wd_pes w)))
       else bitmap_abs (pes_pid_bitmap (wd_pes w)))"
proof (cases "pes_type ty")
  case False
  then show ?thesis
    using register_section_ops_law [OF w pid, of j 0 None] register_scte_ops_law [OF w pid, of j]
    by (auto simp: register_es_def pes_type_def)
next
  case True
  have inv: "pes_inv (wd_pes w)" and tab: "tab_ok (wd_filters w)"
    and room: "\<forall>q. length (live (wd_filters w q)) + Suc n \<le> NUM_FILTER_MAX"
    using w by (auto simp: world_ok_def)
  define grown where "grown fs \<longleftrightarrow> (\<forall>q. live (fs q) = (if q = pid then live (wd_filters w q) @
      [stored_filter pid pes_filter_para Pes_proc] else live (wd_filters w q)))" for fs
  obtain pes fs where r: "register_pes_ops (always_ok j) pid ty (wd_pes w, wd_filters w) = Some (pes, fs)" "pes_inv pes" "tab_ok fs"
    "bitmap_abs (pes_pid_bitmap pes) = insert (unat pid) (bitmap_abs (pes_pid_bitmap (wd_pes w)))"
    "fs = wd_filters w \<or> grown fs"
    using register_pes_ops_law [where fs = "wd_filters w", OF inv tab pid world_ok_room [OF w], of j ty, folded grown_def]
    by (auto split: if_splits)
  have rm: "\<forall>q. length (live (fs q)) + n \<le> NUM_FILTER_MAX"
    using r(5)
  proof
    assume "fs = wd_filters w"
    then show ?thesis using room by (auto intro: Suc_leD)
  qed (unfold grown_def, rule room_step [OF room])
  have fin: "world_ok n (w\<lparr>wd_pes := pes', wd_filters := fs\<rparr>)" if "pes_inv pes'" for pes'
    using w that r(3) rm by (simp add: world_ok_def)
  let ?cbs = "if has_descritpor_tag ds 0x59 then register_pes_data_callback (always_ok j) so pid ty Parse_subtitle 0x59 pes
    else if has_descritpor_tag ds 0x56 then register_pes_data_callback (always_ok j) so pid ty Parse_teletext 0x56 pes
    else Some pes"
  obtain pes' where p': "?cbs = Some pes'" "pes_inv pes'" "pes_pid_bitmap pes' = pes_pid_bitmap pes"
    using register_pes_data_callback_law [OF r(2) pid, of "always_ok j" so ty] r(2) by (metis (full_types))
  have "register_es (always_ok j) so ty pid ds w = Some (w\<lparr>wd_pes := pes', wd_filters := fs\<rparr>)"
    using True unfolding pes_type_def register_es_def in_node_always_ok r(1) Option.bind_lunit prod.case p'(1) by auto
  then show ?thesis
    using True fin [OF p'(2)] r(4) p'(3) by auto
qed

section \<open>Tables on the wire\<close>

text \<open>A 13-bit PID below three other bits.\<close>

definition pid13 :: "nat \<Rightarrow> u16 \<Rightarrow> bytes" where
  "pid13 t pid = be16 (t * 8192 + unat pid)"

lemma length_pid13 [simp]: "length (pid13 t pid) = 2"
  by (simp add: pid13_def)

lemma READ16_pid13:
  assumes "t < 8" "unat pid < 8192"
  shows "\<exists>x. TS_READ16 (pid13 t pid @ r) = Some x \<and> x AND 0x1FFF = pid"
proof -
  let ?v = "t * 8192 + unat pid"
  have v: "?v < 65536" using assms by simp
  have u: "unat (of_nat ?v :: u16) = ?v"
    using v by (simp only: unsigned_of_nat) (simp add: take_bit_nat_eq_self)
  have m: "(0x1FFF :: u16) = mask 13" by (simp add: mask_eq_exp_minus_1)
  have "(of_nat ?v :: u16) AND 0x1FFF = pid"
  proof (rule unsigned_word_eqI)
    show "unat ((of_nat ?v :: u16) AND 0x1FFF) = unat pid"
      unfolding m take_bit_eq_mask [symmetric] unsigned_take_bit_eq u using assms(2) by (simp add: take_bit_eq_mod)
  qed
  then show ?thesis
    using READ16_be16 [OF v, of r] by (simp add: pid13_def)
qed

lemma unat_13: "unat (x AND 0x1FFF :: u16) < 8192"
proof -
  have "(0x1FFF :: u16) = mask 13" by (simp add: mask_eq_exp_minus_1)
  then show ?thesis using unat_and_mask_less [of 13 x] by simp
qed

subsection \<open>Elementary streams\<close>

record wire_es =
  w_type :: u8
  w_pid_res :: nat
  w_pid :: u16
  w_es_res :: nat
  w_es_descs :: "(u8 \<times> bytes) list"

definition enc_es :: "wire_es \<Rightarrow> bytes" where
  "enc_es x = w_type x # pid13 (w_pid_res x) (w_pid x) @ len12 (w_es_res x) (length (darea (w_es_descs x))) @ darea (w_es_descs x)"

definition es_ok :: "(nat \<Rightarrow> u8) \<Rightarrow> (u8 \<Rightarrow> desc_ops) \<Rightarrow> wire_es \<Rightarrow> bool" where
  "es_ok j des_ops x \<longleftrightarrow> w_pid_res x < 8 \<and> unat (w_pid x) < 8192 \<and> w_es_res x < 16 \<and>
     length (darea (w_es_descs x)) < 4096 \<and> dok j des_ops (w_es_descs x)"

definition es_of :: "(nat \<Rightarrow> u8) \<Rightarrow> (u8 \<Rightarrow> desc_ops) \<Rightarrow> wire_es \<Rightarrow> es_node" where
  "es_of j des_ops x = \<lparr>es_stream_type = w_type x, es_elementary_PID = w_pid x,
     es_ES_info_length = of_nat (length (darea (w_es_descs x))), es_list = dparsed j des_ops (w_es_descs x)\<rparr>"

lemma es_loop_entry:
  assumes x: "es_ok j des_ops x" and l: "0 < l" "l < 4096" "int (length (enc_es x)) \<le> l"
    and reg: "register_es (always_ok j) so (w_type x) (w_pid x) (dparsed j des_ops (w_es_descs x)) w = Some w'"
  shows "es_loop (always_ok j) des_ops so w l (enc_es x @ rest) i =
    map_option (\<lambda>(r, ns, w). (r, es_of j des_ops x # ns, w))
      (es_loop (always_ok j) des_ops so w' (l - int (length (enc_es x))) rest (Suc i))"
proof -
  let ?n = "length (darea (w_es_descs x))" and ?p = "enc_es x @ rest"
  have ok: "w_pid_res x < 8" "unat (w_pid x) < 8192" "w_es_res x < 16" "?n < 4096" "dok j des_ops (w_es_descs x)"
    using x by (auto simp: es_ok_def)
  have d: "drop 1 ?p = pid13 (w_pid_res x) (w_pid x) @ len12 (w_es_res x) ?n @ darea (w_es_descs x) @ rest"
    "drop 3 ?p = len12 (w_es_res x) ?n @ darea (w_es_descs x) @ rest"
    "drop 5 ?p = darea (w_es_descs x) @ rest" "drop (5 + ?n) ?p = rest"
    by (simp_all add: enc_es_def drop_Cons')
  obtain y where y: "TS_READ16 (drop 1 ?p) = Some y" "y AND 0x1FFF = w_pid x"
    unfolding d using READ16_pid13 [OF ok(1,2)] by blast
  have r: "TS_READ8 ?p = Some (w_type x)" "TS_READ16 (drop 3 ?p) = Some (of_nat (w_es_res x * 4096 + ?n))"
    unfolding d using ok by (simp_all add: enc_es_def TS_READ8_def READ16_len12 del: of_nat_add of_nat_mult)
  have n: "(of_nat (w_es_res x * 4096 + ?n) :: u16) AND 0x0FFF = of_nat ?n"
    by (rule and_fff_len12 [OF ok(3,4)])
  have u: "uint (of_nat ?n :: u16) = int ?n" "unat (of_nat ?n :: u16) = ?n"
    using ok(4) by (simp_all add: uint_of_nat_len unsigned_of_nat take_bit_nat_eq_self)
  have il: "i16 (l - (5 + int ?n)) = l - int (length (enc_es x))"
    using l by (simp add: enc_es_def i16_id)
  show ?thesis
    using l(1)
    by (subst es_loop.simps, unfold r y Option.bind_lunit Let_def n u d(3,4))
       (simp add: parse_darea [OF ok(5)] reg il es_of_def map_option_case split: Option.bind_splits option.splits)
qed

interpretation esl: entry_loop "es_loop (always_ok j) des_ops so" enc_es "es_of j des_ops" "es_ok j des_ops"
  "\<lambda>_ x. register_es (always_ok j) so (w_type x) (w_pid x) (dparsed j des_ops (w_es_descs x))" for j des_ops so
proof
  show "es_loop (always_ok j) des_ops so s l p i = Some (0, [], s)" if "l \<le> 0" for s :: "('a, 'b) world" and l p i
    using that by (simp add: es_loop.simps)
next
  show "enc_es x \<noteq> []" for x by (simp add: enc_es_def)
qed (rule es_loop_entry)

text \<open>The registrations of all streams succeed and keep the state consistent.\<close>

lemma esl_acts:
  assumes "world_ok (n + length xs) w" "\<forall>x \<in> set xs. es_ok j des_ops x"
  shows "\<exists>w'. esl.acts j so des_ops i xs w = Some w' \<and> world_ok n w' \<and> psi_pmt (wd_psi w') = psi_pmt (wd_psi w) \<and>
    bitmap_abs (pes_pid_bitmap (wd_pes w')) = bitmap_abs (pes_pid_bitmap (wd_pes w)) \<union>
      {unat (w_pid x) |x. x \<in> set xs \<and> pes_type (w_type x)}"
  using assms
proof (induction xs arbitrary: i w)
  case Nil
  then show ?case by simp
next
  case (Cons x xs)
  have ok: "world_ok (Suc (n + length xs)) w" "unat (w_pid x) < 8192"
    using Cons.prems by (simp_all add: es_ok_def)
  obtain w1 where w1: "register_es (always_ok j) so (w_type x) (w_pid x) (dparsed j des_ops (w_es_descs x)) w = Some w1"
    "world_ok (n + length xs) w1" "psi_pmt (wd_psi w1) = psi_pmt (wd_psi w)"
    "bitmap_abs (pes_pid_bitmap (wd_pes w1)) = (if pes_type (w_type x) then insert (unat (w_pid x)) (bitmap_abs (pes_pid_bitmap (wd_pes w)))
       else bitmap_abs (pes_pid_bitmap (wd_pes w)))"
    using register_es_law [OF ok, of j so "w_type x" "dparsed j des_ops (w_es_descs x)"] by blast
  obtain w' where w': "esl.acts j so des_ops (Suc i) xs w1 = Some w'" "world_ok n w'" "psi_pmt (wd_psi w') = psi_pmt (wd_psi w1)"
    "bitmap_abs (pes_pid_bitmap (wd_pes w')) = bitmap_abs (pes_pid_bitmap (wd_pes w1)) \<union>
      {unat (w_pid x) |x. x \<in> set xs \<and> pes_type (w_type x)}"
    using Cons.IH [OF w1(2), of "Suc i"] Cons.prems(2) by auto
  have "{unat (w_pid y) |y. y \<in> set (x # xs) \<and> pes_type (w_type y)} =
      (if pes_type (w_type x) then {unat (w_pid x)} else {}) \<union> {unat (w_pid x) |x. x \<in> set xs \<and> pes_type (w_type x)}"
    by auto
  then show ?case
    using w1 w' by (intro exI [of _ w']) auto
qed

end
