(* ===== verification/Psi_Tables.thy ===== *)
theory Psi_Tables
  imports Table
begin

unbundle bit_operations_syntax

text \<open>
  What the PSI tables of \<open>Table\<close> do as a whole: the program map and the program association table
  are read back and install their filters, and the tables that make the code misbehave.
\<close>

section \<open>The state at the start\<close>

definition zero_scte :: scte_t where
  "zero_scte = \<lparr>sc_pid = 0, sc_table_id = 0, sc_section_syntax_indicator = 0, sc_private_indicator = 0, sc_sap_type = 0,
     sc_section_length = 0, sc_protocol_version = 0, sc_encrypted_packet = 0, sc_encryption_algorithm = 0,
     sc_pts_adjustment_h = 0, sc_pts_adjustment = 0, sc_cw_index = 0, sc_tier = 0, sc_splice_command_length = 0,
     sc_splice_command_type = 0, sc_command = Cmd_none, sc_descriptor_loop_length = 0, sc_list = []\<rparr>"

definition static_scte :: mpegts_scte_t where
  "static_scte = \<lparr>scte_pid_num = 0, scte_pid_bitmap = replicate 128 0, scte_list = replicate SCTE_MAX_PID_NUM zero_scte,
     scte_sections = 0\<rparr>"

text \<open>The static variables before the first packet; \<open>at0\<close> is the ATSC part.\<close>

definition static_world :: "'at \<Rightarrow> ('sub, 'at) world" where
  "static_world at0 = \<lparr>wd_filters = static_pid_filter, wd_psi = psi_table_init, wd_pes = static_pes, wd_txt = zero_store,
     wd_scte = static_scte, wd_atsc = at0\<rparr>"

lemma tab_ok_static: "tab_ok static_pid_filter"
  by (simp add: static_pid_filter_def tab_ok_def head_wf_def)

lemma live_static: "live (static_pid_filter q) = []"
  by (simp add: static_pid_filter_def live_def)

lemma world_ok_static: "n \<le> NUM_FILTER_MAX \<Longrightarrow> world_ok n (static_world at0)"
  by (simp add: world_ok_def static_world_def tab_ok_static live_static psi_table_init_def pes_inv_static static_scte_def)

lemma header_ok_zero: "header_ok zero_header" "0 \<notin> bitmap_abs (th_bitmap zero_header)"
  by (simp_all add: header_ok_def zero_header_def bitmap_abs_zero4)

text \<open>Handlers for the examples: generic descriptors only, no subtitle decoder, no ATSC tables.\<close>

definition plain_handlers :: "(unit, unit) handlers" where
  "plain_handlers = \<lparr>hd_des_ops = (\<lambda>_. Reserved), hd_sub = \<lparr>so_new = (), so_parse = (\<lambda>_ _ _ _ _. Some (0, ()))\<rparr>,
     hd_atsc = (\<lambda>_ _ _ _ _. Some ())\<rparr>"

section \<open>Program map table\<close>

lemma parse_pmt_law:
  assumes p: "p = hdr @ pid13 r0 pcr @ len12 r1 (length (darea ds)) @ darea ds @ concat (map enc_es xs) @ crc"
    and sz: "length hdr = 8" "length crc = 4" "r0 < 8" "r1 < 16" "unat pcr < 8192" "unat pid < 8192"
    and sec: "single_section p" "section_size p = length p" "unat buf_size = length p"
    and ok: "dok j (hd_des_ops hs) ds" "\<forall>x \<in> set xs. es_ok j (hd_des_ops hs) x"
    and h: "header_ok (pmt_header (psi_pmt (wd_psi w) pid))" "0 \<notin> bitmap_abs (th_bitmap (pmt_header (psi_pmt (wd_psi w) pid)))"
    and w: "world_ok (n + length xs) w"
  shows "\<exists>w'. parse_pmt (always_ok j) hs pid (p @ stuff) buf_size w = Some (0, w') \<and> world_ok n w' \<and>
    TS_READ16 (drop 3 p) = Some (pmt_program_number (psi_pmt (wd_psi w') pid)) \<and>
    pmt_PCR_PID (psi_pmt (wd_psi w') pid) = pcr \<and> pmt_list (psi_pmt (wd_psi w') pid) = dparsed j (hd_des_ops hs) ds \<and>
    pmt_h (psi_pmt (wd_psi w') pid) = map (es_of j (hd_des_ops hs)) xs \<and>
    (\<forall>q. q \<noteq> pid \<longrightarrow> psi_pmt (wd_psi w') q = psi_pmt (wd_psi w) q) \<and>
    bitmap_abs (pes_pid_bitmap (wd_pes w')) = bitmap_abs (pes_pid_bitmap (wd_pes w)) \<union>
      {unat (w_pid x) |x. x \<in> set xs \<and> pes_type (w_type x)}"
proof -
  let ?n = "length (darea ds)" and ?e = "concat (map enc_es xs)"
  obtain h' t where h': "parse_section_header (always_ok j) (p @ stuff) buf_size (pmt_header (psi_pmt (wd_psi w) pid)) = Some (0, h')"
    "blk_bytes (th_data h') = Some (drop 8 p @ t)" "uint (th_section_length h') = int (length p) - 3" "length p \<le> 0x400"
    "TS_READ16 (drop 3 p) = Some (th_table_id_ext h')"
    using single_section_body [OF sec h, of j stuff] by metis
  let ?q = "drop 8 p @ t"
  have len: "length p = 16 + ?n + length ?e" "?n < 4096" "length ?e < 4096"
    using h'(4) sz by (simp_all add: p)
  have d: "?q = pid13 r0 pcr @ len12 r1 ?n @ darea ds @ ?e @ crc @ t"
    "drop 2 ?q = len12 r1 ?n @ darea ds @ ?e @ crc @ t"
    "drop 4 ?q = darea ds @ ?e @ crc @ t" "drop (4 + ?n) ?q = ?e @ crc @ t"
    using sz(1) by (simp_all add: p)
  obtain x where x: "TS_READ16 ?q = Some x" "x AND 0x1FFF = pcr"
    unfolding d using READ16_pid13 [OF sz(3,5)] by blast
  have r: "TS_READ16 (drop 2 ?q) = Some (of_nat (r1 * 4096 + ?n))"
    unfolding d using sz len by (simp add: READ16_len12 del: of_nat_add of_nat_mult)
  have m: "(of_nat (r1 * 4096 + ?n) :: u16) AND 0x0FFF = of_nat ?n"
    by (rule and_fff_len12 [OF sz(4) len(2)])
  have u: "uint (of_nat ?n :: u16) = int ?n" "unat (of_nat ?n :: u16) = ?n"
    using len by (simp_all add: uint_of_nat_len unsigned_of_nat take_bit_nat_eq_self)
  have l: "i16 (i16 (i16 (int (length p) - 12) - 2) - (2 + int ?n)) = int (length ?e)"
    using h'(4) len by (simp add: i16_id)
  have a: "parse_descriptors (always_ok j) (hd_des_ops hs) (drop 4 ?q) (int ?n) = Some (dparsed j (hd_des_ops hs) ds)"
    unfolding d(3) by (rule parse_darea [OF ok(1)])
  obtain w1 where w1: "esl.acts j (hd_sub hs) (hd_des_ops hs) 0 xs w = Some w1" "world_ok n w1"
    "psi_pmt (wd_psi w1) = psi_pmt (wd_psi w)"
    "bitmap_abs (pes_pid_bitmap (wd_pes w1)) = bitmap_abs (pes_pid_bitmap (wd_pes w)) \<union>
      {unat (w_pid x) |x. x \<in> set xs \<and> pes_type (w_type x)}"
    using esl_acts [OF w ok(2), of "hd_sub hs" 0] by blast
  have b: "es_loop (always_ok j) (hd_des_ops hs) (hd_sub hs) w (int (length ?e)) (drop (4 + ?n) ?q) 0 =
      Some (0, map (es_of j (hd_des_ops hs)) xs, w1)"
    unfolding d(4) by (rule esl.loop_entries [OF ok(2) len(3) w1(1)])
  have "\<not> 8192 \<le> unat pid" using sz(6) by simp
  then show ?thesis
    unfolding parse_pmt_def in_node_always_ok
    using w1(2-4) by (simp del: drop_append of_nat_add of_nat_mult add: h' x r m u l a b world_ok_def)
qed

text \<open>
  C5. A program map table of one section is read back as it was written (program number, PCR PID,
  program descriptors, elementary streams in order, each with its descriptors), and every
  elementary stream is registered: the state stays consistent, no other program is touched, and
  exactly the PIDs of the streams that come in PES packets are added to the PES PIDs.
\<close>

theorem parse_pmt_roundtrip:
  assumes p: "p = hdr @ pid13 r0 pcr @ len12 r1 (length (darea ds)) @ darea ds @ concat (map enc_es xs) @ crc"
    and sz: "length hdr = 8" "length crc = 4" "r0 < 8" "r1 < 16" "unat pcr < 8192" "unat pid < 8192"
    and sec: "single_section p" "section_size p = length p" "unat buf_size = length p"
    and ok: "dok j (hd_des_ops hs) ds" "\<forall>x \<in> set xs. es_ok j (hd_des_ops hs) x"
    and h: "header_ok (pmt_header (psi_pmt (wd_psi w) pid))" "0 \<notin> bitmap_abs (th_bitmap (pmt_header (psi_pmt (wd_psi w) pid)))"
    and w: "world_ok (n + length xs) w"
  shows "\<exists>w'. parse_pmt (always_ok j) hs pid (p @ stuff) buf_size w = Some (0, w') \<and> world_ok n w' \<and>
    TS_READ16 (drop 3 p) = Some (pmt_program_number (psi_pmt (wd_psi w') pid)) \<and>
    pmt_PCR_PID (psi_pmt (wd_psi w') pid) = pcr \<and> pmt_list (psi_pmt (wd_psi w') pid) = dparsed j (hd_des_ops hs) ds \<and>
    pmt_h (psi_pmt (wd_psi w') pid) = map (es_of j (hd_des_ops hs)) xs \<and>
    (\<forall>q. q \<noteq> pid \<longrightarrow> psi_pmt (wd_psi w') q = psi_pmt (wd_psi w) q) \<and>
    bitmap_abs (pes_pid_bitmap (wd_pes w')) = bitmap_abs (pes_pid_bitmap (wd_pes w)) \<union>
      {unat (w_pid x) |x. x \<in> set xs \<and> pes_type (w_type x)}"
  using assms by (rule parse_pmt_law)

text \<open>A PMT with an MPEG-2 video stream on PID 0x101.\<close>

theorem parse_pmt_roundtrip_witness:
  "\<exists>w'. parse_pmt (always_ok (\<lambda>_. 0)) plain_handlers 0x100
      ([2, 0xB0, 18, 0, 1, 0xC1, 0, 0, 0xE1, 1, 0xF0, 0, 2, 0xE1, 1, 0xF0, 0, 1, 2, 3, 4] @ [0xFF]) 21
      (static_world () :: (unit, unit) world) = Some (0, w') \<and> world_ok 0 w' \<and>
    TS_READ16 (drop 3 [2, 0xB0, 18, 0, 1, 0xC1, 0, 0, 0xE1, 1, 0xF0, 0, 2, 0xE1, 1, 0xF0, 0, 1, 2, 3, 4]) =
      Some (pmt_program_number (psi_pmt (wd_psi w') 0x100)) \<and>
    pmt_PCR_PID (psi_pmt (wd_psi w') 0x100) = 0x101 \<and>
    pmt_list (psi_pmt (wd_psi w') 0x100) = dparsed (\<lambda>_. 0) (\<lambda>_. Reserved) [] \<and>
    pmt_h (psi_pmt (wd_psi w') 0x100) = map (es_of (\<lambda>_. 0) (\<lambda>_. Reserved))
      [\<lparr>w_type = 2, w_pid_res = 7, w_pid = 0x101, w_es_res = 15, w_es_descs = []\<rparr>] \<and>
    (\<forall>q. q \<noteq> 0x100 \<longrightarrow> psi_pmt (wd_psi w') q = psi_pmt (wd_psi (static_world () :: (unit, unit) world)) q) \<and>
    bitmap_abs (pes_pid_bitmap (wd_pes w')) = bitmap_abs (pes_pid_bitmap (wd_pes (static_world () :: (unit, unit) world))) \<union>
      {unat (w_pid x) |x. x \<in> set [\<lparr>w_type = 2, w_pid_res = 7, w_pid = 0x101, w_es_res = 15, w_es_descs = []\<rparr>] \<and> pes_type (w_type x)}"
proof -
  let ?xs = "[\<lparr>w_type = 2, w_pid_res = 7, w_pid = 0x101, w_es_res = 15, w_es_descs = []\<rparr>]"
  let ?w = "static_world () :: (unit, unit) world"
  have p: "[2, 0xB0, 18, 0, 1, 0xC1, 0, 0, 0xE1, 1, 0xF0, 0, 2, 0xE1, 1, 0xF0, 0, 1, 2, 3, 4] =
    [2, 0xB0, 18, 0, 1, 0xC1, 0, 0] @ pid13 7 0x101 @ len12 15 (length (darea [])) @ darea [] @ concat (map enc_es ?xs) @ [1, 2, 3, 4]"
    by (simp add: len12_def be16_def darea_def enc_es_def pid13_def)
  have h: "header_ok (pmt_header (psi_pmt (wd_psi ?w) 0x100))" "0 \<notin> bitmap_abs (th_bitmap (pmt_header (psi_pmt (wd_psi ?w) 0x100)))"
    by (simp_all add: static_world_def psi_table_init_def zero_pmt_def header_ok_zero)
  have w: "world_ok (0 + length ?xs) ?w" by (rule world_ok_static) (simp add: filter_consts)
  show ?thesis
    using parse_pmt_roundtrip [where hs = plain_handlers and w = ?w and xs = ?xs and j = "\<lambda>_. 0" and pid = "0x100" and buf_size = 21 and n = 0 and stuff = "[0xFF]",
        OF p _ _ _ _ _ _ _ _ _ _ _ h w]
    by (simp add: single_section_def section_size_def dok_def es_ok_def darea_def plain_handlers_def)
qed

section \<open>Program association table\<close>

record wire_program =
  w_number :: u16
  w_prog_res :: nat
  w_map_pid :: u16

definition enc_program :: "wire_program \<Rightarrow> bytes" where
  "enc_program x = be16 (unat (w_number x)) @ pid13 (w_prog_res x) (w_map_pid x)"

definition program_ok :: "wire_program \<Rightarrow> bool" where
  "program_ok x \<longleftrightarrow> w_number x \<noteq> 0xFFFF \<and> w_prog_res x < 8 \<and> unat (w_map_pid x) < 8192"

definition program_of :: "wire_program \<Rightarrow> program_node" where
  "program_of x = \<lparr>pn_program_number = w_number x, pn_program_map_PID = w_map_pid x\<rparr>"

text \<open>The filters that a list of programs adds to the PID \<open>q\<close>.\<close>

definition pmt_filters :: "wire_program list \<Rightarrow> u16 \<Rightarrow> filter_cb filter_t list" where
  "pmt_filters xs q = map (\<lambda>_. stored_filter q (table_para PMT_TID 0xFF) Pmt_proc)
     (filter (\<lambda>x. w_map_pid x = q \<and> q \<noteq> NIT_PID) xs)"

definition pmt_pids :: "wire_program list \<Rightarrow> nat set" where
  "pmt_pids xs = {unat (w_map_pid x) |x. x \<in> set xs \<and> w_map_pid x \<noteq> NIT_PID}"

text \<open>What one program of the table does to the filters, the network PID included.\<close>

lemma register_program:
  assumes w: "world_ok (Suc n) w" and x: "program_ok x"
  shows "\<exists>w'. register_pmt_ops (always_ok j) (w_map_pid x) w = Some w' \<and> world_ok n w' \<and>
    psi_pat_list (wd_psi w') = psi_pat_list (wd_psi w) \<and> psi_pmt (wd_psi w') = psi_pmt (wd_psi w) \<and>
    bitmap_abs (psi_pmt_bitmap (wd_psi w')) = bitmap_abs (psi_pmt_bitmap (wd_psi w)) \<union> pmt_pids [x] \<and>
    (\<forall>q. live (wd_filters w' q) = live (wd_filters w q) @ pmt_filters [x] q)"
proof (cases "w_map_pid x = NIT_PID")
  case True
  then show ?thesis
    using world_ok_le [OF w, of n] by (auto simp: register_pmt_ops_def pmt_pids_def pmt_filters_def)
next
  case False
  have "unat (w_map_pid x) < 8192" using x by (simp add: program_ok_def)
  from register_pmt_ops_law [OF w this False, of j] show ?thesis
    using False by (fastforce simp: pmt_pids_def pmt_filters_def)
qed

lemma pat_loop_program:
  assumes x: "program_ok x" "length (program_bitmap pat) = 1024" "unat (w_number x) \<notin> bitmap_abs (program_bitmap pat)"
    and l: "l \<noteq> 0" and w: "register_pmt_ops (always_ok j) (w_map_pid x) w = Some w'"
  shows "\<exists>bm. pat_loop (always_ok j) l (enc_program x @ rest) i (pat, w) =
      pat_loop (always_ok j) (l - 4) rest (Suc i) (pat\<lparr>program_bitmap := bm, pat_h := pat_h pat @ [program_of x]\<rparr>, w') \<and>
    length bm = 1024 \<and> bitmap_abs bm = insert (unat (w_number x)) (bitmap_abs (program_bitmap pat))"
proof -
  have u: "unat (w_number x) < 65536" by (rule order_less_le_trans [OF unsigned_less]) simp
  obtain bm where bm: "bitmap64_set (program_bitmap pat) (unat (w_number x)) = Some bm" "length bm = 1024"
    "bitmap_abs bm = insert (unat (w_number x)) (bitmap_abs (program_bitmap pat))"
    using program_bm.set_abs [OF x(2) u] by auto
  have g: "bitmap64_get (program_bitmap pat) (unat (w_number x)) = Some False"
    using program_bm.get_abs [OF x(2) u] x(3) by simp
  have d: "drop 2 (enc_program x @ rest) = pid13 (w_prog_res x) (w_map_pid x) @ rest" "drop 4 (enc_program x @ rest) = rest"
    by (simp_all add: enc_program_def)
  obtain y where y: "TS_READ16 (drop 2 (enc_program x @ rest)) = Some y" "y AND 0x1FFF = w_map_pid x"
    unfolding d using READ16_pid13 [of "w_prog_res x" "w_map_pid x" rest] x(1) by (auto simp: program_ok_def)
  have r: "TS_READ16 (enc_program x @ rest) = Some (w_number x)"
    by (simp add: enc_program_def READ16_be16_unat)
  have "w_number x \<noteq> 0xFFFF" using x(1) by (simp add: program_ok_def)
  then show ?thesis
    using l bm(2,3)
    by (intro exI [of _ bm], subst pat_loop.simps)
       (simp del: drop_append add: r y g w bm(1) d(2) program_of_def)
qed

lemma pat_loop_programs:
  assumes "world_ok (n + length xs) w" "\<forall>x \<in> set xs. program_ok x" "distinct (map w_number xs)" "4 * length xs < 65536"
    and "length (program_bitmap pat) = 1024" "\<forall>x \<in> set xs. unat (w_number x) \<notin> bitmap_abs (program_bitmap pat)"
  shows "\<exists>pat' w'. pat_loop (always_ok j) (of_nat (4 * length xs)) (concat (map enc_program xs) @ rest) i (pat, w) = Some (0, pat', w') \<and>
    pat_header pat' = pat_header pat \<and> pat_h pat' = pat_h pat @ map program_of xs \<and> world_ok n w' \<and>
    psi_pat_list (wd_psi w') = psi_pat_list (wd_psi w) \<and> psi_pmt (wd_psi w') = psi_pmt (wd_psi w) \<and>
    bitmap_abs (psi_pmt_bitmap (wd_psi w')) = bitmap_abs (psi_pmt_bitmap (wd_psi w)) \<union> pmt_pids xs \<and>
    (\<forall>q. live (wd_filters w' q) = live (wd_filters w q) @ pmt_filters xs q)"
  using assms
proof (induction xs arbitrary: i pat w)
  case Nil
  then show ?case by (simp add: pat_loop.simps pmt_pids_def pmt_filters_def)
next
  case (Cons x xs)
  let ?l = "of_nat (4 * length (x # xs)) :: u16"
  have "unat ?l = 4 * length (x # xs)"
    using Cons.prems(4) by (simp only: unsigned_of_nat) (simp add: take_bit_nat_eq_self)
  then have "unat ?l \<noteq> 0" by simp
  then have l: "?l \<noteq> 0" by (rule contrapos_nn) (simp only: unsigned_0)
  have l': "?l - 4 = of_nat (4 * length xs)" by (simp add: algebra_simps)
  obtain w1 where w1: "register_pmt_ops (always_ok j) (w_map_pid x) w = Some w1" "world_ok (n + length xs) w1"
    "psi_pat_list (wd_psi w1) = psi_pat_list (wd_psi w)" "psi_pmt (wd_psi w1) = psi_pmt (wd_psi w)"
    "bitmap_abs (psi_pmt_bitmap (wd_psi w1)) = bitmap_abs (psi_pmt_bitmap (wd_psi w)) \<union> pmt_pids [x]"
    "\<forall>q. live (wd_filters w1 q) = live (wd_filters w q) @ pmt_filters [x] q"
    using register_program [of "n + length xs" w x j] Cons.prems(1,2) by auto
  obtain bm where bm: "pat_loop (always_ok j) ?l (enc_program x @ concat (map enc_program xs) @ rest) i (pat, w) =
      pat_loop (always_ok j) (of_nat (4 * length xs)) (concat (map enc_program xs) @ rest) (Suc i)
        (pat\<lparr>program_bitmap := bm, pat_h := pat_h pat @ [program_of x]\<rparr>, w1)"
    "length bm = 1024" "bitmap_abs bm = insert (unat (w_number x)) (bitmap_abs (program_bitmap pat))"
    using pat_loop_program [OF _ Cons.prems(5) _ l w1(1), of "concat (map enc_program xs) @ rest" i] Cons.prems(2,6)
    unfolding l' by auto
  let ?pat = "pat\<lparr>program_bitmap := bm, pat_h := pat_h pat @ [program_of x]\<rparr>"
  have new: "\<forall>y \<in> set xs. unat (w_number y) \<notin> bitmap_abs (program_bitmap ?pat)"
    using Cons.prems(3,6) bm(3) by (auto dest!: unsigned_word_eqI intro: rev_image_eqI)
  obtain pat' w' where fin: "pat_loop (always_ok j) (of_nat (4 * length xs)) (concat (map enc_program xs) @ rest) (Suc i) (?pat, w1) = Some (0, pat', w')"
    "pat_header pat' = pat_header pat" "pat_h pat' = pat_h pat @ program_of x # map program_of xs" "world_ok n w'"
    "psi_pat_list (wd_psi w') = psi_pat_list (wd_psi w1)" "psi_pmt (wd_psi w') = psi_pmt (wd_psi w1)"
    "bitmap_abs (psi_pmt_bitmap (wd_psi w')) = bitmap_abs (psi_pmt_bitmap (wd_psi w1)) \<union> pmt_pids xs"
    "\<forall>q. live (wd_filters w' q) = live (wd_filters w1 q) @ pmt_filters xs q"
    using Cons.IH [of w1 ?pat "Suc i"] w1(2) Cons.prems(2-4) bm(2) new by auto
  have "pmt_pids (x # xs) = pmt_pids [x] \<union> pmt_pids xs" "pmt_filters (x # xs) q = pmt_filters [x] q @ pmt_filters xs q" for q
    by (auto simp: pmt_pids_def pmt_filters_def)
  then show ?case
    using bm(1) fin w1(3-6) by auto
qed

lemma version_append:
  "6 \<le> length p \<Longrightarrow> check_section_header_version (p @ stuff) cur = check_section_header_version p cur"
  by (simp add: check_section_header_version_def TS_READ_BIT_def TS_READ8_BITS_def TS_READ8_def rdb_def nth_append)

lemma blk_ptr_bytes: "blk_bytes b = Some p \<Longrightarrow> blk_ptr b = p"
  by (auto simp: blk_bytes_def blk_ptr_def split: blk.splits)

lemma parse_pat_law:
  assumes p: "p = hdr @ concat (map enc_program xs) @ crc" and sz: "length hdr = 8" "length crc = 4"
    and sec: "single_section p" "section_size p = length p" "unat buf_size = length p"
    and ver: "check_section_header_version p (if psi_pat_list (wd_psi w) = [] then 0x1F
        else th_version (pat_header (last (psi_pat_list (wd_psi w))))) = Some 1"
    and xs: "\<forall>x \<in> set xs. program_ok x" "distinct (map w_number xs)"
    and w: "world_ok (n + length xs) w"
  shows "\<exists>w' pat. parse_pat (always_ok j) (p @ stuff) buf_size w = Some (0, w') \<and> world_ok n w' \<and>
    psi_pat_list (wd_psi w') = psi_pat_list (wd_psi w) @ [pat] \<and> pat_h pat = map program_of xs \<and>
    TS_READ16 (drop 3 p) = Some (th_table_id_ext (pat_header pat)) \<and> psi_pmt (wd_psi w') = psi_pmt (wd_psi w) \<and>
    bitmap_abs (psi_pmt_bitmap (wd_psi w')) = bitmap_abs (psi_pmt_bitmap (wd_psi w)) \<union> pmt_pids xs \<and>
    (\<forall>q. live (wd_filters w' q) = live (wd_filters w q) @ pmt_filters xs q)"
proof -
  have ver': "check_section_header_version (p @ stuff) (if psi_pat_list (wd_psi w) = [] then 0x1F
        else th_version (pat_header (last (psi_pat_list (wd_psi w))))) = Some 1"
    using ver sec(1) by (simp add: version_append single_section_def)
  let ?e = "concat (map enc_program xs)" and ?h = "zero_header\<lparr>th_version := 0x1F\<rparr>"
  have h: "header_ok ?h" "0 \<notin> bitmap_abs (th_bitmap ?h)"
    using header_ok_zero by (simp_all add: header_ok_def)
  obtain h' t where h': "parse_section_header (always_ok j) (p @ stuff) buf_size ?h = Some (0, h')"
    "blk_bytes (th_data h') = Some (drop 8 p @ t)" "uint (th_section_length h') = int (length p) - 3" "length p \<le> 0x400"
    "TS_READ16 (drop 3 p) = Some (th_table_id_ext h')"
    using single_section_body [OF sec h, of j stuff] by metis
  have e: "length ?e = 4 * length xs"
    by (induction xs) (simp_all add: enc_program_def)
  have len: "length p = 12 + 4 * length xs" using sz by (simp add: p e)
  have l: "th_section_length h' - 9 = of_nat (4 * length xs)"
  proof -
    have "th_section_length h' = word_of_int (int (length p) - 3)"
      unfolding h'(3) [symmetric] by simp
    then show ?thesis using len by simp
  qed
  have q: "blk_ptr (th_data h') = ?e @ crc @ t"
    using blk_ptr_bytes [OF h'(2)] sz(1) by (simp add: p)
  let ?pat = "zero_pat\<lparr>pat_header := h'\<rparr>"
  have pat: "length (program_bitmap ?pat) = 1024" "\<forall>x \<in> set xs. unat (w_number x) \<notin> bitmap_abs (program_bitmap ?pat)"
    by (simp_all add: zero_pat_def)
  have "4 * length xs < 65536" using h'(4) len by simp
  from pat_loop_programs [OF w xs this pat, of j "crc @ t" 0] obtain pat' w' where
    loop: "pat_loop (always_ok j) (of_nat (4 * length xs)) (?e @ crc @ t) 0 (?pat, w) = Some (0, pat', w')"
    "pat_header pat' = h'" "pat_h pat' = map program_of xs" "world_ok n w'" "psi_pmt (wd_psi w') = psi_pmt (wd_psi w)"
    "bitmap_abs (psi_pmt_bitmap (wd_psi w')) = bitmap_abs (psi_pmt_bitmap (wd_psi w)) \<union> pmt_pids xs"
    "\<forall>q. live (wd_filters w' q) = live (wd_filters w q) @ pmt_filters xs q"
    by (auto simp: zero_pat_def)
  let ?w' = "w'\<lparr>wd_psi := (wd_psi w')\<lparr>psi_pat_list := psi_pat_list (wd_psi w) @ [pat']\<rparr>\<rparr>"
  have "parse_pat (always_ok j) (p @ stuff) buf_size w = Some (0, ?w')"
    unfolding parse_pat_def in_node_always_ok Let_def ver' Option.bind_lunit
    using h'(1) loop(1) by (simp add: q l)
  moreover have "world_ok n ?w'" using loop(4) by (simp add: world_ok_def)
  ultimately show ?thesis
    using loop(2,3,5-7) h'(5) by (intro exI [of _ ?w'] exI [of _ pat']) simp
qed

text \<open>
  C6. A program association table of one section and a new version is read back as it was
  written: a new table with the programs in order is appended to the list of tables, and every
  PID that carries a program map gets a PMT filter behind the filters it has (one per program,
  none for the network PID) and its bit in the PMT bitmap; the state stays consistent.
\<close>

theorem parse_pat_registers:
  assumes p: "p = hdr @ concat (map enc_program xs) @ crc" and sz: "length hdr = 8" "length crc = 4"
    and sec: "single_section p" "section_size p = length p" "unat buf_size = length p"
    and ver: "check_section_header_version p (if psi_pat_list (wd_psi w) = [] then 0x1F
        else th_version (pat_header (last (psi_pat_list (wd_psi w))))) = Some 1"
    and xs: "\<forall>x \<in> set xs. program_ok x" "distinct (map w_number xs)"
    and w: "world_ok (n + length xs) w"
  shows "\<exists>w' pat. parse_pat (always_ok j) (p @ stuff) buf_size w = Some (0, w') \<and> world_ok n w' \<and>
    psi_pat_list (wd_psi w') = psi_pat_list (wd_psi w) @ [pat] \<and> pat_h pat = map program_of xs \<and>
    TS_READ16 (drop 3 p) = Some (th_table_id_ext (pat_header pat)) \<and> psi_pmt (wd_psi w') = psi_pmt (wd_psi w) \<and>
    bitmap_abs (psi_pmt_bitmap (wd_psi w')) = bitmap_abs (psi_pmt_bitmap (wd_psi w)) \<union> pmt_pids xs \<and>
    (\<forall>q. live (wd_filters w' q) = live (wd_filters w q) @ pmt_filters xs q)"
  using assms by (rule parse_pat_law)

text \<open>A PAT with the network PID and program 1 on PID 0x100.\<close>

theorem parse_pat_registers_witness:
  "\<exists>w' pat. parse_pat (always_ok (\<lambda>_. 0)) ([0, 0xB0, 17, 0, 1, 0xC1, 0, 0, 0, 0, 0xE0, 0x10, 0, 1, 0xE1, 0, 1, 2, 3, 4] @ [0xFF]) 20
      (static_world () :: (unit, unit) world) = Some (0, w') \<and> world_ok 0 w' \<and>
    psi_pat_list (wd_psi w') = [pat] \<and>
    pat_h pat = [\<lparr>pn_program_number = 0, pn_program_map_PID = 0x10\<rparr>, \<lparr>pn_program_number = 1, pn_program_map_PID = 0x100\<rparr>] \<and>
    bitmap_abs (psi_pmt_bitmap (wd_psi w')) = {0x100} \<and> length (live (wd_filters w' 0x100)) = 1"
proof -
  let ?xs = "[\<lparr>w_number = 0, w_prog_res = 7, w_map_pid = 0x10\<rparr>, \<lparr>w_number = 1, w_prog_res = 7, w_map_pid = 0x100\<rparr>]"
  let ?w = "static_world () :: (unit, unit) world"
  let ?p = "[0, 0xB0, 17, 0, 1, 0xC1, 0, 0, 0, 0, 0xE0, 0x10, 0, 1, 0xE1, 0, 1, 2, 3, 4] :: bytes"
  have p: "?p = [0, 0xB0, 17, 0, 1, 0xC1, 0, 0] @ concat (map enc_program ?xs) @ [1, 2, 3, 4]"
    by (simp add: be16_def enc_program_def pid13_def)
  have w: "world_ok (0 + length ?xs) ?w" by (rule world_ok_static) (simp add: filter_consts)
  have l: "psi_pat_list (wd_psi ?w) = []" "psi_pmt_bitmap (wd_psi ?w) = replicate 128 0" "wd_filters ?w = static_pid_filter"
    by (simp_all add: static_world_def psi_table_init_def)
  have ver: "check_section_header_version ?p 0x1F = Some 1"
    by (simp add: check_section_header_version_def TS_READ_BIT_def TS_READ8_BITS_def TS_READ8_def bits_at_def rdb_def
        mask_eq_exp_minus_1)
  have s: "single_section ?p" "section_size ?p = length ?p" "\<forall>x \<in> set ?xs. program_ok x" "distinct (map w_number ?xs)"
    by (simp_all add: single_section_def section_size_def program_ok_def)
  show ?thesis
    using parse_pat_registers [where w = ?w and buf_size = 20 and j = "\<lambda>_. 0" and stuff = "[0xFF]", OF p _ _ s(1,2) _ _ s(3,4) w] ver
    by (fastforce simp: l live_static pmt_pids_def pmt_filters_def program_of_def NIT_PID_def)
qed

section \<open>Conditional access table\<close>

text \<open>
  C35. Before the first conditional access table is stored, a section that the version check does
  not take for a new table makes \<open>cat_proc\<close> follow the null pointer \<open>psi.cat\<close>: one with a short
  header, and one whose version byte reads as 31, which is how the versions 30 and 31 read.
\<close>

theorem cat_proc_null:
  assumes "psi_cat_list (wd_psi w) = []" "6 \<le> length pkt"
    and "\<not> bit (pkt ! 1) 7 \<or> bit (pkt ! 5) 6 \<and> 30 \<le> unat (pkt ! 5) div 2 mod 32"
  shows "cat_proc e hs pkt len w = None"
proof -
  have "TS_READ_BIT (drop 1 pkt) 7 = Some (if bit (pkt ! 1) 7 then 1 else 0)"
    using assms(2) by (subst READ_BIT_1) simp_all
  moreover have "TS_READ8_BITS (drop 5 pkt) 5 1 = Some 0x1F" if "bit (pkt ! 1) 7"
  proof -
    obtain ver where v: "TS_READ8_BITS (drop 5 pkt) 5 1 = Some ver"
      "unat ver = (if bit (pkt ! 5) 6 then 16 else 0) + unat (pkt ! 5) div 2 mod 32 div 2"
      using version_field [OF assms(2)] by blast
    have "unat (pkt ! 5) div 2 mod 32 = 30 \<or> unat (pkt ! 5) div 2 mod 32 = 31"
      using assms(3) that mod_less_divisor [of 32 "unat (pkt ! 5) div 2"] by linarith
    then have "unat ver = unat (0x1F :: u8)" using v(2) assms(3) that by auto
    then have "ver = 0x1F" by (rule unsigned_word_eqI)
    then show ?thesis using v(1) by simp
  qed
  ultimately have "check_section_header_version pkt 0x1F = Some 0"
    by (auto simp: check_section_header_version_def)
  then show ?thesis
    using assms(1) by (simp add: cat_proc_def parse_cat_def counted_def)
qed

theorem cat_proc_null_witness:
  "cat_proc (always_ok (\<lambda>_. 0)) plain_handlers [1, 0xB0, 9, 0xFF, 0xFF, 0xFD, 0, 0, 1, 2, 3, 4] 12 (static_world ()) = None"
  by (rule cat_proc_null) (simp_all add: static_world_def psi_table_init_def)

section \<open>Start\<close>

text \<open>The filters that a list of registrations adds to the PID \<open>q\<close>.\<close>

definition filters_on :: "(u16 \<times> u8 \<times> u8 \<times> filter_cb) list \<Rightarrow> u16 \<Rightarrow> filter_cb filter_t list" where
  "filters_on qs q = [stored_filter pid (table_para tid m) cb. (pid, tid, m, cb) \<leftarrow> qs, pid = q]"

lemma init_filters_law:
  assumes "tab_ok fs" "\<forall>x \<in> set qs. unat (fst x) < 8192" "\<forall>q. length (live (fs q)) + length (filters_on qs q) \<le> NUM_FILTER_MAX"
  shows "\<exists>fs'. init_filters (always_ok j) i qs fs = Some fs' \<and> tab_ok fs' \<and> (\<forall>q. live (fs' q) = live (fs q) @ filters_on qs q)"
  using assms
proof (induction qs arbitrary: i fs)
  case Nil
  then show ?case by (simp add: filters_on_def)
next
  case (Cons x qs)
  obtain pid tid m cb where x: "x = (pid, tid, m, cb)" by (cases x)
  have "length (live (fs pid)) + length (filters_on (x # qs) pid) \<le> NUM_FILTER_MAX" using Cons.prems(3) by blast
  then have r: "length (live (fs pid)) < NUM_FILTER_MAX" by (simp add: filters_on_def x)
  have pid: "unat pid < 8192" using Cons.prems(2) x by auto
  obtain fs1 where fs1: "init_table_filter (always_ok j) pid tid m cb fs = Some fs1" "tab_ok fs1"
    "\<forall>q. live (fs1 q) = (if q = pid then live (fs q) @ [stored_filter pid (table_para tid m) cb] else live (fs q))"
    using init_table_filter_law [OF Cons.prems(1) pid r, of j tid m cb] by blast
  have on: "live (fs1 q) @ filters_on qs q = live (fs q) @ filters_on (x # qs) q" for q
    using fs1(3) by (auto simp: filters_on_def x)
  then have "length (live (fs1 q)) + length (filters_on qs q) = length (live (fs q)) + length (filters_on (x # qs) q)" for q
    by (metis length_append)
  then have "\<exists>fs'. init_filters (always_ok j) (Suc i) qs fs1 = Some fs' \<and> tab_ok fs' \<and> (\<forall>q. live (fs' q) = live (fs1 q) @ filters_on qs q)"
    using Cons.prems(2,3) by (intro Cons.IH fs1(2)) auto
  then show ?case using fs1(1) on by (auto simp: x)
qed

text \<open>The PIDs of the configuration, in order.\<close>

definition selected :: "(u16 \<Rightarrow> bool) \<Rightarrow> u16 list" where
  "selected pids = filter pids (map of_nat [0..<8191])"

lemma unat_of_nat_13: "n < 8192 \<Longrightarrow> unat (of_nat n :: u16) = n"
  by (simp only: unsigned_of_nat) (simp add: take_bit_nat_eq_self)

lemma set_selected: "set (selected pids) = {q. unat q < 8191 \<and> pids q}"
proof -
  have "q \<in> of_nat ` {0..<8191} \<longleftrightarrow> unat q < 8191" for q :: u16
  proof
    assume "q \<in> of_nat ` {0..<8191}"
    then show "unat q < 8191" by (auto simp: unat_of_nat_13)
  next
    assume "unat q < 8191"
    then show "q \<in> of_nat ` {0..<8191}" by (intro image_eqI [of _ _ "unat q"]) auto
  qed
  then show ?thesis by (auto simp: selected_def)
qed

lemma distinct_selected: "distinct (selected pids)"
proof -
  have "inj_on (of_nat :: nat \<Rightarrow> u16) {0..<8191}"
    by (rule inj_on_inverseI [where g = unat]) (simp add: unat_of_nat_13)
  then show ?thesis by (simp add: selected_def distinct_map)
qed

lemma filters_on_default:
  "distinct ps \<Longrightarrow> filters_on (map (\<lambda>p. (p, 0, 0, Default_proc)) ps) q =
    (if q \<in> set ps then [stored_filter q (table_para 0 0) Default_proc] else [])"
  by (induction ps) (auto simp: filters_on_def)

lemmas table_pids = PAT_PID_def CAT_PID_def TSDT_PID_def NIT_PID_def SDT_PID_def BAT_PID_def EIT_PID_def TDT_PID_def
  TOT_PID_def MGT_PID_def

lemma length_table_filters: "length (filters_on table_filters q) \<le> 9"
  by (simp add: filters_on_def table_filters_def table_pids)

lemma table_filters_pids: "\<forall>x \<in> set table_filters. unat (fst x) < 8192"
  by (simp add: table_filters_def table_pids)

lemma init_table_ops_law:
  assumes w: "world_ok NUM_FILTER_MAX w"
  shows "\<exists>w'. init_table_ops (always_ok j) pids at0 w = Some w' \<and> world_ok (NUM_FILTER_MAX - 9) w' \<and>
    psi_pat_list (wd_psi w') = [] \<and> bitmap_abs (psi_pmt_bitmap (wd_psi w')) = {} \<and>
    (if \<exists>p. unat p < 8191 \<and> pids p
     then bitmap_abs (psi_section_bitmap (wd_psi w')) = {} \<and>
       (\<forall>q. live (wd_filters w' q) = (if unat q < 8191 \<and> pids q then [stored_filter q (table_para 0 0) Default_proc] else []))
     else bitmap_abs (psi_section_bitmap (wd_psi w')) = {unat MGT_PID} \<and>
       (\<forall>q. live (wd_filters w' q) = filters_on table_filters q))"
proof -
  let ?sel = "map (\<lambda>p. (p, 0, 0, Default_proc)) (selected pids)" and ?w = "w\<lparr>wd_psi := psi_table_init, wd_atsc := at0\<rparr>"
  have tab: "tab_ok (wd_filters w)" using w by (simp add: world_ok_def)
  have "length (live (wd_filters w q)) + NUM_FILTER_MAX \<le> NUM_FILTER_MAX" for q
    using w unfolding world_ok_def by blast
  then have empty: "live (wd_filters w q) = []" for q by simp
  have on: "filters_on ?sel q = (if unat q < 8191 \<and> pids q then [stored_filter q (table_para 0 0) Default_proc] else [])" for q
    by (simp add: filters_on_default distinct_selected set_selected)
  have r0: "\<forall>q. length (live (wd_filters w q)) + length (filters_on ?sel q) \<le> NUM_FILTER_MAX"
    by (simp add: empty on filter_consts)
  have p0: "\<forall>x \<in> set ?sel. unat (fst x) < 8192" by (auto simp: set_selected)
  obtain fs where fs: "init_filters (always_ok j) 0 ?sel (wd_filters w) = Some fs" "tab_ok fs" "\<forall>q. live (fs q) = filters_on ?sel q"
    using init_filters_law [OF tab p0 r0, of j 0] by (auto simp: empty)
  have base: "world_ok n (?w\<lparr>wd_filters := g, wd_psi := psi_table_init\<lparr>psi_section_bitmap := bm\<rparr>\<rparr>)"
    if "tab_ok g" "\<forall>q. length (live (g q)) \<le> 9" "length bm = 128" "n = NUM_FILTER_MAX - 9" for n g bm
    using w that by (simp add: world_ok_def psi_table_init_def filter_consts)
  have z: "length (psi_section_bitmap psi_table_init) = 128" "psi_pat_list psi_table_init = []"
    "bitmap_abs (psi_pmt_bitmap psi_table_init) = {}" "bitmap_abs (psi_section_bitmap psi_table_init) = {}"
    by (simp_all add: psi_table_init_def)
  show ?thesis
  proof (cases "selected pids = []")
    case False
    then have ex: "\<exists>p. unat p < 8191 \<and> pids p" using set_selected [of pids] by (auto simp: neq_Nil_conv)
    have "init_table_ops (always_ok j) pids at0 w = Some (?w\<lparr>wd_filters := fs\<rparr>)"
      using fs(1) False by (simp add: init_table_ops_def Let_def selected_def)
    moreover have "\<forall>q. length (live (fs q)) \<le> 9" by (simp add: fs(3) on)
    then have "world_ok (NUM_FILTER_MAX - 9) (?w\<lparr>wd_filters := fs\<rparr>)"
      using base [OF fs(2) _ z(1) refl] by (simp add: world_ok_def)
    ultimately show ?thesis
      using ex fs(3) z by (simp add: on)
  next
    case True
    then have ex: "\<not> (\<exists>p. unat p < 8191 \<and> pids p)" using set_selected [of pids] by auto
    then have fs0: "live (fs q) = []" for q using fs(3) on [of q] by auto
    have rm: "length (filters_on table_filters q) \<le> NUM_FILTER_MAX" for q
      using length_table_filters [of q] by (simp add: filter_consts)
    obtain gs where gs: "init_filters (always_ok j) 8191 table_filters fs = Some gs" "tab_ok gs"
      "\<forall>q. live (gs q) = filters_on table_filters q"
      using init_filters_law [OF fs(2) table_filters_pids, of j 8191] rm by (auto simp: fs0)
    obtain bm where bm: "bitmap64_set (psi_section_bitmap psi_table_init) (unat MGT_PID) = Some bm" "length bm = 128"
      "bitmap_abs bm = {unat MGT_PID}"
      using pid_bm.set_abs [OF z(1), of "unat MGT_PID"] z(4) by (auto simp: MGT_PID_def)
    have "init_table_ops (always_ok j) pids at0 w =
        Some (?w\<lparr>wd_filters := gs, wd_psi := psi_table_init\<lparr>psi_section_bitmap := bm\<rparr>\<rparr>)"
      using fs(1) True gs(1) bm(1) by (simp add: init_table_ops_def Let_def selected_def)
    then show ?thesis
      using ex gs(2,3) base [OF gs(2) _ bm(2) refl] z bm(3) length_table_filters by auto
  qed
qed



end
