(* ===== verification/Ts.thy ===== *)
theory Ts
  imports Psi_Tables Ts_Probe
begin

unbundle bit_operations_syntax

text \<open>
  Transport packets (\<^verbatim>\<open>src/ts.c\<close>): the packet header, the adaptation field with the bit rate
  computed from the PCR, and the way of a payload through reassembly into the filters.
\<close>

section \<open>State\<close>

record pid_ops =
  pkts_in :: u64
  sections_in :: u64
  error_in :: u64
  bits_in :: u64
  pd_pcr :: u64
  pd_bitrate :: u64

definition static_pid_dev :: "u16 \<Rightarrow> pid_ops" where
  "static_pid_dev = (\<lambda>_. \<lparr>pkts_in = 0, sections_in = 0, error_in = 0, bits_in = 0, pd_pcr = 0, pd_bitrate = 0\<rparr>)"

definition BASE_CLK :: u64 where "BASE_CLK = 27000000"
definition TS_SYNC_BYTE :: u8 where "TS_SYNC_BYTE = 0x47"
definition NULL_PID :: u16 where "NULL_PID = 0x1FFF"

definition ADAPT_RESERVED :: u8 where "ADAPT_RESERVED = 0"
definition ADAPT_ONLY :: u8 where "ADAPT_ONLY = 2"
definition ADAPT_BOTH :: u8 where "ADAPT_BOTH = 3"

record tsa_config =
  cf_pids :: "u16 \<Rightarrow> bool"
  cf_detail :: bool

text \<open>The static variables of the program; \<open>sec\<close>, \<open>pid_dev\<close> and those of the tables.\<close>

record ('sub, 'at) ts_state =
  st_sec :: sec_tab
  st_pid_dev :: "u16 \<Rightarrow> pid_ops"
  st_world :: "('sub, 'at) world"

section \<open>Adaptation field\<close>

text \<open>
  The base of the clock is a bit field of 33 bits.  The type of a bit field in an expression is
  implementation-defined: \<open>bw\<close> is the width of the product, 33 with GCC, 64 with Clang and MSVC.
\<close>

definition calc_pcr_clock :: "nat \<Rightarrow> u64 \<times> u64 \<Rightarrow> u64" where
  "calc_pcr_clock bw pcr = (case pcr of (base, ext) \<Rightarrow> take_bit bw (base * 300 + ext))"

text \<open>The rate since the last clock; a clock that has not moved is a division by zero.\<close>

definition calc_bitrate :: "nat \<Rightarrow> u8 \<Rightarrow> u64 \<times> u64 \<Rightarrow> pid_ops \<Rightarrow> pid_ops option" where
  "calc_bitrate bw pkt_len pcr_c d = (let
     pcr = calc_pcr_clock bw pcr_c;
     bits = pkts_in d * ucast pkt_len * 8 in
     if pcr - pd_pcr d = 0 then None
     else Some (d\<lparr>pd_pcr := pcr, bits_in := bits,
                 pd_bitrate := (bits - bits_in d) * BASE_CLK div (pcr - pd_pcr d)\<rparr>))"

definition read_pcr :: "bytes \<Rightarrow> (u64 \<times> u64) option" where
  "read_pcr ptr = do {
     a \<leftarrow> TS_READ32 ptr;
     b \<leftarrow> rdb ptr 4;
     x \<leftarrow> TS_READ16 (drop 4 ptr);
     Some (push_bit 1 (ucast a) OR ucast (drop_bit 7 b), ucast x AND 0x1FF) }"

text \<open>The remaining pointer and length, with a field of a length byte and that many bytes skipped.\<close>

definition skip_counted :: "bytes \<times> u8 \<Rightarrow> (bytes \<times> u8) option" where
  "skip_counted pl = (case pl of (ptr, l) \<Rightarrow> do {
     n \<leftarrow> TS_READ8 ptr;
     Some (drop (1 + unat n) ptr, l - 1 - n) })"

definition ts_adaptation_field_proc :: "nat \<Rightarrow> u8 \<Rightarrow> bytes \<Rightarrow> u8 \<Rightarrow> pid_ops \<Rightarrow> (int \<times> pid_ops) option" where
  "ts_adaptation_field_proc bw pkt_len data len d = do {
     flags \<leftarrow> TS_READ8 data;
     let ptr = drop 1 data;
     let l = len - 1;
     (ptr, l, d) \<leftarrow>
       (if bit flags 4 then do {
          pcr \<leftarrow> read_pcr ptr;
          d \<leftarrow> calc_bitrate bw pkt_len pcr d;
          Some (drop 6 ptr, l - 6, d) }
        else Some (ptr, l, d));
     (ptr, l) \<leftarrow> (if bit flags 3 then do { opcr \<leftarrow> read_pcr ptr; Some (drop 6 ptr, l - 6) } else Some (ptr, l));
     let (ptr, l) = (if bit flags 2 then (drop 1 ptr, l - 1) else (ptr, l));
     (ptr, l) \<leftarrow> (if bit flags 1 then skip_counted (ptr, l) else Some (ptr, l));
     (ptr, l) \<leftarrow> (if bit flags 0 then skip_counted (ptr, l) else Some (ptr, l));
     Some (if l \<noteq> 0 then -1 else 0, d) }"

section \<open>One packet\<close>

text \<open>Whether the payload of a PID is taken as sections, and whether it is looked at at all.\<close>

definition is_psi :: "u16 \<Rightarrow> ('sub, 'at) world \<Rightarrow> bool option" where
  "is_psi pid w =
     (if pid < 0x20 then Some True
      else do {
        a \<leftarrow> check_pmt_pid pid (wd_psi w);
        if a then Some True else check_section_pid pid (wd_psi w) })"

text \<open>
  The payload.  \<open>section_preproc\<close> gives its buffer whenever it gives a length, so the filters
  never get a null pointer.
\<close>

definition proc_payload ::
  "alloc_env \<Rightarrow> tsa_config \<Rightarrow> ('sub, 'at) handlers \<Rightarrow> u16 \<Rightarrow> u8 \<Rightarrow> u8 \<Rightarrow> bytes \<Rightarrow> u8 \<Rightarrow> ('sub, 'at) ts_state \<Rightarrow>
   (int \<times> ('sub, 'at) ts_state) option" where
  "proc_payload e cfg hs pid pusi cc ptr len st = do {
     psi \<leftarrow> is_psi pid (st_world st);
     es \<leftarrow> (if psi then Some True else check_es_pid (cf_detail cfg) (wd_pes (st_world st)) pid);
     if \<not> es then Some (-1, st)
     else do {
       (sec_len, pbuf, sec) \<leftarrow> section_preproc (in_node e 0) (st_sec st) pid ptr (ucast len) pusi cc
         (if psi then TS_IS_PSI else TS_IS_PES);
       let st = st\<lparr>st_sec := sec\<rparr>;
       if sec_len = -1 \<or> sec_len = 0 then Some (0, st)
       else do {
         let st = st\<lparr>st_pid_dev := (st_pid_dev st)(pid := (st_pid_dev st pid)\<lparr>sections_in := sections_in (st_pid_dev st pid) + 1\<rparr>)\<rparr>;
         buf \<leftarrow> pbuf;
         (_, w) \<leftarrow> filter_proc wd_filters (invoke (in_node e 1) hs) pid buf (word_of_int sec_len) (st_world st);
         Some (0, st\<lparr>st_world := w\<rparr>) } } }"

text \<open>
  \<open>data\<close> is the memory from the packet on: what the length fields of a packet lead to behind its
  end is read from there.
\<close>

definition ts_proc ::
  "alloc_env \<Rightarrow> nat \<Rightarrow> tsa_config \<Rightarrow> ('sub, 'at) handlers \<Rightarrow> bytes \<Rightarrow> u8 \<Rightarrow> ('sub, 'at) ts_state \<Rightarrow>
   (int \<times> ('sub, 'at) ts_state) option" where
  "ts_proc e bw cfg hs data len st = do {
     sync \<leftarrow> rdb data 0;
     if sync \<noteq> TS_SYNC_BYTE then Some (-1, st)
     else do {
       x \<leftarrow> TS_READ16 (drop 1 data);
       y \<leftarrow> TS_READ8 (drop 1 data);
       z \<leftarrow> TS_READ8 (drop 3 data);
       let pid = x AND 0x1FFF;
       let tei = drop_bit 7 y AND 1;
       let pusi = drop_bit 6 y AND 1;
       let afc = drop_bit 4 z AND 3;
       let cc = z AND 3;
       let d = (st_pid_dev st pid)\<lparr>pkts_in := pkts_in (st_pid_dev st pid) + 1\<rparr>;
       (ptr, l, d) \<leftarrow>
         (if afc = ADAPT_ONLY \<or> afc = ADAPT_BOTH then do {
            n \<leftarrow> TS_READ8 (drop 4 data);
            (_, d) \<leftarrow> ts_adaptation_field_proc bw len (drop 5 data) n d;
            Some (drop (5 + unat n) data, len - 5 - n, d) }
          else Some (drop 4 data, len - 4, d));
       if afc = ADAPT_ONLY \<or> afc = ADAPT_RESERVED then Some (0, st\<lparr>st_pid_dev := (st_pid_dev st)(pid := d)\<rparr>)
       else do {
         let d = (if tei = 1 then d\<lparr>error_in := error_in d + 1\<rparr> else d);
         let st = st\<lparr>st_pid_dev := (st_pid_dev st)(pid := d)\<rparr>;
         if pid = NULL_PID then Some (0, st)
         else proc_payload e cfg hs pid pusi cc ptr l st } } }"

section \<open>Start and end\<close>

definition init_pid_processor :: "alloc_env \<Rightarrow> tsa_config \<Rightarrow> 'at \<Rightarrow> ('sub, 'at) ts_state \<Rightarrow> ('sub, 'at) ts_state option" where
  "init_pid_processor e cfg at0 st = do {
     let w = (st_world st)\<lparr>wd_filters := filter_init (wd_filters (st_world st))\<rparr>;
     w \<leftarrow> init_table_ops e (cf_pids cfg) at0 w;
     Some (st\<lparr>st_world := w\<rparr>) }"

definition uninit_pid_processor :: "('sub, 'at) ts_state \<Rightarrow> ('sub, 'at) ts_state option" where
  "uninit_pid_processor st = do {
     fs \<leftarrow> uninit_table_ops (wd_filters (st_world st));
     Some (st\<lparr>st_world := (st_world st)\<lparr>wd_filters := fs\<rparr>, st_sec := uninit_section_parser (st_sec st)\<rparr>) }"

section \<open>A section in one packet\<close>

text \<open>A PID with one filter, for one table id: the filter runs on the sections of this table.\<close>

lemma filter_proc_single:
  assumes ok: "tab_ok (getf s)" and pid: "unat pid < 8192" and l: "live (getf s pid) = [t]"
    and t: "direct t" "f_callback t = Some cb" and data: "data \<noteq> []"
  shows "filter_proc getf invk pid data len s =
    map_option (Pair 0) (if unat (data ! 0) = tid_of t then invk cb pid data len s else Some s)"
proof -
  let ?h = "getf s pid" and ?d = "unat (data ! 0)"
  have wf: "head_wf pid ?h" and st: "num ?h \<noteq> 0 \<longrightarrow> in_step ?h"
    using ok pid by (auto simp: tab_ok_def filter_consts)
  have n: "num ?h = 1" using length_live [OF wf] l by simp
  then have st: "in_step ?h" using st by simp
  have s0: "slots ?h ! 0 = t" using live_nth [of 0 ?h] n l by simp
  have "multi (filter_rebuild ?h) = False"
    using l t(1) tid_of_less [of t]
    by (simp add: filter_rebuild_def live_def rebuild_slot_def direct_def tid_of_def Let_def split: prod.splits)
  then have m: "\<not> multi ?h" using st by (simp add: in_step_def)
  have d: "?d < 256" by (rule order_less_le_trans [OF unsigned_less]) simp
  have r: "rdb data 0 = Some (data ! 0)" using data by (simp add: rdb_def)
  have "\<forall>i<256. if tidmap ?h ! i = 0xFFFF then \<forall>j<length [t]. tid_of ([t] ! j) \<noteq> i
      else unat (tidmap ?h ! i) < length [t] \<and> (\<forall>j<length [t]. tid_of ([t] ! j) = i \<longleftrightarrow> j = unat (tidmap ?h ! i))"
    using in_step_exact [OF wf st m] unfolding map_exact_def l by blast
  from this [rule_format, OF d]
  have ex: "if tidmap ?h ! ?d = 0xFFFF then tid_of t \<noteq> ?d else unat (tidmap ?h ! ?d) = 0 \<and> tid_of t = ?d"
    by (auto split: if_splits)
  show ?thesis
  proof (cases "tidmap ?h ! ?d = 0xFFFF")
    case True
    then show ?thesis using ex pid n m r by (simp del: rdb_Some_iff add: Let_def filter_proc_def pid_filter_def filter_consts)
  next
    case False
    then have "tidmap ?h ! ?d = 0" using ex by (metis unat_eq_zero)
    then show ?thesis
      using False ex pid n m r t(2) s0
      by (cases "invk cb pid data len s") (auto simp del: rdb_Some_iff simp: Let_def filter_proc_def pid_filter_def filter_consts call_slot_def)
  qed
qed

text \<open>A packet with a whole section: no adaptation field, pointer field 0.\<close>

definition section_packet :: "u16 \<Rightarrow> nat \<Rightarrow> bytes \<Rightarrow> bytes \<Rightarrow> bytes" where
  "section_packet pid cc s stuff = 0x47 # pid13 2 pid @ [of_nat (16 + cc), 0] @ s @ stuff"

lemma section_packet_header:
  fixes s stuff :: bytes
  assumes pid: "unat pid < 8192" and cc: "cc < 16"
  defines "p \<equiv> section_packet pid cc s stuff"
  obtains x y where "rdb p 0 = Some 0x47" "TS_READ16 (drop 1 p) = Some x" "x AND 0x1FFF = pid"
    "TS_READ8 (drop 1 p) = Some y" "drop_bit 7 y AND 1 = 0" "drop_bit 6 y AND 1 = 1"
    "TS_READ8 (drop 3 p) = Some (of_nat (16 + cc))" "drop_bit 4 (of_nat (16 + cc) :: u8) AND 3 = 1" "drop 4 p = 0 # s @ stuff"
proof -
  let ?y = "of_nat (64 + unat pid div 256) :: u8"
  have d: "drop 1 p = pid13 2 pid @ [of_nat (16 + cc), 0] @ s @ stuff" "drop 3 p = of_nat (16 + cc) # 0 # s @ stuff"
    "drop 4 p = 0 # s @ stuff"
    by (simp_all add: p_def section_packet_def drop_Cons')
  obtain x where x: "TS_READ16 (drop 1 p) = Some x" "x AND 0x1FFF = pid"
    unfolding d using READ16_pid13 [of 2 pid] pid by auto
  have e: "(2 * 8192 + unat pid) div 256 = 64 + unat pid div 256" by linarith
  have y: "TS_READ8 (drop 1 p) = Some ?y"
    unfolding d pid13_def be16_def e by (simp add: TS_READ8_def)
  have u: "unat ?y = 64 + unat pid div 256" "unat (of_nat (16 + cc) :: u8) = 16 + cc"
    using pid cc by (simp_all only: unsigned_of_nat) (simp_all add: take_bit_nat_eq_self)
  have "bit (unat ?y) 7 = bit ?y 7" "bit (unat ?y) 6 = bit ?y 6" by (simp_all add: bit_unsigned_iff)
  moreover have "(64 + unat pid div 256) div 64 = 1" "(64 + unat pid div 256) div 128 = 0" using pid by simp_all
  ultimately have "\<not> bit ?y 7" "bit ?y 6" unfolding u bit_iff_odd by auto
  then have b: "drop_bit 7 ?y AND 1 = 0" "drop_bit 6 ?y AND 1 = 1"
    by (simp_all add: and_one_eq mod_2_eq_odd bit_iff_odd_drop_bit)
  have m: "(3 :: u8) = mask 2" by (simp add: mask_eq_exp_minus_1)
  have "unat (drop_bit 4 (of_nat (16 + cc) :: u8) AND 3) = unat (1 :: u8)"
    unfolding m take_bit_eq_mask [symmetric] unsigned_take_bit_eq unsigned_drop_bit_eq u
    using cc by (simp add: drop_bit_eq_div take_bit_eq_mod)
  then have a: "drop_bit 4 (of_nat (16 + cc) :: u8) AND 3 = 1" by (rule unsigned_word_eqI)
  have "rdb p 0 = Some 0x47" "TS_READ8 (drop 3 p) = Some (of_nat (16 + cc))"
    unfolding d by (simp_all add: p_def section_packet_def rdb_def TS_READ8_def)
  with x y b a d(3) show thesis by (intro that)
qed

lemma start_psi_whole:
  assumes "3 \<le> length s" "section_size s = length s" "length s \<le> 183"
  shows "\<exists>p'. start_psi e p (0 # s @ stuff) 184 = Some (int (length s), Some (s @ stuff), p')"
proof -
  have rd: "rdb (0 # s @ stuff) 0 = Some 0" "rdb (0 # s @ stuff) (2 + 0) = Some (s ! 1)" "rdb (0 # s @ stuff) (3 + 0) = Some (s ! 2)"
    using assms(1) by (simp_all add: rdb_def nth_append numeral_eq_Suc)
  have lim: "(uint (s ! 1) * 256 + uint (s ! 2)) mod 4096 + 3 = int (length s)"
    unfolding assms(2) [symmetric] by (simp add: section_size_def zmod_int)
  show ?thesis
    unfolding start_psi_def rd Option.bind_lunit Let_def unsigned_0 lim
    using assms(3) by (simp add: i16_small)
qed

text \<open>What a packet with a whole section does: the filters run on the section, the rest is counting.\<close>

lemma ts_proc_section:
  assumes pid: "unat pid < 8192" "pid \<noteq> NULL_PID" and cc: "cc < 16"
    and s: "3 \<le> length s" "section_size s = length s" "length s \<le> 183"
    and psi: "is_psi pid (st_world st) = Some True"
  shows "\<exists>sec dev. ts_proc e bw cfg hs (section_packet pid cc s stuff) 188 st =
      map_option (\<lambda>(_, w). (0, \<lparr>st_sec = sec, st_pid_dev = dev, st_world = w\<rparr>))
        (filter_proc wd_filters (invoke (in_node e 1) hs) pid (s @ stuff) (of_nat (length s)) (st_world st)) \<and>
    (\<forall>q. q \<noteq> pid \<longrightarrow> sec q = st_sec st q \<and> dev q = st_pid_dev st q) \<and>
    pkts_in (dev pid) = pkts_in (st_pid_dev st pid) + 1 \<and> sections_in (dev pid) = sections_in (st_pid_dev st pid) + 1"
proof -
  let ?p = "section_packet pid cc s stuff" and ?c = "of_nat (16 + cc) :: u8"
  obtain x y where h: "rdb ?p 0 = Some 0x47" "TS_READ16 (drop 1 ?p) = Some x" "x AND 0x1FFF = pid"
    "TS_READ8 (drop 1 ?p) = Some y" "drop_bit 7 y AND 1 = 0" "drop_bit 6 y AND 1 = 1"
    "TS_READ8 (drop 3 ?p) = Some ?c" "drop_bit 4 ?c AND 3 = 1" "drop 4 ?p = 0 # s @ stuff"
    using section_packet_header [OF pid(1) cc, of s stuff] by blast
  obtain p' where p': "start_psi (in_node e 0) ((st_sec st pid)\<lparr>sp_cc := ?c AND 3\<rparr>) (0 # s @ stuff) 184 = Some (int (length s), Some (s @ stuff), p')"
    using start_psi_whole [OF s] by blast
  have pre: "section_preproc (in_node e 0) (st_sec st) pid (0 # s @ stuff) 184 1 (?c AND 3) TS_IS_PSI =
      Some (int (length s), Some (s @ stuff), (st_sec st)(pid := p'))"
    using p' pid(1) by (simp add: section_preproc_psi)
  let ?d = "(st_pid_dev st pid)\<lparr>pkts_in := pkts_in (st_pid_dev st pid) + 1\<rparr>"
  have "ts_proc e bw cfg hs ?p 188 st =
      proc_payload e cfg hs pid 1 (?c AND 3) (0 # s @ stuff) 184 (st\<lparr>st_pid_dev := (st_pid_dev st)(pid := ?d)\<rparr>)"
    unfolding ts_proc_def h Option.bind_lunit Let_def
    using pid(2) by (simp add: TS_SYNC_BYTE_def ADAPT_ONLY_def ADAPT_BOTH_def ADAPT_RESERVED_def h(9))
  also have "\<dots> = map_option (\<lambda>(_, w). (0, \<lparr>st_sec = (st_sec st)(pid := p'),
        st_pid_dev = (st_pid_dev st)(pid := ?d\<lparr>sections_in := sections_in (st_pid_dev st pid) + 1\<rparr>), st_world = w\<rparr>))
      (filter_proc wd_filters (invoke (in_node e 1) hs) pid (s @ stuff) (of_nat (length s)) (st_world st))"
    using s(1) psi pre
    by (cases "filter_proc wd_filters (invoke (in_node e 1) hs) pid (s @ stuff) (of_nat (length s)) (st_world st)")
       (auto simp: proc_payload_def Let_def)
  finally show ?thesis by (intro exI conjI) (assumption, auto)
qed

lemma is_psi_low: "pid < 0x20 \<Longrightarrow> is_psi pid w = Some True"
  by (simp add: is_psi_def)

lemma is_psi_pmt:
  assumes "world_ok n w" "unat pid < 8192" "unat pid \<in> bitmap_abs (psi_pmt_bitmap (wd_psi w))"
  shows "is_psi pid w = Some True"
proof -
  have "length (psi_pmt_bitmap (wd_psi w)) = 128" using assms(1) by (simp add: world_ok_def)
  then show ?thesis
    using pid_bm.get_abs [OF _ assms(2)] assms(3) by (simp add: is_psi_def check_pmt_pid_def)
qed

lemma stored_table_filter:
  "direct (stored_filter pid (table_para tid 0xFF) cb)" "tid_of (stored_filter pid (table_para tid 0xFF) cb) = unat tid"
  "f_callback (stored_filter pid (table_para tid 0xFF) cb) = Some cb"
  by (simp_all add: direct_def tid_of_def stored_filter_def stored_def table_para_def Let_def)

text \<open>A packet with a whole section of the table that the only filter of its PID is for.\<close>

lemma ts_proc_table:
  assumes pid: "unat pid < 8192" "pid \<noteq> NULL_PID" "cc < 16"
    and s: "3 \<le> length s" "section_size s = length s" "length s \<le> 183" "s ! 0 = tid"
    and w: "world_ok n (st_world st)" "is_psi pid (st_world st) = Some True"
      "live (wd_filters (st_world st) pid) = [stored_filter pid (table_para tid 0xFF) cb]"
    and cb: "invoke (in_node e 1) hs cb pid (s @ stuff) (of_nat (length s)) (st_world st) = Some w'"
  shows "\<exists>st'. ts_proc e bw cfg hs (section_packet pid cc s stuff) 188 st = Some (0, st') \<and> st_world st' = w'"
proof -
  have tab: "tab_ok (wd_filters (st_world st))" using w(1) by (simp add: world_ok_def)
  have ne: "s @ stuff \<noteq> []" and hd: "(s @ stuff) ! 0 = tid" using s(1,4) by (auto simp: nth_append)
  have "filter_proc wd_filters (invoke (in_node e 1) hs) pid (s @ stuff) (of_nat (length s)) (st_world st) = Some (0, w')"
    using filter_proc_single [of wd_filters "st_world st" pid _ cb "s @ stuff" "invoke (in_node e 1) hs" "of_nat (length s)",
        OF tab pid(1) w(3) stored_table_filter(1,3) ne] cb hd
    by (simp add: stored_table_filter)
  then show ?thesis
    using ts_proc_section [OF pid s(1-3) w(2), of e bw cfg hs stuff] by auto
qed

section \<open>Properties\<close>

text \<open>
  C35. The bit rate, where the product is taken in 64 bits: from one clock reference to the next it
  is the number of bits of the packets since then times 27 MHz divided by the ticks of the clock,
  rounded down, as long as the bits times 27 MHz stay below \<open>2 ^ 64\<close>.
\<close>

theorem calc_bitrate_exact:
  assumes d: "pkts_in d = of_nat n" "bits_in d = of_nat b" "pd_pcr d = of_nat t"
    and pcr: "base < 2 ^ 33" "ext < 512" "t < base * 300 + ext"
    and bits: "b \<le> n * unat pkt_len * 8" "n * unat pkt_len * 8 * 27000000 < 2 ^ 64"
  shows "\<exists>d'. calc_bitrate 64 pkt_len (of_nat base, of_nat ext) d = Some d' \<and>
    unat (pd_bitrate d') = (n * unat pkt_len * 8 - b) * 27000000 div (base * 300 + ext - t) \<and>
    unat (pd_pcr d') = base * 300 + ext \<and> unat (bits_in d') = n * unat pkt_len * 8 \<and> pkts_in d' = pkts_in d"
proof -
  let ?pcr = "of_nat (base * 300 + ext) :: u64" and ?bits = "of_nat (n * unat pkt_len * 8) :: u64"
  have u64: "unat (of_nat k :: u64) = k" if "k < 2 ^ 64" for k
    using that by (simp only: unsigned_of_nat) (simp add: take_bit_nat_eq_self)
  have p: "base * 300 + ext < 2 ^ 64" using pcr(1,2) by simp
  have c: "calc_pcr_clock 64 (of_nat base, of_nat ext) = ?pcr"
    by (simp add: calc_pcr_clock_def take_bit_word_eq_self)
  have bt: "pkts_in d * ucast pkt_len * 8 = ?bits"
    by (simp add: d(1))
  have dp: "?pcr - pd_pcr d = of_nat (base * 300 + ext - t)" using pcr(3) by (simp add: d(3) of_nat_diff)
  have db: "(?bits - bits_in d) * BASE_CLK = of_nat ((n * unat pkt_len * 8 - b) * 27000000)"
    using bits(1) by (simp add: d(2) of_nat_diff BASE_CLK_def)
  have t: "unat (of_nat (base * 300 + ext - t) :: u64) = base * 300 + ext - t" using p by (intro u64) simp
  then have nz: "of_nat (base * 300 + ext - t) \<noteq> (0 :: u64)" using pcr(3) by (metis unsigned_0 diff_is_0_eq not_le)
  have m: "(n * unat pkt_len * 8 - b) * 27000000 < 2 ^ 64"
    by (rule le_less_trans [OF _ bits(2)]) simp
  have "n * unat pkt_len * 8 < 2 ^ 64" using bits(2) by simp
  then show ?thesis
    unfolding calc_bitrate_def Let_def c bt dp db
    using nz by (simp add: unat_div_distrib u64 [OF m] t u64 [OF p] u64 del: of_nat_add of_nat_mult)
qed

theorem calc_bitrate_exact_witness:
  "\<exists>d'. calc_bitrate 64 188 (of_nat 90000, of_nat 0)
      \<lparr>pkts_in = of_nat 1000, sections_in = 0, error_in = 0, bits_in = of_nat 0, pd_pcr = of_nat 0, pd_bitrate = 0\<rparr> = Some d' \<and>
    unat (pd_bitrate d') = (1000 * unat (188 :: u8) * 8 - 0) * 27000000 div (90000 * 300 + 0 - 0) \<and>
    unat (pd_pcr d') = 90000 * 300 + 0 \<and> unat (bits_in d') = 1000 * unat (188 :: u8) * 8 \<and>
    pkts_in d' = pkts_in \<lparr>pkts_in = of_nat 1000, sections_in = 0, error_in = 0, bits_in = of_nat 0, pd_pcr = of_nat 0, pd_bitrate = 0\<rparr>"
  by (rule calc_bitrate_exact) simp_all

text \<open>
  C38. A packet whose clock reference has not moved since the last one of its PID (a repeated
  packet, or a first reference of zero) makes the program divide by zero.
\<close>

theorem pcr_division_by_zero:
  assumes "data ! 0 = TS_SYNC_BYTE" "bit (data ! 3) 5" "bit (data ! 5) 4"
    and "TS_READ16 (drop 1 data) = Some x" "read_pcr (drop 6 data) = Some c"
    and "calc_pcr_clock bw c = pd_pcr (st_pid_dev st (x AND 0x1FFF))"
  shows "ts_proc e bw cfg hs data len st = None"
proof -
  have "6 < length data"
  proof (rule ccontr)
    assume "\<not> 6 < length data"
    then show False using assms(5) by (simp add: read_pcr_def TS_READ32_def rdb_def)
  qed
  then have r: "rdb data 0 = Some TS_SYNC_BYTE" "TS_READ8 (drop 1 data) = Some (data ! 1)" "TS_READ8 (drop 3 data) = Some (data ! 3)"
    "TS_READ8 (drop 4 data) = Some (data ! 4)" "TS_READ8 (drop 5 data) = Some (data ! 5)"
    using assms(1) by (auto simp: rdb_def TS_READ8_def)
  have a: "drop_bit 4 (data ! 3) AND 3 = ADAPT_ONLY \<or> drop_bit 4 (data ! 3) AND 3 = ADAPT_BOTH"
  proof -
    let ?v = "drop_bit 4 (data ! 3) AND 3"
    have m: "?v = take_bit 2 (drop_bit 4 (data ! 3))" by (simp add: take_bit_eq_mask mask_eq_exp_minus_1)
    have "unat ?v < 4" unfolding m unsigned_take_bit_eq using take_bit_nat_less_exp [of 2] by simp
    moreover have "bit (unat ?v) 1"
      unfolding m using assms(2) by (simp add: bit_unsigned_iff bit_take_bit_iff bit_drop_bit_eq)
    then have "odd (unat ?v div 2)" by (simp add: bit_iff_odd)
    ultimately have "unat ?v = unat (2 :: u8) \<or> unat ?v = unat (3 :: u8)" by (auto elim: oddE)
    then show ?thesis unfolding ADAPT_ONLY_def ADAPT_BOTH_def by (blast dest: unsigned_word_eqI)
  qed
  have f: "ts_adaptation_field_proc bw len (drop 5 data) n d = None" if "pd_pcr d = calc_pcr_clock bw c" for n d
    using assms(3,5) r(5) that
    by (simp add: ts_adaptation_field_proc_def calc_bitrate_def Let_def)
  show ?thesis
    unfolding ts_proc_def r assms(4) Option.bind_lunit Let_def
    using a by (simp add: f assms(6))
qed

text \<open>A first packet whose clock reference is zero.\<close>

theorem pcr_division_by_zero_witness:
  "ts_proc (always_ok (\<lambda>_. 0)) 64 \<lparr>cf_pids = (\<lambda>_. False), cf_detail = True\<rparr> plain_handlers
     [0x47, 0x01, 0x00, 0x20, 7, 0x10, 0, 0, 0, 0, 0x7E, 0] 188
     \<lparr>st_sec = static_sec, st_pid_dev = static_pid_dev, st_world = static_world ()\<rparr> = None"
  by (rule pcr_division_by_zero [where x = "0x100" and c = "(0, 0)"])
     (simp_all add: TS_SYNC_BYTE_def TS_READ16_def TS_READ32_def read_pcr_def rdb_def calc_pcr_clock_def static_pid_dev_def)

end
