(* ===== verification/Ts_Invariant.thy ===== *)
theory Ts_Invariant
  imports Ts
begin

unbundle bit_operations_syntax

text \<open>
  An invariant of the whole program: whatever packets come, the filter table stays well formed and
  in step with its dispatch maps, the table of elementary streams stays consistent, and bitmaps and
  buffers keep their sizes.  Each callback keeps it, hence \<open>filter_proc\<close>, hence \<open>ts_proc\<close>, hence
  every run.
\<close>

section \<open>Registration without regard to room\<close>

definition fs_ok :: "filter_cb filter_tab \<Rightarrow> bool" where
  "fs_ok fs \<longleftrightarrow> tab_ok fs \<and> (\<forall>q. length (live (fs q)) \<le> NUM_FILTER_MAX)"

lemma filter_register_any:
  assumes fs: "fs_ok fs" and pid: "unat pid < 8192" and p: "param_wf p"
  shows "\<exists>r fs'. filter_register (always_ok j) fs pid p cb = Some (r, fs') \<and> fs_ok fs'"
proof (cases "length (live (fs pid)) < NUM_FILTER_MAX")
  case True
  have "tab_ok fs" using fs by (simp add: fs_ok_def)
  from filter_register_law [OF this pid p True, of j cb] obtain r fs' where
    r: "filter_register (always_ok j) fs pid p cb = Some (r, fs')" "tab_ok fs'"
    "\<forall>q. live (fs' q) = (if q = pid then live (fs q) @ [stored_filter pid p cb] else live (fs q))" by blast
  have "length (live (fs' q)) \<le> NUM_FILTER_MAX" for q
    using r(3) [rule_format, of q] True fs by (cases "q = pid") (auto simp: fs_ok_def)
  with r show ?thesis by (auto simp: fs_ok_def)
next
  case False
  have "head_wf pid (fs pid)" using fs pid by (auto simp: fs_ok_def tab_ok_def filter_consts)
  from length_live [OF this] False have "NUM_FILTER_MAX \<le> num (fs pid)" by simp
  then show ?thesis
    using fs pid by (simp add: filter_register_def filter_alloc_def pid_filter_def filter_set_def filter_consts)
qed

lemma init_table_filter_any:
  assumes "fs_ok fs" "unat pid < 8192"
  shows "\<exists>fs'. init_table_filter (always_ok j) pid tid m cb fs = Some fs' \<and> fs_ok fs'"
  using filter_register_any [OF assms table_para_wf, of j tid m cb] by (auto simp: init_table_filter_def)

lemma world_ok_0: "world_ok 0 w \<longleftrightarrow> fs_ok (wd_filters w) \<and>
    length (psi_pmt_bitmap (wd_psi w)) = 128 \<and> length (psi_section_bitmap (wd_psi w)) = 128 \<and> pes_inv (wd_pes w) \<and>
    length (scte_pid_bitmap (wd_scte w)) = 128 \<and> length (scte_list (wd_scte w)) = SCTE_MAX_PID_NUM"
  by (simp add: world_ok_def fs_ok_def)

section \<open>The callbacks\<close>

lemma register_pmt_ops_keeps:
  assumes "world_ok 0 w" "unat pid < 8192" "register_pmt_ops (always_ok j) pid w = Some w'"
  shows "world_ok 0 w'"
proof -
  have "fs_ok (wd_filters w)" "length (psi_pmt_bitmap (wd_psi w)) = 128" using assms(1) by (auto simp: world_ok_0)
  from init_table_filter_any [where j = j and tid = PMT_TID and m = "0xFF" and cb = Pmt_proc, OF this(1) assms(2)] pid_bm.set_abs [OF this(2) assms(2)]
  show ?thesis
    using assms(1,3) by (auto simp: register_pmt_ops_def world_ok_0 split: if_splits)
qed

lemma register_section_ops_keeps:
  assumes "world_ok 0 w" "unat pid < 8192" "register_section_ops (always_ok j) pid tid cb w = Some w'"
  shows "world_ok 0 w'"
proof -
  have "fs_ok (wd_filters w)" "length (psi_section_bitmap (wd_psi w)) = 128" using assms(1) by (auto simp: world_ok_0)
  from init_table_filter_any [where j = j and tid = tid and m = "0xFF" and cb = "case cb of Some cb \<Rightarrow> cb | None \<Rightarrow> Default_proc", OF this(1) assms(2)]
    pid_bm.set_abs [OF this(2) assms(2)] pid_bm.get_abs [OF this(2) assms(2)]
  show ?thesis
    using assms(1,3) by (auto simp: register_section_ops_def world_ok_0 split: if_splits)
qed

lemma register_scte_ops_keeps:
  assumes "world_ok 0 w" "unat pid < 8192" "register_scte_ops (always_ok j) pid w = Some w'"
  shows "world_ok 0 w'"
proof -
  have len: "length (scte_pid_bitmap (wd_scte w)) = 128" using assms(1) by (simp add: world_ok_0)
  let ?sc = "wd_scte w" and ?i = "scte_pid_num (wd_scte w)"
  let ?w1 = "\<lambda>bm. w\<lparr>wd_scte := ?sc\<lparr>scte_pid_bitmap := bm, scte_pid_num := Suc ?i,
      scte_list := (scte_list ?sc)[?i := (scte_list ?sc ! ?i)\<lparr>sc_pid := pid, sc_list := []\<rparr>]\<rparr>\<rparr>"
  have keeps: "world_ok 0 w'" if "length bm = 128" "register_section_ops (always_ok j) pid SCTE_SPLICE_TID (Some Scte_proc) (?w1 bm) = Some w'" for bm
    using assms(1) that(1) by (intro register_section_ops_keeps [OF _ assms(2) that(2)]) (simp add: world_ok_0)
  show ?thesis
    using assms pid_bm.get_abs [OF len assms(2)] pid_bm.set_abs [OF len assms(2)]
    by (auto simp: register_scte_ops_def Let_def split: if_splits dest: keeps)
qed

lemma register_pes_ops_any:
  assumes inv: "pes_inv pes" "fs_ok fs" and pid: "unat pid < 8192"
  shows "\<exists>pes' fs'. register_pes_ops (always_ok j) pid ty (pes, fs) = Some (pes', fs') \<and> pes_inv pes' \<and> fs_ok fs'"
proof -
  have len: "length (pes_pid_bitmap pes) = 128" and nf: "\<not> pes_freed pes" using inv by (auto simp: pes_inv_def)
  have get: "bitmap64_get (pes_pid_bitmap pes) (unat pid) = Some (unat pid \<in> bitmap_abs (pes_pid_bitmap pes))"
    by (rule pid_bm.get_abs [OF len pid])
  obtain bm where bm: "bitmap64_set (pes_pid_bitmap pes) (unat pid) = Some bm" "length bm = 128"
    "bitmap_abs bm = insert (unat pid) (bitmap_abs (pes_pid_bitmap pes))"
    using pid_bm.set_abs [OF len pid] by auto
  obtain r fs' where fs': "filter_register (always_ok j) fs pid pes_filter_para Pes_proc = Some (r, fs')" "fs_ok fs'"
    using filter_register_any [OF inv(2) pid pes_filter_para_wf] by blast
  show ?thesis
  proof (cases "unat pid \<in> bitmap_abs (pes_pid_bitmap pes)")
    case True
    then show ?thesis using get inv by (simp add: register_pes_ops_def)
  next
    case False
    then show ?thesis
      using get bm(1) nf fs' pes_inv_append [OF inv(1) False bm(2,3), of ty] by (simp add: register_pes_ops_def)
  qed
qed

lemma register_es_keeps:
  assumes w: "world_ok 0 w" and pid: "unat pid < 8192" and r: "register_es (always_ok j) so ty pid ds w = Some w'"
  shows "world_ok 0 w'"
proof (cases "pes_type ty")
  case False
  then show ?thesis
    using r register_section_ops_keeps [OF w pid] register_scte_ops_keeps [OF w pid]
    by (auto simp: register_es_def pes_type_def split: if_splits)
next
  case True
  have inv: "pes_inv (wd_pes w)" "fs_ok (wd_filters w)" using w by (auto simp: world_ok_0)
  obtain pes fs where p: "register_pes_ops (always_ok j) pid ty (wd_pes w, wd_filters w) = Some (pes, fs)" "pes_inv pes" "fs_ok fs"
    using register_pes_ops_any [OF inv pid, of j ty] by blast
  have cb: "pes_inv pes'" if "register_pes_data_callback (always_ok j) so pid ty c tag pes = Some pes'" for c tag pes'
    using register_pes_data_callback_law [OF p(2) pid, of "always_ok j" so ty c tag] that by auto
  have "\<exists>pes'. pes_inv pes' \<and> w' = w\<lparr>wd_pes := pes', wd_filters := fs\<rparr>"
    using r True p(2) cb unfolding register_es_def pes_type_def in_node_always_ok p(1) Option.bind_lunit prod.case
    by (auto simp: Option.bind_eq_Some_conv split: if_splits)
  then show ?thesis using w p(3) by (auto simp: world_ok_0)
qed

lemma es_loop_keeps:
  assumes "world_ok 0 w" "es_loop (always_ok j) des_ops so w l p i = Some (r, ns, w')"
  shows "world_ok 0 w'"
  using assms
proof (induction p arbitrary: w l i ns rule: measure_induct_rule [where f = length])
  case (less p)
  show ?case
  proof (cases "l \<le> 0")
    case True
    then show ?thesis using less.prems by (simp add: es_loop.simps)
  next
    case False
    then obtain ty x y ds w1 ns1 where
      s: "TS_READ8 p = Some ty" "TS_READ16 (drop 1 p) = Some x" "TS_READ16 (drop 3 p) = Some y"
      "parse_descriptors (always_ok j) des_ops (drop 5 p) (uint (y AND 0x0FFF)) = Some ds"
      "register_es (always_ok j) so ty (x AND 0x1FFF) ds w = Some w1"
      "es_loop (always_ok j) des_ops so w1 (i16 (l - (5 + uint (y AND 0x0FFF)))) (drop (5 + unat (y AND 0x0FFF)) p) (Suc i) = Some (r, ns1, w')"
      using less.prems(2) by (subst (asm) es_loop.simps) (auto simp: Option.bind_eq_Some_conv Let_def)
    have "p \<noteq> []" using TS_READ16_pos [OF s(2)] by auto
    then have "length (drop (5 + unat (y AND 0x0FFF)) p) < length p" by simp
    from less.IH [OF this register_es_keeps [OF less.prems(1) unat_13 s(5)] s(6)] show ?thesis .
  qed
qed

lemma pat_loop_keeps:
  assumes "world_ok 0 w" "pat_loop (always_ok j) l p i (pat, w) = Some (r, pat', w')"
  shows "world_ok 0 w'"
  using assms
proof (induction p arbitrary: w l i pat rule: measure_induct_rule [where f = length])
  case (less p)
  show ?case
  proof (cases "l = 0")
    case True
    then show ?thesis using less.prems by (simp add: pat_loop.simps)
  next
    case False
    obtain num x where s: "TS_READ16 p = Some num" "TS_READ16 (drop 2 p) = Some x"
      using less.prems(2) False by (subst (asm) pat_loop.simps) (auto simp: Option.bind_eq_Some_conv)
    have "p \<noteq> []" using TS_READ16_pos [OF s(1)] by auto
    then have sh: "length (drop 4 p) < length p" by simp
    show ?thesis
      using less.prems(2) False s less.prems(1)
      by (subst (asm) pat_loop.simps)
         (auto simp: Option.bind_eq_Some_conv Let_def in_node_always_ok split: if_splits
           dest: register_pmt_ops_keeps [OF less.prems(1) unat_13] intro: less.prems(1) less.IH [OF sh])
  qed
qed

lemma parse_pat_keeps:
  assumes w: "world_ok 0 w" and r: "parse_pat (always_ok j) pkt len w = Some (r, w')"
  shows "world_ok 0 w'"
proof -
  have upd: "world_ok 0 (v\<lparr>wd_psi := (wd_psi v)\<lparr>psi_pat_list := ps\<rparr>\<rparr>) \<longleftrightarrow> world_ok 0 v" for v :: "('a, 'b) world" and ps
    by (simp add: world_ok_0)
  show ?thesis
    using w r
    by (auto simp: parse_pat_def Let_def in_node_always_ok Option.bind_eq_Some_conv upd split: if_splits
        dest: pat_loop_keeps [OF w])
qed

lemma parse_pmt_keeps:
  assumes w: "world_ok 0 w" and r: "parse_pmt (always_ok j) hs pid pkt len w = Some (r, w')"
  shows "world_ok 0 w'"
proof -
  have upd: "world_ok 0 (v\<lparr>wd_psi := (wd_psi v)\<lparr>psi_pmt := ps\<rparr>\<rparr>) \<longleftrightarrow> world_ok 0 v" for v :: "('a, 'b) world" and ps
    by (simp add: world_ok_0)
  show ?thesis
    using w r
    by (auto simp: parse_pmt_def Let_def in_node_always_ok Option.bind_eq_Some_conv upd split: if_splits
        dest: es_loop_keeps [OF w])
qed

lemma parse_cat_keeps:
  "parse_cat e des_ops pkt len psi = Some (r, psi') \<Longrightarrow>
    psi_pmt_bitmap psi' = psi_pmt_bitmap psi \<and> psi_section_bitmap psi' = psi_section_bitmap psi"
  by (auto simp: parse_cat_def Let_def Option.bind_eq_Some_conv split: if_splits)

lemma pes_entry_pid: "parse_pes_entry e so pid pkt (pt, store) = Some (r, pt', store') \<Longrightarrow> pe_pid pt' = pe_pid pt"
  by (auto simp: parse_pes_entry_def Let_def Option.bind_eq_Some_conv split: if_splits)

lemma pes_proc_keeps:
  "\<lbrakk>pes_inv pes; pes_proc e so pid pkt (pes, store) = Some (r, pes', store')\<rbrakk> \<Longrightarrow> pes_inv pes'"
  by (auto simp: pes_proc_def parse_pes_packet_def Let_def Option.bind_eq_Some_conv pes_inv_entry dest: pes_entry_pid split: if_splits)

lemma scte_proc_keeps: "\<lbrakk>world_ok 0 w; scte_proc e pid pkt w = Some w'\<rbrakk> \<Longrightarrow> world_ok 0 w'"
  by (auto simp: scte_proc_def Let_def Option.bind_eq_Some_conv world_ok_0 split: list.splits)

text \<open>The tables outside PAT and PMT only write their own part of \<open>psi\<close>.\<close>

lemmas table_procs = tsdt_proc_def nit_proc_def sdt_bat_proc_def eit_proc_def tdt_tot_proc_def

lemma pat_proc_keeps: "\<lbrakk>world_ok 0 w; pat_proc (always_ok j) pkt len w = Some w'\<rbrakk> \<Longrightarrow> world_ok 0 w'"
  by (auto simp: pat_proc_def counted_def world_ok_0 elim!: parse_pat_keeps [unfolded world_ok_0, rotated])

lemma cat_proc_keeps: "\<lbrakk>world_ok 0 w; cat_proc e hs pkt len w = Some w'\<rbrakk> \<Longrightarrow> world_ok 0 w'"
  by (auto simp: cat_proc_def counted_def world_ok_0 Option.bind_eq_Some_conv split: if_splits dest!: parse_cat_keeps)

lemma table_procs_keep:
  assumes "world_ok 0 w"
  shows "tsdt_proc e hs pkt len w = Some w' \<Longrightarrow> world_ok 0 w'" "nit_proc e hs pkt len w = Some w' \<Longrightarrow> world_ok 0 w'"
    "sdt_bat_proc e hs pkt len w = Some w' \<Longrightarrow> world_ok 0 w'" "eit_proc e hs pkt len w = Some w' \<Longrightarrow> world_ok 0 w'"
    "tdt_tot_proc e hs pkt len w = Some w' \<Longrightarrow> world_ok 0 w'"
  using assms by (auto simp: table_procs counted_def world_ok_0 Option.bind_eq_Some_conv split: if_splits)

lemma invoke_keeps:
  assumes w: "world_ok 0 w" and r: "invoke (always_ok j) hs cb pid pkt len w = Some w'"
  shows "world_ok 0 w'"
proof (cases cb)
  case Default_proc
  then show ?thesis
    using r w by (auto simp: invoke_def default_proc_def split: if_splits
        intro: pat_proc_keeps [OF w] cat_proc_keeps [OF w] table_procs_keep [OF w])
next
  case Pes_proc
  then show ?thesis
    using r w by (auto simp: invoke_def Option.bind_eq_Some_conv world_ok_0 intro: pes_proc_keeps)
next
  case Atsc_psip_proc
  then show ?thesis using r w by (auto simp: invoke_def world_ok_0)
qed (use r in \<open>auto simp: invoke_def pmt_proc_def intro: pat_proc_keeps [OF w] cat_proc_keeps [OF w]
  table_procs_keep [OF w] scte_proc_keeps [OF w] parse_pmt_keeps [OF w]\<close>)

section \<open>Dispatch and reassembly\<close>

lemma scan_loop_keeps:
  assumes inv: "\<And>cb s s'. \<lbrakk>P s; invk cb pid data len s = Some s'\<rbrakk> \<Longrightarrow> P s'"
    and "P s" "scan_loop getf invk k i pid data len s = Some s'"
  shows "P s'"
  using assms(2,3)
proof (induction k arbitrary: i s)
  case (Suc k)
  then show ?case
    by (auto simp: Let_def Option.bind_eq_Some_conv call_slot_def split: if_splits option.splits
        intro: Suc.IH inv)
qed simp

lemma filter_proc_keeps:
  assumes inv: "\<And>cb s s'. \<lbrakk>P s; invk cb pid data len s = Some s'\<rbrakk> \<Longrightarrow> P s'"
    and P: "P s" and r: "filter_proc getf invk pid data len s = Some (r, s')"
  shows "P s'"
  using r P by (auto simp: filter_proc_def Let_def Option.bind_eq_Some_conv call_slot_def split: if_splits option.splits
      intro: scan_loop_keeps [where P = P, OF inv P] inv [OF P])

definition bufs_wf :: "sec_tab \<Rightarrow> bool" where
  "bufs_wf sec \<longleftrightarrow> (\<forall>pid. buf_wf (sec pid))"

lemma buf_copy_keeps: "\<lbrakk>buf_wf p; buf_copy e p off src n = Some (r, p')\<rbrakk> \<Longrightarrow> buf_wf p'"
  by (auto simp: buf_copy_def sec_getbuf_def buf_wf_def Let_def malloc_bytes_def Option.bind_eq_Some_conv
      dest!: memcpy_length split: option.splits if_splits)

lemma buf_wf_upd [simp]:
  "buf_wf (p\<lparr>total_len := a\<rparr>) = buf_wf p" "buf_wf (p\<lparr>limit_len := b\<rparr>) = buf_wf p" "buf_wf (p\<lparr>sp_cc := c\<rparr>) = buf_wf p"
  by (simp_all add: buf_wf_def)

lemma preproc_parts_keep:
  shows "\<lbrakk>start_psi e p pkt len = Some (r, b, p'); buf_wf p\<rbrakk> \<Longrightarrow> buf_wf p'"
    and "\<lbrakk>start_pes e p pkt len = Some (r, b, p'); buf_wf p\<rbrakk> \<Longrightarrow> buf_wf p'"
    and "\<lbrakk>cont_psi e p pkt len = Some (r, b, p'); buf_wf p\<rbrakk> \<Longrightarrow> buf_wf p'"
    and "\<lbrakk>cont_pes e p pkt len = Some (r, b, p'); buf_wf p\<rbrakk> \<Longrightarrow> buf_wf p'"
  by (auto simp: start_psi_def start_pes_def cont_psi_def cont_pes_def Let_def Option.bind_eq_Some_conv
      split: if_split_asm option.split_asm dest!: buf_copy_keeps [rotated])

lemma section_preproc_keeps:
  assumes "bufs_wf sec" "section_preproc e sec pid pkt len pusi cc kind = Some (r, b, sec')"
  shows "bufs_wf sec'"
  using assms by (auto simp: section_preproc_def bufs_wf_def Let_def Option.bind_eq_Some_conv
      split: if_split_asm psi_or_pes.split_asm dest!: preproc_parts_keep)

section \<open>Runs\<close>

definition state_ok :: "('sub, 'at) ts_state \<Rightarrow> bool" where
  "state_ok st \<longleftrightarrow> world_ok 0 (st_world st) \<and> bufs_wf (st_sec st)"

lemma proc_payload_keeps:
  assumes st: "state_ok st" and r: "proc_payload (always_ok j) cfg hs pid pusi cc ptr len st = Some (r, st')"
  shows "state_ok st'"
proof -
  have w: "world_ok 0 (st_world st)" and b: "bufs_wf (st_sec st)" using st by (auto simp: state_ok_def)
  have "world_ok 0 w'" if "filter_proc wd_filters (invoke (always_ok j) hs) pid buf l (st_world st) = Some (r', w')" for r' w' buf l
    by (rule filter_proc_keeps [where P = "world_ok 0", OF _ w that]) (rule invoke_keeps)
  then show ?thesis
    using st r section_preproc_keeps [OF b]
    by (auto simp: proc_payload_def Let_def Option.bind_eq_Some_conv in_node_always_ok state_ok_def split: if_splits)
qed

lemma ts_proc_keeps:
  assumes st: "state_ok st" and r: "ts_proc (always_ok j) bw cfg hs data len st = Some (r, st')"
  shows "state_ok st'"
proof -
  have dev: "state_ok (st\<lparr>st_pid_dev := d\<rparr>)" for d using st by (simp add: state_ok_def)
  show ?thesis
    using st r by (auto simp: ts_proc_def Let_def Option.bind_eq_Some_conv dev split: if_splits
        intro: proc_payload_keeps [OF dev])
qed

text \<open>The states a program run can be in: any packet, with any indeterminate memory, any number of times.\<close>

inductive ts_run :: "nat \<Rightarrow> tsa_config \<Rightarrow> ('sub, 'at) handlers \<Rightarrow> ('sub, 'at) ts_state \<Rightarrow> ('sub, 'at) ts_state \<Rightarrow> bool"
  for bw cfg hs st0 where
  ts_run_start: "ts_run bw cfg hs st0 st0"
| ts_run_packet: "\<lbrakk>ts_run bw cfg hs st0 st; ts_proc (always_ok j) bw cfg hs data len st = Some (r, st')\<rbrakk> \<Longrightarrow> ts_run bw cfg hs st0 st'"

definition static_state :: "'at \<Rightarrow> ('sub, 'at) ts_state" where
  "static_state at0 = \<lparr>st_sec = static_sec, st_pid_dev = static_pid_dev, st_world = static_world at0\<rparr>"

lemma init_pid_processor_ok:
  fixes at0 :: 'at
  obtains st :: "('sub, 'at) ts_state" where "init_pid_processor (always_ok j) cfg at0 (static_state at0) = Some st" "state_ok st"
proof -
  let ?w = "(static_world at0 :: ('sub, 'at) world)"
  have "filter_init (wd_filters ?w) = static_pid_filter"
    by (auto simp: filter_init_def static_world_def static_pid_filter_def)
  then have e: "?w\<lparr>wd_filters := filter_init (wd_filters ?w)\<rparr> = ?w" by (simp add: static_world_def)
  obtain w' where w': "init_table_ops (always_ok j) (cf_pids cfg) at0 ?w = Some w'" "world_ok (NUM_FILTER_MAX - 9) w'"
    using init_table_ops_law [OF world_ok_static [of NUM_FILTER_MAX at0], of j "cf_pids cfg" at0] by auto
  have "bufs_wf static_sec" by (simp add: bufs_wf_def buf_wf_def static_sec_def)
  then show thesis
    using w' world_ok_le [OF w'(2), of 0]
    by (intro that [of "(static_state at0)\<lparr>st_world := w'\<rparr>"]) (simp_all add: init_pid_processor_def static_state_def e state_ok_def)
qed

text \<open>
  C2. After the start, and after any number of packets with any content, the filter table is well
  formed and in step with its dispatch maps, no PID has more than \<open>NUM_FILTER_MAX\<close> filters, the
  table of elementary streams, its index and its bitmap agree, the bitmaps have their sizes and
  every reassembly buffer is absent or of its full size.
\<close>

theorem ts_run_invariant:
  fixes st0 :: "('sub, 'at) ts_state"
  assumes "init_pid_processor (always_ok j) cfg at0 (static_state at0) = Some st0" "ts_run bw cfg hs st0 st"
  shows "world_ok 0 (st_world st) \<and> bufs_wf (st_sec st)"
proof -
  obtain st1 :: "('sub, 'at) ts_state" where "init_pid_processor (always_ok j) cfg at0 (static_state at0) = Some st1" "state_ok st1"
    by (rule init_pid_processor_ok)
  then have "state_ok st0" using assms(1) by simp
  with assms(2) have "state_ok st" by (induction rule: ts_run.induct) (auto intro: ts_proc_keeps)
  then show ?thesis by (simp add: state_ok_def)
qed

theorem ts_run_invariant_witness:
  "\<exists>st. init_pid_processor (always_ok (\<lambda>_. 0)) \<lparr>cf_pids = (\<lambda>_. False), cf_detail = True\<rparr> () (static_state () :: (unit, unit) ts_state) = Some st \<and>
    world_ok 0 (st_world st) \<and> bufs_wf (st_sec st)"
proof -
  obtain st :: "(unit, unit) ts_state" where
    st: "init_pid_processor (always_ok (\<lambda>_. 0)) \<lparr>cf_pids = (\<lambda>_. False), cf_detail = True\<rparr> () (static_state ()) = Some st"
    by (rule init_pid_processor_ok)
  from ts_run_invariant [where bw = 64 and hs = plain_handlers, OF st ts_run_start] st show ?thesis by blast
qed

end
