(* ===== verification/Ts_Process.thy ===== *)
theory Ts_Process
  imports Ts_Invariant
begin

text \<open>
  The outer loop: \<open>ts_process\<close> of \<^verbatim>\<open>src/ts.c\<close> over an input of blocks, the registry of
  inputs of \<^verbatim>\<open>src/tsio.c\<close>, and the file input of \<^verbatim>\<open>src/fileio.c\<close>.
\<close>

section \<open>Inputs\<close>

text \<open>
  What \<open>ts_process\<close> uses of an input: \<open>open\<close> (\<open>None\<close> when it fails), \<open>read\<close> (a result, a block)
  and \<open>end\<close>, on a state of the input's own.
\<close>

record 'io io_ops =
  io_open :: "string \<Rightarrow> 'io option"
  io_read :: "'io \<Rightarrow> int \<times> bytes \<times> 'io"
  io_end :: "'io \<Rightarrow> int"

definition MAX_IO_METHOD :: nat where "MAX_IO_METHOD = 10"

type_synonym 'op ioops = "'op option list"

definition static_ioops :: "'op ioops" where
  "static_ioops = replicate MAX_IO_METHOD None"

definition register_io_ops :: "nat \<Rightarrow> 'op \<Rightarrow> 'op ioops \<Rightarrow> (int \<times> 'op ioops) option" where
  "register_io_ops type ops t = (if type < length t then Some (0, t[type := Some ops]) else None)"

definition unregister_io_ops :: "nat \<Rightarrow> 'op ioops \<Rightarrow> (int \<times> 'op ioops) option" where
  "unregister_io_ops type t = (if type < length t then Some (0, t[type := None]) else None)"

definition lookup_io_ops :: "nat \<Rightarrow> 'op ioops \<Rightarrow> 'op option option" where
  "lookup_io_ops type t = (if type < length t then Some (t ! type) else None)"

subsection \<open>Files\<close>

text \<open>
  A file is its bytes, \<open>disk\<close> the files that can be opened.  \<open>mmap\<close> wants an offset that is a multiple of the page size \<open>page\<close> and fails
  otherwise; a mapping that starts at the end of the file succeeds, and has no bytes.
\<close>

record file_io =
  fi_data :: bytes
  fi_total_size :: nat
  fi_offset :: nat
  fi_block_size :: nat

definition fileio_open :: "(string \<Rightarrow> bytes option) \<Rightarrow> string \<Rightarrow> file_io option" where
  "fileio_open disk filename = (case disk filename of
     None \<Rightarrow> None
   | Some file \<Rightarrow> Some \<lparr>fi_data = file, fi_total_size = length file, fi_offset = 0, fi_block_size = 2048 * 1024\<rparr>)"

definition fileio_read :: "nat \<Rightarrow> file_io \<Rightarrow> int \<times> bytes \<times> file_io" where
  "fileio_read page f =
     (if fi_offset f mod page \<noteq> 0 then (-1, [], f)
      else let sz = min (fi_block_size f) (fi_total_size f - fi_offset f) in
        (0, take sz (drop (fi_offset f) (fi_data f)), f\<lparr>fi_offset := fi_offset f + sz\<rparr>))"

text \<open>The rest of the file as \<open>int\<close>.\<close>

definition fileio_end :: "file_io \<Rightarrow> int" where
  "fileio_end f = sint (of_nat (fi_total_size f - fi_offset f) :: 32 word)"

definition fileio_tell :: "file_io \<Rightarrow> nat option" where
  "fileio_tell f = (if fi_total_size f = 0 then None else Some (fi_offset f * 100 div fi_total_size f))"

definition fileio_close :: "file_io \<Rightarrow> file_io" where
  "fileio_close f = f\<lparr>fi_offset := 0, fi_block_size := 0\<rparr>"

definition file_ops :: "(string \<Rightarrow> bytes option) \<Rightarrow> nat \<Rightarrow> file_io io_ops" where
  "file_ops disk page = \<lparr>io_open = fileio_open disk, io_read = fileio_read page, io_end = fileio_end\<rparr>"

section \<open>The loop\<close>

text \<open>
  \<open>proc\<close> is \<open>ts_proc\<close> on the memory from a packet on, with the state of the program; \<open>k\<close> is
  the packet size.
\<close>

function packets_loop :: "(bytes \<Rightarrow> 's \<Rightarrow> 's option) \<Rightarrow> nat \<Rightarrow> bytes \<Rightarrow> 's \<Rightarrow> (bytes \<times> 's) option" where
  "packets_loop proc k ptr s =
     (if 0 < k \<and> k \<le> length ptr then proc ptr s \<bind> packets_loop proc k (drop k ptr) else Some (ptr, s))"
  by pat_completeness auto
termination
  by (relation "measure (\<lambda>(proc, k, ptr, s). length ptr)") auto

declare packets_loop.simps [simp del]

text \<open>The body up to the next \<open>read\<close>: the packet completed over the block boundary, the packets of the
  block, and the bytes left over, which are saved in \<open>pkt_con\<close>.\<close>

definition process_block ::
  "(bytes \<Rightarrow> 's \<Rightarrow> 's option) \<Rightarrow> nat \<Rightarrow> bytes \<Rightarrow> bytes \<times> nat \<Rightarrow> 's \<Rightarrow> ((bytes \<times> nat) \<times> 's) option" where
  "process_block proc k ptr con s = (case con of (pkt_con, pkt_con_len) \<Rightarrow> do {
     s \<leftarrow> (if pkt_con_len = k then proc pkt_con s else Some s);
     let pkt_con_len = (if pkt_con_len = k then 0 else pkt_con_len);
     (ptr, s) \<leftarrow> packets_loop proc k ptr s;
     if ptr \<noteq> [] then do {
       pkt_con \<leftarrow> memcpy pkt_con 0 ptr (int (length ptr));
       Some ((pkt_con, length ptr), s) }
     else Some ((pkt_con, pkt_con_len), s) })"

text \<open>
  The loop with fuel: \<open>None\<close> when the fuel runs out, \<open>Some None\<close> when the behaviour is undefined.
  Reading more than a block holds to complete a packet is undefined.
\<close>

fun process_loop ::
  "nat \<Rightarrow> 'io io_ops \<Rightarrow> (bytes \<Rightarrow> 's \<Rightarrow> 's option) \<Rightarrow> nat \<Rightarrow> bytes \<Rightarrow> bytes \<times> nat \<Rightarrow> 'io \<Rightarrow> 's \<Rightarrow> ('io \<times> 's) option option" where
  "process_loop 0 ops proc k ptr con io s = None"
| "process_loop (Suc fuel) ops proc k ptr con io s = (case process_block proc k ptr con s of
     None \<Rightarrow> Some None
   | Some ((pkt_con, pkt_con_len), s) \<Rightarrow> (case io_read ops io of (r, blk, io) \<Rightarrow>
       if r < 0 then Some (Some (io, s))
       else if pkt_con_len \<noteq> 0 then (case memcpy pkt_con (int pkt_con_len) blk (int k - int pkt_con_len) of
           None \<Rightarrow> Some None
         | Some pkt_con \<Rightarrow>
             if io_end ops io \<noteq> 0 then process_loop fuel ops proc k (drop (k - pkt_con_len) blk) (pkt_con, k) io s
             else Some (Some (io, s)))
       else if io_end ops io \<noteq> 0 then process_loop fuel ops proc k blk (pkt_con, 0) io s
       else Some (Some (io, s))))"

text \<open>
  \<open>ts_process\<close>; \<open>pc\<close> is the uninitialised array \<open>pkt_con\<close>.  The result is -1 when the input cannot be
  opened or is not a transport stream.
\<close>

definition ts_process ::
  "nat \<Rightarrow> 'io io_ops \<Rightarrow> string \<Rightarrow> (nat \<Rightarrow> bytes \<Rightarrow> 's \<Rightarrow> 's option) \<Rightarrow> bytes \<Rightarrow> 's \<Rightarrow> (int \<times> 's) option option" where
  "ts_process fuel ops name proc pc s = (case io_open ops name of None \<Rightarrow> Some (Some (-1, s))
   | Some io \<Rightarrow> (case io_read ops io of (_, ptr, io) \<Rightarrow>
     (case mpegts_probe ptr (length ptr) of None \<Rightarrow> Some None
      | Some typ \<Rightarrow> (case probe_pktlen typ of None \<Rightarrow> Some (Some (-1, s))
        | Some k \<Rightarrow> (case analyze ptr (int (k * 2)) k of None \<Rightarrow> Some None
          | Some (_, index) \<Rightarrow> let start_index = (case index of None \<Rightarrow> 0 | Some x \<Rightarrow> x) in
              map_option (map_option (\<lambda>(_, s). (0, s)))
                (process_loop fuel ops (proc k) k (drop start_index ptr) (pc, 0) io s))))))"

text \<open>The packets of the program: the state counts them, so that each has memory of its own.\<close>

definition packet_step ::
  "alloc_env \<Rightarrow> nat \<Rightarrow> tsa_config \<Rightarrow> ('sub, 'at) handlers \<Rightarrow> nat \<Rightarrow> bytes \<Rightarrow> nat \<times> ('sub, 'at) ts_state \<Rightarrow>
   (nat \<times> ('sub, 'at) ts_state) option" where
  "packet_step e bw cfg hs k data s = (case s of (i, st) \<Rightarrow> do {
     (_, st) \<leftarrow> ts_proc (in_node e i) bw cfg hs data (of_nat k) st;
     Some (Suc i, st) })"

section \<open>Packets of a stream\<close>

text \<open>The packets of a byte sequence and the bytes that are left; the memory each packet starts at.\<close>

function packets :: "nat \<Rightarrow> bytes \<Rightarrow> bytes list" where
  "packets k bs = (if 0 < k \<and> k \<le> length bs then take k bs # packets k (drop k bs) else [])"
  by pat_completeness auto
termination
  by (relation "measure (\<lambda>(k, bs). length bs)") auto

function left_over :: "nat \<Rightarrow> bytes \<Rightarrow> bytes" where
  "left_over k bs = (if 0 < k \<and> k \<le> length bs then left_over k (drop k bs) else bs)"
  by pat_completeness auto
termination
  by (relation "measure (\<lambda>(k, bs). length bs)") auto

function windows :: "nat \<Rightarrow> bytes \<Rightarrow> bytes list" where
  "windows k bs = (if 0 < k \<and> k \<le> length bs then bs # windows k (drop k bs) else [])"
  by pat_completeness auto
termination
  by (relation "measure (\<lambda>(k, bs). length bs)") auto

declare packets.simps [simp del] left_over.simps [simp del] windows.simps [simp del]

fun fold_proc :: "(bytes \<Rightarrow> 's \<Rightarrow> 's option) \<Rightarrow> bytes list \<Rightarrow> 's \<Rightarrow> 's option" where
  "fold_proc proc [] s = Some s"
| "fold_proc proc (c # cs) s = proc c s \<bind> fold_proc proc cs"

lemma fold_proc_append: "fold_proc proc (cs @ ds) s = fold_proc proc cs s \<bind> fold_proc proc ds"
  by (induction cs arbitrary: s) (auto split: Option.bind_splits)

lemma windows_packets: "map (take k) (windows k bs) = packets k bs"
  by (induction k bs rule: windows.induct) (subst windows.simps, subst packets.simps, simp)

lemma left_over_short: "0 < k \<Longrightarrow> length (left_over k bs) < k"
  by (induction k bs rule: left_over.induct) (subst left_over.simps, simp)

lemma packets_short: "length bs < k \<Longrightarrow> packets k bs = []"
  by (simp add: packets.simps)

lemma packets_append: "packets k (xs @ ys) = packets k xs @ packets k (left_over k xs @ ys)"
proof (induction k xs rule: packets.induct)
  case (1 k xs)
  show ?case
  proof (cases "0 < k \<and> k \<le> length xs")
    case True
    then have "packets k (xs @ ys) = take k xs # packets k (drop k xs @ ys)" by (subst packets.simps) simp
    moreover have "packets k xs = take k xs # packets k (drop k xs)" "left_over k xs = left_over k (drop k xs)"
      using True packets.simps [of k xs] left_over.simps [of k xs] by simp_all
    ultimately show ?thesis using 1 True by simp
  next
    case False
    then show ?thesis using packets.simps [of k xs] left_over.simps [of k xs] by auto
  qed
qed

lemma packets_loop_windows:
  "packets_loop proc k ptr s = map_option (Pair (left_over k ptr)) (fold_proc proc (windows k ptr) s)"
proof (induction k ptr arbitrary: s rule: windows.induct)
  case (1 k ptr)
  show ?case
  proof (cases "0 < k \<and> k \<le> length ptr")
    case True
    then have "windows k ptr = ptr # windows k (drop k ptr)" "left_over k ptr = left_over k (drop k ptr)"
      using windows.simps [of k ptr] left_over.simps [of k ptr] by simp_all
    then show ?thesis
      using 1 [OF True] True by (subst packets_loop.simps) (simp split: Option.bind_splits)
  next
    case False
    then show ?thesis using windows.simps [of k ptr] left_over.simps [of k ptr] by (subst packets_loop.simps) auto
  qed
qed

section \<open>Blocks\<close>

text \<open>The saved bytes are a whole packet or none; what is still to be processed of a block.\<close>

definition saved :: "nat \<Rightarrow> bytes \<times> nat \<Rightarrow> bytes" where
  "saved k con = (if snd con = k then take k (fst con) else [])"

definition calls :: "nat \<Rightarrow> bytes \<times> nat \<Rightarrow> bytes \<Rightarrow> bytes list" where
  "calls k con ptr = (if snd con = k then [fst con] else []) @ windows k ptr"

lemma calls_packets:
  assumes "0 < k" "snd con = k \<or> snd con = 0" "k \<le> length (fst con)"
  shows "map (take k) (calls k con ptr) = packets k (saved k con @ ptr)" "left_over k (saved k con @ ptr) = left_over k ptr"
  using assms packets.simps [of k "saved k con @ ptr"] left_over.simps [of k "saved k con @ ptr"]
  by (auto simp: calls_def saved_def windows_packets)

text \<open>The array \<open>pkt_con\<close> after the block.\<close>

definition saved_con :: "nat \<Rightarrow> bytes \<times> nat \<Rightarrow> bytes \<Rightarrow> bytes" where
  "saved_con k con ptr = left_over k ptr @ drop (length (left_over k ptr)) (fst con)"

lemma process_block_calls:
  assumes "0 < k" "snd con = k \<or> snd con = 0" "k \<le> length (fst con)"
  shows "process_block proc k ptr con s =
      map_option (Pair (saved_con k con ptr, length (left_over k ptr))) (fold_proc proc (calls k con ptr) s)"
proof -
  let ?l = "left_over k ptr"
  have "length ?l \<le> length (fst con)" using left_over_short [OF assms(1), of ptr] assms(3) by simp
  then have "memcpy (fst con) 0 ?l (int (length ?l)) = Some (saved_con k con ptr)"
    using memcpy_ok [of "length ?l" ?l 0 "fst con"] by (simp add: saved_con_def)
  then show ?thesis
    using assms
    by (cases con) (auto simp: process_block_def calls_def packets_loop_windows fold_proc_append map_option_case saved_con_def
        split: Option.bind_splits option.splits)
qed

lemma saved_con_props:
  assumes "0 < k" "k \<le> length (fst con)"
  shows "length (saved_con k con ptr) = length (fst con)" "take (length (left_over k ptr)) (saved_con k con ptr) = left_over k ptr"
  using left_over_short [OF assms(1), of ptr] assms(2) by (simp_all add: saved_con_def)

text \<open>Completing the saved packet from the next block.\<close>

lemma complete_packet:
  assumes "0 < k" "k \<le> length (fst con)" "k \<le> length b" "n = length (left_over k ptr)"
  obtains pc where "memcpy (saved_con k con ptr) (int n) b (int k - int n) = Some pc"
    "length pc = length (fst con)" "take k pc @ drop (k - n) b = left_over k ptr @ b"
proof -
  have n: "n < k" using left_over_short [OF assms(1), of ptr] assms(4) by simp
  have l: "length (saved_con k con ptr) = length (fst con)" "take n (saved_con k con ptr) = left_over k ptr"
    using saved_con_props [OF assms(1,2), of ptr] assms(4) by simp_all
  let ?pc = "left_over k ptr @ take (k - n) b @ drop k (saved_con k con ptr)"
  have "memcpy (saved_con k con ptr) (int n) b (int (k - n)) = Some ?pc"
    using memcpy_ok [of "k - n" b n "saved_con k con ptr"] assms(2,3) n l by simp
  moreover have "int (k - n) = int k - int n" using n by simp
  ultimately show thesis
    using assms(2-4) n l(1) by (intro that [of ?pc]) auto
qed

text \<open>
  The contract of an input: the blocks it still holds come in order, \<open>end\<close> is zero when none is
  left, and a read after that fails.
\<close>

locale block_source =
  fixes ops :: "'io io_ops" and inv :: "'io \<Rightarrow> bool" and blocks :: "'io \<Rightarrow> bytes list"
  assumes read_next: "\<lbrakk>inv io; blocks io = b # bs\<rbrakk> \<Longrightarrow> \<exists>io'. io_read ops io = (0, b, io') \<and> inv io' \<and> blocks io' = bs"
    and read_done: "\<lbrakk>inv io; blocks io = []\<rbrakk> \<Longrightarrow> fst (io_read ops io) < 0"
    and end_done: "inv io \<Longrightarrow> io_end ops io = 0 \<longleftrightarrow> blocks io = []"
begin

lemma process_loop_packets:
  assumes "inv io" "length (blocks io) < fuel" "\<forall>b \<in> set (blocks io). k \<le> length b"
    and "0 < k" "snd con = k \<or> snd con = 0" "k \<le> length (fst con)"
  shows "\<exists>io' cs. (\<forall>s. process_loop fuel ops proc k ptr con io s = Some (map_option (Pair io') (fold_proc proc cs s))) \<and>
    map (take k) cs = packets k (saved k con @ ptr @ concat (butlast (blocks io)))"
  using assms(1-3,5,6)
proof (induction "blocks io" arbitrary: fuel ptr con io)
  case Nil
  then obtain f where "fuel = Suc f" by (cases fuel) auto
  then show ?case
    using read_done [of io] Nil process_block_calls [OF assms(4) Nil(5,6), of proc ptr]
      calls_packets(1) [OF assms(4) Nil(5,6), of ptr]
    by (intro exI [of _ "snd (snd (io_read ops io))"] exI [of _ "calls k con ptr"])
       (auto split: option.splits prod.splits)
next
  case (Cons b bs)
  have bl: "blocks io = b # bs" using Cons.hyps(2) by simp
  obtain f where f: "fuel = Suc f" "length bs < f" using Cons.prems(2) unfolding bl by (cases fuel) auto
  obtain io' where io': "io_read ops io = (0, b, io')" "inv io'" "blocks io' = bs"
    using read_next [of io b bs] Cons.hyps(2) Cons.prems(1) by auto
  let ?n = "length (left_over k ptr)" and ?c = "calls k con ptr"
  have blk: "process_block proc k ptr con s = map_option (Pair (saved_con k con ptr, ?n)) (fold_proc proc ?c s)" for s
    by (rule process_block_calls [OF assms(4) Cons.prems(4,5)])
  have kb: "k \<le> length b" "\<forall>b \<in> set (blocks io'). k \<le> length b" using bl Cons.prems(3) io'(3) by auto
  obtain pc where pc: "memcpy (saved_con k con ptr) (int ?n) b (int k - int ?n) = Some pc"
    "length pc = length (fst con)" "take k pc @ drop (k - ?n) b = left_over k ptr @ b"
    using complete_packet [OF assms(4) Cons.prems(5) kb(1) refl] by blast
  let ?con = "if ?n = 0 then (saved_con k con ptr, 0) else (pc, k)" and ?ptr = "if ?n = 0 then b else drop (k - ?n) b"
  have con: "snd ?con = k \<or> snd ?con = 0" "k \<le> length (fst ?con)"
    using pc(2) saved_con_props(1) [OF assms(4) Cons.prems(5)] Cons.prems(5) by auto
  have sv: "saved k ?con @ ?ptr = left_over k ptr @ b" using pc(3) assms(4) by (auto simp: saved_def)
  have pre: "packets k (saved k con @ ptr @ ys) = map (take k) ?c @ packets k (left_over k ptr @ ys)" for ys
    using calls_packets [OF assms(4) Cons.prems(4,5), of ptr] packets_append [of k "saved k con @ ptr" ys] by simp
  have step: "process_loop fuel ops proc k ptr con io s = (case fold_proc proc ?c s of None \<Rightarrow> Some None
      | Some s \<Rightarrow> if blocks io' = [] then Some (Some (io', s)) else process_loop f ops proc k ?ptr ?con io' s)" for s
    using end_done [OF io'(2)] by (simp add: f(1) blk io'(1) pc(1) split: option.splits)
  show ?case
  proof (cases "bs = []")
    case True
    then have e: "blocks io' = []" "blocks io = [b]" using io'(3) bl by auto
    show ?thesis
      using pre [of "[]"] left_over_short [OF assms(4), of ptr] step
      by (intro exI [of _ io'] exI [of _ ?c]) (auto simp: e packets_short split: option.splits)
  next
    case False
    have "bs = blocks io'" using io'(3) by simp
    from Cons.hyps(1) [OF this io'(2) _ kb(2) con, of f ?ptr] f(2) io'(3) obtain io2 cs where
      ih: "\<And>s. process_loop f ops proc k ?ptr ?con io' s = Some (map_option (Pair io2) (fold_proc proc cs s))"
      "map (take k) cs = packets k (saved k ?con @ ?ptr @ concat (butlast bs))" by auto
    have eq: "saved k ?con @ ?ptr @ concat (butlast bs) = left_over k ptr @ b @ concat (butlast bs)"
      using arg_cong [OF sv, of "\<lambda>x. x @ concat (butlast bs)"] by (simp only: append.assoc)
    have "map (take k) (?c @ cs) = packets k (saved k con @ ptr @ concat (butlast (blocks io)))"
      unfolding map_append ih(2) eq using pre [of "b @ concat (butlast bs)"] False by (simp add: bl)
    moreover have "process_loop fuel ops proc k ptr con io s = Some (map_option (Pair io2) (fold_proc proc (?c @ cs) s))" for s
      using False io'(3) ih(1) unfolding step fold_proc_append by (auto split: option.splits)
    ultimately show ?thesis by blast
  qed
qed

end

section \<open>Files as inputs\<close>

function chop :: "nat \<Rightarrow> bytes \<Rightarrow> bytes list" where
  "chop n bs = (if 0 < n \<and> bs \<noteq> [] then take n bs # chop n (drop n bs) else [])"
  by pat_completeness auto
termination
  by (relation "measure (\<lambda>(n, bs). length bs)") auto

declare chop.simps [simp del]

lemma chop_Nil [simp]: "chop n [] = []" by (simp add: chop.simps)

lemma chop_Nil_iff: "0 < n \<Longrightarrow> chop n bs = [] \<longleftrightarrow> bs = []" by (simp add: chop.simps)

lemma chop_Cons: "0 < n \<Longrightarrow> chop n bs = b # cs \<longleftrightarrow> bs \<noteq> [] \<and> b = take n bs \<and> cs = chop n (drop n bs)"
  by (subst chop.simps) auto

lemma concat_butlast_chop: "0 < n \<Longrightarrow> concat (butlast (chop n bs)) = take (n * ((length bs - 1) div n)) bs"
proof (induction n bs rule: chop.induct)
  case (1 n bs)
  show ?case
  proof (cases "length bs \<le> n")
    case True
    have "length bs - 1 < n" using True 1(2) by linarith
    then show ?thesis using True 1(2) by (subst chop.simps) simp
  next
    case False
    have c: "chop n bs = take n bs # chop n (drop n bs)" "chop n (drop n bs) \<noteq> []"
      using False 1(2) chop.simps [of n bs] chop_Nil_iff [OF 1(2), of "drop n bs"] by auto
    have "(length bs - 1) div n = Suc ((length (drop n bs) - 1) div n)"
      using False 1(2) by (subst div_if) (auto simp: diff_commute)
    moreover have "bs \<noteq> []" using False by auto
    ultimately show ?thesis
      using 1 False c by (subst c(1)) (simp add: take_add)
  qed
qed

lemma chop_sizes:
  "\<lbrakk>0 < n; b \<in> set (chop n bs)\<rbrakk> \<Longrightarrow> length b = n \<or> length b = length bs mod n \<and> 0 < length b"
proof (induction n bs rule: chop.induct)
  case (1 n bs)
  then have ne: "bs \<noteq> []" by auto
  show ?case
  proof (cases "b = take n bs")
    case True
    then show ?thesis using ne by (cases "n \<le> length bs") (auto simp: min_def)
  next
    case False
    have "b \<in> set (chop n (drop n bs))" using 1(3) False ne 1(2) chop.simps [of n bs] by auto
    moreover have "n < length bs" using calculation by (cases "n < length bs") auto
    ultimately show ?thesis using 1(1,2) ne by (auto simp: le_mod_geq)
  qed
qed

lemma length_chop: "0 < n \<Longrightarrow> length (chop n bs) \<le> length bs div n + 1"
proof (induction n bs rule: chop.induct)
  case (1 n bs)
  show ?case
  proof (cases "length bs \<le> n")
    case True
    then show ?thesis using chop.simps [of n bs] by simp
  next
    case False
    then have "length bs div n = Suc (length (drop n bs) div n)" "bs \<noteq> []" using 1(2) by (auto simp: le_div_geq)
    then show ?thesis using 1 chop.simps [of n bs] by simp
  qed
qed

definition file_inv :: "nat \<Rightarrow> file_io \<Rightarrow> bool" where
  "file_inv page f \<longleftrightarrow> fi_total_size f = length (fi_data f) \<and> 0 < fi_block_size f \<and> page dvd fi_block_size f \<and>
     \<not> page dvd fi_total_size f \<and> (fi_offset f = fi_total_size f \<or> fi_offset f < fi_total_size f \<and> page dvd fi_offset f) \<and>
     fi_total_size f < 2 ^ 32"

definition file_blocks :: "file_io \<Rightarrow> bytes list" where
  "file_blocks f = chop (fi_block_size f) (drop (fi_offset f) (fi_data f))"

lemma fileio_end_dvd: "fileio_end f = 0 \<longleftrightarrow> 2 ^ 32 dvd (fi_total_size f - fi_offset f)"
proof -
  have "fileio_end f = 0 \<longleftrightarrow> unat (of_nat (fi_total_size f - fi_offset f) :: 32 word) = 0"
    unfolding fileio_end_def unat_eq_zero by (rule signed_eq_0_iff)
  then show ?thesis by (simp only: unsigned_of_nat) (simp add: take_bit_eq_mod dvd_eq_mod_eq_0)
qed

lemma fileio_end_0: "fi_total_size f < 2 ^ 32 \<Longrightarrow> fileio_end f = 0 \<longleftrightarrow> fi_total_size f \<le> fi_offset f"
  unfolding fileio_end_dvd using nat_dvd_not_less [of "fi_total_size f - fi_offset f" "2 ^ 32"]
  by (cases "fi_total_size f \<le> fi_offset f") auto

interpretation fio: block_source "file_ops disk page" "file_inv page" file_blocks for disk page
proof
  fix f b bs
  assume inv: "file_inv page f" and bl: "file_blocks f = b # bs"
  have B: "0 < fi_block_size f" "fi_total_size f = length (fi_data f)" using inv by (auto simp: file_inv_def)
  then have d: "fi_offset f < fi_total_size f" "b = take (fi_block_size f) (drop (fi_offset f) (fi_data f))"
    "bs = chop (fi_block_size f) (drop (fi_block_size f) (drop (fi_offset f) (fi_data f)))"
    using bl by (auto simp: file_blocks_def chop_Cons)
  let ?sz = "min (fi_block_size f) (fi_total_size f - fi_offset f)"
  let ?f = "f\<lparr>fi_offset := fi_offset f + ?sz\<rparr>"
  have o: "page dvd fi_offset f" using inv d(1) by (auto simp: file_inv_def)
  then have "io_read (file_ops disk page) f = (0, b, ?f)"
    using d(2) B(2) by (auto simp: file_ops_def fileio_read_def Let_def min_def)
  moreover have "file_inv page ?f"
    using inv o d(1) by (auto simp: file_inv_def min_def)
  moreover have "file_blocks ?f = bs"
    using d(1,3) B by (cases "fi_block_size f \<le> fi_total_size f - fi_offset f") (auto simp: file_blocks_def min_def add.commute)
  ultimately show "\<exists>io'. io_read (file_ops disk page) f = (0, b, io') \<and> file_inv page io' \<and> file_blocks io' = bs" by blast
next
  fix f
  assume "file_inv page f" "file_blocks f = []"
  then have "\<not> page dvd fi_offset f" by (auto simp: file_inv_def file_blocks_def chop_Nil_iff)
  then show "fst (io_read (file_ops disk page) f) < 0" by (auto simp: file_ops_def fileio_read_def)
next
  fix f
  assume "file_inv page f"
  then show "io_end (file_ops disk page) f = 0 \<longleftrightarrow> file_blocks f = []"
    using fileio_end_0 [of f] by (auto simp: file_inv_def file_ops_def file_blocks_def chop_Nil_iff)
qed

section \<open>Properties\<close>

definition BLOCK :: nat where "BLOCK = 2048 * 1024"

lemma later_blocks:
  assumes "length file \<le> BLOCK \<or> TS_FEC_PACKET_SIZE \<le> length file mod BLOCK" "b \<in> set (chop BLOCK (drop BLOCK file))"
  shows "TS_FEC_PACKET_SIZE \<le> length b"
proof -
  have "\<not> length file \<le> BLOCK" using assms(2) by auto
  with assms(1) have "TS_FEC_PACKET_SIZE \<le> length (drop BLOCK file) mod BLOCK" by (simp add: le_mod_geq)
  with chop_sizes [of BLOCK b "drop BLOCK file"] assms(2) show ?thesis by (auto simp: BLOCK_def packet_sizes)
qed

text \<open>The bytes that are analysed: the first block from \<open>start\<close> on and the others but the last one.\<close>

lemma processed_bytes:
  assumes "start \<le> BLOCK"
  shows "drop start (take BLOCK file) @ concat (butlast (chop BLOCK (drop BLOCK file))) =
    drop start (if length file \<le> BLOCK then file else take (BLOCK * ((length file - 1) div BLOCK)) file)"
proof (cases "length file \<le> BLOCK")
  case False
  have B: "0 < BLOCK" by (simp add: BLOCK_def)
  have "(length file - 1) div BLOCK = Suc ((length (drop BLOCK file) - 1) div BLOCK)"
    using False B by (subst div_if) (auto simp: diff_commute)
  then show ?thesis using assms False concat_butlast_chop [OF B, of "drop BLOCK file"] by (simp add: take_add)
qed simp



text \<open>
  C30. The test for the end of a file counts the rest modulo \<open>2 ^ 32\<close>: it also says "at the end" when a
  multiple of four gigabytes is left.
\<close>

theorem fileio_end_wraps:
  "io_end (file_ops disk page) f = 0 \<longleftrightarrow>
    fi_total_size f \<le> fi_offset f \<or> 2 ^ 32 dvd (fi_total_size f - fi_offset f)"
  using fileio_end_dvd [of f] by (auto simp: file_ops_def)

end
