(* ===== verification/Simulation.thy ===== *)
theory Simulation
  imports Ts_Prelude
begin

text \<open>
  Sequences of operations, and the interface between the code and an abstract view of its
  state: where every operation the view allows is carried out by the code with the same effect,
  so is every sequence of operations.
\<close>

primrec fold_opt :: "('a \<Rightarrow> 's \<Rightarrow> 's option) \<Rightarrow> 'a list \<Rightarrow> 's \<Rightarrow> 's option" where
  "fold_opt f [] s = Some s"
| "fold_opt f (x # xs) s = f x s \<bind> fold_opt f xs"

lemma fold_opt_append: "fold_opt f (xs @ ys) s = fold_opt f xs s \<bind> fold_opt f ys"
  by (induction xs arbitrary: s) (simp_all split: Option.bind_split)

lemma fold_opt_collect: "fold_opt (\<lambda>x ys. Some (ys @ [g x])) xs ys = Some (ys @ map g xs)"
  by (induction xs arbitrary: ys) simp_all

locale simulation =
  fixes rel :: "'c \<Rightarrow> 'a \<Rightarrow> bool"
    and cstep :: "'o \<Rightarrow> 'c \<Rightarrow> 'c option"
    and astep :: "'o \<Rightarrow> 'a \<Rightarrow> 'a option"
  assumes step: "\<lbrakk>rel c a; astep x a = Some a'\<rbrakk> \<Longrightarrow> \<exists>c'. cstep x c = Some c' \<and> rel c' a'"
begin

lemma run: "\<lbrakk>rel c a; fold_opt astep xs a = Some a'\<rbrakk> \<Longrightarrow> \<exists>c'. fold_opt cstep xs c = Some c' \<and> rel c' a'"
proof (induction xs arbitrary: c a)
  case (Cons x xs)
  then obtain a1 where a1: "astep x a = Some a1" "fold_opt astep xs a1 = Some a'"
    by (auto simp: Option.bind_eq_Some_conv)
  with step [OF Cons.prems(1)] obtain c1 where "cstep x c = Some c1" "rel c1 a1" by blast
  with Cons.IH [OF _ a1(2)] show ?case by auto
qed simp

end

end
