(* ===== verification/Ccan_List.thy ===== *)
theory Ccan_List
  imports Simulation
begin

text \<open>
  The intrusive doubly linked lists of \<^verbatim>\<open>include/list.h\<close>, which hold the descriptors, the
  programs, the elementary streams and the subtitle segments of the other components.  There a
  list is a list of HOL; here are the pointer operations on the nodes in memory and the proof
  that they act on the ring of nodes as the list operations do on the list.

  An address is a 64-bit word, \<open>NULL\<close> is 0, and the memory maps an address to the node there;
  a read or a write through an address without node (null, freed, never allocated) is
  undefined.  The checks of \<open>LIST_DEBUG\<close>, which the build does not set, are left out.
\<close>

section \<open>Data\<close>

type_synonym addr = u64

record list_node =
  ln_next :: addr
  ln_prev :: addr

type_synonym heap = "addr \<rightharpoonup> list_node"

definition get_next :: "heap \<Rightarrow> addr \<Rightarrow> addr option" where
  "get_next m p = map_option ln_next (m p)"

definition get_prev :: "heap \<Rightarrow> addr \<Rightarrow> addr option" where
  "get_prev m p = map_option ln_prev (m p)"

definition set_next :: "addr \<Rightarrow> addr \<Rightarrow> heap \<Rightarrow> heap option" where
  "set_next p v m = map_option (\<lambda>n. m(p \<mapsto> n\<lparr>ln_next := v\<rparr>)) (m p)"

definition set_prev :: "addr \<Rightarrow> addr \<Rightarrow> heap \<Rightarrow> heap option" where
  "set_prev p v m = map_option (\<lambda>n. m(p \<mapsto> n\<lparr>ln_prev := v\<rparr>)) (m p)"

section \<open>Operations\<close>

definition list_head_init :: "addr \<Rightarrow> heap \<Rightarrow> heap option" where
  "list_head_init h m = do { m \<leftarrow> set_prev h h m; set_next h h m }"

definition list_node_init :: "addr \<Rightarrow> heap \<Rightarrow> heap option" where
  "list_node_init n m = do { m \<leftarrow> set_prev n n m; set_next n n m }"

definition list_add_after :: "addr \<Rightarrow> addr \<Rightarrow> heap \<Rightarrow> heap option" where
  "list_add_after p n m = do {
     q \<leftarrow> get_next m p;
     m \<leftarrow> set_next n q m;
     m \<leftarrow> set_prev n p m;
     q \<leftarrow> get_next m p;
     m \<leftarrow> set_prev q n m;
     set_next p n m }"

definition list_add :: "addr \<Rightarrow> addr \<Rightarrow> heap \<Rightarrow> heap option" where
  "list_add h n m = list_add_after h n m"

definition list_add_before :: "addr \<Rightarrow> addr \<Rightarrow> heap \<Rightarrow> heap option" where
  "list_add_before p n m = do {
     m \<leftarrow> set_next n p m;
     q \<leftarrow> get_prev m p;
     m \<leftarrow> set_prev n q m;
     q \<leftarrow> get_prev m p;
     m \<leftarrow> set_next q n m;
     set_prev p n m }"

definition list_add_tail :: "addr \<Rightarrow> addr \<Rightarrow> heap \<Rightarrow> heap option" where
  "list_add_tail h n m = list_add_before h n m"

definition list_empty :: "addr \<Rightarrow> heap \<Rightarrow> bool option" where
  "list_empty h m = map_option (\<lambda>q. q = h) (get_next m h)"

definition list_del :: "addr \<Rightarrow> heap \<Rightarrow> heap option" where
  "list_del n m = do {
     q \<leftarrow> get_next m n;
     p \<leftarrow> get_prev m n;
     m \<leftarrow> set_prev q p m;
     p \<leftarrow> get_prev m n;
     q \<leftarrow> get_next m n;
     set_next p q m }"

definition list_del_init :: "addr \<Rightarrow> heap \<Rightarrow> heap option" where
  "list_del_init n m = do { m \<leftarrow> list_del n m; list_node_init n m }"

text \<open>The assertion of \<open>list_del_from\<close> fails on an empty list.\<close>

definition list_del_from :: "addr \<Rightarrow> addr \<Rightarrow> heap \<Rightarrow> heap option" where
  "list_del_from h n m = do {
     e \<leftarrow> list_empty h m;
     if e then None else list_del n m }"

definition list_swap :: "addr \<Rightarrow> addr \<Rightarrow> heap \<Rightarrow> heap option" where
  "list_swap old n m = do {
     v \<leftarrow> m old;
     m \<leftarrow> (case m n of None \<Rightarrow> None | Some _ \<Rightarrow> Some (m(n \<mapsto> v)));
     q \<leftarrow> get_next m n;
     m \<leftarrow> set_prev q n m;
     p \<leftarrow> get_prev m n;
     set_next p n m }"

text \<open>The structure a node is a member of starts \<open>off\<close> bytes before the node.\<close>

definition list_node_to_off :: "addr \<Rightarrow> u64 \<Rightarrow> addr" where
  "list_node_to_off node off = node - off"

definition list_node_from_off :: "addr \<Rightarrow> u64 \<Rightarrow> addr" where
  "list_node_from_off ptr off = ptr + off"

definition list_top :: "addr \<Rightarrow> u64 \<Rightarrow> heap \<Rightarrow> addr option" where
  "list_top h off m = do {
     e \<leftarrow> list_empty h m;
     if e then Some 0 else map_option (\<lambda>q. q - off) (get_next m h) }"

definition list_pop :: "addr \<Rightarrow> u64 \<Rightarrow> heap \<Rightarrow> (addr \<times> heap) option" where
  "list_pop h off m = do {
     e \<leftarrow> list_empty h m;
     if e then Some (0, m)
     else do {
       n \<leftarrow> get_next m h;
       m \<leftarrow> list_del n m;
       Some (n - off, m) } }"

definition list_tail :: "addr \<Rightarrow> u64 \<Rightarrow> heap \<Rightarrow> addr option" where
  "list_tail h off m = do {
     e \<leftarrow> list_empty h m;
     if e then Some 0 else map_option (\<lambda>q. q - off) (get_prev m h) }"

definition list_entry_or_null :: "addr \<Rightarrow> addr \<Rightarrow> u64 \<Rightarrow> addr" where
  "list_entry_or_null h n off = (if n = h then 0 else n - off)"

definition list_next :: "addr \<Rightarrow> addr \<Rightarrow> u64 \<Rightarrow> heap \<Rightarrow> addr option" where
  "list_next h i off m = map_option (\<lambda>q. list_entry_or_null h q off) (get_next m (i + off))"

definition list_prev :: "addr \<Rightarrow> addr \<Rightarrow> u64 \<Rightarrow> heap \<Rightarrow> addr option" where
  "list_prev h i off m = map_option (\<lambda>q. list_entry_or_null h q off) (get_prev m (i + off))"

definition list_append_list :: "addr \<Rightarrow> addr \<Rightarrow> heap \<Rightarrow> heap option" where
  "list_append_list to from m = do {
     from_tail \<leftarrow> get_prev m from;
     to_tail \<leftarrow> get_prev m to;
     m \<leftarrow> set_prev to from_tail m;
     m \<leftarrow> set_next from_tail to m;
     m \<leftarrow> set_next to_tail from m;
     m \<leftarrow> set_prev from to_tail m;
     m \<leftarrow> list_del from m;
     list_head_init from m }"

definition list_prepend_list :: "addr \<Rightarrow> addr \<Rightarrow> heap \<Rightarrow> heap option" where
  "list_prepend_list to from m = do {
     from_tail \<leftarrow> get_prev m from;
     to_head \<leftarrow> get_next m to;
     m \<leftarrow> set_next to from m;
     m \<leftarrow> set_prev from to m;
     m \<leftarrow> set_prev to_head from_tail m;
     m \<leftarrow> set_next from_tail to_head m;
     m \<leftarrow> list_del from m;
     list_head_init from m }"

text \<open>
  The loop macros, with the body as a function.  \<open>list_for_each\<close> reads the link of the node
  after the body, \<open>list_for_each_safe\<close> before it; neither need end, and the value \<open>None\<close>
  stands for that, too.
\<close>

partial_function (option) list_for_each_loop ::
  "(heap \<Rightarrow> addr \<Rightarrow> addr option) \<Rightarrow> addr \<Rightarrow> (addr \<Rightarrow> heap \<times> 's \<Rightarrow> (heap \<times> 's) option) \<Rightarrow> addr \<Rightarrow> heap \<times> 's \<Rightarrow> (heap \<times> 's) option" where
  "list_for_each_loop dir h body i s =
     (if i = h then Some s
      else do {
        s \<leftarrow> body i s;
        i \<leftarrow> dir (fst s) i;
        list_for_each_loop dir h body i s })"

definition list_for_each ::
  "(heap \<Rightarrow> addr \<Rightarrow> addr option) \<Rightarrow> addr \<Rightarrow> (addr \<Rightarrow> heap \<times> 's \<Rightarrow> (heap \<times> 's) option) \<Rightarrow> heap \<times> 's \<Rightarrow> (heap \<times> 's) option" where
  "list_for_each dir h body s = do {
     i \<leftarrow> dir (fst s) h;
     list_for_each_loop dir h body i s }"

partial_function (option) list_for_each_safe_loop ::
  "(heap \<Rightarrow> addr \<Rightarrow> addr option) \<Rightarrow> addr \<Rightarrow> (addr \<Rightarrow> heap \<times> 's \<Rightarrow> (heap \<times> 's) option) \<Rightarrow> addr \<Rightarrow> addr \<Rightarrow> heap \<times> 's \<Rightarrow> (heap \<times> 's) option" where
  "list_for_each_safe_loop dir h body i nxt s =
     (if i = h then Some s
      else do {
        s \<leftarrow> body i s;
        nxt' \<leftarrow> dir (fst s) nxt;
        list_for_each_safe_loop dir h body nxt nxt' s })"

definition list_for_each_safe ::
  "(heap \<Rightarrow> addr \<Rightarrow> addr option) \<Rightarrow> addr \<Rightarrow> (addr \<Rightarrow> heap \<times> 's \<Rightarrow> (heap \<times> 's) option) \<Rightarrow> heap \<times> 's \<Rightarrow> (heap \<times> 's) option" where
  "list_for_each_safe dir h body s = do {
     i \<leftarrow> dir (fst s) h;
     nxt \<leftarrow> dir (fst s) i;
     list_for_each_safe_loop dir h body i nxt s }"

text \<open>
  What every \<open>free_*\<close> function of the program does in such a loop: it takes the node out of the
  list and frees the structure that contains it.
\<close>

definition free_node :: "addr \<Rightarrow> heap \<times> addr list \<Rightarrow> (heap \<times> addr list) option" where
  "free_node i s = do {
     m \<leftarrow> list_del i (fst s);
     Some (m(i := None), snd s @ [i]) }"

section \<open>Links\<close>

definition linked :: "heap \<Rightarrow> addr \<Rightarrow> addr \<Rightarrow> bool" where
  "linked m p q \<longleftrightarrow> get_next m p = Some q \<and> get_prev m q = Some p"

text \<open>The nodes \<open>xs\<close> lead from \<open>p\<close> to \<open>q\<close>, forwards and backwards.\<close>

fun seg :: "heap \<Rightarrow> addr \<Rightarrow> addr list \<Rightarrow> addr \<Rightarrow> bool" where
  "seg m p [] q \<longleftrightarrow> linked m p q"
| "seg m p (x # xs) q \<longleftrightarrow> linked m p x \<and> seg m x xs q"

definition is_list :: "heap \<Rightarrow> addr \<Rightarrow> addr list \<Rightarrow> bool" where
  "is_list m h xs \<longleftrightarrow> distinct (h # xs) \<and> seg m h xs h"

text \<open>\<open>m'\<close> has the same nodes as \<open>m\<close>, and other links only forwards from \<open>A\<close> and backwards from \<open>B\<close>.\<close>

definition same_links :: "addr set \<Rightarrow> addr set \<Rightarrow> heap \<Rightarrow> heap \<Rightarrow> bool" where
  "same_links A B m m' \<longleftrightarrow> dom m' = dom m \<and> (\<forall>x. x \<notin> A \<longrightarrow> get_next m' x = get_next m x) \<and>
     (\<forall>x. x \<notin> B \<longrightarrow> get_prev m' x = get_prev m x)"

lemma linked_dom: "linked m p q \<Longrightarrow> p \<in> dom m \<and> q \<in> dom m"
  by (auto simp: linked_def get_next_def get_prev_def)

lemma linkedD: "linked m p q \<Longrightarrow> get_next m p = Some q" "linked m p q \<Longrightarrow> get_prev m q = Some p"
  by (simp_all add: linked_def)

lemma seg_append [simp]: "seg m p (xs @ y # ys) q \<longleftrightarrow> seg m p xs y \<and> seg m y ys q"
  by (induction xs arbitrary: p) auto

lemma seg_dom: "seg m p xs q \<Longrightarrow> set xs \<subseteq> dom m \<and> p \<in> dom m \<and> q \<in> dom m"
  by (induction xs arbitrary: p) (auto dest: linked_dom)

lemma seg_first: "seg m p xs q \<Longrightarrow> linked m p (hd (xs @ [q]))"
  by (cases xs) auto

lemma seg_last: "seg m p xs q \<Longrightarrow> linked m (last (p # xs)) q"
  by (induction xs arbitrary: p) auto

lemma seg_frame:
  assumes "same_links A B m m'" "A \<inter> insert p (set xs) = {}" "B \<inter> insert q (set xs) = {}"
  shows "seg m' p xs q \<longleftrightarrow> seg m p xs q"
  using assms by (induction xs arbitrary: p) (auto simp: linked_def same_links_def)

lemma same_links_dom: "same_links A B m m' \<Longrightarrow> dom m' = dom m"
  by (simp add: same_links_def)

lemma same_links_mono: "\<lbrakk>same_links A B m m'; A \<subseteq> A'; B \<subseteq> B'\<rbrakk> \<Longrightarrow> same_links A' B' m m'"
  by (auto simp: same_links_def)

text \<open>Writes through valid pointers, as total functions.\<close>

definition upd_next :: "addr \<Rightarrow> addr \<Rightarrow> heap \<Rightarrow> heap" where
  "upd_next p v m = m(p := map_option (\<lambda>n. n\<lparr>ln_next := v\<rparr>) (m p))"

definition upd_prev :: "addr \<Rightarrow> addr \<Rightarrow> heap \<Rightarrow> heap" where
  "upd_prev p v m = m(p := map_option (\<lambda>n. n\<lparr>ln_prev := v\<rparr>) (m p))"

named_theorems link_simps \<open>reads and writes of links\<close>

lemma set_ok [link_simps]:
  "p \<in> dom m \<Longrightarrow> set_next p v m = Some (upd_next p v m)" "p \<in> dom m \<Longrightarrow> set_prev p v m = Some (upd_prev p v m)"
  by (auto simp: set_next_def set_prev_def upd_next_def upd_prev_def)

lemma get_upd [link_simps]:
  "get_next (upd_prev p v m) q = get_next m q" "get_prev (upd_next p v m) q = get_prev m q"
  "get_next (upd_next p v m) q = (if q = p \<and> p \<in> dom m then Some v else get_next m q)"
  "get_prev (upd_prev p v m) q = (if q = p \<and> p \<in> dom m then Some v else get_prev m q)"
  by (auto simp: get_next_def get_prev_def upd_next_def upd_prev_def option.map_comp comp_def dom_def)

lemma dom_upd [link_simps]: "dom (upd_next p v m) = dom m" "dom (upd_prev p v m) = dom m"
  by (auto simp: upd_next_def upd_prev_def)

lemma get_dom: "x \<in> dom m \<Longrightarrow> \<exists>v. get_next m x = Some v" "x \<in> dom m \<Longrightarrow> \<exists>v. get_prev m x = Some v"
  "get_next m x = Some v \<Longrightarrow> x \<in> dom m" "get_prev m x = Some v \<Longrightarrow> x \<in> dom m"
  by (auto simp: get_next_def get_prev_def)

section \<open>What the operations do to the links\<close>

lemma init_links:
  assumes "h \<in> dom m"
  obtains m' where "list_head_init h m = Some m'" "list_node_init h m = Some m'" "linked m' h h" "same_links {h} {h} m m'"
  using assms by (simp add: list_head_init_def list_node_init_def linked_def same_links_def link_simps)

lemma add_after_links:
  assumes "linked m p q" "n \<in> dom m" "n \<noteq> p" "n \<noteq> q"
  obtains m' where "list_add_after p n m = Some m'" "linked m' p n" "linked m' n q" "same_links {p, n} {n, q} m m'"
  using assms linked_dom [OF assms(1)]
  by (simp add: list_add_after_def linked_def same_links_def link_simps)

lemma add_before_links:
  assumes "linked m p q" "n \<in> dom m" "n \<noteq> p" "n \<noteq> q"
  obtains m' where "list_add_before q n m = Some m'" "linked m' p n" "linked m' n q" "same_links {p, n} {n, q} m m'"
  using assms linked_dom [OF assms(1)]
  by (simp add: list_add_before_def linked_def same_links_def link_simps)

lemma del_links:
  assumes "linked m p n" "linked m n q" "n \<noteq> p" "n \<noteq> q"
  obtains m' where "list_del n m = Some m'" "linked m' p q" "same_links {p} {q} m m'"
    "get_next m' n = Some q" "get_prev m' n = Some p"
  using assms linked_dom [OF assms(1)] linked_dom [OF assms(2)]
  by (simp add: list_del_def linked_def same_links_def link_simps)

lemma swap_links:
  assumes "linked m p x" "linked m x q" "n \<in> dom m" "x \<noteq> p" "x \<noteq> q" "n \<noteq> p" "n \<noteq> q" "n \<noteq> x"
  obtains m' where "list_swap x n m = Some m'" "linked m' p n" "linked m' n q" "same_links {p, n} {n, q} m m'"
proof -
  obtain v where v: "m x = Some v" "ln_next v = q" "ln_prev v = p"
    using assms(1,2) by (auto simp: linked_def get_next_def get_prev_def)
  define m1 where "m1 = m(n \<mapsto> v)"
  have get: "get_next m1 y = (if y = n then Some q else get_next m y)"
    "get_prev m1 y = (if y = n then Some p else get_prev m y)" for y
    using v by (auto simp: get_next_def get_prev_def m1_def)
  have dom: "dom m1 = dom m" using assms(3) by (auto simp: m1_def)
  have step: "list_swap x n m = do { q \<leftarrow> get_next m1 n; m \<leftarrow> set_prev q n m1; p \<leftarrow> get_prev m n; set_next p n m }"
    using assms(3) v(1) by (auto simp: list_swap_def m1_def)
  show thesis
    by (rule that [of "upd_next p n (upd_prev q n m1)"], unfold step)
      (use assms linked_dom [OF assms(1)] linked_dom [OF assms(2)] in
        \<open>simp_all add: linked_def same_links_def link_simps get dom\<close>)
qed

section \<open>What they do to segments\<close>

lemma seg_split:
  "seg m a (xs @ ys) b \<longleftrightarrow> seg m a xs (hd (ys @ [b])) \<and> seg m (last (a # xs)) ys b"
  by (induction xs arbitrary: a) (auto dest: seg_first)

text \<open>A segment whose inner links are kept is a segment between its new ends.\<close>

lemma seg_tail_kept:
  assumes "seg m a xs c" "linked m' (last (a # xs)) d" "same_links A B m m'"
    "A \<inter> set (butlast (a # xs)) = {}" "B \<inter> set xs = {}"
  shows "seg m' a xs d"
  using assms
proof (induction xs arbitrary: a)
  case (Cons x xs)
  then show ?case by (auto simp: linked_def same_links_def split: if_splits)
qed simp

lemma seg_inner_kept:
  assumes "seg m c xs c'" "linked m' a (hd (xs @ [b]))" "linked m' (last (a # xs)) b" "same_links A B m m'"
    "A \<inter> set (butlast xs) = {}" "B \<inter> set (tl xs) = {}"
  shows "seg m' a xs b"
proof (cases xs)
  case (Cons x ys)
  have "seg m' x ys b"
  proof (rule seg_tail_kept [OF _ _ assms(4)])
    show "A \<inter> set (butlast (x # ys)) = {}" using assms(5) Cons by simp
  qed (use assms Cons in auto)
  then show ?thesis using assms(2) Cons by simp
qed (use assms(2) in simp)

lemma butlast_inter: "A \<inter> set xs = {} \<Longrightarrow> A \<inter> set (butlast xs) = {}"
  by (auto dest: in_set_butlastD)

lemma tl_inter: "A \<inter> set xs = {} \<Longrightarrow> A \<inter> set (tl xs) = {}"
  by (auto dest: list.set_sel(2) [rotated] simp: tl_def split: list.splits)

lemma last_butlast: "distinct xs \<Longrightarrow> xs \<noteq> [] \<Longrightarrow> last xs \<notin> set (butlast xs)"
  by (induction xs) (auto dest: in_set_butlastD)

text \<open>
  Between \<open>xs\<close> and \<open>ys\<close> the nodes change: \<open>zs\<close> are linked there afterwards, and only the ends that
  meet them have new links.
\<close>

lemma ring_middle:
  assumes d: "distinct (h # xs @ ys)" and p: "p = last (h # xs)" and q: "q = hd (ys @ [h])"
    and xs: "seg m h xs c" and ys: "seg m c' ys h"
    and new: "seg m' p zs q" and s: "same_links A B m m'"
    and AB: "A \<inter> set (h # xs @ ys) \<subseteq> {p}" "B \<inter> set (h # xs @ ys) \<subseteq> {q}"
  shows "seg m' h (xs @ zs @ ys) h"
proof -
  have pl: "linked m' p (hd (zs @ [q]))" and ql: "linked m' (last (p # zs)) q"
    using seg_first [OF new] seg_last [OF new] by auto
  have pb: "p \<notin> set (butlast (h # xs))" using d p last_butlast [of "h # xs"] by auto
  have "p \<in> set (h # xs)" unfolding p by (rule last_in_set) simp
  then have px: "p \<notin> set ys" using d by auto
  have qx: "q \<notin> set xs" using d q by (cases ys) auto
  have qt: "q \<notin> set (tl (ys @ [h]))" using d q by (cases ys) auto
  have "set (butlast (h # xs)) \<subseteq> set (h # xs @ ys)" by (auto dest: in_set_butlastD)
  then have "A \<inter> set (butlast (h # xs)) = {}" using pb AB(1) by blast
  then have left: "seg m' h xs (hd (zs @ [q]))"
    using qx AB(2) pl p by (intro seg_tail_kept [OF xs _ s]) auto
  have right: "seg m' (last (p # zs)) ys h"
  proof (cases ys)
    case Nil then show ?thesis using ql q by simp
  next
    case (Cons y ys')
    then have *: "seg m y ys' h" "q = y" using ys q by auto
    have "seg m' y ys' h \<longleftrightarrow> seg m y ys' h"
      using Cons * px qt AB by (intro seg_frame [OF s]) auto
    then show ?thesis using Cons * ql by simp
  qed
  have "seg m' h (xs @ (zs @ ys)) h"
    unfolding seg_split [of m' h xs "zs @ ys"] seg_split [of m' _ zs ys]
    using left right new p q by (cases ys; cases zs; simp)
  then show ?thesis by simp
qed

section \<open>Lists\<close>

lemma is_list_parts:
  assumes "is_list m h (xs @ ys)"
  shows "distinct (h # xs @ ys)" "seg m h xs (hd (ys @ [h]))" "seg m (last (h # xs)) ys h"
    "linked m (last (h # xs)) (hd (ys @ [h]))"
  using assms seg_split [of m h xs ys h] seg_last [of m h xs] by (auto simp: is_list_def)

lemma is_list_dom: "is_list m h xs \<Longrightarrow> set (h # xs) \<subseteq> dom m"
  using seg_dom [of m h xs h] by (auto simp: is_list_def)

lemma is_list_frame:
  "\<lbrakk>same_links A B m m'; A \<inter> set (h # xs) = {}; B \<inter> set (h # xs) = {}\<rbrakk> \<Longrightarrow> is_list m' h xs \<longleftrightarrow> is_list m h xs"
  unfolding is_list_def using seg_frame [of A B m m' h xs h] by auto

lemma ends_in: "last (h # xs) \<in> set (h # xs) \<and> hd (ys @ [h]) \<in> set (h # ys)"
  using last_in_set [of "h # xs"] by (cases ys) auto

text \<open>Operations at a place in the list, between \<open>xs\<close> and \<open>ys\<close>.\<close>

lemma insert_between:
  assumes l: "is_list m h (xs @ ys)" and n: "n \<in> dom m" "n \<notin> set (h # xs @ ys)"
  obtains m' m'' where "list_add_after (last (h # xs)) n m = Some m'" "is_list m' h (xs @ n # ys)"
      "same_links (set (h # n # xs @ ys)) (set (h # n # xs @ ys)) m m'"
      "list_add_before (hd (ys @ [h])) n m = Some m''" "is_list m'' h (xs @ n # ys)"
      "same_links (set (h # n # xs @ ys)) (set (h # n # xs @ ys)) m m''"
proof -
  note p = is_list_parts [OF l]
  let ?p = "last (h # xs)" and ?q = "hd (ys @ [h])"
  have ne: "n \<noteq> ?p" "n \<noteq> ?q" using n(2) ends_in [of h xs ys] by auto
  have fin: "is_list m' h (xs @ n # ys)" "same_links (set (h # n # xs @ ys)) (set (h # n # xs @ ys)) m m'"
    if m': "linked m' ?p n" "linked m' n ?q" "same_links {?p, n} {n, ?q} m m'" for m'
  proof -
    have "seg m' h (xs @ [n] @ ys) h"
      by (rule ring_middle [OF p(1) refl refl p(2,3) _ m'(3)]) (use m' n(2) in auto)
    then show "is_list m' h (xs @ n # ys)" using p(1) n(2) by (auto simp: is_list_def)
    show "same_links (set (h # n # xs @ ys)) (set (h # n # xs @ ys)) m m'"
      by (rule same_links_mono [OF m'(3)]) (use ends_in [of h xs ys] in auto)
  qed
  obtain m1 where m1: "list_add_after ?p n m = Some m1" "linked m1 ?p n" "linked m1 n ?q" "same_links {?p, n} {n, ?q} m m1"
    using add_after_links [OF p(4) n(1) ne] by metis
  obtain m2 where m2: "list_add_before ?q n m = Some m2" "linked m2 ?p n" "linked m2 n ?q" "same_links {?p, n} {n, ?q} m m2"
    using add_before_links [OF p(4) n(1) ne] by metis
  show thesis using that [OF m1(1) fin [OF m1(2-4)] m2(1) fin [OF m2(2-4)]] .
qed

lemma delete_between:
  assumes l: "is_list m h (xs @ n # ys)"
  obtains m' where "list_del n m = Some m'" "is_list m' h (xs @ ys)"
    "same_links (set (h # xs @ ys)) (set (h # xs @ ys)) m m'" "m' n = m n"
proof -
  note p = is_list_parts [OF l] is_list_parts [of m h "xs @ [n]" ys]
  let ?p = "last (h # xs)" and ?q = "hd (ys @ [h])"
  have d: "distinct (h # xs @ ys)" "n \<notin> set (h # xs @ ys)" using p(1) by auto
  have lk: "linked m ?p n" "linked m n ?q" using p(4) p(8) l by simp_all
  have ne: "n \<noteq> ?p" "n \<noteq> ?q" using d(2) ends_in [of h xs ys] by auto
  obtain m' where m': "list_del n m = Some m'" "linked m' ?p ?q" "same_links {?p} {?q} m m'"
    "get_next m' n = Some ?q" "get_prev m' n = Some ?p"
    using del_links [OF lk ne] by metis
  have "seg m' h (xs @ [] @ ys) h"
    by (rule ring_middle [OF d(1) refl refl p(2) _ _ m'(3), of n]) (use m' p(3) in auto)
  then have "is_list m' h (xs @ ys)" using d(1) by (simp add: is_list_def)
  moreover have "same_links (set (h # xs @ ys)) (set (h # xs @ ys)) m m'"
    by (rule same_links_mono [OF m'(3)]) (use ends_in [of h xs ys] in auto)
  moreover have "m' n = m n"
    using m'(4,5) linkedD(1) [OF lk(2)] linkedD(2) [OF lk(1)]
    by (auto simp: get_next_def get_prev_def)
  ultimately show thesis using that m'(1) by blast
qed

lemma swap_between:
  assumes l: "is_list m h (xs @ x # ys)" and n: "n \<in> dom m" "n \<notin> set (h # xs @ x # ys)"
  obtains m' where "list_swap x n m = Some m'" "is_list m' h (xs @ n # ys)"
    "same_links (set (h # n # xs @ ys)) (set (h # n # xs @ ys)) m m'"
proof -
  note p = is_list_parts [OF l] is_list_parts [of m h "xs @ [x]" ys]
  let ?p = "last (h # xs)" and ?q = "hd (ys @ [h])"
  have d: "distinct (h # xs @ ys)" "x \<notin> set (h # xs @ ys)" using p(1) by auto
  have lk: "linked m ?p x" "linked m x ?q" using p(4) p(8) l by simp_all
  have ne: "x \<noteq> ?p" "x \<noteq> ?q" "n \<noteq> ?p" "n \<noteq> ?q" "n \<noteq> x" using d(2) n(2) ends_in [of h xs ys] by auto
  obtain m' where m': "list_swap x n m = Some m'" "linked m' ?p n" "linked m' n ?q" "same_links {?p, n} {n, ?q} m m'"
    using swap_links [OF lk n(1) ne] by metis
  have "seg m' h (xs @ [n] @ ys) h"
    by (rule ring_middle [OF d(1) refl refl p(2) _ _ m'(4), of x]) (use m' p(3) n(2) in auto)
  then have "is_list m' h (xs @ n # ys)" using d(1) n(2) by (auto simp: is_list_def)
  moreover have "same_links (set (h # n # xs @ ys)) (set (h # n # xs @ ys)) m m'"
    by (rule same_links_mono [OF m'(4)]) (use ends_in [of h xs ys] in auto)
  ultimately show thesis using that m'(1) by blast
qed

text \<open>Sewing one list into another, and taking its head out again.\<close>

lemma sew_links:
  assumes "linked m a b" "linked m f y" "linked m z f" "{a, b} \<inter> {f, y, z} = {}" "f \<noteq> y" "f \<noteq> z"
  shows "\<exists>m'. linked m' a y \<and> linked m' z b \<and> linked m' f f \<and> same_links {a, z, f} {y, b, f} m m' \<and>
    list_append_list b f m = Some m'"
    "\<exists>m'. linked m' a y \<and> linked m' z b \<and> linked m' f f \<and> same_links {a, z, f} {y, b, f} m m' \<and>
    list_prepend_list a f m = Some m'"
  using assms linked_dom [OF assms(1)] linked_dom [OF assms(2)] linked_dom [OF assms(3)]
  by (auto simp: list_append_list_def list_prepend_list_def list_del_def list_head_init_def linked_def
      same_links_def link_simps)

lemma sew_links_empty:
  assumes "linked m a b" "linked m f f" "f \<noteq> a" "f \<noteq> b"
  shows "\<exists>m'. linked m' a b \<and> linked m' f f \<and> same_links {a, f} {b, f} m m' \<and> list_append_list b f m = Some m'"
    "\<exists>m'. linked m' a b \<and> linked m' f f \<and> same_links {a, f} {b, f} m m' \<and> list_prepend_list a f m = Some m'"
  using assms linked_dom [OF assms(1)] linked_dom [OF assms(2)]
  by (auto simp: list_append_list_def list_prepend_list_def list_del_def list_head_init_def linked_def
      same_links_def link_simps)

text \<open>The nodes \<open>ys\<close> of the list at \<open>f\<close> have come between \<open>a\<close> and \<open>b\<close>.\<close>

definition sewn :: "heap \<Rightarrow> addr \<Rightarrow> addr list \<Rightarrow> addr \<Rightarrow> addr \<Rightarrow> heap \<Rightarrow> bool" where
  "sewn m a ys b f m' \<longleftrightarrow> linked m' a (hd (ys @ [b])) \<and> linked m' (last (a # ys)) b \<and> linked m' f f \<and>
     same_links {a, last (f # ys), f} {hd (ys @ [f]), b, f} m m'"

lemma sewn_ex:
  assumes "linked m a b" "is_list m f ys" "{a, b} \<inter> set (f # ys) = {}"
  shows "\<exists>m'. list_append_list b f m = Some m' \<and> sewn m a ys b f m'"
    "\<exists>m'. list_prepend_list a f m = Some m' \<and> sewn m a ys b f m'"
proof -
  have fl: "seg m f ys f" "distinct (f # ys)" using assms(2) by (auto simp: is_list_def)
  have "(\<exists>m'. list_append_list b f m = Some m' \<and> sewn m a ys b f m') \<and>
    (\<exists>m'. list_prepend_list a f m = Some m' \<and> sewn m a ys b f m')"
  proof (cases "ys = []")
    case True
    then have "linked m f f" "f \<noteq> a" "f \<noteq> b" using fl assms(3) by auto
    from sew_links_empty [OF assms(1) this] True show ?thesis by (auto simp: sewn_def insert_commute)
  next
    case False
    obtain y z where yz: "hd ys = y" "last ys = z" "y \<in> set ys" "z \<in> set ys" using False by simp
    have lk: "linked m f y" "linked m z f"
      using False seg_first [OF fl(1)] seg_last [OF fl(1)] yz(1,2) by auto
    have ne: "{a, b} \<inter> {f, y, z} = {}" "f \<noteq> y" "f \<noteq> z"
      using yz(3,4) assms(3) fl(2) by auto
    show ?thesis
      using sew_links [OF assms(1) lk ne] False yz(1,2) by (auto simp: sewn_def)
  qed
  then show "\<exists>m'. list_append_list b f m = Some m' \<and> sewn m a ys b f m'"
    "\<exists>m'. list_prepend_list a f m = Some m' \<and> sewn m a ys b f m'" by auto
qed

lemma sewn_between:
  assumes l: "is_list m t (us @ vs)" and f: "is_list m f ys" and dj: "set (t # us @ vs) \<inter> set (f # ys) = {}"
    and s: "sewn m (last (t # us)) ys (hd (vs @ [t])) f m'"
  shows "is_list m' t (us @ ys @ vs)" "is_list m' f []" "same_links (set (t # f # us @ vs @ ys)) (set (t # f # us @ vs @ ys)) m m'"
proof -
  let ?a = "last (t # us)" and ?b = "hd (vs @ [t])"
  let ?A = "{?a, last (f # ys), f}" and ?B = "{hd (ys @ [f]), ?b, f}"
  note p = is_list_parts [OF l]
  have m': "linked m' ?a (hd (ys @ [?b]))" "linked m' (last (?a # ys)) ?b" "linked m' f f" "same_links ?A ?B m m'"
    using s by (auto simp: sewn_def)
  have e: "?a \<in> set (t # us)" "?b \<in> set (t # vs)" "last (f # ys) \<in> set (f # ys)" "hd (ys @ [f]) \<in> set (f # ys)"
    using ends_in [of t us vs] ends_in [of f ys ys] by auto
  have dys: "distinct (f # ys)" "seg m f ys f" using f by (auto simp: is_list_def)
  have out: "?a \<notin> set ys" "?b \<notin> set ys" "f \<notin> set ys" using e(1,2) dj dys by auto
  have inner: "?A \<inter> set (butlast ys) = {}"
    using dys(1) out last_butlast [of ys] by (auto dest: in_set_butlastD)
  have inner': "?B \<inter> set (tl ys) = {}" using dys(1) out by (cases ys) auto
  have "seg m' ?a ys ?b" by (rule seg_inner_kept [OF dys(2) m'(1,2,4) inner inner'])
  moreover have "?A \<inter> set (t # us @ vs) \<subseteq> {?a}" "?B \<inter> set (t # us @ vs) \<subseteq> {?b}"
    using e(3,4) dj list.set_intros(1) [of f ys] by blast+
  ultimately have "seg m' t (us @ ys @ vs) t"
    by (rule ring_middle [OF p(1) refl refl p(2,3) _ m'(4)])
  then show "is_list m' t (us @ ys @ vs)" using p(1) dys dj by (auto simp: is_list_def)
  show "is_list m' f []" using m'(3) by (simp add: is_list_def)
  show "same_links (set (t # f # us @ vs @ ys)) (set (t # f # us @ vs @ ys)) m m'"
    by (rule same_links_mono [OF m'(4)]) (use e in auto)
qed

lemma append_law:
  assumes l: "is_list m t xs" and f: "is_list m f ys" and dj: "set (t # xs) \<inter> set (f # ys) = {}"
  obtains m' where "list_append_list t f m = Some m'" "is_list m' t (xs @ ys)" "is_list m' f []"
    "same_links (set (t # f # xs @ ys)) (set (t # f # xs @ ys)) m m'"
proof -
  have "linked m (last (t # xs)) t" using seg_last [of m t xs t] l by (simp add: is_list_def)
  moreover have "{last (t # xs), t} \<inter> set (f # ys) = {}" using ends_in [of t xs xs] dj by auto
  ultimately obtain m' where "list_append_list t f m = Some m'" "sewn m (last (t # xs)) ys t f m'"
    using sewn_ex(1) [OF _ f] by metis
  with that sewn_between [of m t xs "[]" f ys m'] l f dj show thesis by auto
qed

lemma prepend_law:
  assumes l: "is_list m t xs" and f: "is_list m f ys" and dj: "set (t # xs) \<inter> set (f # ys) = {}"
  obtains m' where "list_prepend_list t f m = Some m'" "is_list m' t (ys @ xs)" "is_list m' f []"
    "same_links (set (t # f # xs @ ys)) (set (t # f # xs @ ys)) m m'"
proof -
  have "linked m t (hd (xs @ [t]))" using seg_first [of m t xs t] l by (simp add: is_list_def)
  moreover have "{t, hd (xs @ [t])} \<inter> set (f # ys) = {}" using ends_in [of t xs xs] dj by auto
  ultimately obtain m' where "list_prepend_list t f m = Some m'" "sewn m t ys (hd (xs @ [t])) f m'"
    using sewn_ex(2) [OF _ f] by metis
  with that sewn_between [of m t "[]" xs f ys m'] l f dj show thesis by auto
qed

section \<open>Reading the list\<close>

lemma same_links_eq:
  assumes "same_links A B m m'" "x \<notin> A" "x \<notin> B"
  shows "m' x = m x"
proof -
  have "get_next m' x = get_next m x" "get_prev m' x = get_prev m x" using assms by (auto simp: same_links_def)
  then show ?thesis by (cases "m x"; cases "m' x") (auto simp: get_next_def get_prev_def)
qed

lemma is_list_read:
  assumes "is_list m h xs"
  shows "get_next m h = Some (hd (xs @ [h]))" "get_prev m h = Some (last (h # xs))"
    "list_empty h m = Some (xs = [])"
proof -
  have s: "seg m h xs h" "h \<notin> set xs" using assms by (auto simp: is_list_def)
  show n: "get_next m h = Some (hd (xs @ [h]))" "get_prev m h = Some (last (h # xs))"
    using seg_first [OF s(1)] seg_last [OF s(1)] by (auto simp: linked_def)
  show "list_empty h m = Some (xs = [])" unfolding list_empty_def n(1) using s(2) by (cases xs) auto
qed

lemma list_ends:
  assumes "is_list m h xs"
  shows "list_top h off m = Some (case xs of [] \<Rightarrow> 0 | x # _ \<Rightarrow> list_node_to_off x off)"
    "list_tail h off m = Some (case rev xs of [] \<Rightarrow> 0 | x # _ \<Rightarrow> list_node_to_off x off)"
  using is_list_read [OF assms]
  by (cases xs; simp add: list_top_def list_node_to_off_def)
    (cases xs rule: rev_cases; simp add: is_list_read [OF assms] list_tail_def list_node_to_off_def)

text \<open>The links in one direction, from \<open>p\<close> over \<open>xs\<close> to \<open>q\<close>.\<close>

fun path :: "(heap \<Rightarrow> addr \<Rightarrow> addr option) \<Rightarrow> heap \<Rightarrow> addr \<Rightarrow> addr list \<Rightarrow> addr \<Rightarrow> bool" where
  "path dir m p [] q \<longleftrightarrow> dir m p = Some q"
| "path dir m p (x # xs) q \<longleftrightarrow> dir m p = Some x \<and> path dir m x xs q"

lemma path_append [simp]: "path dir m p (xs @ y # ys) q \<longleftrightarrow> path dir m p xs y \<and> path dir m y ys q"
  by (induction xs arbitrary: p) auto

lemma seg_paths: "seg m p xs q \<Longrightarrow> path get_next m p xs q \<and> path get_prev m q (rev xs) p"
  by (induction xs arbitrary: p) (auto simp: linked_def)

lemma for_each_path:
  assumes "path dir m p xs h" "h \<notin> set xs"
    and "\<And>i s. i \<in> set xs \<Longrightarrow> body i (m, s) = map_option (Pair m) (f i s)"
  shows "\<exists>i. dir m p = Some i \<and> list_for_each_loop dir h body i (m, s) = map_option (Pair m) (fold_opt f xs s)"
  using assms
proof (induction xs arbitrary: p s)
  case Nil
  then show ?case by (simp add: list_for_each_loop.simps)
next
  case (Cons x xs)
  have IH: "\<exists>i. dir m x = Some i \<and> list_for_each_loop dir h body i (m, s) = map_option (Pair m) (fold_opt f xs s)" for s
    using Cons by auto
  have "list_for_each_loop dir h body x (m, s) = map_option (Pair m) (fold_opt f (x # xs) s)"
  proof (cases "f x s")
    case (Some a)
    with IH [of a] Cons.prems show ?thesis by (auto simp: list_for_each_loop.simps [of dir h body x])
  qed (use Cons.prems in \<open>auto simp: list_for_each_loop.simps [of dir h body x]\<close>)
  with Cons.prems show ?case by auto
qed

text \<open>A body that leaves the links alone is run on every node once, in order, and in the reverse order.\<close>

lemma list_for_each_law:
  assumes l: "is_list m h xs" and b: "\<And>i s. i \<in> set xs \<Longrightarrow> body i (m, s) = map_option (Pair m) (f i s)"
  shows "list_for_each get_next h body (m, s) = map_option (Pair m) (fold_opt f xs s)"
    "list_for_each get_prev h body (m, s) = map_option (Pair m) (fold_opt f (rev xs) s)"
proof -
  have "path get_next m h xs h" "path get_prev m h (rev xs) h" "h \<notin> set xs"
    using l seg_paths [of m h xs h] by (auto simp: is_list_def)
  then show "list_for_each get_next h body (m, s) = map_option (Pair m) (fold_opt f xs s)"
    "list_for_each get_prev h body (m, s) = map_option (Pair m) (fold_opt f (rev xs) s)"
    using for_each_path [of get_next m h xs h body f s] for_each_path [of get_prev m h "rev xs" h body f s] b
    by (auto simp: list_for_each_def)
qed

section \<open>Freeing a list\<close>

lemma get_drop: "x \<noteq> y \<Longrightarrow> get_next (m(y := None)) x = get_next m x" "x \<noteq> y \<Longrightarrow> get_prev (m(y := None)) x = get_prev m x"
  by (simp_all add: get_next_def get_prev_def)

lemma seg_drop: "\<lbrakk>n \<noteq> p; n \<noteq> q; n \<notin> set xs\<rbrakk> \<Longrightarrow> seg (m(n := None)) p xs q \<longleftrightarrow> seg m p xs q"
  by (induction xs arbitrary: p) (auto simp: linked_def get_drop)

lemma is_list_drop: "n \<notin> set (h # xs) \<Longrightarrow> is_list (m(n := None)) h xs \<longleftrightarrow> is_list m h xs"
  by (auto simp: is_list_def seg_drop)

lemma free_loop_law:
  assumes "is_list m h xs"
  shows "\<exists>m'. list_for_each_safe get_next h free_node (m, log) = Some (m', log @ xs) \<and> is_list m' h [] \<and>
    dom m' = dom m - set xs \<and> (\<forall>x. x \<notin> set (h # xs) \<longrightarrow> m' x = m x)"
  using assms
proof (induction xs arbitrary: m log)
  case Nil
  then show ?case
    using is_list_read(1) [OF Nil]
    by (simp add: list_for_each_safe_def list_for_each_safe_loop.simps [of get_next h free_node h])
next
  case (Cons x xs)
  have ne: "x \<noteq> h" "x \<notin> set (h # xs)" using Cons.prems by (auto simp: is_list_def)
  obtain m1 where m1: "list_del x m = Some m1" "is_list m1 h xs" "same_links (set (h # xs)) (set (h # xs)) m m1"
    using delete_between [of m h "[]" x xs] Cons.prems by auto
  define m2 where "m2 = m1(x := None)"
  have m2: "is_list m2 h xs" using m1(2) ne by (simp add: m2_def is_list_drop)
  obtain m' where m': "list_for_each_safe get_next h free_node (m2, log @ [x]) = Some (m', (log @ [x]) @ xs)"
    "is_list m' h []" "dom m' = dom m2 - set xs" "\<forall>y. y \<notin> set (h # xs) \<longrightarrow> m' y = m2 y"
    using Cons.IH [OF m2] by blast
  have seg: "get_next m h = Some x" "get_next m x = Some (hd (xs @ [h]))"
    using Cons.prems seg_first [of m x xs h] by (auto simp: is_list_def linked_def)
  have rest: "list_for_each_safe get_next h free_node (m2, log @ [x]) =
      get_next m2 (hd (xs @ [h])) \<bind> (\<lambda>nxt. list_for_each_safe_loop get_next h free_node (hd (xs @ [h])) nxt (m2, log @ [x]))"
    using is_list_read(1) [OF m2] by (simp add: list_for_each_safe_def)
  have "free_node x (m, log) = Some (m2, log @ [x])" using m1(1) by (simp add: free_node_def m2_def)
  then have "list_for_each_safe get_next h free_node (m, log) = list_for_each_safe get_next h free_node (m2, log @ [x])"
    unfolding rest using seg ne(1)
    by (simp add: list_for_each_safe_def list_for_each_safe_loop.simps [of get_next h free_node x])
  moreover have "dom m2 = dom m - {x}" using m1(3) by (auto simp: m2_def same_links_def)
  moreover have "m' y = m y" if "y \<notin> set (h # x # xs)" for y
    using that m'(4) same_links_eq [OF m1(3), of y] by (simp add: m2_def)
  ultimately show ?case using m' by auto
qed

section \<open>Several lists in one memory\<close>

text \<open>
  The abstract view: a map from the heads to the nodes of their lists, no node in two of them.
  An operation is allowed where \<open>abs_op\<close> is defined: a new node is allocated and in no list, a
  named node is in the list it is named with.
\<close>

type_synonym lists = "addr \<rightharpoonup> addr list"

definition nodes :: "lists \<Rightarrow> addr set" where
  "nodes L = {x. \<exists>h xs. L h = Some xs \<and> x \<in> set (h # xs)}"

definition holds :: "heap \<Rightarrow> lists \<Rightarrow> bool" where
  "holds m L \<longleftrightarrow> (\<forall>h xs. L h = Some xs \<longrightarrow> is_list m h xs) \<and>
     (\<forall>h k xs ys. L h = Some xs \<longrightarrow> L k = Some ys \<longrightarrow> h \<noteq> k \<longrightarrow> set (h # xs) \<inter> set (k # ys) = {})"

datatype list_op =
    Init addr
  | Add addr addr
  | Add_tail addr addr
  | Add_after addr addr addr
  | Add_before addr addr addr
  | Del addr addr
  | Swap addr addr addr
  | Pop addr
  | Append addr addr
  | Prepend addr addr

fun exec_op :: "list_op \<Rightarrow> heap \<Rightarrow> heap option" where
  "exec_op (Init h) m = list_head_init h m"
| "exec_op (Add h n) m = list_add h n m"
| "exec_op (Add_tail h n) m = list_add_tail h n m"
| "exec_op (Add_after h p n) m = list_add_after p n m"
| "exec_op (Add_before h p n) m = list_add_before p n m"
| "exec_op (Del h n) m = list_del_from h n m"
| "exec_op (Swap h p n) m = list_swap p n m"
| "exec_op (Pop h) m = map_option snd (list_pop h 0 m)"
| "exec_op (Append t f) m = list_append_list t f m"
| "exec_op (Prepend t f) m = list_prepend_list t f m"

text \<open>The list with \<open>ns\<close> in place of the node \<open>p\<close>.\<close>

definition in_place :: "addr \<Rightarrow> addr list \<Rightarrow> addr list \<Rightarrow> addr list" where
  "in_place p ns xs = concat (map (\<lambda>x. if x = p then ns else [x]) xs)"

definition on_list :: "addr \<Rightarrow> (addr list \<Rightarrow> addr list option) \<Rightarrow> lists \<Rightarrow> lists option" where
  "on_list h g L = do { xs \<leftarrow> L h; ys \<leftarrow> g xs; Some (L(h \<mapsto> ys)) }"

definition on_lists :: "addr \<Rightarrow> addr \<Rightarrow> (addr list \<Rightarrow> addr list \<Rightarrow> addr list) \<Rightarrow> lists \<Rightarrow> lists option" where
  "on_lists t f g L = do { xs \<leftarrow> L t; ys \<leftarrow> L f; if t = f then None else Some (L(t \<mapsto> g xs ys, f \<mapsto> [])) }"

fun abs_op :: "(addr \<Rightarrow> bool) \<Rightarrow> list_op \<Rightarrow> lists \<Rightarrow> lists option" where
  "abs_op new (Init h) L = (if new h then Some (L(h \<mapsto> [])) else None)"
| "abs_op new (Add h n) L = on_list h (\<lambda>xs. if new n then Some (n # xs) else None) L"
| "abs_op new (Add_tail h n) L = on_list h (\<lambda>xs. if new n then Some (xs @ [n]) else None) L"
| "abs_op new (Add_after h p n) L = on_list h (\<lambda>xs. if new n \<and> p \<in> set xs then Some (in_place p [p, n] xs) else None) L"
| "abs_op new (Add_before h p n) L = on_list h (\<lambda>xs. if new n \<and> p \<in> set xs then Some (in_place p [n, p] xs) else None) L"
| "abs_op new (Del h n) L = on_list h (\<lambda>xs. if n \<in> set xs then Some (in_place n [] xs) else None) L"
| "abs_op new (Swap h p n) L = on_list h (\<lambda>xs. if new n \<and> p \<in> set xs then Some (in_place p [n] xs) else None) L"
| "abs_op new (Pop h) L = on_list h (\<lambda>xs. Some (tl xs)) L"
| "abs_op new (Append t f) L = on_lists t f (\<lambda>xs ys. xs @ ys) L"
| "abs_op new (Prepend t f) L = on_lists t f (\<lambda>xs ys. ys @ xs) L"

definition fresh :: "heap \<Rightarrow> lists \<Rightarrow> addr \<Rightarrow> bool" where
  "fresh m L n \<longleftrightarrow> n \<in> dom m \<and> n \<notin> nodes L"

lemma in_place_split: "p \<notin> set xs \<Longrightarrow> p \<notin> set ys \<Longrightarrow> in_place p ns (xs @ p # ys) = xs @ ns @ ys"
proof -
  have id: "p \<notin> set zs \<Longrightarrow> concat (map (\<lambda>x. if x = p then ns else [x]) zs) = zs" for zs
    by (induction zs) auto
  show "p \<notin> set xs \<Longrightarrow> p \<notin> set ys \<Longrightarrow> in_place p ns (xs @ p # ys) = xs @ ns @ ys"
    by (simp add: in_place_def id)
qed

lemma holdsD: "holds m L \<Longrightarrow> L h = Some xs \<Longrightarrow> is_list m h xs"
  "\<lbrakk>holds m L; L h = Some xs; L k = Some ys; h \<noteq> k\<rbrakk> \<Longrightarrow> set (h # xs) \<inter> set (k # ys) = {}"
  by (auto simp: holds_def)

lemma holds_others:
  assumes "holds m L" "same_links S S m m'"
    and "\<And>k ys. k \<notin> K \<Longrightarrow> L k = Some ys \<Longrightarrow> S \<inter> set (k # ys) = {} \<and> L' k = Some ys"
    and "\<And>k ys. k \<notin> K \<Longrightarrow> L' k = Some ys \<Longrightarrow> L k = Some ys"
    and "\<And>k ys. k \<in> K \<Longrightarrow> L' k = Some ys \<Longrightarrow> is_list m' k ys \<and>
      (\<forall>i zs. L' i = Some zs \<longrightarrow> i \<noteq> k \<longrightarrow> set (k # ys) \<inter> set (i # zs) = {})"
  shows "holds m' L'"
  unfolding holds_def
proof (intro conjI allI impI)
  fix h xs assume L': "L' h = Some xs"
  show "is_list m' h xs"
  proof (cases "h \<in> K")
    case False
    with L' assms have "L h = Some xs" "S \<inter> set (h # xs) = {}" by blast+
    with assms(1) show ?thesis using is_list_frame [OF assms(2), of h xs] holdsD(1) by blast
  qed (use L' assms(5) in blast)
  fix k ys assume k: "L' k = Some ys" "h \<noteq> k"
  show "set (h # xs) \<inter> set (k # ys) = {}"
    using L' k assms(4,5) holdsD(2) [OF assms(1)] by (cases "h \<in> K"; cases "k \<in> K") (blast | metis Int_commute)+
qed

lemma holds_on_list:
  assumes "holds m L" "L h = Some xs" "is_list m' h ys" "same_links S S m m'"
    and "S \<subseteq> N \<union> set (h # xs)" "set ys \<subseteq> N \<union> set xs" "N \<inter> nodes L = {}"
  shows "holds m' (L(h \<mapsto> ys))"
proof -
  have dj: "S \<inter> set (k # zs) = {}" "set (h # ys) \<inter> set (k # zs) = {}" if "k \<noteq> h" "L k = Some zs" for k zs
  proof -
    have "N \<inter> set (k # zs) = {}" using that(2) assms(7) by (auto simp: nodes_def)
    moreover have "set (h # xs) \<inter> set (k # zs) = {}" using holdsD(2) [OF assms(1,2) that(2)] that(1) by simp
    ultimately show "S \<inter> set (k # zs) = {}" "set (h # ys) \<inter> set (k # zs) = {}" using assms(5,6) by auto
  qed
  show ?thesis
    by (rule holds_others [OF assms(1,4), of "{h}"]) (use dj assms(3) in \<open>auto split: if_splits\<close>)
qed

lemma fresh_list: "\<lbrakk>fresh m L n; L h = Some xs\<rbrakk> \<Longrightarrow> n \<in> dom m \<and> n \<notin> set (h # xs)"
  by (auto simp: fresh_def nodes_def)

lemma refine_insert:
  assumes "holds m L" "L h = Some (xs @ ys)" "fresh m L n"
  shows "\<exists>m'. list_add_after (last (h # xs)) n m = Some m' \<and> holds m' (L(h \<mapsto> xs @ n # ys)) \<and> dom m' = dom m"
    "\<exists>m'. list_add_before (hd (ys @ [h])) n m = Some m' \<and> holds m' (L(h \<mapsto> xs @ n # ys)) \<and> dom m' = dom m"
proof -
  have n: "n \<in> dom m" "n \<notin> set (h # xs @ ys)" using fresh_list [OF assms(3,2)] by auto
  have keep: "holds m' (L(h \<mapsto> xs @ n # ys)) \<and> dom m' = dom m"
    if "is_list m' h (xs @ n # ys)" "same_links (set (h # n # xs @ ys)) (set (h # n # xs @ ys)) m m'" for m'
    using holds_on_list [OF assms(1,2) that, of "{n}"] same_links_dom [OF that(2)] assms(3) by (auto simp: fresh_def)
  obtain m1 m2 where
    "list_add_after (last (h # xs)) n m = Some m1" "is_list m1 h (xs @ n # ys)"
    "same_links (set (h # n # xs @ ys)) (set (h # n # xs @ ys)) m m1"
    "list_add_before (hd (ys @ [h])) n m = Some m2" "is_list m2 h (xs @ n # ys)"
    "same_links (set (h # n # xs @ ys)) (set (h # n # xs @ ys)) m m2"
    using insert_between [OF holdsD(1) [OF assms(1,2)] n] .
  with keep show "\<exists>m'. list_add_after (last (h # xs)) n m = Some m' \<and> holds m' (L(h \<mapsto> xs @ n # ys)) \<and> dom m' = dom m"
    "\<exists>m'. list_add_before (hd (ys @ [h])) n m = Some m' \<and> holds m' (L(h \<mapsto> xs @ n # ys)) \<and> dom m' = dom m" by blast+
qed

lemma refine_delete:
  assumes "holds m L" "L h = Some (xs @ n # ys)"
  shows "\<exists>m'. list_del n m = Some m' \<and> holds m' (L(h \<mapsto> xs @ ys)) \<and> dom m' = dom m"
proof -
  obtain m' where m': "list_del n m = Some m'" "is_list m' h (xs @ ys)"
    "same_links (set (h # xs @ ys)) (set (h # xs @ ys)) m m'"
    using delete_between [OF holdsD(1) [OF assms]] .
  show ?thesis
    using m' holds_on_list [OF assms m'(2,3), of "{}"] same_links_dom [OF m'(3)] by auto
qed

lemma refine_swap:
  assumes "holds m L" "L h = Some (xs @ p # ys)" "fresh m L n"
  shows "\<exists>m'. list_swap p n m = Some m' \<and> holds m' (L(h \<mapsto> xs @ n # ys)) \<and> dom m' = dom m"
proof -
  have n: "n \<in> dom m" "n \<notin> set (h # xs @ p # ys)" using fresh_list [OF assms(3,2)] by auto
  obtain m' where m': "list_swap p n m = Some m'" "is_list m' h (xs @ n # ys)"
    "same_links (set (h # n # xs @ ys)) (set (h # n # xs @ ys)) m m'"
    using swap_between [OF holdsD(1) [OF assms(1,2)] n] .
  have "{n} \<inter> nodes L = {}" using assms(3) by (simp add: fresh_def)
  with holds_on_list [OF assms(1,2) m'(2,3), of "{n}"] have "holds m' (L(h \<mapsto> xs @ n # ys))" by auto
  with m'(1) same_links_dom [OF m'(3)] show ?thesis by blast
qed

lemma refine_init:
  assumes "holds m L" "fresh m L h"
  shows "\<exists>m'. list_head_init h m = Some m' \<and> holds m' (L(h \<mapsto> [])) \<and> dom m' = dom m"
proof -
  obtain m' where m': "list_head_init h m = Some m'" "linked m' h h" "same_links {h} {h} m m'"
    using init_links [of h m] assms(2) by (auto simp: fresh_def)
  have nh: "h \<notin> set (k # ys)" if "L k = Some ys" for k ys using that assms(2) by (auto simp: fresh_def nodes_def)
  have "holds m' (L(h \<mapsto> []))"
    by (rule holds_others [OF assms(1) m'(3), of "{h}"])
      (use nh m'(2) in \<open>auto split: if_splits simp: is_list_def\<close>)
  with m'(1) same_links_dom [OF m'(3)] show ?thesis by blast
qed

lemma refine_sew:
  assumes "holds m L" "L t = Some xs" "L f = Some ys" "t \<noteq> f"
  shows "\<exists>m'. list_append_list t f m = Some m' \<and> holds m' (L(t \<mapsto> xs @ ys, f \<mapsto> [])) \<and> dom m' = dom m"
    "\<exists>m'. list_prepend_list t f m = Some m' \<and> holds m' (L(t \<mapsto> ys @ xs, f \<mapsto> [])) \<and> dom m' = dom m"
proof -
  note l = holdsD(1) [OF assms(1,2)] holdsD(1) [OF assms(1,3)] holdsD(2) [OF assms]
  let ?S = "set (t # f # xs @ ys)"
  have out: "?S \<inter> set (k # zs) = {}" if "k \<noteq> t" "k \<noteq> f" "L k = Some zs" for k zs
    using holdsD(2) [OF assms(1,2) that(3)] holdsD(2) [OF assms(1,3) that(3)] that(1,2) by auto
  have keep: "holds m' (L(t \<mapsto> zs, f \<mapsto> [])) \<and> dom m' = dom m"
    if m': "is_list m' t zs" "is_list m' f []" "same_links ?S ?S m m'" and zs: "set zs = set xs \<union> set ys" for m' zs
  proof -
    have "f \<notin> set zs" using l(2,3) zs by (auto simp: is_list_def)
    then have "holds m' (L(t \<mapsto> zs, f \<mapsto> []))"
      by (intro holds_others [OF assms(1) m'(3), of "{t, f}"])
        (use out m'(1,2) zs assms(4) in \<open>auto split: if_splits\<close>)
    with same_links_dom [OF m'(3)] show ?thesis by blast
  qed
  obtain m1 where m1: "list_append_list t f m = Some m1" "is_list m1 t (xs @ ys)" "is_list m1 f []" "same_links ?S ?S m m1"
    using append_law [OF l] .
  obtain m2 where m2: "list_prepend_list t f m = Some m2" "is_list m2 t (ys @ xs)" "is_list m2 f []" "same_links ?S ?S m m2"
    using prepend_law [OF l] .
  show "\<exists>m'. list_append_list t f m = Some m' \<and> holds m' (L(t \<mapsto> xs @ ys, f \<mapsto> [])) \<and> dom m' = dom m"
    using m1(1) keep [OF m1(2-4)] by auto
  show "\<exists>m'. list_prepend_list t f m = Some m' \<and> holds m' (L(t \<mapsto> ys @ xs, f \<mapsto> [])) \<and> dom m' = dom m"
    using m2(1) keep [OF m2(2-4)] by (auto simp: Un_commute)
qed

lemma refine_pop:
  assumes "holds m L" "L h = Some xs"
  shows "\<exists>m'. list_pop h off m = Some (case xs of [] \<Rightarrow> 0 | x # _ \<Rightarrow> list_node_to_off x off, m') \<and>
    holds m' (L(h \<mapsto> tl xs)) \<and> dom m' = dom m"
proof (cases xs)
  case Nil
  with assms show ?thesis
    using is_list_read(3) [OF holdsD(1) [OF assms]] by (auto simp: list_pop_def fun_upd_idem)
next
  case (Cons x ys)
  with refine_delete [of m L h "[]" x ys] assms is_list_read [OF holdsD(1) [OF assms]] show ?thesis
    by (auto simp: list_pop_def list_node_to_off_def)
qed

text \<open>A node of a list, and what is before and after it.\<close>

lemma node_split:
  assumes "holds m L" "L h = Some xs" "p \<in> set xs"
  obtains us vs where "xs = us @ p # vs" "\<forall>ns. in_place p ns xs = us @ ns @ vs"
proof -
  obtain us vs where xs: "xs = us @ p # vs" using split_list [OF assms(3)] by blast
  moreover have "distinct xs" using holdsD(1) [OF assms(1,2)] by (simp add: is_list_def)
  ultimately show thesis using that by (simp add: in_place_split)
qed

lemma exec_op_refines:
  assumes h: "holds m L" and a: "abs_op (fresh m L) op L = Some L'"
  shows "\<exists>m'. exec_op op m = Some m' \<and> holds m' L' \<and> dom m' = dom m"
proof (cases op)
  case (Init k)
  with assms show ?thesis by (auto simp: refine_init split: if_splits)
next
  case (Add k n)
  with a obtain xs where "L k = Some xs" "fresh m L n" "L' = L(k \<mapsto> n # xs)"
    by (auto simp: on_list_def Option.bind_eq_Some_conv split: if_splits)
  with Add refine_insert(1) [OF h, of k "[]" xs n] show ?thesis by (simp add: list_add_def)
next
  case (Add_tail k n)
  with a obtain xs where "L k = Some xs" "fresh m L n" "L' = L(k \<mapsto> xs @ [n])"
    by (auto simp: on_list_def Option.bind_eq_Some_conv split: if_splits)
  with Add_tail refine_insert(2) [OF h, of k xs "[]" n] show ?thesis by (simp add: list_add_tail_def)
next
  case (Add_after k p n)
  with a obtain xs where x: "L k = Some xs" "fresh m L n" "p \<in> set xs" "L' = L(k \<mapsto> in_place p [p, n] xs)"
    by (auto simp: on_list_def Option.bind_eq_Some_conv split: if_splits)
  obtain us vs where s: "xs = us @ p # vs" "\<forall>ns. in_place p ns xs = us @ ns @ vs"
    using node_split [OF h x(1,3)] .
  with Add_after x refine_insert(1) [OF h, of k "us @ [p]" vs n] show ?thesis by simp
next
  case (Add_before k p n)
  with a obtain xs where x: "L k = Some xs" "fresh m L n" "p \<in> set xs" "L' = L(k \<mapsto> in_place p [n, p] xs)"
    by (auto simp: on_list_def Option.bind_eq_Some_conv split: if_splits)
  obtain us vs where s: "xs = us @ p # vs" "\<forall>ns. in_place p ns xs = us @ ns @ vs"
    using node_split [OF h x(1,3)] .
  with Add_before x refine_insert(2) [OF h, of k us "p # vs" n] show ?thesis by simp
next
  case (Del k n)
  with a obtain xs where x: "L k = Some xs" "n \<in> set xs" "L' = L(k \<mapsto> in_place n [] xs)"
    by (auto simp: on_list_def Option.bind_eq_Some_conv split: if_splits)
  obtain us vs where s: "xs = us @ n # vs" "\<forall>ns. in_place n ns xs = us @ ns @ vs"
    using node_split [OF h x(1,2)] .
  have "list_empty k m = Some False" using is_list_read(3) [OF holdsD(1) [OF h x(1)]] s(1) by simp
  with Del x s refine_delete [OF h, of k us n vs] show ?thesis by (simp add: list_del_from_def)
next
  case (Swap k p n)
  with a obtain xs where x: "L k = Some xs" "fresh m L n" "p \<in> set xs" "L' = L(k \<mapsto> in_place p [n] xs)"
    by (auto simp: on_list_def Option.bind_eq_Some_conv split: if_splits)
  obtain us vs where s: "xs = us @ p # vs" "\<forall>ns. in_place p ns xs = us @ ns @ vs"
    using node_split [OF h x(1,3)] .
  with Swap x refine_swap [OF h, of k us p vs n] show ?thesis by simp
next
  case (Pop k)
  with a obtain xs where "L k = Some xs" "L' = L(k \<mapsto> tl xs)"
    by (auto simp: on_list_def Option.bind_eq_Some_conv)
  with Pop refine_pop [OF h, of k xs 0] show ?thesis by auto
next
  case (Append t f)
  with a obtain xs ys where "L t = Some xs" "L f = Some ys" "t \<noteq> f" "L' = L(t \<mapsto> xs @ ys, f \<mapsto> [])"
    by (auto simp: on_lists_def Option.bind_eq_Some_conv split: if_splits)
  with Append refine_sew(1) [OF h, of t xs f ys] show ?thesis by simp
next
  case (Prepend t f)
  with a obtain xs ys where "L t = Some xs" "L f = Some ys" "t \<noteq> f" "L' = L(t \<mapsto> ys @ xs, f \<mapsto> [])"
    by (auto simp: on_lists_def Option.bind_eq_Some_conv split: if_splits)
  with Prepend refine_sew(2) [OF h, of t xs f ys] show ?thesis by simp
qed

text \<open>The abstract step on the allocated addresses and the lists.\<close>

definition abs_step :: "list_op \<Rightarrow> addr set \<times> lists \<Rightarrow> (addr set \<times> lists) option" where
  "abs_step op s = (case s of (D, L) \<Rightarrow> map_option (Pair D) (abs_op (\<lambda>n. n \<in> D \<and> n \<notin> nodes L) op L))"

definition represents :: "heap \<Rightarrow> addr set \<times> lists \<Rightarrow> bool" where
  "represents m s \<longleftrightarrow> dom m = fst s \<and> holds m (snd s)"

interpretation ccan: simulation represents exec_op abs_step
proof
  fix m s op s'
  assume r: "represents m s" and a: "abs_step op s = Some s'"
  obtain D L where s: "s = (D, L)" by (cases s)
  with a obtain L' where L': "abs_op (\<lambda>n. n \<in> D \<and> n \<notin> nodes L) op L = Some L'" "s' = (D, L')"
    by (auto simp: abs_step_def)
  have "fresh m L = (\<lambda>n. n \<in> D \<and> n \<notin> nodes L)" using r s by (auto simp: fresh_def represents_def fun_eq_iff)
  then have "\<exists>m'. exec_op op m = Some m' \<and> holds m' L' \<and> dom m' = dom m"
    using exec_op_refines [of m L op L'] r s L'(1) by (simp add: represents_def)
  then show "\<exists>m'. exec_op op m = Some m' \<and> represents m' s'"
    using r s L'(2) by (auto simp: represents_def)
qed

definition collect :: "addr \<Rightarrow> heap \<times> addr list \<Rightarrow> (heap \<times> addr list) option" where
  "collect i s = Some (fst s, snd s @ [i])"

lemma collect_law:
  assumes "is_list m h xs"
  shows "list_for_each get_next h collect (m, []) = Some (m, xs)"
    "list_for_each get_prev h collect (m, []) = Some (m, rev xs)"
  using list_for_each_law [OF assms, of collect "\<lambda>i l. Some (l @ [i])" "[]"] fold_opt_collect [of "\<lambda>x. x" _ "[]"]
  by (simp_all add: collect_def)

lemma seg_cong: "\<forall>x \<in> insert p (insert q (set xs)). m' x = m x \<Longrightarrow> seg m' p xs q \<longleftrightarrow> seg m p xs q"
  by (induction xs arbitrary: p) (auto simp: linked_def get_next_def get_prev_def)

lemma holds_drop:
  assumes "holds m L" "L h = Some xs" "is_list m' h []" "\<forall>x. x \<notin> set (h # xs) \<longrightarrow> m' x = m x"
  shows "holds m' (L(h \<mapsto> []))"
proof -
  have same: "is_list m' k ys" if "is_list m k ys" "set (k # ys) \<inter> set (h # xs) = {}" for k ys
  proof -
    have "m' x = m x" if "x \<in> set (k # ys)" for x
      using that \<open>set (k # ys) \<inter> set (h # xs) = {}\<close> assms(4) by blast
    then have "seg m' k ys k \<longleftrightarrow> seg m k ys k" by (intro seg_cong) auto
    with that(1) show ?thesis by (simp add: is_list_def)
  qed
  have others: "set (k # ys) \<inter> set (h # xs) = {}" if "L k = Some ys" "k \<noteq> h" for k ys
    using holdsD(2) [OF assms(1) that(1) assms(2)] that(2) by simp
  then have "is_list m' k ys" if "L k = Some ys" "k \<noteq> h" for k ys
    using same holdsD(1) [OF assms(1) that(1)] that by blast
  with others assms(3) holdsD(2) [OF assms(1)] show ?thesis
    unfolding holds_def by (auto split: if_splits)
qed

section \<open>Properties\<close>

text \<open>
  C10. The pointer operations implement lists.  Any sequence of operations that the abstract view
  allows, on any number of lists in one memory, is carried out without an invalid access, and
  afterwards every list, followed forwards from its head, has exactly the nodes of the abstract
  list in order, and followed backwards has them in reverse.
\<close>

theorem list_ops_refine:
  assumes "fold_opt abs_step ops (dom m, Map.empty) = Some (D, L)"
  shows "\<exists>m'. fold_opt exec_op ops m = Some m' \<and> dom m' = D \<and>
    (\<forall>h xs. L h = Some xs \<longrightarrow>
      list_empty h m' = Some (xs = []) \<and>
      list_for_each get_next h collect (m', []) = Some (m', xs) \<and>
      list_for_each get_prev h collect (m', []) = Some (m', rev xs))"
proof -
  have "represents m (dom m, Map.empty)" by (simp add: represents_def holds_def)
  then obtain m' where m': "fold_opt exec_op ops m = Some m'" "represents m' (D, L)"
    using ccan.run [OF _ assms] by blast
  with collect_law is_list_read(3) show ?thesis
    by (auto simp: represents_def dest!: holdsD(1))
qed

text \<open>
  C24. The loop in which the program frees a list never touches freed memory: it ends, it frees
  exactly the nodes of the list, in order, it leaves the head an empty list, and every other list
  is as before.
\<close>

theorem list_free_all:
  assumes "holds m L" "L h = Some xs"
  shows "\<exists>m'. list_for_each_safe get_next h free_node (m, []) = Some (m', xs) \<and>
    dom m' = dom m - set xs \<and> holds m' (L(h \<mapsto> []))"
  using free_loop_law [OF holdsD(1) [OF assms], of "[]"] holds_drop [OF assms] by auto

lemma nodes_upd: "n \<in> nodes (L(h \<mapsto> xs)) \<longleftrightarrow> n = h \<or> n \<in> set xs \<or> n \<in> nodes (L(h := None))"
  by (auto simp: nodes_def split: if_splits)

lemma nodes_empty: "nodes Map.empty = {}"
  by (simp add: nodes_def)

definition blank_heap :: heap where
  "blank_heap = (\<lambda>x. if x < 16 then Some \<lparr>ln_next = 0, ln_prev = 0\<rparr> else None)"

definition example_ops :: "list_op list" where
  "example_ops = [Init 1, Init 2, Add_tail 1 3, Add 1 4, Add_tail 2 5, Append 1 2, Swap 1 3 6, Del 1 4]"

theorem list_ops_refine_witness:
  "\<exists>m'. fold_opt exec_op example_ops blank_heap = Some m' \<and>
    list_for_each get_next 1 collect (m', []) = Some (m', [6, 5])"
proof -
  have d: "n \<in> dom blank_heap \<longleftrightarrow> n < 16" for n by (auto simp: blank_heap_def split: if_splits)
  have "fold_opt abs_step example_ops (dom blank_heap, Map.empty) =
    Some (dom blank_heap, Map.empty(1 \<mapsto> [6, 5], 2 \<mapsto> []))"
    by (simp add: example_ops_def abs_step_def d nodes_upd nodes_empty on_list_def on_lists_def in_place_def fun_upd_twist)
  from list_ops_refine [OF this] show ?thesis by auto
qed

definition two_lists :: heap where
  "two_lists = [1 \<mapsto> \<lparr>ln_next = 3, ln_prev = 4\<rparr>, 3 \<mapsto> \<lparr>ln_next = 4, ln_prev = 1\<rparr>, 4 \<mapsto> \<lparr>ln_next = 1, ln_prev = 3\<rparr>,
     2 \<mapsto> \<lparr>ln_next = 5, ln_prev = 5\<rparr>, 5 \<mapsto> \<lparr>ln_next = 2, ln_prev = 2\<rparr>]"

theorem list_free_all_witness:
  "\<exists>m'. list_for_each_safe get_next 1 free_node (two_lists, []) = Some (m', [3, 4]) \<and>
    holds m' [1 \<mapsto> [], 2 \<mapsto> [5]]"
proof -
  have "holds two_lists [1 \<mapsto> [3, 4], 2 \<mapsto> [5]]"
    unfolding holds_def is_list_def
    by (auto simp: linked_def get_next_def get_prev_def two_lists_def split: if_splits)
  from list_free_all [OF this, of 1 "[3, 4]"] show ?thesis by (auto simp: fun_upd_twist)
qed

end
