(* ===== verification/Result.thy ===== *)
theory Result
  imports Simulation
begin

text \<open>
  The output of results (\<^verbatim>\<open>src/result.c\<close>): text, JSON, YAML and HTML, all written as a stream
  of calls \<open>rout(level, key, value)\<close>.  The state is the stack of open containers and the text
  written so far.  The value of a call is what \<open>vsnprintf\<close> makes of the format and its arguments;
  the model takes that string.  A file that could not be opened is \<open>None\<close>, and writing to it is
  undefined, as is an access outside \<open>jstack\<close>.
\<close>

section \<open>State\<close>

definition RES_STD :: nat where "RES_STD = 0"
definition RES_TXT :: nat where "RES_TXT = 1"
definition RES_JSON :: nat where "RES_JSON = 2"
definition RES_YAML :: nat where "RES_YAML = 3"
definition RES_HTML :: nat where "RES_HTML = 4"

definition LINE_LEN :: nat where "LINE_LEN = 512"
definition MAX_DEPTH :: nat where "MAX_DEPTH = 32"

record keyrec =
  kr_key :: string
  kr_count :: int

text \<open>\<open>jc_ek\<close> are the used entries, \<open>jc_ck\<close> is the number of allocated ones.\<close>

record jcnt =
  jc_lv :: int
  jc_child_lv :: int
  jc_close :: char
  jc_has_child :: bool
  jc_ek :: "keyrec list"
  jc_ck :: nat

record res_state =
  rs_outtype :: nat
  rs_root_close :: char
  rs_yfirst :: bool
  rs_jstack :: "jcnt list"
  rs_jdepth :: nat
  rs_out :: "string option"

definition NUL :: char where "NUL = CHR 0x00"
definition NL :: char where "NL = CHR 0x0A"
definition DQ :: char where "DQ = CHR 0x22"
definition BSL :: char where "BSL = CHR 0x5C"

definition zero_jcnt :: jcnt where
  "zero_jcnt = \<lparr>jc_lv = 0, jc_child_lv = 0, jc_close = NUL, jc_has_child = False, jc_ek = [], jc_ck = 0\<rparr>"

definition static_res :: res_state where
  "static_res = \<lparr>rs_outtype = RES_STD, rs_root_close = CHR ''}'', rs_yfirst = True,
     rs_jstack = replicate MAX_DEPTH zero_jcnt, rs_jdepth = 0, rs_out = None\<rparr>"

section \<open>Writing\<close>

definition fputs :: "string \<Rightarrow> res_state \<Rightarrow> res_state option" where
  "fputs s st = map_option (\<lambda>t. st\<lparr>rs_out := Some (t @ s)\<rparr>) (rs_out st)"

definition j_write_indent :: "int \<Rightarrow> string" where
  "j_write_indent n = replicate (nat n) CHR '' ''"

definition hex_digit :: "nat \<Rightarrow> char" where
  "hex_digit n = (if n < 10 then char_of (48 + n) else char_of (87 + n))"

definition esc_char :: "char \<Rightarrow> string" where
  "esc_char c =
     (if c = DQ then [BSL, DQ]
      else if c = BSL then [BSL, BSL]
      else if c = NL then [BSL, CHR ''n'']
      else if c = CHR 0x0D then [BSL, CHR ''r'']
      else if c = CHR 0x09 then [BSL, CHR ''t'']
      else if of_char c < (0x20 :: nat) then [BSL, CHR ''u'', CHR ''0'', CHR ''0'', hex_digit (of_char c div 16), hex_digit (of_char c mod 16)]
      else [c])"

text \<open>A C string ends at the first \<open>NUL\<close>.\<close>

definition c_str :: "string \<Rightarrow> string" where
  "c_str s = takeWhile (\<lambda>c. c \<noteq> NUL) s"

definition j_write_escaped :: "string \<Rightarrow> string" where
  "j_write_escaped s = concat (map esc_char (c_str s))"

section \<open>The stack of containers\<close>

definition stack_get :: "nat \<Rightarrow> res_state \<Rightarrow> jcnt option" where
  "stack_get i st = (if i < length (rs_jstack st) then Some (rs_jstack st ! i) else None)"

definition stack_set :: "nat \<Rightarrow> (jcnt \<Rightarrow> jcnt) \<Rightarrow> res_state \<Rightarrow> res_state option" where
  "stack_set i f st = (if i < length (rs_jstack st) then Some (st\<lparr>rs_jstack := (rs_jstack st)[i := f (rs_jstack st ! i)]\<rparr>) else None)"

text \<open>\<open>jstack[jdepth - 1]\<close>\<close>

definition stack_top :: "res_state \<Rightarrow> jcnt option" where
  "stack_top st = (if rs_jdepth st = 0 then None else stack_get (rs_jdepth st - 1) st)"

definition set_top :: "(jcnt \<Rightarrow> jcnt) \<Rightarrow> res_state \<Rightarrow> res_state option" where
  "set_top f st = (if rs_jdepth st = 0 then None else stack_set (rs_jdepth st - 1) f st)"

text \<open>The four assignments and the increment with which a container is pushed.\<close>

definition push :: "int \<Rightarrow> int \<Rightarrow> char \<Rightarrow> res_state \<Rightarrow> res_state option" where
  "push lv child_lv cl st = do {
     st \<leftarrow> stack_set (rs_jdepth st) (\<lambda>t. t\<lparr>jc_lv := lv, jc_child_lv := child_lv, jc_close := cl, jc_has_child := False\<rparr>) st;
     Some (st\<lparr>rs_jdepth := Suc (rs_jdepth st)\<rparr>) }"

text \<open>What is written when the top container is closed.\<close>

definition closing :: "nat \<Rightarrow> jcnt \<Rightarrow> string" where
  "closing d t = NL # j_write_indent (2 * int d) @ (if jc_child_lv t < 0 then ''[]'' else [jc_close t])"

text \<open>
  The loop that closes containers down to the root, as it stands in \<open>j_prelude\<close>, where it stops at
  a container of a level below \<open>min_close\<close>, and in \<open>hier_close\<close>, where it does not.
\<close>

function (sequential) close_loop :: "(jcnt \<Rightarrow> bool) \<Rightarrow> res_state \<Rightarrow> res_state option" where
  "close_loop stop st =
     (if rs_jdepth st \<le> 1 then Some st
      else case stack_top st of
        None \<Rightarrow> None
      | Some t \<Rightarrow>
          if stop t then Some st
          else (case fputs (closing (rs_jdepth st - 1) t) st of
             None \<Rightarrow> None
           | Some st' \<Rightarrow> close_loop stop (st'\<lparr>rs_jdepth := rs_jdepth st' - 1\<rparr>)))"
  by pat_completeness auto
termination
  by (relation "measure (\<lambda>(m, st). rs_jdepth st)") (auto simp: fputs_def)

declare close_loop.simps [simp del]

definition j_wrap :: "int \<Rightarrow> bool \<Rightarrow> res_state \<Rightarrow> res_state option" where
  "j_wrap lv is_array_element st =
     (if is_array_element \<or> rs_jdepth st = 0 then Some st
      else do {
        arr \<leftarrow> stack_top st;
        if jc_close arr \<noteq> CHR '']'' then Some st
        else do {
          let i = rs_jdepth st - 1;
          st \<leftarrow> (if jc_has_child arr then fputs '','' st else Some st);
          st \<leftarrow> fputs (NL # j_write_indent (2 * int i) @ ''{'') st;
          st \<leftarrow> push lv lv CHR ''}'' st;
          stack_set i (\<lambda>t. t\<lparr>jc_has_child := True\<rparr>) st } })"

definition j_resolve :: "int \<Rightarrow> bool \<Rightarrow> res_state \<Rightarrow> res_state option" where
  "j_resolve lv is_array_element st =
     (if rs_jdepth st \<le> 1 then Some st
      else do {
        t \<leftarrow> stack_top st;
        if jc_child_lv t < 0
        then do {
          st \<leftarrow> set_top (\<lambda>t. t\<lparr>jc_child_lv := lv, jc_close := (if is_array_element then CHR '']'' else CHR ''}''), jc_has_child := False\<rparr>) st;
          fputs (if is_array_element then ''['' else ''{'') st }
        else Some st })"

definition j_prelude :: "int \<Rightarrow> bool \<Rightarrow> res_state \<Rightarrow> res_state option" where
  "j_prelude lv is_array_element st = do {
     let min_close = (if is_array_element then lv + 1 else lv);
     st \<leftarrow> close_loop (\<lambda>t. jc_lv t < min_close) st;
     st \<leftarrow> j_wrap lv is_array_element st;
     st \<leftarrow> j_resolve lv is_array_element st;
     parent \<leftarrow> stack_top st;
     st \<leftarrow> (if jc_has_child parent then fputs '','' st else Some st);
     st \<leftarrow> fputs (NL # j_write_indent (2 * (int (rs_jdepth st) - 1))) st;
     set_top (\<lambda>t. t\<lparr>jc_has_child := True\<rparr>) st }"

definition quoted :: "string \<Rightarrow> string" where
  "quoted s = DQ # j_write_escaped s @ [DQ]"

definition j_emit :: "int \<Rightarrow> string option \<Rightarrow> string option \<Rightarrow> res_state \<Rightarrow> res_state option" where
  "j_emit lv key val st =
     (case (key, val) of
        (Some k, None) \<Rightarrow> do {
          st \<leftarrow> j_prelude lv False st;
          st \<leftarrow> fputs (quoted k @ '':'') st;
          if MAX_DEPTH \<le> rs_jdepth st then Some st
          else push lv (-1) NUL st }
      | (_, Some v) \<Rightarrow> do {
          st \<leftarrow> j_prelude lv (key = None) st;
          st \<leftarrow> (case key of Some k \<Rightarrow> fputs (quoted k @ '':'') st | None \<Rightarrow> Some st);
          fputs (quoted v) st }
      | (None, None) \<Rightarrow> Some st)"

section \<open>YAML\<close>

fun dec_nat :: "nat \<Rightarrow> string" where
  "dec_nat n = (if n < 10 then [char_of (48 + n)] else dec_nat (n div 10) @ [char_of (48 + n mod 10)])"

declare dec_nat.simps [simp del]

definition dec_int :: "int \<Rightarrow> string" where
  "dec_int i = (if i < 0 then CHR ''-'' # dec_nat (nat (- i)) else dec_nat (nat i))"

definition snprintf :: "nat \<Rightarrow> string \<Rightarrow> string" where
  "snprintf sz s = take (sz - 1) s"

text \<open>
  The keys of a mapping: a repeated key is written with its number.  A key is recorded when the
  allocations succeed.
\<close>

fun bump :: "keyrec list \<Rightarrow> string \<Rightarrow> (int \<times> keyrec list) option" where
  "bump [] key = None"
| "bump (r # rs) key =
     (if kr_key r = key then Some (kr_count r + 1, r\<lparr>kr_count := kr_count r + 1\<rparr> # rs)
      else map_option (\<lambda>(n, rs'). (n, r # rs')) (bump rs key))"

definition y_dedup_key :: "alloc_env \<Rightarrow> jcnt \<Rightarrow> string \<Rightarrow> string \<times> jcnt" where
  "y_dedup_key e m key =
     (case bump (jc_ek m) key of
        Some (n, ek) \<Rightarrow> (snprintf 64 (key @ '' #'' @ dec_int n), m\<lparr>jc_ek := ek\<rparr>)
      | None \<Rightarrow>
          if jc_ck m \<le> length (jc_ek m) \<and> \<not> mok e 0 then (key, m)
          else (let m = (if jc_ck m \<le> length (jc_ek m) then m\<lparr>jc_ck := (if jc_ck m \<noteq> 0 then jc_ck m * 2 else 8)\<rparr> else m) in
            if \<not> mok e 1 then (key, m)
            else (key, m\<lparr>jc_ek := jc_ek m @ [\<lparr>kr_key = key, kr_count = 1\<rparr>]\<rparr>)))"

definition jcnt_key_free :: "jcnt \<Rightarrow> jcnt" where
  "jcnt_key_free t = (if jc_ck t \<noteq> 0 then t\<lparr>jc_ek := [], jc_ck := 0\<rparr> else t)"

function (sequential) seal_loop :: "int \<Rightarrow> res_state \<Rightarrow> res_state option" where
  "seal_loop min_close st =
     (if rs_jdepth st \<le> 1 then Some st
      else case stack_top st of
        None \<Rightarrow> None
      | Some t \<Rightarrow>
          if jc_lv t < min_close then Some st
          else (case set_top jcnt_key_free st of
             None \<Rightarrow> None
           | Some st' \<Rightarrow> seal_loop min_close (st'\<lparr>rs_jdepth := rs_jdepth st' - 1\<rparr>)))"
  by pat_completeness auto
termination
  by (relation "measure (\<lambda>(m, st). rs_jdepth st)") (auto simp: set_top_def stack_set_def split: if_splits)

declare seal_loop.simps [simp del]

definition y_resolve :: "int \<Rightarrow> bool \<Rightarrow> res_state \<Rightarrow> res_state option" where
  "y_resolve lv is_arr st =
     (if rs_jdepth st \<le> 1 then Some st
      else do {
        t \<leftarrow> stack_top st;
        if jc_child_lv t < 0
        then set_top (\<lambda>t. t\<lparr>jc_child_lv := lv, jc_close := (if is_arr then CHR '']'' else CHR ''}''), jc_has_child := False\<rparr>) st
        else Some st })"

definition y_line :: "int \<Rightarrow> bool \<Rightarrow> string option \<Rightarrow> string option \<Rightarrow> res_state \<Rightarrow> res_state option" where
  "y_line indent dash ekey val st = do {
     st \<leftarrow> (if rs_yfirst st then Some (st\<lparr>rs_yfirst := False\<rparr>) else fputs [NL] st);
     fputs (j_write_indent indent @ (if dash then ''- '' else []) @
       (case ekey of Some k \<Rightarrow> quoted k @ '':'' @ (if val \<noteq> None then '' '' else []) | None \<Rightarrow> []) @
       (case val of Some v \<Rightarrow> quoted v | None \<Rightarrow> [])) st }"

definition y_emit :: "alloc_env \<Rightarrow> int \<Rightarrow> string option \<Rightarrow> string option \<Rightarrow> res_state \<Rightarrow> res_state option" where
  "y_emit e lv key val st = do {
     let is_arr = (key = None);
     st \<leftarrow> seal_loop (if is_arr then lv + 1 else lv) st;
     let indent = 2 * (int (rs_jdepth st) - 1);
     parent_arr \<leftarrow> (if rs_jdepth st = 0 then Some False else map_option (\<lambda>t. jc_close t = CHR '']'') (stack_top st));
     let wrap = (parent_arr \<and> key \<noteq> None);
     if wrap \<and> MAX_DEPTH - 1 \<le> rs_jdepth st then Some st
     else do {
       st \<leftarrow> (if wrap then push lv lv CHR ''}'' st else Some st);
       st \<leftarrow> y_resolve lv is_arr st;
       (ekey, st) \<leftarrow> (case key of
          None \<Rightarrow> Some (None, st)
        | Some k \<Rightarrow> do {
            m \<leftarrow> stack_top st;
            let (k', m') = y_dedup_key e m k;
            st \<leftarrow> set_top (\<lambda>_. m') st;
            Some (Some k', st) });
       st \<leftarrow> y_line indent (is_arr \<or> wrap) ekey val st;
       if key \<noteq> None \<and> val = None \<and> rs_jdepth st < MAX_DEPTH then push lv (-1) NUL st else Some st } }"

section \<open>Opening, writing and closing\<close>

definition is_hier :: "res_state \<Rightarrow> bool" where
  "is_hier st \<longleftrightarrow> rs_outtype st = RES_JSON \<or> rs_outtype st = RES_HTML \<or> rs_outtype st = RES_YAML"

definition hier_close :: "res_state \<Rightarrow> res_state option" where
  "hier_close st =
     (if rs_outtype st = RES_YAML
      then Some (st\<lparr>rs_jstack := map jcnt_key_free (take (rs_jdepth st) (rs_jstack st)) @ drop (rs_jdepth st) (rs_jstack st), rs_jdepth := 0\<rparr>)
      else do {
        st \<leftarrow> close_loop (\<lambda>_. False) st;
        st \<leftarrow> fputs [NL, rs_root_close st, NL] st;
        Some (st\<lparr>rs_jdepth := 0\<rparr>) })"

definition res_settype :: "nat \<Rightarrow> res_state \<Rightarrow> res_state" where
  "res_settype t st = st\<lparr>rs_outtype := t\<rparr>"

definition res_init_root :: "res_state \<Rightarrow> res_state" where
  "res_init_root st = st\<lparr>rs_jdepth := 1, rs_jstack := (replicate MAX_DEPTH zero_jcnt)[0 := zero_jcnt\<lparr>jc_lv := -1, jc_child_lv := 0\<rparr>]\<rparr>"

definition set_root_close :: "char \<Rightarrow> res_state \<Rightarrow> res_state" where
  "set_root_close c st = st\<lparr>rs_jstack := (rs_jstack st)[0 := (rs_jstack st ! 0)\<lparr>jc_close := c\<rparr>]\<rparr>"

text \<open>\<open>opened\<close> says whether \<open>fopen\<close> succeeds, \<open>html_head\<close> and \<open>html_foot\<close> are the texts of \<^verbatim>\<open>html_template.h\<close>.\<close>

definition res_open :: "bool \<Rightarrow> string \<Rightarrow> res_state \<Rightarrow> res_state" where
  "res_open opened html_head st =
     (let t = rs_outtype st; new = (if opened then Some [] else None) in
      if t = RES_TXT then st\<lparr>rs_out := new\<rparr>
      else if t = RES_JSON \<and> opened then set_root_close CHR ''}'' (res_init_root (st\<lparr>rs_out := Some ''{'', rs_root_close := CHR ''}''\<rparr>))
      else if t = RES_HTML \<and> opened then set_root_close CHR '']'' (res_init_root (st\<lparr>rs_out := Some (html_head @ ''[''), rs_root_close := CHR '']''\<rparr>))
      else if t = RES_YAML \<and> opened then (set_root_close CHR ''}'' (res_init_root (st\<lparr>rs_out := new\<rparr>)))\<lparr>rs_yfirst := True\<rparr>
      else if t = RES_JSON \<or> t = RES_HTML \<or> t = RES_YAML then st\<lparr>rs_out := None\<rparr>
      else st\<lparr>rs_out := Some []\<rparr>)"

text \<open>
  A line of text output, in a buffer of \<open>LINE_LEN\<close> characters.  Every step that does not fit jumps
  to the end, where the terminating \<open>NUL\<close> is stored behind what there is, for a full buffer
  outside of it.
\<close>

fun indent_loop :: "nat \<Rightarrow> string \<Rightarrow> string \<times> bool" where
  "indent_loop 0 buf = (buf, True)"
| "indent_loop (Suc k) buf = (if LINE_LEN \<le> length buf + 2 then (buf, False) else indent_loop k (buf @ ''  ''))"

definition terminated :: "string \<Rightarrow> string option" where
  "terminated buf = (if length buf < LINE_LEN then Some (c_str buf) else None)"

definition text_value :: "string option \<Rightarrow> string option \<Rightarrow> string \<Rightarrow> string \<times> bool" where
  "text_value key fmt buf =
     (case fmt of
        None \<Rightarrow> (buf, True)
      | Some v \<Rightarrow>
          if key \<noteq> None \<and> LINE_LEN < length buf + 2 then (buf, False)
          else (let buf = (if key \<noteq> None then buf @ [CHR '':'', CHR 0x09] else buf) in
            if LINE_LEN \<le> length buf + length v then (buf, False) else (buf @ v, True)))"

definition text_line :: "int \<Rightarrow> string option \<Rightarrow> string option \<Rightarrow> string option" where
  "text_line lv key fmt =
     (let (buf, go) = indent_loop (nat lv) [] in
      if \<not> go then terminated buf
      else if lv = 0 \<and> LINE_LEN < length buf + 1 then terminated buf
      else (let buf = (if lv = 0 then buf @ [NL] else buf) in
        if (case key of Some k \<Rightarrow> LINE_LEN \<le> length buf + length k | None \<Rightarrow> False) then terminated buf
        else (let (buf, go) = text_value key fmt (case key of Some k \<Rightarrow> buf @ k | None \<Rightarrow> buf) in
          if \<not> go then terminated buf
          else if LINE_LEN < length buf + 1 then terminated buf
          else terminated (buf @ [NL]))))"

definition res_put :: "alloc_env \<Rightarrow> int \<Rightarrow> string option \<Rightarrow> string option \<Rightarrow> res_state \<Rightarrow> res_state option" where
  "res_put e lv key fmt st =
     (if is_hier st then
        (if lv = 0 \<and> key = None \<and> fmt = None then hier_close st
         else (let val = map_option (snprintf LINE_LEN) fmt in
           if rs_outtype st = RES_YAML then y_emit e lv key val st else j_emit lv key val st))
      else do {
        l \<leftarrow> text_line lv key fmt;
        fputs l st })"

definition res_close :: "alloc_env \<Rightarrow> string \<Rightarrow> res_state \<Rightarrow> res_state option" where
  "res_close e html_foot st = do {
     st \<leftarrow> (if rs_outtype st = RES_JSON then res_put e 0 None None st
           else if rs_outtype st = RES_YAML then hier_close st
           else Some st);
     if rs_outtype st = RES_HTML
     then do { st \<leftarrow> res_put e 0 None None st; fputs html_foot st }
     else Some st }"

section \<open>Lines of text\<close>

lemma indent_loop_law: "length buf + 2 * k < LINE_LEN \<Longrightarrow> indent_loop k buf = (buf @ replicate (2 * k) CHR '' '', True)"
  by (induction k arbitrary: buf) auto

text \<open>The line that a call writes in the text formats.\<close>

definition full_line :: "int \<Rightarrow> string \<Rightarrow> string \<Rightarrow> string" where
  "full_line lv k v = replicate (2 * nat lv) CHR '' '' @ (if lv = 0 then [NL] else []) @ k @ [CHR '':'', CHR 0x09] @ v"

lemma c_str_id: "NUL \<notin> set s \<Longrightarrow> c_str s = s"
  unfolding c_str_def by (rule takeWhile_eq_all_conv [THEN iffD2]) auto



end
