(* ===== verification/Json_Output.thy ===== *)
theory Json_Output
  imports Result
begin

text \<open>
  The streamed JSON of \<^verbatim>\<open>src/result.c\<close> against a reference: the calls describe a tree, and what
  the emitter writes is the pretty-printed tree, a JSON text.
\<close>

section \<open>The tree that is written\<close>

text \<open>
  The reference: the calls build a tree, and the tree is printed.  A container is an object when
  its first child has a key and an array otherwise; one without children is an empty array.
\<close>

datatype json = JStr string | JObj "(string \<times> json) list" | JArr "json list"

fun print_json :: "nat \<Rightarrow> json \<Rightarrow> string"
  and print_members :: "nat \<Rightarrow> bool \<Rightarrow> (string \<times> json) list \<Rightarrow> string"
  and print_elements :: "nat \<Rightarrow> bool \<Rightarrow> json list \<Rightarrow> string" where
  "print_json d (JStr s) = quoted s"
| "print_json d (JObj ms) = ''{'' @ print_members d False ms @ NL # replicate (2 * d) CHR '' '' @ ''}''"
| "print_json d (JArr vs) = (if vs = [] then NL # replicate (2 * d) CHR '' '' @ ''[]''
     else ''['' @ print_elements d False vs @ NL # replicate (2 * d) CHR '' '' @ '']'')"
| "print_members d sep [] = []"
| "print_members d sep ((k, v) # ms) = (if sep then '','' else []) @ NL # replicate (2 * d) CHR '' '' @
     quoted k @ '':'' @ print_json (Suc d) v @ print_members d True ms"
| "print_elements d sep [] = []"
| "print_elements d sep (v # vs) = (if sep then '','' else []) @ NL # replicate (2 * d) CHR '' '' @
     print_json (Suc d) v @ print_elements d True vs"

datatype body = Undecided | Obj "(string \<times> json) list" | Arr "json list"

text \<open>An open container: its level, its key in the container around it, its children so far.\<close>

record frame =
  fr_lv :: int
  fr_key :: "string option"
  fr_body :: body

fun tree :: "body \<Rightarrow> json" where
  "tree Undecided = JArr []"
| "tree (Obj ms) = JObj ms"
| "tree (Arr vs) = JArr vs"

fun add_child :: "string option \<Rightarrow> json \<Rightarrow> body \<Rightarrow> body option" where
  "add_child (Some k) v (Obj ms) = Some (Obj (ms @ [(k, v)]))"
| "add_child None v (Arr vs) = Some (Arr (vs @ [v]))"
| "add_child _ _ _ = None"

fun resolve :: "bool \<Rightarrow> body \<Rightarrow> body" where
  "resolve arr Undecided = (if arr then Arr [] else Obj [])"
| "resolve arr b = b"

text \<open>The open containers, the innermost first; the last one is the root.\<close>

fun pop_frames :: "(frame \<Rightarrow> bool) \<Rightarrow> frame list \<Rightarrow> frame list option" where
  "pop_frames stop (f # g # fs) =
     (if stop f then Some (f # g # fs)
      else do {
        b \<leftarrow> add_child (fr_key f) (tree (fr_body f)) (fr_body g);
        pop_frames stop (g\<lparr>fr_body := b\<rparr> # fs) })"
| "pop_frames stop fs = Some fs"

fun wrap_frame :: "int \<Rightarrow> bool \<Rightarrow> frame list \<Rightarrow> frame list" where
  "wrap_frame lv arr (f # fs) =
     (case fr_body f of
        Arr vs \<Rightarrow> if arr then f # fs else \<lparr>fr_lv = lv, fr_key = None, fr_body = Obj []\<rparr> # f # fs
      | _ \<Rightarrow> f # fs)"
| "wrap_frame lv arr [] = []"

definition on_top :: "(body \<Rightarrow> body option) \<Rightarrow> frame list \<Rightarrow> frame list option" where
  "on_top g fs = (case fs of [] \<Rightarrow> None | f # fs' \<Rightarrow> map_option (\<lambda>b. f\<lparr>fr_body := b\<rparr> # fs') (g (fr_body f)))"

text \<open>An array element in an object has no place in the tree: there the reference is undefined.\<close>

definition tree_put :: "int \<times> string option \<times> string option \<Rightarrow> frame list \<Rightarrow> frame list option" where
  "tree_put c fs = (case c of (lv, key, val) \<Rightarrow> do {
     let arr = (key = None);
     let min_close = (if arr then lv + 1 else lv);
     fs \<leftarrow> pop_frames (\<lambda>f. fr_lv f < min_close) fs;
     let fs = wrap_frame lv arr fs;
     fs \<leftarrow> on_top (Some \<circ> resolve arr) fs;
     (case val of
        Some v \<Rightarrow> on_top (add_child key (JStr v)) fs
      | None \<Rightarrow> if arr then None else Some (\<lparr>fr_lv = lv, fr_key = key, fr_body = Undecided\<rparr> # fs)) })"

definition tree_close :: "frame list \<Rightarrow> json option" where
  "tree_close fs = do {
     fs \<leftarrow> pop_frames (\<lambda>_. False) fs;
     (case fs of [f] \<Rightarrow> Some (tree (fr_body f)) | _ \<Rightarrow> None) }"

section \<open>The text of the open containers\<close>

definition ind :: "nat \<Rightarrow> string" where
  "ind d = NL # replicate (2 * d) CHR '' ''"

fun body_empty :: "body \<Rightarrow> bool" where
  "body_empty Undecided \<longleftrightarrow> True"
| "body_empty (Obj ms) \<longleftrightarrow> ms = []"
| "body_empty (Arr vs) \<longleftrightarrow> vs = []"

fun body_text :: "nat \<Rightarrow> body \<Rightarrow> string" where
  "body_text d Undecided = []"
| "body_text d (Obj ms) = ''{'' @ print_members d False ms"
| "body_text d (Arr vs) = ''['' @ print_elements d False vs"

definition key_text :: "string option \<Rightarrow> string" where
  "key_text key = (case key of Some k \<Rightarrow> quoted k @ '':'' | None \<Rightarrow> [])"

definition lead :: "nat \<Rightarrow> bool \<Rightarrow> string" where
  "lead d sep = (if sep then '','' else []) @ ind d"

fun stack_text :: "frame list \<Rightarrow> string" where
  "stack_text [] = []"
| "stack_text [f] = body_text 0 (fr_body f)"
| "stack_text (f # g # fs) = stack_text (g # fs) @ lead (length fs) (\<not> body_empty (fr_body g)) @ key_text (fr_key f) @
     body_text (Suc (length fs)) (fr_body f)"

lemma print_members_snoc:
  "print_members d c (ms @ [(k, v)]) = print_members d c ms @ lead d (c \<or> ms \<noteq> []) @ quoted k @ '':'' @ print_json (Suc d) v"
proof (induction ms arbitrary: c)
  case (Cons m ms)
  then show ?case by (cases m) (simp add: lead_def ind_def)
qed (simp add: lead_def ind_def)

lemma print_elements_snoc:
  "print_elements d c (vs @ [v]) = print_elements d c vs @ lead d (c \<or> vs \<noteq> []) @ print_json (Suc d) v"
  by (induction vs arbitrary: c) (simp_all add: lead_def ind_def)

lemma add_child_text:
  "add_child key v b = Some b' \<Longrightarrow>
   body_text d b' = body_text d b @ lead d (\<not> body_empty b) @ key_text key @ print_json (Suc d) v \<and> \<not> body_empty b'"
  by (cases "(key, v, b)" rule: add_child.cases)
    (auto simp: print_members_snoc print_elements_snoc key_text_def)

definition end_text :: "nat \<Rightarrow> body \<Rightarrow> string" where
  "end_text d b = ind d @ (case b of Undecided \<Rightarrow> ''[]'' | Obj _ \<Rightarrow> ''}'' | Arr _ \<Rightarrow> '']'')"

lemma tree_text: "b \<noteq> Arr [] \<Longrightarrow> print_json d (tree b) = body_text d b @ end_text d b"
  by (cases b) (simp_all add: end_text_def ind_def)

section \<open>The stack and the open containers\<close>

definition frame_ok :: "bool \<Rightarrow> jcnt \<Rightarrow> frame \<Rightarrow> bool" where
  "frame_ok inner t f \<longleftrightarrow> jc_lv t = fr_lv f \<and>
     (case fr_body f of
        Undecided \<Rightarrow> jc_child_lv t < 0 \<and> jc_close t = NUL
      | Obj ms \<Rightarrow> 0 \<le> jc_child_lv t \<and> jc_close t = CHR ''}'' \<and> (jc_has_child t \<longleftrightarrow> \<not> inner \<or> ms \<noteq> [])
      | Arr vs \<Rightarrow> 0 \<le> jc_child_lv t \<and> jc_close t = CHR '']'' \<and> (jc_has_child t \<longleftrightarrow> \<not> inner \<or> vs \<noteq> []))"

fun stack_ok :: "bool \<Rightarrow> jcnt list \<Rightarrow> frame list \<Rightarrow> bool" where
  "stack_ok inner js [] \<longleftrightarrow> True"
| "stack_ok inner js (f # fs) \<longleftrightarrow> frame_ok inner (js ! length fs) f \<and> stack_ok False js fs"

text \<open>
  The levels grow from the root on, at most two containers have the same level, only the
  innermost container may be undecided, and a container has a key exactly in an object.
\<close>

fun key_fits :: "string option \<Rightarrow> body \<Rightarrow> bool" where
  "key_fits key (Obj _) \<longleftrightarrow> key \<noteq> None"
| "key_fits key (Arr _) \<longleftrightarrow> key = None"
| "key_fits key Undecided \<longleftrightarrow> False"

fun levels_ok :: "frame list \<Rightarrow> bool" where
  "levels_ok [] \<longleftrightarrow> False"
| "levels_ok [f] \<longleftrightarrow> fr_body f \<noteq> Undecided"
| "levels_ok (f # g # fs) \<longleftrightarrow> 0 \<le> fr_lv f \<and> int (length (g # fs)) \<le> 2 * fr_lv f + (if fr_key f = None then 1 else 2) \<and>
     key_fits (fr_key f) (fr_body g) \<and> (fs \<noteq> [] \<longrightarrow> fr_body g \<noteq> Arr []) \<and> levels_ok (g # fs)"

definition stable_top :: "frame list \<Rightarrow> bool" where
  "stable_top fs \<longleftrightarrow> (2 \<le> length fs \<longrightarrow> fr_body (hd fs) \<noteq> Arr [])"

definition rel :: "string \<Rightarrow> res_state \<Rightarrow> frame list \<Rightarrow> bool" where
  "rel pre st fs \<longleftrightarrow> levels_ok fs \<and> rs_jdepth st = length fs \<and> length (rs_jstack st) = MAX_DEPTH \<and> length fs \<le> MAX_DEPTH \<and>
     rs_out st = Some (pre @ stack_text fs) \<and> stack_ok True (rs_jstack st) fs"

definition same_output :: "res_state \<Rightarrow> res_state \<Rightarrow> bool" where
  "same_output st st' \<longleftrightarrow> rs_outtype st' = rs_outtype st \<and> rs_root_close st' = rs_root_close st"

lemma same_output_trans: "same_output a b \<Longrightarrow> same_output b c \<Longrightarrow> same_output a c"
  by (simp add: same_output_def)

lemma stack_ok_cong:
  "\<lbrakk>stack_ok inner js fs; \<And>i. i < length fs \<Longrightarrow> js' ! i = js ! i\<rbrakk> \<Longrightarrow> stack_ok inner js' fs"
  by (induction fs arbitrary: inner) auto

lemma stack_text_top:
  assumes "body_text (length fs) b = body_text (length fs) (fr_body f) @ s"
  shows "stack_text (f\<lparr>fr_body := b\<rparr> # fs) = stack_text (f # fs) @ s"
  using assms by (cases fs) auto

lemma frame_ok_lv: "frame_ok inner t f \<Longrightarrow> jc_lv t = fr_lv f"
  by (simp add: frame_ok_def)

lemma closing_end: "frame_ok inner t f \<Longrightarrow> closing d t = end_text d (fr_body f)"
  by (cases "fr_body f") (auto simp: frame_ok_def closing_def end_text_def ind_def j_write_indent_def nat_mult_distrib)

lemma rel_top: "rel pre st (f # fs) \<Longrightarrow> stack_top st = Some (rs_jstack st ! length fs) \<and> frame_ok True (rs_jstack st ! length fs) f"
  by (auto simp: rel_def stack_top_def stack_get_def)

text \<open>Closing one container.\<close>

lemma close_one:
  assumes r: "rel pre st (f # g # fs)" and s: "stable_top (f # g # fs)"
    and b: "add_child (fr_key f) (tree (fr_body f)) (fr_body g) = Some b"
  shows "\<exists>st'. fputs (closing (rs_jdepth st - 1) (rs_jstack st ! Suc (length fs))) st = Some st' \<and>
    rel pre (st'\<lparr>rs_jdepth := rs_jdepth st' - 1\<rparr>) (g\<lparr>fr_body := b\<rparr> # fs) \<and> stable_top (g\<lparr>fr_body := b\<rparr> # fs) \<and>
    same_output st (st'\<lparr>rs_jdepth := rs_jdepth st' - 1\<rparr>)"
proof -
  have ok: "frame_ok True (rs_jstack st ! Suc (length fs)) f" "frame_ok False (rs_jstack st ! length fs) g"
    "stack_ok False (rs_jstack st) fs" and lv: "levels_ok (g # fs)" and d: "rs_jdepth st = Suc (Suc (length fs))"
    and out: "rs_out st = Some (pre @ stack_text (f # g # fs))" and len: "length (rs_jstack st) = MAX_DEPTH" "Suc (Suc (length fs)) \<le> MAX_DEPTH"
    using r by (auto simp: rel_def)
  let ?fb = "fr_body f" and ?g = "g\<lparr>fr_body := b\<rparr>"
  have nz: "?fb \<noteq> Arr []" using s by (simp add: stable_top_def)
  have ct: "body_text (length fs) b = body_text (length fs) (fr_body g) @ lead (length fs) (\<not> body_empty (fr_body g)) @
      key_text (fr_key f) @ print_json (Suc (length fs)) (tree ?fb)" and ne: "\<not> body_empty b"
    using add_child_text [OF b] by auto
  have st_text: "stack_text (?g # fs) = stack_text (f # g # fs) @ end_text (Suc (length fs)) ?fb"
    using stack_text_top [OF ct] by (simp add: tree_text [OF nz])
  have gk: "frame_ok True (rs_jstack st ! length fs) ?g"
    using ok(2) ne b by (cases "(fr_key f, tree ?fb, fr_body g)" rule: add_child.cases) (auto simp: frame_ok_def)
  have lv': "levels_ok (?g # fs)"
    using lv ne by (cases fs) auto
  have "stable_top (?g # fs)" using ne by (auto simp: stable_top_def)
  then show ?thesis
    using out ok(3) gk lv' d len st_text closing_end [OF ok(1)]
    by (auto simp: fputs_def rel_def same_output_def)
qed

lemma close_loop_law:
  assumes "rel pre st fs" "stable_top fs" "pop_frames stop fs = Some fs'"
    and "\<And>t f. jc_lv t = fr_lv f \<Longrightarrow> stop' t = stop f"
  shows "\<exists>st'. close_loop stop' st = Some st' \<and> rel pre st' fs' \<and> stable_top fs' \<and> same_output st st' \<and>
    (length fs' = 1 \<or> stop (hd fs'))"
  using assms
proof (induction stop fs arbitrary: st rule: pop_frames.induct)
  case (1 stop f g fs)
  have d: "rs_jdepth st = Suc (Suc (length fs))" using 1(2) by (simp add: rel_def)
  have top: "stack_top st = Some (rs_jstack st ! Suc (length fs))" "stop' (rs_jstack st ! Suc (length fs)) = stop f"
    using rel_top [OF 1(2)] 1(5) frame_ok_lv by auto
  show ?case
  proof (cases "stop f")
    case True
    with 1 d top show ?thesis by (auto simp: close_loop.simps [of stop' st] same_output_def)
  next
    case False
    with 1(4) obtain b where b: "add_child (fr_key f) (tree (fr_body f)) (fr_body g) = Some b"
      "pop_frames stop (g\<lparr>fr_body := b\<rparr> # fs) = Some fs'"
      by (auto simp: Option.bind_eq_Some_conv)
    obtain st1 where st1: "fputs (closing (rs_jdepth st - 1) (rs_jstack st ! Suc (length fs))) st = Some st1"
      "rel pre (st1\<lparr>rs_jdepth := rs_jdepth st1 - 1\<rparr>) (g\<lparr>fr_body := b\<rparr> # fs)" "stable_top (g\<lparr>fr_body := b\<rparr> # fs)"
      "same_output st (st1\<lparr>rs_jdepth := rs_jdepth st1 - 1\<rparr>)"
      using close_one [OF 1(2,3) b(1)] by blast
    from 1(1) [OF False b(1) st1(2,3) b(2) 1(5)] st1 d top False show ?thesis
      by (auto simp: close_loop.simps [of stop' st] intro: same_output_trans)
  qed
qed (auto simp: close_loop.simps rel_def same_output_def)

text \<open>The room a child at this level needs on the stack.\<close>

definition room :: "int \<Rightarrow> frame list \<Rightarrow> bool" where
  "room lv fs \<longleftrightarrow> length fs = 1 \<or> fr_lv (hd fs) < lv"

lemma room_length:
  assumes "levels_ok fs" "room lv fs" "0 \<le> lv"
  shows "int (length fs) \<le> 2 * lv + 1"
  using assms by (cases fs rule: levels_ok.cases) (auto simp: room_def split: if_splits)

lemma stack_ok_update:
  "\<lbrakk>stack_ok inner js fs; length fs \<le> i\<rbrakk> \<Longrightarrow> stack_ok inner (js[i := t]) fs"
  by (rule stack_ok_cong) auto

lemma wrap_law:
  assumes r: "rel pre st fs" and s: "stable_top fs" and rm: "\<not> arr \<Longrightarrow> room lv fs" and lv: "0 \<le> lv" "lv \<le> 14"
  shows "\<exists>st'. j_wrap lv arr st = Some st' \<and> rel pre st' (wrap_frame lv arr fs) \<and> same_output st st'"
proof (cases fs)
  case (Cons f fs')
  have d: "rs_jdepth st = Suc (length fs')" "length (rs_jstack st) = MAX_DEPTH" and lo: "levels_ok (f # fs')"
    and out: "rs_out st = Some (pre @ stack_text (f # fs'))" and sk: "stack_ok False (rs_jstack st) fs'"
    using r Cons by (auto simp: rel_def)
  have top: "stack_top st = Some (rs_jstack st ! length fs')" "frame_ok True (rs_jstack st ! length fs') f"
    using rel_top [of pre st f fs'] r Cons by auto
  show ?thesis
  proof (cases "\<not> arr \<and> (\<exists>vs. fr_body f = Arr vs)")
    case True
    then obtain vs where vs: "fr_body f = Arr vs" and na: "\<not> arr" by blast
    have b: "int (length fs) \<le> 2 * lv + 1" using room_length [of fs lv] lo Cons rm na lv(1) by simp
    then have small: "Suc (length fs') < MAX_DEPTH" using lv(2) Cons by (simp add: MAX_DEPTH_def)
    have lo': "levels_ok (\<lparr>fr_lv = lv, fr_key = None, fr_body = Obj []\<rparr> # f # fs')"
      using lo s vs b lv(1) Cons by (cases fs') (auto simp: stable_top_def)
    have tk: "jc_close (rs_jstack st ! length fs') = CHR '']''" "jc_has_child (rs_jstack st ! length fs') = (vs \<noteq> [])"
      using top(2) vs by (simp_all add: frame_ok_def)
    have tx: "stack_text (\<lparr>fr_lv = lv, fr_key = None, fr_body = Obj []\<rparr> # f # fs') =
      stack_text (f # fs') @ lead (length fs') (vs \<noteq> []) @ ''{''"
      using vs by (simp add: key_text_def)
    have fk: "frame_ok False ((rs_jstack st ! length fs')\<lparr>jc_has_child := True\<rparr>) f"
      using top(2) vs by (simp add: frame_ok_def)
    define w where "w = (rs_jstack st ! Suc (length fs'))\<lparr>jc_lv := lv, jc_child_lv := lv, jc_close := CHR ''}'', jc_has_child := False\<rparr>"
    define js where "js = (rs_jstack st)[Suc (length fs') := w, length fs' := (rs_jstack st ! length fs')\<lparr>jc_has_child := True\<rparr>]"
    define st' where "st' = st\<lparr>rs_jstack := js, rs_jdepth := Suc (Suc (length fs')),
      rs_out := Some (pre @ stack_text (\<lparr>fr_lv = lv, fr_key = None, fr_body = Obj []\<rparr> # f # fs'))\<rparr>"
    have "j_wrap lv arr st = Some st'"
      unfolding st'_def tx js_def w_def using na d top(1) tk out small
      by (cases "vs = []") (simp_all add: j_wrap_def Let_def fputs_def push_def stack_set_def lead_def ind_def j_write_indent_def nat_mult_distrib)
    moreover have "wrap_frame lv arr fs = \<lparr>fr_lv = lv, fr_key = None, fr_body = Obj []\<rparr> # f # fs'" using Cons vs na by simp
    moreover have "frame_ok True w \<lparr>fr_lv = lv, fr_key = None, fr_body = Obj []\<rparr>"
      using lv(1) by (simp add: frame_ok_def w_def)
    ultimately show ?thesis
      using d sk fk lo' small by (auto simp: rel_def same_output_def stack_ok_update st'_def js_def)
  next
    case False
    then have w: "wrap_frame lv arr fs = fs" using Cons by (auto split: body.splits)
    have "j_wrap lv arr st = Some st"
    proof (cases arr)
      case nar: False
      with False top(2) have "jc_close (rs_jstack st ! length fs') \<noteq> CHR '']''"
        by (auto simp: frame_ok_def NUL_def split: body.splits)
      with nar top(1) d show ?thesis by (simp add: j_wrap_def)
    qed (simp add: j_wrap_def)
    with w r show ?thesis by (simp add: same_output_def)
  qed
qed (use r in \<open>simp add: rel_def\<close>)

lemma resolve_law:
  assumes r: "rel pre st fs" and fs': "on_top (Some \<circ> resolve arr) fs = Some fs'" and lv: "0 \<le> lv"
  shows "\<exists>st'. j_resolve lv arr st = Some st' \<and> rel pre st' fs' \<and> same_output st st'"
proof -
  obtain f gs where fs: "fs = f # gs" using fs' by (cases fs) (auto simp: on_top_def)
  have fs'_eq: "fs' = f\<lparr>fr_body := resolve arr (fr_body f)\<rparr> # gs" using fs' fs by (simp add: on_top_def)
  have d: "rs_jdepth st = Suc (length gs)" "length (rs_jstack st) = MAX_DEPTH" "Suc (length gs) \<le> MAX_DEPTH" and lo: "levels_ok (f # gs)"
    and out: "rs_out st = Some (pre @ stack_text (f # gs))" and sk: "stack_ok False (rs_jstack st) gs"
    using r fs by (auto simp: rel_def)
  have top: "stack_top st = Some (rs_jstack st ! length gs)" "frame_ok True (rs_jstack st ! length gs) f"
    using rel_top [of pre st f gs] r fs by auto
  show ?thesis
  proof (cases "fr_body f = Undecided")
    case True
    then obtain g hs where gs: "gs = g # hs" using lo by (cases gs) auto
    have tx: "stack_text fs' = stack_text (f # gs) @ (if arr then ''['' else ''{'')"
      unfolding fs'_eq using True by (intro stack_text_top) simp
    have "levels_ok fs'" unfolding fs'_eq using lo gs by simp
    moreover define t where "t = (rs_jstack st ! length gs)\<lparr>jc_child_lv := lv, jc_close := (if arr then CHR '']'' else CHR ''}''), jc_has_child := False\<rparr>"
    moreover define st' where "st' = st\<lparr>rs_jstack := (rs_jstack st)[length gs := t], rs_out := Some (pre @ stack_text fs')\<rparr>"
    moreover have "j_resolve lv arr st = Some st'"
      using d top True gs out tx lv by (simp add: j_resolve_def set_top_def stack_set_def fputs_def frame_ok_def t_def st'_def)
    moreover have "frame_ok True t (f\<lparr>fr_body := resolve arr (fr_body f)\<rparr>)"
      using top(2) True lv by (simp add: frame_ok_def t_def)
    ultimately show ?thesis
      using d sk by (auto simp: rel_def same_output_def stack_ok_update fs'_eq)
  next
    case False
    then have "fs' = fs" using fs'_eq fs by (cases "fr_body f") auto
    moreover have "\<not> jc_child_lv (rs_jstack st ! length gs) < 0"
      using False top(2) by (auto simp: frame_ok_def split: body.splits)
    ultimately show ?thesis
      using r top(1) d(1) by (auto simp: j_resolve_def same_output_def)
  qed
qed

text \<open>The state behind \<open>j_prelude\<close>: the comma and the indentation of the child are written.\<close>

definition led :: "string \<Rightarrow> res_state \<Rightarrow> frame list \<Rightarrow> bool" where
  "led pre st fs \<longleftrightarrow> levels_ok fs \<and> fr_body (hd fs) \<noteq> Undecided \<and> rs_jdepth st = length fs \<and> length (rs_jstack st) = MAX_DEPTH \<and>
     length fs \<le> MAX_DEPTH \<and> rs_out st = Some (pre @ stack_text fs @ lead (length fs - 1) (\<not> body_empty (fr_body (hd fs)))) \<and>
     stack_ok False (rs_jstack st) fs"

lemma lead_law:
  assumes r: "rel pre st fs" and u: "fr_body (hd fs) \<noteq> Undecided"
  shows "\<exists>st'. do {
     parent \<leftarrow> stack_top st;
     st \<leftarrow> (if jc_has_child parent then fputs '','' st else Some st);
     st \<leftarrow> fputs (NL # j_write_indent (2 * (int (rs_jdepth st) - 1))) st;
     set_top (\<lambda>t. t\<lparr>jc_has_child := True\<rparr>) st } = Some st' \<and> led pre st' fs \<and> same_output st st'"
proof -
  obtain f gs where fs: "fs = f # gs" using r by (cases fs) (auto simp: rel_def)
  have d: "rs_jdepth st = Suc (length gs)" "length (rs_jstack st) = MAX_DEPTH" "Suc (length gs) \<le> MAX_DEPTH" "levels_ok fs"
    and out: "rs_out st = Some (pre @ stack_text fs)" and sk: "stack_ok False (rs_jstack st) gs"
    using r fs by (auto simp: rel_def)
  have top: "stack_top st = Some (rs_jstack st ! length gs)" "frame_ok True (rs_jstack st ! length gs) f"
    using rel_top [of pre st f gs] r fs by auto
  define t where "t = (rs_jstack st ! length gs)\<lparr>jc_has_child := True\<rparr>"
  define st' where "st' = st\<lparr>rs_jstack := (rs_jstack st)[length gs := t],
    rs_out := Some (pre @ stack_text fs @ lead (length gs) (\<not> body_empty (fr_body f)))\<rparr>"
  have hc: "jc_has_child (rs_jstack st ! length gs) = (\<not> body_empty (fr_body f))"
    using top(2) u fs by (auto simp: frame_ok_def split: body.splits)
  have "frame_ok False t f" using top(2) u fs by (auto simp: frame_ok_def t_def split: body.splits)
  then have "led pre st' fs" "same_output st st'"
    using d sk u fs by (auto simp: led_def same_output_def st'_def stack_ok_update)
  moreover have "(do {
     parent \<leftarrow> stack_top st;
     st \<leftarrow> (if jc_has_child parent then fputs '','' st else Some st);
     st \<leftarrow> fputs (NL # j_write_indent (2 * (int (rs_jdepth st) - 1))) st;
     set_top (\<lambda>t. t\<lparr>jc_has_child := True\<rparr>) st }) = Some st'"
    using top(1) hc d(1-3) out
    by (simp add: st'_def t_def fputs_def set_top_def stack_set_def lead_def ind_def j_write_indent_def nat_mult_distrib)
  ultimately show ?thesis by blast
qed

text \<open>The containers in which the child of a call is put.\<close>

definition tree_prelude :: "int \<Rightarrow> bool \<Rightarrow> frame list \<Rightarrow> frame list option" where
  "tree_prelude lv arr fs = do {
     let min_close = (if arr then lv + 1 else lv);
     fs \<leftarrow> pop_frames (\<lambda>f. fr_lv f < min_close) fs;
     on_top (Some \<circ> resolve arr) (wrap_frame lv arr fs) }"

lemma tree_prelude_top:
  assumes "tree_prelude lv arr fs = Some fs'" "levels_ok fs'"
  shows "fr_body (hd fs') \<noteq> Undecided" "\<not> arr \<Longrightarrow> \<exists>ms. fr_body (hd fs') = Obj ms"
proof -
  from assms(1) obtain gs where g: "on_top (Some \<circ> resolve arr) (wrap_frame lv arr gs) = Some fs'"
    by (auto simp: tree_prelude_def Option.bind_eq_Some_conv Let_def)
  then obtain f hs where w: "wrap_frame lv arr gs = f # hs" "fs' = f\<lparr>fr_body := resolve arr (fr_body f)\<rparr> # hs"
    by (auto simp: on_top_def split: list.splits)
  show "fr_body (hd fs') \<noteq> Undecided" using w(2) by (cases "fr_body f") auto
  assume "\<not> arr"
  with w show "\<exists>ms. fr_body (hd fs') = Obj ms"
    by (cases gs; cases "fr_body f") (auto split: body.splits)
qed

lemma prelude_law:
  assumes r: "rel pre st fs" and s: "stable_top fs" and t: "tree_prelude lv arr fs = Some fs'" and lv: "0 \<le> lv" "lv \<le> 14"
  shows "\<exists>st'. j_prelude lv arr st = Some st' \<and> led pre st' fs' \<and> same_output st st' \<and> (\<not> arr \<longrightarrow> int (length fs') \<le> 2 * lv + 2)"
proof -
  let ?m = "if arr then lv + 1 else lv"
  obtain fs1 where f1: "pop_frames (\<lambda>f. fr_lv f < ?m) fs = Some fs1" "on_top (Some \<circ> resolve arr) (wrap_frame lv arr fs1) = Some fs'"
    using t by (auto simp: tree_prelude_def Option.bind_eq_Some_conv Let_def)
  obtain st1 where st1: "close_loop (\<lambda>t. jc_lv t < ?m) st = Some st1" "rel pre st1 fs1" "stable_top fs1" "same_output st st1"
    "length fs1 = 1 \<or> fr_lv (hd fs1) < ?m"
    using close_loop_law [OF r s f1(1), of "\<lambda>t. jc_lv t < ?m"] by auto
  have rm: "room lv fs1" if "\<not> arr" using st1(5) that by (auto simp: room_def)
  obtain st2 where st2: "j_wrap lv arr st1 = Some st2" "rel pre st2 (wrap_frame lv arr fs1)" "same_output st1 st2"
    using wrap_law [OF st1(2,3) rm lv] by blast
  obtain st3 where st3: "j_resolve lv arr st2 = Some st3" "rel pre st3 fs'" "same_output st2 st3"
    using resolve_law [OF st2(2) f1(2) lv(1)] by blast
  have u: "fr_body (hd fs') \<noteq> Undecided" using tree_prelude_top(1) [OF t] st3(2) by (simp add: rel_def)
  have "levels_ok fs1" using st1(2) by (simp add: rel_def)
  then have "int (length fs') \<le> 2 * lv + 2" if "\<not> arr"
    using room_length [OF _ rm [OF that] lv(1)] f1(2) by (cases fs1) (auto simp: on_top_def split: body.splits if_splits)
  with lead_law [OF st3(2) u] st1(1,4) st2(1,3) st3(1,3) show ?thesis
    unfolding j_prelude_def Let_def by (auto intro: same_output_trans)
qed

lemma led_open:
  assumes l: "led pre st fs" and o: "\<exists>ms. fr_body (hd fs) = Obj ms" and lv: "0 \<le> lv" "lv \<le> 14" "int (length fs) \<le> 2 * lv + 2"
  shows "\<exists>st'. do { st \<leftarrow> fputs (quoted k @ '':'') st; if MAX_DEPTH \<le> rs_jdepth st then Some st else push lv (-1) NUL st } = Some st' \<and>
    rel pre st' (\<lparr>fr_lv = lv, fr_key = Some k, fr_body = Undecided\<rparr> # fs) \<and> same_output st st'"
proof -
  obtain f gs where fs: "fs = f # gs" using l by (cases fs) (auto simp: led_def)
  have d: "rs_jdepth st = length fs" "length (rs_jstack st) = MAX_DEPTH" "levels_ok fs" and sk: "stack_ok False (rs_jstack st) fs"
    and out: "rs_out st = Some (pre @ stack_text fs @ lead (length gs) (\<not> body_empty (fr_body f)))"
    using l fs by (auto simp: led_def)
  have small: "length fs < MAX_DEPTH" using lv(2,3) by (simp add: MAX_DEPTH_def)
  let ?n = "\<lparr>fr_lv = lv, fr_key = Some k, fr_body = Undecided\<rparr>"
  define t where "t = (rs_jstack st ! length fs)\<lparr>jc_lv := lv, jc_child_lv := -1, jc_close := NUL, jc_has_child := False\<rparr>"
  define st' where "st' = st\<lparr>rs_jstack := (rs_jstack st)[length fs := t], rs_jdepth := Suc (length fs), rs_out := Some (pre @ stack_text (?n # fs))\<rparr>"
  have "do { st \<leftarrow> fputs (quoted k @ '':'') st; if MAX_DEPTH \<le> rs_jdepth st then Some st else push lv (-1) NUL st } = Some st'"
    using d out small fs by (simp add: fputs_def push_def stack_set_def st'_def t_def key_text_def)
  moreover have "frame_ok True t ?n" by (simp add: frame_ok_def t_def)
  then have "rel pre st' (?n # fs)"
    using d sk small lv o fs by (auto simp: rel_def st'_def intro: stack_ok_update)
  moreover have "same_output st st'" by (simp add: same_output_def st'_def)
  ultimately show ?thesis by blast
qed

lemma led_leaf:
  assumes l: "led pre st fs" and b: "on_top (add_child key (JStr v)) fs = Some fs'"
  shows "\<exists>st'. do { st \<leftarrow> (case key of Some k \<Rightarrow> fputs (quoted k @ '':'') st | None \<Rightarrow> Some st); fputs (quoted v) st } = Some st' \<and>
    rel pre st' fs' \<and> stable_top fs' \<and> same_output st st'"
proof -
  obtain f gs where fs: "fs = f # gs" using l by (cases fs) (auto simp: led_def)
  obtain bd where bd: "add_child key (JStr v) (fr_body f) = Some bd" "fs' = f\<lparr>fr_body := bd\<rparr> # gs"
    using b fs by (auto simp: on_top_def)
  have d: "rs_jdepth st = Suc (length gs)" "length (rs_jstack st) = MAX_DEPTH" "levels_ok (f # gs)" "Suc (length gs) \<le> MAX_DEPTH"
    and sk: "stack_ok False (rs_jstack st) gs" "frame_ok False (rs_jstack st ! length gs) f"
    and out: "rs_out st = Some (pre @ stack_text fs @ lead (length gs) (\<not> body_empty (fr_body f)))"
    using l fs by (auto simp: led_def)
  have tx: "stack_text fs' = stack_text fs @ lead (length gs) (\<not> body_empty (fr_body f)) @ key_text key @ quoted v" and ne: "\<not> body_empty bd"
    unfolding bd(2) fs using add_child_text [OF bd(1), of "length gs"] by (auto intro: stack_text_top)
  define st' where "st' = st\<lparr>rs_out := Some (pre @ stack_text fs')\<rparr>"
  have "do { st \<leftarrow> (case key of Some k \<Rightarrow> fputs (quoted k @ '':'') st | None \<Rightarrow> Some st); fputs (quoted v) st } = Some st'"
    using out tx by (auto simp: fputs_def st'_def key_text_def split: option.splits)
  moreover have "frame_ok True (rs_jstack st ! length gs) (f\<lparr>fr_body := bd\<rparr>)"
    using sk(2) ne bd(1) by (cases "(key, JStr v, fr_body f)" rule: add_child.cases) (auto simp: frame_ok_def)
  moreover have "levels_ok fs'" unfolding bd(2) using d(3) ne by (cases gs) auto
  ultimately show ?thesis
    using d sk ne bd(2) by (auto simp: rel_def same_output_def stable_top_def st'_def)
qed

lemma j_emit_law:
  assumes r: "rel pre st fs" and s: "stable_top fs" and t: "tree_put (lv, key, val) fs = Some fs'" and lv: "0 \<le> lv" "lv \<le> 14"
  shows "\<exists>st'. j_emit lv key val st = Some st' \<and> rel pre st' fs' \<and> stable_top fs' \<and> same_output st st'"
proof -
  let ?arr = "key = None"
  obtain fs1 where f1: "tree_prelude lv ?arr fs = Some fs1"
    and f2: "(case val of Some v \<Rightarrow> on_top (add_child key (JStr v)) fs1
      | None \<Rightarrow> if ?arr then None else Some (\<lparr>fr_lv = lv, fr_key = key, fr_body = Undecided\<rparr> # fs1)) = Some fs'"
    using t by (auto simp: tree_put_def tree_prelude_def Option.bind_eq_Some_conv Let_def)
  obtain st1 where st1: "j_prelude lv ?arr st = Some st1" "led pre st1 fs1" "same_output st st1" "\<not> ?arr \<longrightarrow> int (length fs1) \<le> 2 * lv + 2"
    using prelude_law [OF r s f1 lv] by blast
  show ?thesis
  proof (cases val)
    case None
    then obtain k where k: "key = Some k" "fs' = \<lparr>fr_lv = lv, fr_key = Some k, fr_body = Undecided\<rparr> # fs1"
      using f2 by (auto split: if_splits)
    have "levels_ok fs1" using st1(2) by (simp add: led_def)
    from led_open [OF st1(2) tree_prelude_top(2) [OF f1 this] lv, of k] st1 k None show ?thesis
      by (auto simp: j_emit_def stable_top_def intro: same_output_trans)
  next
    case (Some v)
    with f2 have "on_top (add_child key (JStr v)) fs1 = Some fs'" by simp
    from led_leaf [OF st1(2) this] st1 Some show ?thesis
      by (cases key) (auto simp: j_emit_def intro: same_output_trans)
  qed
qed

section \<open>Whole outputs\<close>

text \<open>The calls of a dump, as \<open>vsnprintf\<close> with the line buffer passes them on.\<close>

type_synonym call = "int \<times> string option \<times> string option"

definition cut :: "call \<Rightarrow> call" where
  "cut c = (case c of (lv, key, fmt) \<Rightarrow> (lv, key, map_option (snprintf LINE_LEN) fmt))"

definition put_call :: "alloc_env \<Rightarrow> call \<Rightarrow> res_state \<Rightarrow> res_state option" where
  "put_call e c st = (case c of (lv, key, fmt) \<Rightarrow> res_put e lv key fmt st)"

definition root_frame :: "bool \<Rightarrow> frame list" where
  "root_frame html = [\<lparr>fr_lv = -1, fr_key = None, fr_body = (if html then Arr [] else Obj [])\<rparr>]"

definition tree_step :: "call \<Rightarrow> frame list \<Rightarrow> frame list option" where
  "tree_step c fs = (if 0 \<le> fst c \<and> fst c \<le> 14 then tree_put (cut c) fs else None)"

text \<open>The kind of the root.\<close>

definition root_kind :: "bool \<Rightarrow> frame list \<Rightarrow> bool" where
  "root_kind html fs \<longleftrightarrow> (case fr_body (last fs) of Arr _ \<Rightarrow> html | Obj _ \<Rightarrow> \<not> html | Undecided \<Rightarrow> False)"

lemma root_kind_body: "root_kind html [f\<lparr>fr_body := b\<rparr>] \<longleftrightarrow> (case b of Arr _ \<Rightarrow> html | Obj _ \<Rightarrow> \<not> html | Undecided \<Rightarrow> False)"
  "root_kind html (f # g # fs) \<longleftrightarrow> root_kind html (g # fs)"
  by (simp_all add: root_kind_def)

lemma root_kind_add: "\<lbrakk>root_kind html (g # fs); add_child k v (fr_body g) = Some b\<rbrakk> \<Longrightarrow> root_kind html (g\<lparr>fr_body := b\<rparr> # fs)"
  by (cases fs; cases "(k, v, fr_body g)" rule: add_child.cases) (auto simp: root_kind_def)

lemma pop_frames_kind: "\<lbrakk>pop_frames stop fs = Some fs'; root_kind html fs\<rbrakk> \<Longrightarrow> root_kind html fs'"
proof (induction stop fs rule: pop_frames.induct)
  case (1 stop f g fs)
  then show ?case
    by (auto simp: root_kind_body(2) Option.bind_eq_Some_conv split: if_splits intro: root_kind_add)
qed auto

lemma wrap_frame_kind: "root_kind html fs \<Longrightarrow> root_kind html (wrap_frame lv arr fs)"
  by (cases fs) (auto simp: root_kind_def split: body.splits)

lemma on_top_kind:
  "\<lbrakk>on_top (Some \<circ> resolve arr) fs = Some fs'; root_kind html fs\<rbrakk> \<Longrightarrow> root_kind html fs' \<and> fs' \<noteq> []"
  "\<lbrakk>on_top (add_child k v) fs = Some fs'; root_kind html fs\<rbrakk> \<Longrightarrow> root_kind html fs'"
proof -
  assume f: "on_top (Some \<circ> resolve arr) fs = Some fs'" "root_kind html fs"
  then obtain f gs where "fs = f # gs" "fs' = f\<lparr>fr_body := resolve arr (fr_body f)\<rparr> # gs"
    by (auto simp: on_top_def split: list.splits)
  with f(2) show "root_kind html fs' \<and> fs' \<noteq> []"
    by (cases gs; cases "fr_body f") (auto simp: root_kind_def)
next
  assume f: "on_top (add_child k v) fs = Some fs'" "root_kind html fs"
  then show "root_kind html fs'"
    by (auto simp: on_top_def split: list.splits intro: root_kind_add)
qed

lemma tree_put_kind: "\<lbrakk>tree_put c fs = Some fs'; root_kind html fs\<rbrakk> \<Longrightarrow> root_kind html fs'"
proof -
  assume t: "tree_put c fs = Some fs'" and k: "root_kind html fs"
  obtain lv key val where c: "c = (lv, key, val)" by (cases c)
  obtain fs1 fs2 where f: "pop_frames (\<lambda>f. fr_lv f < (if key = None then lv + 1 else lv)) fs = Some fs1"
    "on_top (Some \<circ> resolve (key = None)) (wrap_frame lv (key = None) fs1) = Some fs2"
    "(case val of Some v \<Rightarrow> on_top (add_child key (JStr v)) fs2
      | None \<Rightarrow> if key = None then None else Some (\<lparr>fr_lv = lv, fr_key = key, fr_body = Undecided\<rparr> # fs2)) = Some fs'"
    using t c by (auto simp: tree_put_def Option.bind_eq_Some_conv Let_def)
  have k2: "root_kind html fs2" "fs2 \<noteq> []"
    using on_top_kind(1) [OF f(2) wrap_frame_kind [OF pop_frames_kind [OF f(1) k]]] by auto
  show "root_kind html fs'"
  proof (cases val)
    case None
    with f(3) k2 show ?thesis by (cases fs2) (auto simp: root_kind_body(2) split: if_splits)
  next
    case (Some v)
    with f(3) on_top_kind(2) [of key "JStr v" fs2 fs'] k2(1) show ?thesis by auto
  qed
qed

definition in_tree :: "string \<Rightarrow> bool \<Rightarrow> res_state \<Rightarrow> frame list \<Rightarrow> bool" where
  "in_tree pre html st fs \<longleftrightarrow> rel pre st fs \<and> stable_top fs \<and> root_kind html fs \<and> rs_outtype st = (if html then RES_HTML else RES_JSON) \<and>
     rs_root_close st = (if html then CHR '']'' else CHR ''}'')"

lemma hier_types: "RES_JSON \<noteq> RES_YAML" "RES_HTML \<noteq> RES_YAML" "RES_HTML \<noteq> RES_JSON" "RES_JSON \<noteq> RES_TXT" "RES_HTML \<noteq> RES_TXT"
  by (simp_all add: RES_JSON_def RES_YAML_def RES_HTML_def RES_TXT_def)

interpretation json: simulation "in_tree pre html" "put_call e" tree_step
proof
  fix st fs c fs'
  assume r: "in_tree pre html st fs" and t: "tree_step c fs = Some fs'"
  obtain lv key fmt where c: "c = (lv, key, fmt)" by (cases c)
  have lv: "0 \<le> lv" "lv \<le> 14" and p: "tree_put (lv, key, map_option (snprintf LINE_LEN) fmt) fs = Some fs'"
    using t c by (auto simp: tree_step_def cut_def split: if_splits)
  have "\<not> (key = None \<and> fmt = None)"
    using p by (cases fmt) (auto simp: tree_put_def Let_def Option.bind_eq_Some_conv split: if_splits)
  then have "put_call e c st = j_emit lv key (map_option (snprintf LINE_LEN) fmt) st"
    using r c hier_types by (auto simp: put_call_def res_put_def is_hier_def in_tree_def)
  with j_emit_law [of pre st fs, OF _ _ p lv] tree_put_kind [OF p] r show "\<exists>st'. put_call e c st = Some st' \<and> in_tree pre html st' fs'"
    by (auto simp: in_tree_def same_output_def)
qed

lemma in_tree_open:
  "in_tree (if html then hd_text else []) html (res_open True hd_text (res_settype (if html then RES_HTML else RES_JSON) st)) (root_frame html)"
  using hier_types
  by (auto simp: in_tree_def res_open_def res_settype_def rel_def stable_top_def root_frame_def set_root_close_def
      res_init_root_def frame_ok_def root_kind_def Let_def MAX_DEPTH_def zero_jcnt_def)

text \<open>The text of a finished tree, root bracket included.\<close>

fun root_text :: "json \<Rightarrow> string" where
  "root_text (JObj ms) = ''{'' @ print_members 0 False ms @ [NL] @ ''}'' @ [NL]"
| "root_text (JArr vs) = ''['' @ print_elements 0 False vs @ [NL] @ '']'' @ [NL]"
| "root_text (JStr s) = []"

lemma hier_close_law:
  assumes r: "in_tree pre html st fs" and t: "tree_close fs = Some t"
  shows "\<exists>st'. hier_close st = Some st' \<and> rs_out st' = Some (pre @ root_text t) \<and> rs_outtype st' = rs_outtype st"
proof -
  obtain gs where gs: "pop_frames (\<lambda>_. False) fs = Some gs" "(case gs of [f] \<Rightarrow> Some (tree (fr_body f)) | _ \<Rightarrow> None) = Some t"
    using t by (auto simp: tree_close_def Option.bind_eq_Some_conv)
  then obtain f where f: "pop_frames (\<lambda>_. False) fs = Some [f]" "t = tree (fr_body f)"
    by (cases gs; cases "tl gs") auto
  obtain st1 where st1: "close_loop (\<lambda>_. False) st = Some st1" "rel pre st1 [f]" "same_output st st1"
    using close_loop_law [of pre st fs "\<lambda>_. False" "[f]" "\<lambda>_. False"] r f(1) by (auto simp: in_tree_def)
  show ?thesis
    using st1 r hier_types f(2) pop_frames_kind [OF f(1), of html]
    by (cases "fr_body f") (auto simp: hier_close_def in_tree_def fputs_def rel_def same_output_def root_kind_def split: if_splits)
qed

section \<open>JSON\<close>

text \<open>
  The grammar of JSON texts (RFC 8259), as far as strings, objects and arrays go: which text
  denotes which value.  Between the tokens there may be blanks.
\<close>

definition blank :: "string \<Rightarrow> bool" where
  "blank w \<longleftrightarrow> (\<forall>c \<in> set w. c = CHR '' '' \<or> c = NL \<or> c = CHR 0x0D \<or> c = CHR 0x09)"

inductive json_chars :: "string \<Rightarrow> string \<Rightarrow> bool" where
  chars_end: "json_chars [] []"
| chars_plain: "\<lbrakk>json_chars t s; c \<noteq> DQ; c \<noteq> BSL; (0x20 :: nat) \<le> of_char c\<rbrakk> \<Longrightarrow> json_chars (c # t) (c # s)"
| chars_quote: "json_chars t s \<Longrightarrow> json_chars (BSL # DQ # t) (DQ # s)"
| chars_backslash: "json_chars t s \<Longrightarrow> json_chars (BSL # BSL # t) (BSL # s)"
| chars_newline: "json_chars t s \<Longrightarrow> json_chars (BSL # CHR ''n'' # t) (NL # s)"
| chars_return: "json_chars t s \<Longrightarrow> json_chars (BSL # CHR ''r'' # t) (CHR 0x0D # s)"
| chars_tab: "json_chars t s \<Longrightarrow> json_chars (BSL # CHR ''t'' # t) (CHR 0x09 # s)"
| chars_code: "\<lbrakk>json_chars t s; a < 16; b < 16; a * 16 + b < 128\<rbrakk> \<Longrightarrow>
    json_chars (BSL # CHR ''u'' # CHR ''0'' # CHR ''0'' # hex_digit a # hex_digit b # t) (char_of (a * 16 + b :: nat) # s)"

inductive json_value :: "string \<Rightarrow> json \<Rightarrow> bool"
  and json_members :: "string \<Rightarrow> (string \<times> json) list \<Rightarrow> bool"
  and json_elements :: "string \<Rightarrow> json list \<Rightarrow> bool" where
  val_str: "json_chars t s \<Longrightarrow> json_value (DQ # t @ [DQ]) (JStr s)"
| val_obj_empty: "blank w \<Longrightarrow> json_value (''{'' @ w @ ''}'') (JObj [])"
| val_obj: "json_members t ms \<Longrightarrow> json_value (''{'' @ t @ ''}'') (JObj ms)"
| val_arr_empty: "blank w \<Longrightarrow> json_value (''['' @ w @ '']'') (JArr [])"
| val_arr: "json_elements t vs \<Longrightarrow> json_value (''['' @ t @ '']'') (JArr vs)"
| one_member: "\<lbrakk>blank w1; json_chars t k; blank w2; blank w3; json_value u v; blank w4\<rbrakk> \<Longrightarrow>
    json_members (w1 @ DQ # t @ DQ # w2 @ '':'' @ w3 @ u @ w4) [(k, v)]"
| more_members: "\<lbrakk>json_members t [m]; json_members u ms\<rbrakk> \<Longrightarrow> json_members (t @ '','' @ u) (m # ms)"
| one_element: "\<lbrakk>blank w1; json_value u v; blank w2\<rbrakk> \<Longrightarrow> json_elements (w1 @ u @ w2) [v]"
| more_elements: "\<lbrakk>json_elements t [v]; json_elements u vs\<rbrakk> \<Longrightarrow> json_elements (t @ '','' @ u) (v # vs)"

definition json_text :: "string \<Rightarrow> json \<Rightarrow> bool" where
  "json_text t v \<longleftrightarrow> (\<exists>w1 u w2. t = w1 @ u @ w2 \<and> blank w1 \<and> blank w2 \<and> json_value u v)"

text \<open>The value of a tree of C strings.\<close>

fun json_of :: "json \<Rightarrow> json" where
  "json_of (JStr s) = JStr (c_str s)"
| "json_of (JObj ms) = JObj (map (\<lambda>(k, v). (c_str k, json_of v)) ms)"
| "json_of (JArr vs) = JArr (map json_of vs)"

lemma blank_simps [simp]: "blank []" "blank (ind d)" "blank [NL]"
  by (auto simp: blank_def ind_def)

lemma esc_char_json:
  assumes "json_chars t s"
  shows "json_chars (esc_char c @ t) (c # s)"
proof -
  have code: "json_chars (BSL # CHR ''u'' # CHR ''0'' # CHR ''0'' # hex_digit (of_char c div 16) # hex_digit (of_char c mod 16) # t) (c # s)"
    if "of_char c < (0x20 :: nat)"
  proof -
    have "of_char c div 16 * 16 + of_char c mod 16 = (of_char c :: nat)" by simp
    then have "char_of (of_char c div 16 * 16 + of_char c mod 16 :: nat) = c" by simp
    moreover have "json_chars (BSL # CHR ''u'' # CHR ''0'' # CHR ''0'' # hex_digit (of_char c div 16) # hex_digit (of_char c mod 16) # t)
      (char_of (of_char c div 16 * 16 + of_char c mod 16 :: nat) # s)"
      using that by (intro chars_code assms) auto
    ultimately show ?thesis by simp
  qed
  consider "c = DQ" | "c \<noteq> DQ" "c = BSL" | "c \<noteq> DQ" "c \<noteq> BSL" "c = NL" | "c \<noteq> DQ" "c \<noteq> BSL" "c \<noteq> NL" "c = CHR 0x0D"
    | "c \<noteq> DQ" "c \<noteq> BSL" "c \<noteq> NL" "c \<noteq> CHR 0x0D" "c = CHR 0x09"
    | "c \<noteq> DQ" "c \<noteq> BSL" "c \<noteq> NL" "c \<noteq> CHR 0x0D" "c \<noteq> CHR 0x09" by blast
  then show ?thesis
    by cases (simp_all add: esc_char_def assms chars_quote chars_backslash chars_newline chars_return chars_tab chars_plain code)
qed

lemma escaped_json: "json_chars (j_write_escaped s) (c_str s)"
proof -
  have "json_chars (concat (map esc_char t)) t" for t
    by (induction t) (auto intro: esc_char_json chars_end)
  then show ?thesis by (simp add: j_write_escaped_def)
qed

lemma quoted_json: "json_value (quoted s) (JStr (c_str s))"
  unfolding quoted_def by (rule val_str [OF escaped_json])

lemma print_members_True: "ms \<noteq> [] \<Longrightarrow> print_members d True ms = '','' @ print_members d False ms"
  by (cases ms) auto

lemma print_elements_True: "vs \<noteq> [] \<Longrightarrow> print_elements d True vs = '','' @ print_elements d False vs"
  by (cases vs) auto

text \<open>A value, with blanks before it.\<close>

definition json_after :: "string \<Rightarrow> json \<Rightarrow> bool" where
  "json_after t v \<longleftrightarrow> (\<exists>w u. t = w @ u \<and> blank w \<and> json_value u v)"

lemma json_afterI: "json_value u v \<Longrightarrow> json_after u v"
  unfolding json_after_def by (rule exI [of _ "[]"]) simp

lemma member_json:
  assumes "json_after u v" "blank w1" "blank w"
  shows "json_members (w1 @ quoted k @ '':'' @ u @ w) [(c_str k, v)]"
proof -
  obtain w3 u' where u: "u = w3 @ u'" "blank w3" "json_value u' v" using assms(1) by (auto simp: json_after_def)
  have "json_members (w1 @ DQ # j_write_escaped k @ DQ # [] @ '':'' @ w3 @ u' @ w) [(c_str k, v)]"
    by (rule one_member [OF assms(2) escaped_json _ u(2,3) assms(3)]) simp
  then show ?thesis by (simp add: quoted_def u(1))
qed

lemma element_json:
  assumes "json_after u v" "blank w1" "blank w"
  shows "json_elements (w1 @ u @ w) [v]"
proof -
  obtain w3 u' where u: "u = w3 @ u'" "blank w3" "json_value u' v" using assms(1) by (auto simp: json_after_def)
  have "blank (w1 @ w3)" using assms(2) u(2) by (auto simp: blank_def)
  from one_element [OF this u(3) assms(3)] show ?thesis by (simp add: u(1))
qed

lemma print_members_json:
  assumes "\<And>k v. (k, v) \<in> set ms \<Longrightarrow> json_after (print_json (Suc d) v) (json_of v)" "ms \<noteq> []" "blank w"
  shows "json_members (print_members d False ms @ w) (map (\<lambda>(k, v). (c_str k, json_of v)) ms)"
  using assms(1,2)
proof (induction ms)
  case (Cons m ms)
  obtain k v where m: "m = (k, v)" by (cases m)
  have v: "json_after (print_json (Suc d) v) (json_of v)" using Cons.prems(1) m by auto
  show ?case
  proof (cases "ms = []")
    case True
    with member_json [OF v blank_simps(2) assms(3), of d k] m show ?thesis by (simp add: ind_def)
  next
    case False
    with Cons have IH: "json_members (print_members d False ms @ w) (map (\<lambda>(k, v). (c_str k, json_of v)) ms)" by auto
    have "json_members ((ind d @ quoted k @ '':'' @ print_json (Suc d) v @ []) @ '','' @ print_members d False ms @ w)
      ((c_str k, json_of v) # map (\<lambda>(k, v). (c_str k, json_of v)) ms)"
      by (rule more_members [OF member_json [OF v blank_simps(2) blank_simps(1)] IH])
    with m show ?thesis by (simp add: ind_def print_members_True [OF False])
  qed
qed simp

lemma print_elements_json:
  assumes "\<And>v. v \<in> set vs \<Longrightarrow> json_after (print_json (Suc d) v) (json_of v)" "vs \<noteq> []" "blank w"
  shows "json_elements (print_elements d False vs @ w) (map json_of vs)"
  using assms(1,2)
proof (induction vs)
  case (Cons v vs)
  have v: "json_after (print_json (Suc d) v) (json_of v)" using Cons.prems(1) by simp
  show ?case
  proof (cases "vs = []")
    case True
    with element_json [OF v blank_simps(2) assms(3), of d] show ?thesis by (simp add: ind_def)
  next
    case False
    with Cons have IH: "json_elements (print_elements d False vs @ w) (map json_of vs)" by auto
    have "json_elements ((ind d @ print_json (Suc d) v @ []) @ '','' @ print_elements d False vs @ w) (json_of v # map json_of vs)"
      by (rule more_elements [OF element_json [OF v blank_simps(2) blank_simps(1)] IH])
    then show ?thesis by (simp add: ind_def print_elements_True [OF False])
  qed
qed simp

lemma print_obj_json:
  assumes "\<And>k v. (k, v) \<in> set ms \<Longrightarrow> json_after (print_json (Suc d) v) (json_of v)" "blank w"
  shows "json_value (''{'' @ print_members d False ms @ w @ ''}'') (json_of (JObj ms))"
proof (cases "ms = []")
  case False
  from val_obj [OF print_members_json [OF assms(1) False assms(2)]] show ?thesis by simp
qed (use val_obj_empty [OF assms(2)] in simp)

lemma print_arr_json:
  assumes "\<And>v. v \<in> set vs \<Longrightarrow> json_after (print_json (Suc d) v) (json_of v)" "blank w"
  shows "json_value (''['' @ print_elements d False vs @ w @ '']'') (json_of (JArr vs))"
proof (cases "vs = []")
  case False
  from val_arr [OF print_elements_json [OF assms(1) False assms(2)]] show ?thesis by simp
qed (use val_arr_empty [OF assms(2)] in simp)

lemma print_json_value: "json_after (print_json d v) (json_of v)"
proof (induction v arbitrary: d)
  case (JStr s)
  then show ?case using json_afterI [OF quoted_json] by simp
next
  case (JObj ms)
  have "json_value (''{'' @ print_members d False ms @ ind d @ ''}'') (json_of (JObj ms))"
    using JObj by (intro print_obj_json) (auto simp: prod_set_simps snds.simps)
  then show ?case using json_afterI by (simp add: ind_def)
next
  case (JArr vs)
  show ?case
  proof (cases "vs = []")
    case True
    have "json_value (''['' @ [] @ '']'') (JArr [])" by (rule val_arr_empty) simp
    then have "json_after (ind d @ ''[]'') (JArr [])" unfolding json_after_def by fastforce
    then show ?thesis by (simp add: True ind_def)
  next
    case False
    have "json_value (''['' @ print_elements d False vs @ ind d @ '']'') (json_of (JArr vs))"
      using JArr by (intro print_arr_json) auto
    then show ?thesis using json_afterI False by (simp add: ind_def)
  qed
qed

lemma pop_frames_total:
  "levels_ok fs \<Longrightarrow> \<exists>fs'. pop_frames stop fs = Some fs' \<and> levels_ok fs' \<and> (length fs' = 1 \<or> stop (hd fs'))"
proof (induction stop fs rule: pop_frames.induct)
  case (1 stop f g fs)
  obtain b where b: "add_child (fr_key f) (tree (fr_body f)) (fr_body g) = Some b" "\<not> body_empty b"
    using 1(2) by (cases "fr_body g"; cases "fr_key f") auto
  have "levels_ok (g\<lparr>fr_body := b\<rparr> # fs)" using 1(2) b(2) by (cases fs) auto
  with 1 b(1) show ?case by auto
qed auto

lemma tree_close_total: "levels_ok fs \<Longrightarrow> \<exists>t. tree_close fs = Some t"
proof -
  assume "levels_ok fs"
  from pop_frames_total [OF this, of "\<lambda>_. False"] obtain f where "pop_frames (\<lambda>_. False) fs = Some [f]"
    by (auto simp: length_Suc_conv)
  then show ?thesis by (simp add: tree_close_def)
qed

lemma json_textI: "json_value u v \<Longrightarrow> json_text (u @ [NL]) v"
  unfolding json_text_def by (rule exI [of _ "[]"], rule exI [of _ u], rule exI [of _ "[NL]"]) simp

lemma root_text_json: "root_kind html [f] \<Longrightarrow> json_text (root_text (tree (fr_body f))) (json_of (tree (fr_body f)))"
proof (cases "fr_body f")
  case (Obj ms)
  have "json_value (''{'' @ print_members 0 False ms @ [NL] @ ''}'') (json_of (JObj ms))"
    by (rule print_obj_json) (simp_all add: print_json_value)
  from json_textI [OF this] show ?thesis using Obj by simp
next
  case (Arr vs)
  have "json_value (''['' @ print_elements 0 False vs @ [NL] @ '']'') (json_of (JArr vs))"
    by (rule print_arr_json) (simp_all add: print_json_value)
  from json_textI [OF this] show ?thesis using Arr by simp
qed (simp add: root_kind_def)

lemma tree_close_json:
  assumes "tree_close fs = Some t" "root_kind html fs"
  shows "json_text (root_text t) (json_of t)"
proof -
  obtain gs where gs: "pop_frames (\<lambda>_. False) fs = Some gs" "(case gs of [f] \<Rightarrow> Some (tree (fr_body f)) | _ \<Rightarrow> None) = Some t"
    using assms(1) by (auto simp: tree_close_def Option.bind_eq_Some_conv)
  then obtain f where f: "gs = [f]" "t = tree (fr_body f)" by (cases gs; cases "tl gs") auto
  with root_text_json pop_frames_kind [OF gs(1) assms(2)] show ?thesis by auto
qed

text \<open>The end of an output.\<close>

lemma res_close_law:
  assumes r: "in_tree pre html st fs"
  shows "\<exists>st' t. res_close e html_foot st = Some st' \<and> tree_close fs = Some t \<and>
    rs_out st' = Some (pre @ root_text t @ (if html then html_foot else [])) \<and> json_text (root_text t) (json_of t)"
proof -
  obtain t where t: "tree_close fs = Some t"
    using tree_close_total [of fs] r by (auto simp: in_tree_def rel_def)
  obtain st2 where st2: "hier_close st = Some st2" "rs_out st2 = Some (pre @ root_text t)" "rs_outtype st2 = rs_outtype st"
    using hier_close_law [OF r t] by blast
  have ty: "rs_outtype st = (if html then RES_HTML else RES_JSON)" using r by (simp add: in_tree_def)
  have "\<exists>st3. res_close e html_foot st = Some st3 \<and> rs_out st3 = Some (pre @ root_text t @ (if html then html_foot else []))"
    using st2 ty hier_types by (auto simp: res_close_def res_put_def is_hier_def fputs_def)
  with t tree_close_json [OF t, of html] r show ?thesis by (auto simp: in_tree_def)
qed

section \<open>Properties of the output\<close>


definition pat_calls :: "call list" where
  "pat_calls = [(0, Some ''PAT'', None), (1, Some ''section_length'', Some ''13''), (1, Some ''programs'', None),
     (1, None, Some ''1 @ 0x20''), (1, None, Some ''2 @ 0x21''), (0, Some ''CAT'', None)]"


end
