(* ===== verification/Wire.thy ===== *)
theory Wire
  imports Ts_Prelude
begin

unbundle bit_operations_syntax

text \<open>
  Numbers as they stand on the wire, most significant byte first, and what the bit readers of
  \<^verbatim>\<open>include/ts.h\<close> read from them.
\<close>

section \<open>Numbers and bit fields on the wire\<close>

definition be32 :: "nat \<Rightarrow> bytes" where
  "be32 v = [of_nat (drop_bit 24 v), of_nat (drop_bit 16 v), of_nat (drop_bit 8 v), of_nat v]"

lemma length_be32 [simp]: "length (be32 v) = 4"
  by (simp add: be32_def)

lemma READ32_be32: "TS_READ32 (be32 v @ r) = Some (of_nat v)"
proof -
  have "push_bit 24 (ucast (of_nat (drop_bit 24 v) :: u8)) OR push_bit 16 (ucast (of_nat (drop_bit 16 v) :: u8)) OR
    push_bit 8 (ucast (of_nat (drop_bit 8 v) :: u8)) OR ucast (of_nat v :: u8) = (of_nat v :: u32)"
  proof (rule bit_word_eqI)
    fix i assume "i < LENGTH(32)"
    then have "i < 8 \<or> 8 \<le> i \<and> i < 16 \<or> 16 \<le> i \<and> i < 24 \<or> 24 \<le> i \<and> i < 32" by auto
    then show "bit (push_bit 24 (ucast (of_nat (drop_bit 24 v) :: u8)) OR push_bit 16 (ucast (of_nat (drop_bit 16 v) :: u8)) OR
      push_bit 8 (ucast (of_nat (drop_bit 8 v) :: u8)) OR ucast (of_nat v :: u8) :: u32) i = bit (of_nat v :: u32) i"
      by (auto simp: bit_or_iff bit_push_bit_iff bit_ucast_iff bit_of_nat_iff bit_drop_bit_eq)
  qed
  then show ?thesis by (simp add: be32_def TS_READ32_def)
qed

lemma bits_at_of_nat:
  assumes "off + n \<le> LENGTH('a)" "v < 2 ^ LENGTH('a)"
  shows "bits_at (of_nat v :: 'a::len word) n off = of_nat (v div 2 ^ (LENGTH('a) - off - n) mod 2 ^ n)"
proof (rule bit_word_eqI)
  fix i assume i: "i < LENGTH('a)"
  show "bit (bits_at (of_nat v :: 'a word) n off) i = bit (of_nat (v div 2 ^ (LENGTH('a) - off - n) mod 2 ^ n) :: 'a word) i"
    using assms(1) i
    by (auto simp: bit_bits_at bit_of_nat_iff bit_take_bit_iff bit_drop_bit_eq simp flip: take_bit_eq_mod drop_bit_eq_div)
qed

text \<open>A field above \<open>k\<close> lower bits.\<close>

lemma field_div: "b < 2 ^ k \<Longrightarrow> (a * 2 ^ k + b) div 2 ^ k = (a :: nat)"
  by simp

lemma read_len:
  assumes "off + n = 16" "t * 2 ^ n + v < 65536" "v < 2 ^ n"
  shows "TS_READ16_BITS (be16 (t * 2 ^ n + v) @ r) n off = Some (of_nat v)"
proof -
  have "TS_READ16_BITS (be16 (t * 2 ^ n + v) @ r) n off = Some (bits_at (of_nat (t * 2 ^ n + v)) n off)"
    using assms(1) READ16_be16 [OF assms(2)] by (simp add: TS_READ16_BITS_def)
  also have "bits_at (of_nat (t * 2 ^ n + v) :: u16) n off = of_nat v"
    using assms by (subst bits_at_of_nat) (auto simp: mult.commute simp flip: diff_diff_left)
  finally show ?thesis .
qed

lemma unat_of_nat_u8: "n < 256 \<Longrightarrow> unat (of_nat n :: u8) = n"
  by (simp add: unsigned_of_nat take_bit_nat_eq_self)

lemma uint_of_nat_u8: "n < 256 \<Longrightarrow> uint (of_nat n :: u8) = int n"
  by (metis uint_nat unat_of_nat_u8)

lemma READ8_Cons [simp]: "TS_READ8 (b # r) = Some b"
  by (simp add: TS_READ8_def rdb_def)

lemma read32_fields:
  assumes "c < 2 ^ 24" "n < 2 ^ 8"
  shows "TS_READ32_BITS (be32 (c * 2 ^ 8 + n) @ r) 24 0 = Some (of_nat c)"
    "TS_READ32_BITS (be32 (c * 2 ^ 8 + n) @ r) 8 24 = Some (of_nat n)"
proof -
  have v: "c * 2 ^ 8 + n < 2 ^ LENGTH(32)" using assms by simp
  have "bits_at (of_nat (c * 2 ^ 8 + n) :: u32) 24 0 = of_nat c"
    using assms by (subst bits_at_of_nat [OF _ v]) simp_all
  moreover have "bits_at (of_nat (c * 2 ^ 8 + n) :: u32) 8 24 = of_nat n"
    using assms by (subst bits_at_of_nat [OF _ v]) simp_all
  ultimately show "TS_READ32_BITS (be32 (c * 2 ^ 8 + n) @ r) 24 0 = Some (of_nat c)"
    "TS_READ32_BITS (be32 (c * 2 ^ 8 + n) @ r) 8 24 = Some (of_nat n)"
    by (simp_all add: TS_READ32_BITS_def READ32_be32 del: of_nat_add of_nat_mult)
qed

lemma read_len8:
  assumes "t < 8" "v < 32"
  shows "TS_READ8_BITS (of_nat (t * 2 ^ 5 + v) # r) 5 3 = Some (of_nat v)"
proof -
  have "t * 2 ^ 5 + v < 2 ^ LENGTH(8)" using assms by simp
  then have "bits_at (of_nat (t * 2 ^ 5 + v) :: u8) 5 3 = of_nat v"
    using assms(2) by (subst bits_at_of_nat) simp_all
  then show ?thesis by (simp add: TS_READ8_BITS_def del: of_nat_add of_nat_mult)
qed

text \<open>A field of \<open>n\<close> bits with \<open>k\<close> bits below it.\<close>

lemma field_between: "b < 2 ^ n \<Longrightarrow> c < 2 ^ k \<Longrightarrow> (a * 2 ^ (n + k) + b * 2 ^ k + c) div 2 ^ k mod 2 ^ n = (b :: nat)"
  by (simp add: power_add div_mult_self4 div_add1_eq flip: mult.assoc)

lemma read8_part:
  assumes "v = a * 2 ^ (n + k) + b * 2 ^ k + c" "v < 256" "b < 2 ^ n" "c < 2 ^ k" "off + n + k = 8"
  shows "TS_READ8_BITS (of_nat v # r) n off = Some (of_nat b)"
proof -
  have k: "8 - (off + n) = k" using assms(5) by linarith
  have "bits_at (of_nat v :: u8) n off = of_nat (v div 2 ^ k mod 2 ^ n)"
    using assms(2,5) by (subst bits_at_of_nat) (simp_all add: k)
  moreover have "v div 2 ^ k mod 2 ^ n = b" unfolding assms(1) by (rule field_between [OF assms(3,4)])
  ultimately show ?thesis using assms(5) by (simp add: TS_READ8_BITS_def)
qed

lemma read16_part:
  assumes "v = a * 2 ^ (n + k) + b * 2 ^ k + c" "v < 65536" "b < 2 ^ n" "c < 2 ^ k" "off + n + k = 16"
  shows "TS_READ16_BITS (be16 v @ r) n off = Some (of_nat b)"
proof -
  have k: "16 - (off + n) = k" using assms(5) by linarith
  have "bits_at (of_nat v :: u16) n off = of_nat (v div 2 ^ k mod 2 ^ n)"
    using assms(2,5) by (subst bits_at_of_nat) (simp_all add: k)
  moreover have "v div 2 ^ k mod 2 ^ n = b" unfolding assms(1) by (rule field_between [OF assms(3,4)])
  ultimately show ?thesis using assms(2,5) by (simp add: TS_READ16_BITS_def READ16_be16)
qed

section \<open>Entries on the wire\<close>

text \<open>
  The contract of a loop that fills an array from the bytes up to the segment length: an entry at
  the front of the data is appended.
\<close>

locale fill_loop =
  fixes loop :: "nat \<Rightarrow> nat \<Rightarrow> bytes \<Rightarrow> 'n list \<Rightarrow> (bool \<times> nat \<times> 'n list) option"
    and enc :: "'w \<Rightarrow> bytes" and node :: "'w \<Rightarrow> 'n" and ok :: "'w \<Rightarrow> bool"
  assumes loop_stop: "loop l l p acc = Some (True, l, acc)"
    and loop_step: "\<lbrakk>ok w; slen + length (enc w) \<le> l\<rbrakk> \<Longrightarrow>
      loop l slen (enc w @ q) acc = loop l (slen + length (enc w)) q (acc @ [node w])"
begin

lemma loop_entries:
  "\<forall>w \<in> set ws. ok w \<Longrightarrow>
   loop (slen + length (concat (map enc ws))) slen (concat (map enc ws) @ rest) acc =
     Some (True, slen + length (concat (map enc ws)), acc @ map node ws)"
proof (induction ws arbitrary: slen acc)
  case (Cons w ws)
  let ?n = "length (concat (map enc ws))"
  have "loop (slen + length (enc w) + ?n) slen (enc w @ concat (map enc ws) @ rest) acc =
    loop (slen + length (enc w) + ?n) (slen + length (enc w)) (concat (map enc ws) @ rest) (acc @ [node w])"
    using Cons.prems by (intro loop_step) simp_all
  with Cons.prems Cons.IH [of "slen + length (enc w)" "acc @ [node w]"] show ?case by (simp add: add.assoc)
qed (simp add: loop_stop)

end

end
