(* ===== verification/Atsc_Psip.thy ===== *)
theory Atsc_Psip
  imports Dvb_Si Wire
begin

unbundle bit_operations_syntax

text \<open>
  The ATSC tables (\<^verbatim>\<open>src/atsc_psip.c\<close>): master guide, virtual channels, ratings, extended text,
  events, system time and directed channel change, their callback and its state.  A pointer to an
  array is \<open>None\<close> when it is null.  What an earlier table left is freed before the new one is
  stored; of this only the accesses that can fail are modelled.
\<close>

section \<open>Counted arrays\<close>

text \<open>
  A loop \<open>for (i = 0; i < k; i++)\<close> that fills an array from \<open>calloc\<close>: the step for one entry gives
  the entry and the data behind it, or the error with which the function returns, and then the
  other entries stay zero.
\<close>

fun read_array :: "'n \<Rightarrow> (nat \<Rightarrow> bytes \<Rightarrow> ('n \<times> (int + bytes)) option) \<Rightarrow> nat \<Rightarrow> nat \<Rightarrow> bytes \<Rightarrow> ('n list \<times> (int + bytes)) option" where
  "read_array z f i 0 p = Some ([], Inr p)"
| "read_array z f i (Suc k) p = do {
     (x, r) \<leftarrow> f i p;
     (case r of
        Inl err \<Rightarrow> Some (x # replicate k z, Inl err)
      | Inr p' \<Rightarrow> do {
          (xs, r') \<leftarrow> read_array z f (Suc i) k p';
          Some (x # xs, r') }) }"

section \<open>Multiple strings\<close>

record string_segment =
  sg_compression_type :: u8
  sg_mode :: u8
  sg_number_bytes :: u8
  sg_compressed_string_byte :: "bytes option"

record lang_string =
  ls_ISO_639_language_code :: u32
  ls_number_segments :: u32
  ls_segments :: "string_segment list option"

record multiple_string =
  mst_number_strings :: u8
  mst_strings :: "lang_string list option"

definition zero_segment :: string_segment where
  "zero_segment = \<lparr>sg_compression_type = 0, sg_mode = 0, sg_number_bytes = 0, sg_compressed_string_byte = None\<rparr>"

definition zero_lang :: lang_string where
  "zero_lang = \<lparr>ls_ISO_639_language_code = 0, ls_number_segments = 0, ls_segments = None\<rparr>"

definition zero_mstring :: multiple_string where
  "zero_mstring = \<lparr>mst_number_strings = 0, mst_strings = None\<rparr>"

definition parse_segment :: "alloc_env \<Rightarrow> nat \<Rightarrow> bytes \<Rightarrow> (string_segment \<times> (int + bytes)) option" where
  "parse_segment e j pdata = do {
     c \<leftarrow> TS_READ8 pdata;
     m \<leftarrow> TS_READ8 (drop 1 pdata);
     n \<leftarrow> TS_READ8 (drop 2 pdata);
     let s = \<lparr>sg_compression_type = c, sg_mode = m, sg_number_bytes = n, sg_compressed_string_byte = None\<rparr>;
     if \<not> mok e j then Some (s, Inl ENOMEM)
     else do {
       b \<leftarrow> memcpy (replicate (unat n) 0) 0 (drop 3 pdata) (uint n);
       Some (s\<lparr>sg_compressed_string_byte := Some b\<rparr>, Inr (drop (3 + unat n) pdata)) } }"

definition parse_lang :: "alloc_env \<Rightarrow> nat \<Rightarrow> bytes \<Rightarrow> (lang_string \<times> (int + bytes)) option" where
  "parse_lang e i pdata = do {
     l \<leftarrow> TS_READ32_BITS pdata 24 0;
     n \<leftarrow> TS_READ32_BITS pdata 8 24;
     let s = \<lparr>ls_ISO_639_language_code = l, ls_number_segments = n, ls_segments = None\<rparr>;
     if \<not> mok e i then Some (s, Inl ENOMEM)
     else do {
       (gs, r) \<leftarrow> read_array zero_segment (parse_segment (in_node e i)) 0 (unat n) (drop 4 pdata);
       Some (s\<lparr>ls_segments := Some gs\<rparr>, r) } }"

definition parse_multi_string :: "alloc_env \<Rightarrow> bytes \<Rightarrow> (int \<times> multiple_string) option" where
  "parse_multi_string e pbuf = do {
     n \<leftarrow> TS_READ8 pbuf;
     if \<not> mok e 0 then Some (ENOMEM, \<lparr>mst_number_strings = n, mst_strings = None\<rparr>)
     else do {
       (ss, r) \<leftarrow> read_array zero_lang (parse_lang (in_node e 1)) 0 (unat n) (drop 1 pbuf);
       Some (case r of Inl err \<Rightarrow> err | Inr p \<Rightarrow> int (length pbuf) - int (length p),
             \<lparr>mst_number_strings = n, mst_strings = Some ss\<rparr>) } }"

text \<open>\<open>free_multi_string\<close> follows null pointers when the counts are positive and the arrays are missing.\<close>

definition free_lang_ok :: "lang_string \<Rightarrow> bool" where
  "free_lang_ok s \<longleftrightarrow> ls_number_segments s = 0 \<or> ls_segments s \<noteq> None"

definition free_multi_string :: "multiple_string \<Rightarrow> unit option" where
  "free_multi_string str =
     (if mst_number_strings str = 0 then Some ()
      else case mst_strings str of
        None \<Rightarrow> None
      | Some ss \<Rightarrow> if list_all free_lang_ok (take (unat (mst_number_strings str)) ss) then Some () else None)"

section \<open>Tables\<close>

record define_table =
  dt_table_type :: u16
  dt_table_type_PID :: u16
  dt_version_number :: u8
  dt_number_bytes :: u32
  dt_descriptors_length :: u16
  dt_list :: "descriptor list"

record atsc_mgt_t =
  mgt_header :: table_header
  mgt_protocol_version :: u8
  mgt_tables_defined :: u16
  mgt_tables :: "define_table list option"
  mgt_descriptors_length :: u16
  mgt_list :: "descriptor list"

record define_channel =
  ch_short_name :: bytes
  ch_major_channel_number :: u32
  ch_minor_channel_number :: u32
  ch_modulation_mode :: u32
  ch_carrier_frequency :: u32
  ch_channel_TSID :: u16
  ch_program_number :: u16
  ch_ETM_location :: u16
  ch_access_controlled :: u16
  ch_hidden :: u16
  ch_path_select :: u16
  ch_out_of_band :: u16
  ch_hide_guide :: u16
  ch_service_type :: u16
  ch_source_id :: u16
  ch_descriptors_length :: u16
  ch_list :: "descriptor list"

record atsc_vct_t =
  vct_header :: table_header
  vct_protocol_version :: u8
  vct_num_channels_in_section :: u8
  vct_channels :: "define_channel list option"
  vct_additional_descriptors_length :: u16
  vct_list :: "descriptor list"

text \<open>\<open>dimensions\<close> is never allocated, so the pointer stays null and has no field here.\<close>

record atsc_rrt_t =
  rrt_header :: table_header
  rrt_protocol_version :: u8
  rrt_rating_region_name_length :: u8
  rrt_rating_region_name_text :: multiple_string
  rrt_dimensions_defined :: u8
  rrt_descriptors_length :: u16
  rrt_list :: "descriptor list"

record define_event =
  de_event_id :: u16
  de_start_time :: u32
  de_ETM_location :: u32
  de_length_in_seconds :: u32
  de_title_length :: u32
  de_title_text :: multiple_string
  de_descriptors_length :: u16
  de_list :: "descriptor list"

record atsc_eit_t =
  aeit_header :: table_header
  aeit_protocol_version :: u8
  aeit_num_events_in_section :: u8
  aeit_events :: "define_event list option"

record atsc_ett_t =
  ett_header :: table_header
  ett_protocol_version :: u8
  ett_ETM_id :: u32
  ett_extended_text_message :: multiple_string

record atsc_stt_t =
  stt_header :: table_header
  stt_protocol_version :: u8
  stt_system_time :: u32
  stt_GPS_UTC_offset :: u8
  stt_daylight_saving :: u16
  stt_list :: "descriptor list"

record define_dcc_term =
  dc_selection_type :: u8
  dc_selection_id :: u64
  dc_term_descriptors_length :: u16
  dc_term_list :: "descriptor list"

record define_dcc_test =
  dc_context :: u64
  dc_from_major_channel_number :: u64
  dc_from_minor_channel_number :: u64
  dc_to_major_channel_number :: u64
  dc_to_minor_channel_number :: u64
  dc_start_time :: u64
  dc_start_time1 :: u16
  dc_end_time :: u32
  dc_term_count :: u8
  dc_terms :: "define_dcc_term list option"
  dc_test_descriptors_length :: u16
  dc_test_list :: "descriptor list"

record atsc_dcct_t =
  dcct_header :: table_header
  dcct_protocol_version :: u8
  dcct_test_count :: u8
  dcct_tests :: "define_dcc_test list option"
  dcct_additional_descriptors_length :: u16
  dcct_list :: "descriptor list"

text \<open>The union of \<open>struct define_update\<close>.\<close>

datatype update_data =
    No_update
  | Genre_category u8 multiple_string
  | State_location u8 multiple_string
  | County_location u8 u16 multiple_string

record define_update =
  du_update_type :: u8
  du_update_data_length :: u8
  du_data :: update_data
  du_descriptors_length :: u16
  du_list :: "descriptor list"

record atsc_dccsct_t =
  dccsct_header :: table_header
  dccsct_protocol_version :: u8
  dccsct_updates_defined :: u8
  dccsct_updates :: "define_update list option"
  dccsct_additional_descriptors_length :: u16
  dccsct_list :: "descriptor list"

record atsc_psip_t =
  ps_stt :: atsc_stt_t
  ps_mgt :: atsc_mgt_t
  ps_tvct :: atsc_vct_t
  ps_cvct :: atsc_vct_t
  ps_rrt :: atsc_rrt_t
  ps_eit :: atsc_eit_t
  ps_ett :: atsc_ett_t
  ps_dcct :: atsc_dcct_t
  ps_dccsct :: atsc_dccsct_t

text \<open>The static variables \<open>psip\<close> and \<open>psip_seen_mask\<close>.\<close>

record atsc_state =
  at_psip :: atsc_psip_t
  at_seen_mask :: u16

definition MGT_TID :: u8 where "MGT_TID = 0xC7"
definition TVCT_TID :: u8 where "TVCT_TID = 0xC8"
definition CVCT_TID :: u8 where "CVCT_TID = 0xC9"
definition RRT_TID :: u8 where "RRT_TID = 0xCA"
definition EIT_TID :: u8 where "EIT_TID = 0xCB"
definition ETT_TID :: u8 where "ETT_TID = 0xCC"
definition STT_TID :: u8 where "STT_TID = 0xCD"
definition DCCT_TID :: u8 where "DCCT_TID = 0xD3"
definition DCCSCT_TID :: u8 where "DCCSCT_TID = 0xD4"

definition PSIP_MGT :: u16 where "PSIP_MGT = 1"
definition PSIP_TVCT :: u16 where "PSIP_TVCT = 2"
definition PSIP_CVCT :: u16 where "PSIP_CVCT = 4"
definition PSIP_RRT :: u16 where "PSIP_RRT = 8"
definition PSIP_EIT :: u16 where "PSIP_EIT = 16"
definition PSIP_ETT :: u16 where "PSIP_ETT = 32"
definition PSIP_STT :: u16 where "PSIP_STT = 64"
definition PSIP_DCCT :: u16 where "PSIP_DCCT = 128"
definition PSIP_DCCSCT :: u16 where "PSIP_DCCSCT = 256"

section \<open>Parsers\<close>

definition zero_define_table :: define_table where
  "zero_define_table = \<lparr>dt_table_type = 0, dt_table_type_PID = 0, dt_version_number = 0, dt_number_bytes = 0,
     dt_descriptors_length = 0, dt_list = []\<rparr>"

definition parse_define_table ::
  "alloc_env \<Rightarrow> (u8 \<Rightarrow> desc_ops) \<Rightarrow> nat \<Rightarrow> bytes \<Rightarrow> (define_table \<times> (int + bytes)) option" where
  "parse_define_table e des_ops i pdata = do {
     ty \<leftarrow> TS_READ16 pdata;
     pid \<leftarrow> TS_READ16_BITS (drop 2 pdata) 13 3;
     ver \<leftarrow> TS_READ8_BITS (drop 4 pdata) 5 3;
     nb \<leftarrow> TS_READ32 (drop 5 pdata);
     n \<leftarrow> TS_READ16_BITS (drop 9 pdata) 12 4;
     ds \<leftarrow> parse_descriptors (in_node e i) des_ops (drop 11 pdata) (uint n);
     Some (\<lparr>dt_table_type = ty, dt_table_type_PID = pid, dt_version_number = ver, dt_number_bytes = nb,
            dt_descriptors_length = n, dt_list = ds\<rparr>, Inr (drop (11 + unat n) pdata)) }"

text \<open>The entries of these tables never end the function early.\<close>

definition rest_of :: "int + bytes \<Rightarrow> bytes" where
  "rest_of r = (case r of Inl _ \<Rightarrow> [] | Inr p \<Rightarrow> p)"

definition parse_mgt :: "alloc_env \<Rightarrow> (u8 \<Rightarrow> desc_ops) \<Rightarrow> bytes \<Rightarrow> u16 \<Rightarrow> atsc_mgt_t \<Rightarrow> (int \<times> atsc_mgt_t) option" where
  "parse_mgt e des_ops pbuf buf_size mgt = do {
     (ret, h) \<leftarrow> parse_section_header (in_node e 0) pbuf buf_size (mgt_header mgt);
     let mgt = mgt\<lparr>mgt_header := h\<rparr>;
     if ret \<noteq> 0 then Some (ret, mgt)
     else do {
       pdata \<leftarrow> blk_bytes (th_data h);
       ver \<leftarrow> TS_READ8 pdata;
       k \<leftarrow> TS_READ16 (drop 1 pdata);
       let mgt = mgt\<lparr>mgt_protocol_version := ver, mgt_tables_defined := k, mgt_list := []\<rparr>;
       if \<not> mok e 1 then Some (ENOMEM, mgt\<lparr>mgt_tables := None\<rparr>)
       else do {
         (ts, r) \<leftarrow> read_array zero_define_table (parse_define_table (in_node e 2) des_ops) 0 (unat k) (drop 3 pdata);
         n \<leftarrow> TS_READ16_BITS (rest_of r) 12 4;
         ds \<leftarrow> parse_descriptors (in_node e 3) des_ops (drop 2 (rest_of r)) (uint n);
         Some (0, mgt\<lparr>mgt_tables := Some ts, mgt_descriptors_length := n, mgt_list := ds\<rparr>) } } }"

text \<open>\<open>short_name\<close> has 14 bytes; for cable 112 bytes are copied there.\<close>

definition zero_channel :: define_channel where
  "zero_channel = \<lparr>ch_short_name = replicate 14 0, ch_major_channel_number = 0, ch_minor_channel_number = 0,
     ch_modulation_mode = 0, ch_carrier_frequency = 0, ch_channel_TSID = 0, ch_program_number = 0, ch_ETM_location = 0,
     ch_access_controlled = 0, ch_hidden = 0, ch_path_select = 0, ch_out_of_band = 0, ch_hide_guide = 0,
     ch_service_type = 0, ch_source_id = 0, ch_descriptors_length = 0, ch_list = []\<rparr>"

definition parse_channel ::
  "alloc_env \<Rightarrow> (u8 \<Rightarrow> desc_ops) \<Rightarrow> bool \<Rightarrow> nat \<Rightarrow> bytes \<Rightarrow> (define_channel \<times> (int + bytes)) option" where
  "parse_channel e des_ops cable i pdata = do {
     let k = (if cable then 7 * 16 else 7 * 2);
     name \<leftarrow> memcpy (ch_short_name zero_channel) 0 pdata (int k);
     let pdata = drop k pdata;
     major \<leftarrow> TS_READ32_BITS pdata 10 4;
     minor \<leftarrow> TS_READ32_BITS pdata 10 14;
     mode \<leftarrow> TS_READ32_BITS pdata 8 24;
     freq \<leftarrow> TS_READ32 (drop 4 pdata);
     tsid \<leftarrow> TS_READ16 (drop 8 pdata);
     prog \<leftarrow> TS_READ16 (drop 10 pdata);
     etm \<leftarrow> TS_READ16_BITS (drop 12 pdata) 2 0;
     acc \<leftarrow> TS_READ16_BITS (drop 12 pdata) 1 2;
     hid \<leftarrow> TS_READ16_BITS (drop 12 pdata) 1 3;
     path \<leftarrow> (if cable then TS_READ16_BITS (drop 12 pdata) 1 4 else Some 0);
     oob \<leftarrow> (if cable then TS_READ16_BITS (drop 12 pdata) 1 5 else Some 0);
     guide \<leftarrow> TS_READ16_BITS (drop 12 pdata) 1 6;
     sty \<leftarrow> TS_READ16_BITS (drop 12 pdata) 6 10;
     src \<leftarrow> TS_READ16 (drop 14 pdata);
     n \<leftarrow> TS_READ16_BITS (drop 16 pdata) 10 6;
     ds \<leftarrow> parse_descriptors (in_node e i) des_ops (drop 18 pdata) (uint n);
     Some (\<lparr>ch_short_name = name, ch_major_channel_number = major, ch_minor_channel_number = minor,
            ch_modulation_mode = mode, ch_carrier_frequency = freq, ch_channel_TSID = tsid, ch_program_number = prog,
            ch_ETM_location = etm, ch_access_controlled = acc, ch_hidden = hid, ch_path_select = path,
            ch_out_of_band = oob, ch_hide_guide = guide, ch_service_type = sty, ch_source_id = src,
            ch_descriptors_length = n, ch_list = ds\<rparr>, Inr (drop (18 + unat n) pdata)) }"

definition parse_vct ::
  "alloc_env \<Rightarrow> (u8 \<Rightarrow> desc_ops) \<Rightarrow> bytes \<Rightarrow> u16 \<Rightarrow> bool \<Rightarrow> atsc_vct_t \<Rightarrow> (int \<times> atsc_vct_t) option" where
  "parse_vct e des_ops pbuf buf_size cable vct = do {
     (ret, h) \<leftarrow> parse_section_header (in_node e 0) pbuf buf_size (vct_header vct);
     let vct = vct\<lparr>vct_header := h\<rparr>;
     if ret \<noteq> 0 then Some (ret, vct)
     else do {
       pdata \<leftarrow> blk_bytes (th_data h);
       ver \<leftarrow> TS_READ8 pdata;
       k \<leftarrow> TS_READ8 (drop 1 pdata);
       let vct = vct\<lparr>vct_protocol_version := ver, vct_num_channels_in_section := k, vct_list := []\<rparr>;
       if \<not> mok e 1 then Some (ENOMEM, vct\<lparr>vct_channels := None\<rparr>)
       else do {
         (cs, r) \<leftarrow> read_array zero_channel (parse_channel (in_node e 2) des_ops cable) 0 (unat k) (drop 2 pdata);
         n \<leftarrow> TS_READ16_BITS (rest_of r) 10 6;
         ds \<leftarrow> parse_descriptors (in_node e 3) des_ops (drop 2 (rest_of r)) (uint n);
         Some (0, vct\<lparr>vct_channels := Some cs, vct_additional_descriptors_length := n, vct_list := ds\<rparr>) } } }"

text \<open>The rating dimensions are stored through the null pointer \<open>dimensions\<close>.\<close>

definition parse_rrt :: "alloc_env \<Rightarrow> (u8 \<Rightarrow> desc_ops) \<Rightarrow> bytes \<Rightarrow> u16 \<Rightarrow> atsc_rrt_t \<Rightarrow> (int \<times> atsc_rrt_t) option" where
  "parse_rrt e des_ops pbuf buf_size rrt = do {
     (ret, h) \<leftarrow> parse_section_header (in_node e 0) pbuf buf_size (rrt_header rrt);
     let rrt = rrt\<lparr>rrt_header := h\<rparr>;
     if ret \<noteq> 0 then Some (ret, rrt)
     else do {
       _ \<leftarrow> free_multi_string (rrt_rating_region_name_text rrt);
       pdata \<leftarrow> blk_bytes (th_data h);
       ver \<leftarrow> TS_READ8 pdata;
       k \<leftarrow> TS_READ8 (drop 1 pdata);
       (_, name) \<leftarrow> parse_multi_string (in_node e 1) (drop 2 pdata);
       dims \<leftarrow> TS_READ8 (drop (2 + unat k) pdata);
       if dims \<noteq> 0 then None
       else do {
         n \<leftarrow> TS_READ16_BITS (drop (3 + unat k) pdata) 10 6;
         ds \<leftarrow> parse_descriptors (in_node e 2) des_ops (drop (5 + unat k) pdata) (uint n);
         Some (0, rrt\<lparr>rrt_protocol_version := ver, rrt_rating_region_name_length := k, rrt_rating_region_name_text := name,
                      rrt_dimensions_defined := dims, rrt_descriptors_length := n, rrt_list := ds\<rparr>) } } }"

definition parse_ett :: "alloc_env \<Rightarrow> bytes \<Rightarrow> u16 \<Rightarrow> atsc_ett_t \<Rightarrow> (int \<times> atsc_ett_t) option" where
  "parse_ett e pbuf buf_size ett = do {
     (ret, h) \<leftarrow> parse_section_header (in_node e 0) pbuf buf_size (ett_header ett);
     let ett = ett\<lparr>ett_header := h\<rparr>;
     if ret \<noteq> 0 then Some (ret, ett)
     else do {
       pdata \<leftarrow> blk_bytes (th_data h);
       ver \<leftarrow> TS_READ8 pdata;
       etm \<leftarrow> TS_READ32 (drop 1 pdata);
       (_, msg) \<leftarrow> parse_multi_string (in_node e 1) (drop 5 pdata);
       Some (0, ett\<lparr>ett_protocol_version := ver, ett_ETM_id := etm, ett_extended_text_message := msg\<rparr>) } }"

definition zero_event :: define_event where
  "zero_event = \<lparr>de_event_id = 0, de_start_time = 0, de_ETM_location = 0, de_length_in_seconds = 0, de_title_length = 0,
     de_title_text = zero_mstring, de_descriptors_length = 0, de_list = []\<rparr>"

text \<open>The data pointer is not moved past the descriptors of an event.\<close>

definition parse_event ::
  "alloc_env \<Rightarrow> (u8 \<Rightarrow> desc_ops) \<Rightarrow> nat \<Rightarrow> bytes \<Rightarrow> (define_event \<times> (int + bytes)) option" where
  "parse_event e des_ops i pdata = do {
     eid \<leftarrow> TS_READ16_BITS pdata 14 2;
     start \<leftarrow> TS_READ32 (drop 2 pdata);
     etm \<leftarrow> TS_READ32_BITS (drop 6 pdata) 2 2;
     len \<leftarrow> TS_READ32_BITS (drop 6 pdata) 20 4;
     tl \<leftarrow> TS_READ32_BITS (drop 6 pdata) 8 24;
     (_, title) \<leftarrow> parse_multi_string (in_node (in_node e i) 0) (drop 10 pdata);
     n \<leftarrow> TS_READ16_BITS (drop (10 + unat tl) pdata) 12 4;
     ds \<leftarrow> parse_descriptors (in_node (in_node e i) 1) des_ops (drop (12 + unat tl) pdata) (uint n);
     Some (\<lparr>de_event_id = eid, de_start_time = start, de_ETM_location = etm, de_length_in_seconds = len,
            de_title_length = tl, de_title_text = title, de_descriptors_length = n, de_list = ds\<rparr>,
           Inr (drop (12 + unat tl) pdata)) }"

definition free_titles :: "atsc_eit_t \<Rightarrow> unit option" where
  "free_titles eit =
     (case aeit_events eit of
        None \<Rightarrow> Some ()
      | Some evs \<Rightarrow> if list_all (\<lambda>ev. free_multi_string (de_title_text ev) \<noteq> None) evs then Some () else None)"

definition parse_atsc_eit :: "alloc_env \<Rightarrow> (u8 \<Rightarrow> desc_ops) \<Rightarrow> bytes \<Rightarrow> u16 \<Rightarrow> atsc_eit_t \<Rightarrow> (int \<times> atsc_eit_t) option" where
  "parse_atsc_eit e des_ops pbuf buf_size eit = do {
     (ret, h) \<leftarrow> parse_section_header (in_node e 0) pbuf buf_size (aeit_header eit);
     let eit = eit\<lparr>aeit_header := h\<rparr>;
     if ret \<noteq> 0 then Some (ret, eit)
     else do {
       _ \<leftarrow> free_titles eit;
       pdata \<leftarrow> blk_bytes (th_data h);
       ver \<leftarrow> TS_READ8 pdata;
       k \<leftarrow> TS_READ8 (drop 1 pdata);
       let eit = eit\<lparr>aeit_protocol_version := ver, aeit_num_events_in_section := k\<rparr>;
       if \<not> mok e 1 then Some (ENOMEM, eit\<lparr>aeit_events := None\<rparr>)
       else do {
         (evs, r) \<leftarrow> read_array zero_event (parse_event (in_node e 2) des_ops) 0 (unat k) (drop 2 pdata);
         Some (0, eit\<lparr>aeit_events := Some evs\<rparr>) } } }"

text \<open>
  The loop over the descriptors of the system time table does not change its condition: with
  descriptors it never ends, which is the value \<open>None\<close> here.
\<close>

partial_function (option) stt_loop ::
  "alloc_env \<Rightarrow> (u8 \<Rightarrow> desc_ops) \<Rightarrow> bytes \<Rightarrow> u16 \<Rightarrow> nat \<Rightarrow> descriptor list \<Rightarrow> descriptor list option" where
  "stt_loop e des_ops pdata section_len i l =
     (if section_len > 0
      then do {
        ds \<leftarrow> parse_descriptors (in_node e i) des_ops pdata (uint section_len);
        stt_loop e des_ops pdata section_len (Suc i) ds }
      else Some l)"

definition parse_stt :: "alloc_env \<Rightarrow> (u8 \<Rightarrow> desc_ops) \<Rightarrow> bytes \<Rightarrow> u16 \<Rightarrow> atsc_stt_t \<Rightarrow> (int \<times> atsc_stt_t) option" where
  "parse_stt e des_ops pbuf buf_size stt = do {
     (ret, h) \<leftarrow> parse_section_header (in_node e 0) pbuf buf_size (stt_header stt);
     let stt = stt\<lparr>stt_header := h\<rparr>;
     if ret \<noteq> 0 then Some (ret, stt)
     else do {
       let section_len = th_section_length h;
       pdata \<leftarrow> blk_bytes (th_data h);
       let section_len = section_len - (5 + 4);
       ver \<leftarrow> TS_READ8 pdata;
       t \<leftarrow> TS_READ32 (drop 1 pdata);
       gps \<leftarrow> TS_READ8 (drop 5 pdata);
       day \<leftarrow> TS_READ16 (drop 6 pdata);
       let section_len = section_len - 8;
       ds \<leftarrow> stt_loop (in_node e 1) des_ops (drop 8 pdata) section_len 0 [];
       Some (0, stt\<lparr>stt_protocol_version := ver, stt_system_time := t, stt_GPS_UTC_offset := gps,
                    stt_daylight_saving := day, stt_list := ds\<rparr>) } }"

definition zero_dcc_term :: define_dcc_term where
  "zero_dcc_term = \<lparr>dc_selection_type = 0, dc_selection_id = 0, dc_term_descriptors_length = 0, dc_term_list = []\<rparr>"

definition zero_dcc_test :: define_dcc_test where
  "zero_dcc_test = \<lparr>dc_context = 0, dc_from_major_channel_number = 0, dc_from_minor_channel_number = 0,
     dc_to_major_channel_number = 0, dc_to_minor_channel_number = 0, dc_start_time = 0, dc_start_time1 = 0, dc_end_time = 0,
     dc_term_count = 0, dc_terms = None, dc_test_descriptors_length = 0, dc_test_list = []\<rparr>"

definition parse_dcc_term ::
  "alloc_env \<Rightarrow> (u8 \<Rightarrow> desc_ops) \<Rightarrow> nat \<Rightarrow> bytes \<Rightarrow> (define_dcc_term \<times> (int + bytes)) option" where
  "parse_dcc_term e des_ops j pdata = do {
     ty \<leftarrow> TS_READ8 pdata;
     sid \<leftarrow> TS_READ64 (drop 1 pdata);
     n \<leftarrow> TS_READ16_BITS (drop 9 pdata) 10 6;
     ds \<leftarrow> parse_descriptors (in_node e j) des_ops (drop 11 pdata) (uint n);
     Some (\<lparr>dc_selection_type = ty, dc_selection_id = sid, dc_term_descriptors_length = n, dc_term_list = ds\<rparr>,
           Inr (drop (11 + unat n) pdata)) }"

definition parse_dcc_test ::
  "alloc_env \<Rightarrow> (u8 \<Rightarrow> desc_ops) \<Rightarrow> nat \<Rightarrow> bytes \<Rightarrow> (define_dcc_test \<times> (int + bytes)) option" where
  "parse_dcc_test e des_ops i pdata = do {
     ctx \<leftarrow> TS_READ64_BITS pdata 1 0;
     fmaj \<leftarrow> TS_READ64_BITS pdata 10 4;
     fmin \<leftarrow> TS_READ64_BITS pdata 10 14;
     tmaj \<leftarrow> TS_READ64_BITS pdata 10 28;
     tmin \<leftarrow> TS_READ64_BITS pdata 10 38;
     start \<leftarrow> TS_READ64_BITS pdata 16 48;
     start1 \<leftarrow> TS_READ16 (drop 8 pdata);
     ending \<leftarrow> TS_READ32 (drop 10 pdata);
     k \<leftarrow> TS_READ8 (drop 14 pdata);
     let t = \<lparr>dc_context = ctx, dc_from_major_channel_number = fmaj, dc_from_minor_channel_number = fmin,
       dc_to_major_channel_number = tmaj, dc_to_minor_channel_number = tmin, dc_start_time = start, dc_start_time1 = start1,
       dc_end_time = ending, dc_term_count = k, dc_terms = None, dc_test_descriptors_length = 0, dc_test_list = []\<rparr>;
     if \<not> mok e i then Some (t, Inl ENOMEM)
     else do {
       (ts, r) \<leftarrow> read_array zero_dcc_term (parse_dcc_term (in_node (in_node e i) 0) des_ops) 0 (unat k) (drop 15 pdata);
       n \<leftarrow> TS_READ16_BITS (rest_of r) 10 6;
       ds \<leftarrow> parse_descriptors (in_node (in_node e i) 1) des_ops (drop 2 (rest_of r)) (uint n);
       Some (t\<lparr>dc_terms := Some ts, dc_test_descriptors_length := n, dc_test_list := ds\<rparr>,
             Inr (drop (2 + unat n) (rest_of r))) } }"

definition parse_dcct :: "alloc_env \<Rightarrow> (u8 \<Rightarrow> desc_ops) \<Rightarrow> bytes \<Rightarrow> u16 \<Rightarrow> atsc_dcct_t \<Rightarrow> (int \<times> atsc_dcct_t) option" where
  "parse_dcct e des_ops pbuf buf_size dcct = do {
     (ret, h) \<leftarrow> parse_section_header (in_node e 0) pbuf buf_size (dcct_header dcct);
     let dcct = dcct\<lparr>dcct_header := h\<rparr>;
     if ret \<noteq> 0 then Some (ret, dcct)
     else do {
       pdata \<leftarrow> blk_bytes (th_data h);
       ver \<leftarrow> TS_READ8 pdata;
       k \<leftarrow> TS_READ8 (drop 1 pdata);
       let dcct = dcct\<lparr>dcct_protocol_version := ver, dcct_test_count := k\<rparr>;
       if \<not> mok e 1 then Some (ENOMEM, dcct\<lparr>dcct_tests := None\<rparr>)
       else do {
         (ts, r) \<leftarrow> read_array zero_dcc_test (parse_dcc_test (in_node e 2) des_ops) 0 (unat k) (drop 2 pdata);
         let dcct = dcct\<lparr>dcct_tests := Some ts\<rparr>;
         (case r of
            Inl err \<Rightarrow> Some (err, dcct)
          | Inr p \<Rightarrow> do {
              n \<leftarrow> TS_READ16_BITS p 10 6;
              ds \<leftarrow> parse_descriptors (in_node e 3) des_ops (drop 2 p) (uint n);
              Some (0, dcct\<lparr>dcct_additional_descriptors_length := n, dcct_list := ds\<rparr>) }) } } }"

definition zero_update :: define_update where
  "zero_update = \<lparr>du_update_type = 0, du_update_data_length = 0, du_data = No_update, du_descriptors_length = 0, du_list = []\<rparr>"

definition parse_update_data :: "alloc_env \<Rightarrow> u8 \<Rightarrow> bytes \<Rightarrow> (update_data \<times> bytes) option" where
  "parse_update_data e ty pdata =
     (if ty = 0x01 then do {
        c \<leftarrow> TS_READ8 pdata;
        (r, s) \<leftarrow> parse_multi_string e (drop 1 pdata);
        Some (Genre_category c s, drop (1 + nat r) pdata) }
      else if ty = 0x02 then do {
        c \<leftarrow> TS_READ8 pdata;
        (r, s) \<leftarrow> parse_multi_string e (drop 1 pdata);
        Some (State_location c s, drop (1 + nat r) pdata) }
      else if ty = 0x03 then do {
        c \<leftarrow> TS_READ8 pdata;
        l \<leftarrow> TS_READ16_BITS (drop 1 pdata) 10 6;
        (r, s) \<leftarrow> parse_multi_string e (drop 3 pdata);
        Some (County_location c l s, drop (3 + nat r) pdata) }
      else Some (No_update, pdata))"

definition parse_update ::
  "alloc_env \<Rightarrow> (u8 \<Rightarrow> desc_ops) \<Rightarrow> nat \<Rightarrow> bytes \<Rightarrow> (define_update \<times> (int + bytes)) option" where
  "parse_update e des_ops i pdata = do {
     ty \<leftarrow> TS_READ8 pdata;
     len \<leftarrow> TS_READ8 (drop 1 pdata);
     (d, p) \<leftarrow> parse_update_data (in_node (in_node e i) 0) ty (drop 2 pdata);
     n \<leftarrow> TS_READ16_BITS p 10 6;
     ds \<leftarrow> parse_descriptors (in_node (in_node e i) 1) des_ops (drop 2 p) (uint n);
     Some (\<lparr>du_update_type = ty, du_update_data_length = len, du_data = d, du_descriptors_length = n, du_list = ds\<rparr>,
           Inr (drop (2 + unat n) p)) }"

definition parse_dccsct ::
  "alloc_env \<Rightarrow> (u8 \<Rightarrow> desc_ops) \<Rightarrow> bytes \<Rightarrow> u16 \<Rightarrow> atsc_dccsct_t \<Rightarrow> (int \<times> atsc_dccsct_t) option" where
  "parse_dccsct e des_ops pbuf buf_size dccsct = do {
     (ret, h) \<leftarrow> parse_section_header (in_node e 0) pbuf buf_size (dccsct_header dccsct);
     let dccsct = dccsct\<lparr>dccsct_header := h\<rparr>;
     if ret \<noteq> 0 then Some (ret, dccsct)
     else do {
       pdata \<leftarrow> blk_bytes (th_data h);
       ver \<leftarrow> TS_READ8 pdata;
       k \<leftarrow> TS_READ8 (drop 1 pdata);
       let dccsct = dccsct\<lparr>dccsct_protocol_version := ver, dccsct_updates_defined := k\<rparr>;
       if \<not> mok e 1 then Some (ENOMEM, dccsct\<lparr>dccsct_updates := None\<rparr>)
       else do {
         (us, r) \<leftarrow> read_array zero_update (parse_update (in_node e 2) des_ops) 0 (unat k) (drop 2 pdata);
         n \<leftarrow> TS_READ16_BITS (rest_of r) 10 6;
         ds \<leftarrow> parse_descriptors (in_node e 3) des_ops (drop 2 (rest_of r)) (uint n);
         Some (0, dccsct\<lparr>dccsct_updates := Some us, dccsct_additional_descriptors_length := n, dccsct_list := ds\<rparr>) } } }"

section \<open>The callback\<close>

text \<open>The return values of the parsers are dropped; the table counts as seen in any case.\<close>

definition seen :: "u16 \<Rightarrow> atsc_psip_t \<Rightarrow> atsc_state \<Rightarrow> atsc_state" where
  "seen m ps st = st\<lparr>at_psip := ps, at_seen_mask := at_seen_mask st OR m\<rparr>"

definition atsc_psip_proc ::
  "(u8 \<Rightarrow> desc_ops) \<Rightarrow> alloc_env \<Rightarrow> u16 \<Rightarrow> bytes \<Rightarrow> u16 \<Rightarrow> atsc_state \<Rightarrow> atsc_state option" where
  "atsc_psip_proc des_ops e pid pkt len st = do {
     tid \<leftarrow> rdb pkt 0;
     let ps = at_psip st;
     (if tid = MGT_TID then
        map_option (\<lambda>(_, t). seen PSIP_MGT (ps\<lparr>ps_mgt := t\<rparr>) st) (parse_mgt e des_ops pkt len (ps_mgt ps))
      else if tid = TVCT_TID then
        map_option (\<lambda>(_, t). seen PSIP_TVCT (ps\<lparr>ps_tvct := t\<rparr>) st) (parse_vct e des_ops pkt len False (ps_tvct ps))
      else if tid = CVCT_TID then
        map_option (\<lambda>(_, t). seen PSIP_CVCT (ps\<lparr>ps_cvct := t\<rparr>) st) (parse_vct e des_ops pkt len True (ps_cvct ps))
      else if tid = RRT_TID then
        map_option (\<lambda>(_, t). seen PSIP_RRT (ps\<lparr>ps_rrt := t\<rparr>) st) (parse_rrt e des_ops pkt len (ps_rrt ps))
      else if tid = ETT_TID then
        map_option (\<lambda>(_, t). seen PSIP_ETT (ps\<lparr>ps_ett := t\<rparr>) st) (parse_ett e pkt len (ps_ett ps))
      else if tid = EIT_TID then
        map_option (\<lambda>(_, t). seen PSIP_EIT (ps\<lparr>ps_eit := t\<rparr>) st) (parse_atsc_eit e des_ops pkt len (ps_eit ps))
      else if tid = STT_TID then
        map_option (\<lambda>(_, t). seen PSIP_STT (ps\<lparr>ps_stt := t\<rparr>) st) (parse_stt e des_ops pkt len (ps_stt ps))
      else if tid = DCCT_TID then
        map_option (\<lambda>(_, t). seen PSIP_DCCT (ps\<lparr>ps_dcct := t\<rparr>) st) (parse_dcct e des_ops pkt len (ps_dcct ps))
      else if tid = DCCSCT_TID then
        map_option (\<lambda>(_, t). seen PSIP_DCCSCT (ps\<lparr>ps_dccsct := t\<rparr>) st) (parse_dccsct e des_ops pkt len (ps_dccsct ps))
      else Some st) }"

definition psip_seen :: "atsc_state \<Rightarrow> bool" where
  "psip_seen st \<longleftrightarrow> at_seen_mask st \<noteq> 0"

definition zero_mgt :: atsc_mgt_t where
  "zero_mgt = \<lparr>mgt_header = zero_header, mgt_protocol_version = 0, mgt_tables_defined = 0, mgt_tables = None,
     mgt_descriptors_length = 0, mgt_list = []\<rparr>"

definition zero_vct :: atsc_vct_t where
  "zero_vct = \<lparr>vct_header = zero_header, vct_protocol_version = 0, vct_num_channels_in_section = 0, vct_channels = None,
     vct_additional_descriptors_length = 0, vct_list = []\<rparr>"

definition zero_stt :: atsc_stt_t where
  "zero_stt = \<lparr>stt_header = zero_header, stt_protocol_version = 0, stt_system_time = 0, stt_GPS_UTC_offset = 0,
     stt_daylight_saving = 0, stt_list = []\<rparr>"

definition zero_rrt :: atsc_rrt_t where
  "zero_rrt = \<lparr>rrt_header = zero_header, rrt_protocol_version = 0, rrt_rating_region_name_length = 0,
     rrt_rating_region_name_text = zero_mstring, rrt_dimensions_defined = 0, rrt_descriptors_length = 0, rrt_list = []\<rparr>"

definition atsc_init_tables :: atsc_state where
  "atsc_init_tables = \<lparr>at_psip = \<lparr>ps_stt = zero_stt, ps_mgt = zero_mgt, ps_tvct = zero_vct, ps_cvct = zero_vct, ps_rrt = zero_rrt,
     ps_eit = \<lparr>aeit_header = zero_header, aeit_protocol_version = 0, aeit_num_events_in_section = 0, aeit_events = None\<rparr>,
     ps_ett = \<lparr>ett_header = zero_header, ett_protocol_version = 0, ett_ETM_id = 0, ett_extended_text_message = zero_mstring\<rparr>,
     ps_dcct = \<lparr>dcct_header = zero_header, dcct_protocol_version = 0, dcct_test_count = 0, dcct_tests = None,
       dcct_additional_descriptors_length = 0, dcct_list = []\<rparr>,
     ps_dccsct = \<lparr>dccsct_header = zero_header, dccsct_protocol_version = 0, dccsct_updates_defined = 0, dccsct_updates = None,
       dccsct_additional_descriptors_length = 0, dccsct_list = []\<rparr>\<rparr>, at_seen_mask = 0\<rparr>"

section \<open>Arrays on the wire\<close>

text \<open>
  The contract of a step of \<open>read_array\<close>: an entry at the front of the data becomes one element and is
  skipped.
\<close>

locale counted_step =
  fixes z :: 'n and step :: "nat \<Rightarrow> bytes \<Rightarrow> ('n \<times> (int + bytes)) option"
    and enc :: "'w \<Rightarrow> bytes" and node :: "'w \<Rightarrow> 'n" and ok :: "'w \<Rightarrow> bool"
  assumes step_entry: "ok w \<Longrightarrow> step i (enc w @ rest) = Some (node w, Inr rest)"
begin

lemma counted_entries:
  "\<forall>w \<in> set ws. ok w \<Longrightarrow> read_array z step i (length ws) (concat (map enc ws) @ rest) = Some (map node ws, Inr rest)"
  by (induction ws arbitrary: i) (simp_all add: step_entry)

end

subsection \<open>Multiple strings\<close>

record wire_segment =
  ws_compression :: u8
  ws_mode :: u8
  ws_text :: bytes

record wire_lang =
  wl_code :: nat
  wl_segments :: "wire_segment list"

definition enc_segment :: "wire_segment \<Rightarrow> bytes" where
  "enc_segment w = [ws_compression w, ws_mode w, of_nat (length (ws_text w))] @ ws_text w"

definition segment_ok :: "wire_segment \<Rightarrow> bool" where
  "segment_ok w \<longleftrightarrow> length (ws_text w) < 256"

definition segment_node :: "wire_segment \<Rightarrow> string_segment" where
  "segment_node w = \<lparr>sg_compression_type = ws_compression w, sg_mode = ws_mode w,
     sg_number_bytes = of_nat (length (ws_text w)), sg_compressed_string_byte = Some (ws_text w)\<rparr>"

definition enc_lang :: "wire_lang \<Rightarrow> bytes" where
  "enc_lang w = be32 (wl_code w * 2 ^ 8 + length (wl_segments w)) @ concat (map enc_segment (wl_segments w))"

definition lang_ok :: "wire_lang \<Rightarrow> bool" where
  "lang_ok w \<longleftrightarrow> wl_code w < 2 ^ 24 \<and> length (wl_segments w) < 256 \<and> (\<forall>g \<in> set (wl_segments w). segment_ok g)"

definition lang_node :: "wire_lang \<Rightarrow> lang_string" where
  "lang_node w = \<lparr>ls_ISO_639_language_code = of_nat (wl_code w), ls_number_segments = of_nat (length (wl_segments w)),
     ls_segments = Some (map segment_node (wl_segments w))\<rparr>"

definition enc_mstring :: "wire_lang list \<Rightarrow> bytes" where
  "enc_mstring ls = of_nat (length ls) # concat (map enc_lang ls)"

definition mstring_ok :: "wire_lang list \<Rightarrow> bool" where
  "mstring_ok ls \<longleftrightarrow> length ls < 256 \<and> (\<forall>l \<in> set ls. lang_ok l)"

definition mstring_node :: "wire_lang list \<Rightarrow> multiple_string" where
  "mstring_node ls = \<lparr>mst_number_strings = of_nat (length ls), mst_strings = Some (map lang_node ls)\<rparr>"

interpretation seg: counted_step zero_segment "parse_segment (always_ok j)" enc_segment segment_node segment_ok for j
proof
  fix w i rest
  assume "segment_ok w"
  then show "parse_segment (always_ok j) i (enc_segment w @ rest) = Some (segment_node w, Inr rest)"
    by (simp add: parse_segment_def enc_segment_def segment_node_def segment_ok_def uint_of_nat_u8 unat_of_nat_u8
        memcpy_def numeral_3_eq_3)
qed

interpretation lang: counted_step zero_lang "parse_lang (always_ok j)" enc_lang lang_node lang_ok for j
proof
  fix w i rest
  assume "lang_ok w"
  then have ok: "wl_code w < 2 ^ 24" "length (wl_segments w) < 2 ^ 8" "\<forall>g \<in> set (wl_segments w). segment_ok g"
    by (simp_all add: lang_ok_def)
  have u: "unat (of_nat (length (wl_segments w)) :: u32) = length (wl_segments w)"
    using ok(2) by (simp add: unsigned_of_nat take_bit_nat_eq_self)
  show "parse_lang (always_ok j) i (enc_lang w @ rest) = Some (lang_node w, Inr rest)"
    unfolding parse_lang_def enc_lang_def append_assoc read32_fields [OF ok(1,2)]
    by (simp add: u seg.counted_entries [OF ok(3)] lang_node_def)
qed

lemma parse_multi_string_encoded:
  assumes "mstring_ok ls"
  shows "parse_multi_string (always_ok j) (enc_mstring ls @ rest) = Some (int (length (enc_mstring ls)), mstring_node ls)"
  using assms lang.counted_entries [of ls j 0 rest]
  by (simp add: mstring_ok_def parse_multi_string_def enc_mstring_def mstring_node_def unat_of_nat_u8)

lemma free_mstring_node: "mstring_ok ls \<Longrightarrow> free_multi_string (mstring_node ls) = Some ()"
  by (auto simp: free_multi_string_def mstring_node_def lang_node_def free_lang_ok_def list_all_iff dest!: in_set_takeD)

subsection \<open>Tables of the master guide\<close>

record wire_table =
  wt_type :: u16
  wt_pid_res :: nat
  wt_pid :: nat
  wt_ver_res :: nat
  wt_version :: nat
  wt_bytes :: nat
  wt_res :: nat
  wt_descs :: "(u8 \<times> bytes) list"

definition enc_table :: "wire_table \<Rightarrow> bytes" where
  "enc_table w = be16 (unat (wt_type w)) @ be16 (wt_pid_res w * 2 ^ 13 + wt_pid w) @
     [of_nat (wt_ver_res w * 2 ^ 5 + wt_version w)] @ be32 (wt_bytes w) @
     be16 (wt_res w * 2 ^ 12 + length (darea (wt_descs w))) @ darea (wt_descs w)"

definition table_ok :: "(nat \<Rightarrow> u8) \<Rightarrow> (u8 \<Rightarrow> desc_ops) \<Rightarrow> wire_table \<Rightarrow> bool" where
  "table_ok j des_ops w \<longleftrightarrow> wt_pid_res w < 8 \<and> wt_pid w < 2 ^ 13 \<and> wt_ver_res w < 8 \<and> wt_version w < 32 \<and>
     wt_res w < 16 \<and> length (darea (wt_descs w)) < 2 ^ 12 \<and> dok j des_ops (wt_descs w)"

definition table_node :: "(nat \<Rightarrow> u8) \<Rightarrow> (u8 \<Rightarrow> desc_ops) \<Rightarrow> wire_table \<Rightarrow> define_table" where
  "table_node j des_ops w = \<lparr>dt_table_type = wt_type w, dt_table_type_PID = of_nat (wt_pid w),
     dt_version_number = of_nat (wt_version w), dt_number_bytes = of_nat (wt_bytes w),
     dt_descriptors_length = of_nat (length (darea (wt_descs w))), dt_list = dparsed j des_ops (wt_descs w)\<rparr>"

interpretation tab: counted_step zero_define_table "parse_define_table (always_ok j) des_ops" enc_table
  "table_node j des_ops" "table_ok j des_ops" for j des_ops
proof
  fix w i rest
  assume "table_ok j des_ops w"
  then have ok: "wt_pid_res w < 8" "wt_pid w < 2 ^ 13" "wt_ver_res w < 8" "wt_version w < 32" "wt_res w < 16"
    "length (darea (wt_descs w)) < 2 ^ 12" "dok j des_ops (wt_descs w)"
    by (simp_all add: table_ok_def)
  let ?p = "enc_table w @ rest" and ?n = "length (darea (wt_descs w))"
  have d: "drop 2 ?p = be16 (wt_pid_res w * 2 ^ 13 + wt_pid w) @ drop 4 ?p"
    "drop 4 ?p = of_nat (wt_ver_res w * 2 ^ 5 + wt_version w) # drop 5 ?p"
    "drop 5 ?p = be32 (wt_bytes w) @ drop 9 ?p"
    "drop 9 ?p = be16 (wt_res w * 2 ^ 12 + ?n) @ darea (wt_descs w) @ rest"
    "drop 11 ?p = darea (wt_descs w) @ rest" "drop (11 + ?n) ?p = rest"
    by (simp_all add: enc_table_def drop_Cons')
  have r: "TS_READ16 ?p = Some (wt_type w)" "TS_READ16_BITS (drop 2 ?p) 13 3 = Some (of_nat (wt_pid w))"
    "TS_READ8_BITS (drop 4 ?p) 5 3 = Some (of_nat (wt_version w))" "TS_READ32 (drop 5 ?p) = Some (of_nat (wt_bytes w))"
    "TS_READ16_BITS (drop 9 ?p) 12 4 = Some (of_nat ?n)"
    subgoal by (simp add: enc_table_def READ16_be16_unat)
    subgoal unfolding d(1) by (rule read_len) (use ok(1,2) in auto)
    subgoal unfolding d(2) by (rule read_len8 [OF ok(3,4)])
    subgoal unfolding d(3) by (rule READ32_be32)
    subgoal unfolding d(4) by (rule read_len) (use ok(5,6) in auto)
    done
  have u: "uint (of_nat ?n :: u16) = int ?n" "unat (of_nat ?n :: u16) = ?n"
    using ok(6) by (simp_all add: uint_of_nat_len unsigned_of_nat take_bit_nat_eq_self)
  show "parse_define_table (always_ok j) des_ops i ?p = Some (table_node j des_ops w, Inr rest)"
    unfolding parse_define_table_def r u Option.bind_lunit in_node_always_ok d(5,6)
    by (simp add: parse_darea [OF ok(7)] table_node_def)
qed

section \<open>Properties\<close>

lemma rdb_0_append: "p \<noteq> [] \<Longrightarrow> rdb (p @ stuff) 0 = Some (p ! 0)"
  by (cases p) (simp_all add: rdb_def)

lemmas psip_tids = MGT_TID_def TVCT_TID_def CVCT_TID_def RRT_TID_def EIT_TID_def ETT_TID_def STT_TID_def DCCT_TID_def DCCSCT_TID_def

text \<open>
  C30. A master guide table of one section that reaches the callback of the ATSC tables is stored as
  it was written: the tables it announces in order, each with its type, PID, version, size and
  descriptors, and its own descriptors; the table is marked as seen and the other tables stay as
  they were.
\<close>

theorem psip_mgt_roundtrip:
  assumes p: "p = hdr @ [ver] @ be16 (length ws) @ concat (map enc_table ws) @
      be16 (r * 2 ^ 12 + length (darea ds)) @ darea ds @ crc"
    and sz: "length hdr = 8" "length crc = 4" "r < 16" "p ! 0 = MGT_TID"
    and sec: "single_section p" "section_size p = length p" "unat buf_size = length p"
    and ok: "\<forall>w \<in> set ws. table_ok j des_ops w" "dok j des_ops ds"
    and h: "header_ok (mgt_header (ps_mgt (at_psip st)))" "0 \<notin> bitmap_abs (th_bitmap (mgt_header (ps_mgt (at_psip st))))"
  shows "\<exists>mgt. atsc_psip_proc des_ops (always_ok j) pid (p @ stuff) buf_size st =
      Some (st\<lparr>at_psip := at_psip st\<lparr>ps_mgt := mgt\<rparr>, at_seen_mask := at_seen_mask st OR PSIP_MGT\<rparr>) \<and>
    mgt_protocol_version mgt = ver \<and> unat (mgt_tables_defined mgt) = length ws \<and>
    mgt_tables mgt = Some (map (table_node j des_ops) ws) \<and> mgt_list mgt = dparsed j des_ops ds \<and>
    header_ok (mgt_header mgt)"
proof -
  let ?n = "length (darea ds)" and ?e = "concat (map enc_table ws)" and ?r = "be16 (r * 2 ^ 12 + length (darea ds)) @ darea ds @ crc"
  obtain h' t where h': "parse_section_header (always_ok j) (p @ stuff) buf_size (mgt_header (ps_mgt (at_psip st))) = Some (0, h')"
    "blk_bytes (th_data h') = Some (drop 8 p @ t)" "header_ok h'" "length p \<le> 0x400"
    using single_section_body [OF sec h, of j stuff] by metis
  let ?q = "drop 8 p @ t"
  have ne: "p \<noteq> []" using p by simp
  have "length ws \<le> length ?e" by (induction ws) (simp_all add: enc_table_def)
  then have len: "length ws < 65536" "?n < 2 ^ 12" using h'(4) by (simp_all add: p)
  have d: "?q = ver # be16 (length ws) @ ?e @ ?r @ t" "drop 1 ?q = be16 (length ws) @ ?e @ ?r @ t" "drop 3 ?q = ?e @ ?r @ t"
    using sz(1) by (simp_all add: p drop_Cons')
  have r1: "TS_READ8 ?q = Some ver" "TS_READ16 (drop 1 ?q) = Some (of_nat (length ws))"
    unfolding d by (simp_all add: READ16_be16 len)
  define R where R: "R = ?r @ t"
  have r2: "TS_READ16_BITS R 12 4 = Some (of_nat ?n)"
    unfolding R append_assoc by (rule read_len) (use sz(3) len(2) in auto)
  have u: "unat (of_nat (length ws) :: u16) = length ws" "uint (of_nat ?n :: u16) = int ?n"
    using len by (simp_all add: uint_of_nat_len unsigned_of_nat take_bit_nat_eq_self)
  have a: "parse_descriptors (always_ok j) des_ops (drop 2 R) (int ?n) = Some (dparsed j des_ops ds)"
    using parse_darea [OF ok(2)] by (simp add: R)
  have c: "read_array zero_define_table (parse_define_table (always_ok j) des_ops) 0 (length ws) (drop 3 ?q) =
      Some (map (table_node j des_ops) ws, Inr R)"
    unfolding d(3) R by (rule tab.counted_entries [OF ok(1)])
  let ?m = "(ps_mgt (at_psip st))\<lparr>mgt_header := h', mgt_protocol_version := ver, mgt_tables_defined := of_nat (length ws),
     mgt_tables := Some (map (table_node j des_ops) ws), mgt_descriptors_length := of_nat ?n, mgt_list := dparsed j des_ops ds\<rparr>"
  have m: "parse_mgt (always_ok j) des_ops (p @ stuff) buf_size (ps_mgt (at_psip st)) = Some (0, ?m)"
    unfolding parse_mgt_def in_node_always_ok h'(1,2) Option.bind_lunit Let_def prod.case
    by (simp del: append_assoc drop_append One_nat_def add: h'(2) r1 u c rest_of_def r2 a)
  show ?thesis
    unfolding atsc_psip_proc_def rdb_0_append [OF ne] sz(4)
    by (intro exI [of _ ?m]) (simp add: Let_def psip_tids m seen_def u h'(3))
qed

theorem psip_mgt_roundtrip_witness:
  "\<exists>mgt. atsc_psip_proc (\<lambda>_. Reserved) (always_ok (\<lambda>_. 0)) 0x1FFB
      ([0xC7, 0xF0, 25, 0, 0, 0xC1, 0, 0, 0, 0, 1, 1, 0, 0xFD, 0, 0xE3, 0, 0, 1, 2, 0xF0, 0, 0xF0, 0, 1, 2, 3, 4] @ [0xFF]) 28 atsc_init_tables =
      Some (atsc_init_tables\<lparr>at_psip := at_psip atsc_init_tables\<lparr>ps_mgt := mgt\<rparr>,
        at_seen_mask := at_seen_mask atsc_init_tables OR PSIP_MGT\<rparr>) \<and>
    mgt_protocol_version mgt = 0 \<and>
    unat (mgt_tables_defined mgt) =
      length [\<lparr>wt_type = 0x100, wt_pid_res = 7, wt_pid = 0x1D00, wt_ver_res = 7, wt_version = 3, wt_bytes = 258, wt_res = 15, wt_descs = []\<rparr>] \<and>
    mgt_tables mgt = Some (map (table_node (\<lambda>_. 0) (\<lambda>_. Reserved))
      [\<lparr>wt_type = 0x100, wt_pid_res = 7, wt_pid = 0x1D00, wt_ver_res = 7, wt_version = 3, wt_bytes = 258, wt_res = 15, wt_descs = []\<rparr>]) \<and>
    mgt_list mgt = dparsed (\<lambda>_. 0) (\<lambda>_. Reserved) [] \<and> header_ok (mgt_header mgt)"
proof (rule psip_mgt_roundtrip)
  show "[0xC7, 0xF0, 25, 0, 0, 0xC1, 0, 0, 0, 0, 1, 1, 0, 0xFD, 0, 0xE3, 0, 0, 1, 2, 0xF0, 0, 0xF0, 0, 1, 2, 3, 4] =
    [0xC7, 0xF0, 25, 0, 0, 0xC1, 0, 0] @ [0] @
      be16 (length [\<lparr>wt_type = 0x100, wt_pid_res = 7, wt_pid = 0x1D00, wt_ver_res = 7, wt_version = 3, wt_bytes = 258,
        wt_res = 15, wt_descs = []\<rparr>]) @
      concat (map enc_table [\<lparr>wt_type = 0x100, wt_pid_res = 7, wt_pid = 0x1D00, wt_ver_res = 7, wt_version = 3, wt_bytes = 258,
        wt_res = 15, wt_descs = []\<rparr>]) @
      be16 (15 * 2 ^ 12 + length (darea [])) @ darea [] @ [1, 2, 3, 4]"
    by (simp add: be16_def be32_def darea_def enc_table_def)
qed (simp_all add: single_section_def section_size_def dok_def table_ok_def darea_def atsc_init_tables_def zero_mgt_def header_ok_def
      zero_header_def bitmap_abs_zero4 MGT_TID_def)

text \<open>
  C31. An extended text table of one section that reaches the callback is stored with its message:
  every language with its code and, in order, its segments with compression, mode and text; the
  message can be released without following a null pointer.
\<close>

theorem psip_ett_roundtrip:
  assumes p: "p = hdr @ [ver] @ be32 etm @ enc_mstring ls @ crc"
    and sz: "length hdr = 8" "p ! 0 = ETT_TID"
    and sec: "single_section p" "section_size p = length p" "unat buf_size = length p"
    and ok: "mstring_ok ls"
    and h: "header_ok (ett_header (ps_ett (at_psip st)))" "0 \<notin> bitmap_abs (th_bitmap (ett_header (ps_ett (at_psip st))))"
  shows "\<exists>ett. atsc_psip_proc des_ops (always_ok j) pid (p @ stuff) buf_size st =
      Some (st\<lparr>at_psip := at_psip st\<lparr>ps_ett := ett\<rparr>, at_seen_mask := at_seen_mask st OR PSIP_ETT\<rparr>) \<and>
    ett_protocol_version ett = ver \<and> ett_ETM_id ett = of_nat etm \<and> ett_extended_text_message ett = mstring_node ls \<and>
    free_multi_string (ett_extended_text_message ett) = Some () \<and> header_ok (ett_header ett)"
proof -
  obtain h' t where h': "parse_section_header (always_ok j) (p @ stuff) buf_size (ett_header (ps_ett (at_psip st))) = Some (0, h')"
    "blk_bytes (th_data h') = Some (drop 8 p @ t)" "header_ok h'"
    using single_section_body [OF sec h, of j stuff] by metis
  let ?q = "drop 8 p @ t"
  have ne: "p \<noteq> []" using p by simp
  have d: "?q = ver # be32 etm @ enc_mstring ls @ crc @ t" "drop 1 ?q = be32 etm @ enc_mstring ls @ crc @ t"
    "drop 5 ?q = enc_mstring ls @ crc @ t"
    using sz(1) by (simp_all add: p drop_Cons')
  have r: "TS_READ8 ?q = Some ver" "TS_READ32 (drop 1 ?q) = Some (of_nat etm)"
    "parse_multi_string (always_ok j) (drop 5 ?q) = Some (int (length (enc_mstring ls)), mstring_node ls)"
    unfolding d by (simp_all add: READ32_be32 parse_multi_string_encoded [OF ok])
  let ?m = "(ps_ett (at_psip st))\<lparr>ett_header := h', ett_protocol_version := ver, ett_ETM_id := of_nat etm,
     ett_extended_text_message := mstring_node ls\<rparr>"
  have m: "parse_ett (always_ok j) (p @ stuff) buf_size (ps_ett (at_psip st)) = Some (0, ?m)"
    unfolding parse_ett_def in_node_always_ok h'(1) Option.bind_lunit Let_def prod.case
    by (simp del: append_assoc drop_append One_nat_def add: h'(2) r)
  show ?thesis
    unfolding atsc_psip_proc_def rdb_0_append [OF ne] sz(2)
    by (intro exI [of _ ?m]) (simp add: Let_def psip_tids m seen_def free_mstring_node [OF ok] h'(3))
qed

theorem psip_ett_roundtrip_witness:
  "\<exists>ett. atsc_psip_proc (\<lambda>_. Reserved) (always_ok (\<lambda>_. 0)) 0x1FFB
      ([0xCC, 0xF0, 24, 0, 0, 0xC1, 0, 0, 0, 0, 0, 0, 7, 1, 0x65, 0x6E, 0x67, 1, 0, 0, 1, 65, 1, 2, 3, 4, 5] @ [0xFF]) 27 atsc_init_tables =
      Some (atsc_init_tables\<lparr>at_psip := at_psip atsc_init_tables\<lparr>ps_ett := ett\<rparr>,
        at_seen_mask := at_seen_mask atsc_init_tables OR PSIP_ETT\<rparr>) \<and>
    ett_protocol_version ett = 0 \<and> ett_ETM_id ett = of_nat 7 \<and>
    ett_extended_text_message ett =
      mstring_node [\<lparr>wl_code = 0x656E67, wl_segments = [\<lparr>ws_compression = 0, ws_mode = 0, ws_text = [65]\<rparr>]\<rparr>] \<and>
    free_multi_string (ett_extended_text_message ett) = Some () \<and> header_ok (ett_header ett)"
proof (rule psip_ett_roundtrip)
  show "[0xCC, 0xF0, 24, 0, 0, 0xC1, 0, 0, 0, 0, 0, 0, 7, 1, 0x65, 0x6E, 0x67, 1, 0, 0, 1, 65, 1, 2, 3, 4, 5] =
    [0xCC, 0xF0, 24, 0, 0, 0xC1, 0, 0] @ [0] @ be32 7 @
      enc_mstring [\<lparr>wl_code = 0x656E67, wl_segments = [\<lparr>ws_compression = 0, ws_mode = 0, ws_text = [65]\<rparr>]\<rparr>] @ [1, 2, 3, 4, 5]"
    by (simp add: be32_def enc_mstring_def enc_lang_def enc_segment_def)
qed (simp_all add: single_section_def section_size_def mstring_ok_def lang_ok_def segment_ok_def atsc_init_tables_def header_ok_def
      zero_header_def bitmap_abs_zero4 ETT_TID_def)

lemma stt_loop_SomeD:
  assumes "stt_loop e des_ops pdata section_len i l = Some ds"
  shows "\<not> 0 < section_len"
  by (rule stt_loop.raw_induct [where P = "\<lambda>_ _ _ section_len _ _ _. \<not> 0 < section_len", OF _ assms])
     (auto split: if_splits Option.bind_splits)

lemma stt_loop_diverges: "0 < section_len \<Longrightarrow> stt_loop e des_ops pdata section_len i l = None"
  using stt_loop_SomeD by (metis not_None_eq)

lemma stt_section_len:
  fixes v :: u16
  assumes "uint v = int n + 17"
  shows "v - (5 + 4) - 8 = of_nat n"
proof -
  have "v = of_int (int n + 17)" using assms by (metis word_of_int_uint)
  then show ?thesis by simp
qed

text \<open>
  C32. A system time table of one section is stored with its time when it has no descriptors; with
  descriptors, even well-formed ones, the callback never returns.
\<close>

theorem psip_stt_returns:
  assumes p: "p = hdr @ [ver] @ be32 tm @ [gps] @ be16 day @ darea ds @ crc"
    and sz: "length hdr = 8" "length crc = 4" "p ! 0 = STT_TID" "day < 65536"
    and sec: "single_section p" "section_size p = length p" "unat buf_size = length p"
    and h: "header_ok (stt_header (ps_stt (at_psip st)))" "0 \<notin> bitmap_abs (th_bitmap (stt_header (ps_stt (at_psip st))))"
  shows "if ds = [] then \<exists>stt. atsc_psip_proc des_ops (always_ok j) pid (p @ stuff) buf_size st =
        Some (st\<lparr>at_psip := at_psip st\<lparr>ps_stt := stt\<rparr>, at_seen_mask := at_seen_mask st OR PSIP_STT\<rparr>) \<and>
      stt_system_time stt = of_nat tm \<and> stt_GPS_UTC_offset stt = gps \<and> stt_daylight_saving stt = of_nat day \<and> stt_list stt = []
    else atsc_psip_proc des_ops (always_ok j) pid (p @ stuff) buf_size st = None"
proof -
  obtain h' t where h': "parse_section_header (always_ok j) (p @ stuff) buf_size (stt_header (ps_stt (at_psip st))) = Some (0, h')"
    "blk_bytes (th_data h') = Some (drop 8 p @ t)" "uint (th_section_length h') = int (length p) - 3" "length p \<le> 0x400"
    using single_section_body [OF sec h, of j stuff] by metis
  let ?q = "drop 8 p @ t" and ?l = "th_section_length h' - (5 + 4) - 8"
  have ne: "p \<noteq> []" using p by simp
  have lp: "length p = 20 + length (darea ds)" using sz by (simp add: p)
  have l: "?l = of_nat (length (darea ds))"
    by (rule stt_section_len) (simp add: h'(3) lp)
  have d: "?q = ver # be32 tm @ [gps] @ be16 day @ darea ds @ crc @ t" "drop 1 ?q = be32 tm @ [gps] @ be16 day @ darea ds @ crc @ t"
    "drop 5 ?q = gps # be16 day @ darea ds @ crc @ t" "drop 6 ?q = be16 day @ darea ds @ crc @ t"
    using sz(1) by (simp_all add: p drop_Cons')
  have r: "TS_READ8 ?q = Some ver" "TS_READ32 (drop 1 ?q) = Some (of_nat tm)" "TS_READ8 (drop 5 ?q) = Some gps"
    "TS_READ16 (drop 6 ?q) = Some (of_nat day)"
    unfolding d by (simp_all add: READ32_be32 READ16_be16 sz(4))
  have s: "stt_loop (always_ok j) des_ops (drop 8 ?q) ?l 0 [] = (if ds = [] then Some [] else None)"
  proof (cases ds)
    case (Cons x xs)
    then have "0 < length (darea ds)" "length (darea ds) < 2 ^ 16" using h'(4) lp by (simp_all add: darea_def encode_def)
    then have "0 < ?l" unfolding l by (simp add: word_less_nat_alt unsigned_of_nat take_bit_nat_eq_self)
    with Cons show ?thesis by (simp add: stt_loop_diverges)
  next
    case Nil
    then show ?thesis unfolding l by (subst stt_loop.simps) (simp add: darea_def)
  qed
  show ?thesis
    unfolding atsc_psip_proc_def rdb_0_append [OF ne] sz(3)
    by (simp del: append_assoc drop_append One_nat_def
        add: Let_def psip_tids parse_stt_def h'(1,2) r s [simplified] seen_def split: if_splits)
       (intro impI exI conjI, rule refl, simp_all)
qed

theorem psip_stt_returns_witness:
  "atsc_psip_proc (\<lambda>_. Reserved) (always_ok (\<lambda>_. 0)) 0x1FFB
    ([0xCD, 0xF0, 19, 0, 0, 0xC1, 0, 0, 0, 0, 0, 0, 9, 18, 0x60, 0, 0x30, 0, 1, 2, 3, 4] @ [0xFF]) 22 atsc_init_tables = None"
proof -
  have "if [(0x30, []) :: u8 \<times> bytes] = [] then \<exists>stt. atsc_psip_proc (\<lambda>_. Reserved) (always_ok (\<lambda>_. 0)) 0x1FFB
      ([0xCD, 0xF0, 19, 0, 0, 0xC1, 0, 0, 0, 0, 0, 0, 9, 18, 0x60, 0, 0x30, 0, 1, 2, 3, 4] @ [0xFF]) 22 atsc_init_tables =
        Some (atsc_init_tables\<lparr>at_psip := at_psip atsc_init_tables\<lparr>ps_stt := stt\<rparr>,
          at_seen_mask := at_seen_mask atsc_init_tables OR PSIP_STT\<rparr>) \<and>
      stt_system_time stt = of_nat 9 \<and> stt_GPS_UTC_offset stt = 18 \<and> stt_daylight_saving stt = of_nat 0x6000 \<and> stt_list stt = []
    else atsc_psip_proc (\<lambda>_. Reserved) (always_ok (\<lambda>_. 0)) 0x1FFB
      ([0xCD, 0xF0, 19, 0, 0, 0xC1, 0, 0, 0, 0, 0, 0, 9, 18, 0x60, 0, 0x30, 0, 1, 2, 3, 4] @ [0xFF]) 22 atsc_init_tables = None"
  proof (rule psip_stt_returns)
    show "[0xCD, 0xF0, 19, 0, 0, 0xC1, 0, 0, 0, 0, 0, 0, 9, 18, 0x60, 0, 0x30, 0, 1, 2, 3, 4] =
      [0xCD, 0xF0, 19, 0, 0, 0xC1, 0, 0] @ [0] @ be32 9 @ [18] @ be16 0x6000 @ darea [(0x30, [])] @ [1, 2, 3, 4]"
      by (simp add: be32_def be16_def darea_def encode_def)
  qed (simp_all add: single_section_def section_size_def atsc_init_tables_def zero_stt_def header_ok_def
      zero_header_def bitmap_abs_zero4 STT_TID_def)
  then show ?thesis by simp
qed

text \<open>
  A cable virtual channel table with at least one channel writes outside the channel: 112 bytes
  of name are copied to an array of 14.
\<close>

theorem cvct_short_name_overflow:
  assumes p: "p = hdr @ [ver, n] @ rest"
    and sz: "length hdr = 8" "p ! 0 = CVCT_TID" "n \<noteq> 0"
    and sec: "single_section p" "section_size p = length p" "unat buf_size = length p"
    and h: "header_ok (vct_header (ps_cvct (at_psip st)))" "0 \<notin> bitmap_abs (th_bitmap (vct_header (ps_cvct (at_psip st))))"
  shows "atsc_psip_proc des_ops (always_ok j) pid (p @ stuff) buf_size st = None"
proof -
  obtain h' t where h': "parse_section_header (always_ok j) (p @ stuff) buf_size (vct_header (ps_cvct (at_psip st))) = Some (0, h')"
    "blk_bytes (th_data h') = Some (drop 8 p @ t)"
    using single_section_body [OF sec h, of j stuff] by metis
  have ne: "p \<noteq> []" using p by simp
  have d: "drop 8 p = ver # n # rest" using sz(1) by (simp add: p)
  obtain k where k: "unat n = Suc k" using sz(3) by (cases "unat n") (auto simp: unat_eq_0)
  have "parse_channel (always_ok j) des_ops True 0 q = None" for q
    by (simp add: parse_channel_def memcpy_None_overflow zero_channel_def)
  then show ?thesis
    unfolding atsc_psip_proc_def rdb_0_append [OF ne] sz(2)
    by (simp add: Let_def psip_tids parse_vct_def h' d k)
qed

theorem cvct_short_name_overflow_witness:
  "atsc_psip_proc (\<lambda>_. Reserved) (always_ok (\<lambda>_. 0)) 0x1FFB
    ([0xC9, 0xF0, 11, 0, 0, 0xC1, 0, 0, 0, 1, 1, 2, 3, 4] @ [0xFF]) 14 atsc_init_tables = None"
proof (rule cvct_short_name_overflow)
  show "[0xC9, 0xF0, 11, 0, 0, 0xC1, 0, 0, 0, 1, 1, 2, 3, 4] = [0xC9, 0xF0, 11, 0, 0, 0xC1, 0, 0] @ [0, 1] @ [1, 2, 3, 4]" by simp
qed (simp_all add: single_section_def section_size_def atsc_init_tables_def zero_vct_def header_ok_def
      zero_header_def bitmap_abs_zero4 CVCT_TID_def)

end
