(* ===== verification/Subtitle.thy ===== *)
theory Subtitle
  imports Pes Wire
begin

unbundle bit_operations_syntax

text \<open>
  DVB subtitles (\<^verbatim>\<open>src/subtitle.c\<close>, \<^verbatim>\<open>include/subtitle.h\<close>): the decoders of pixel code strings, the
  segments and the parser that the PES layer calls.  An assertion that fails, an access outside an
  array and a loop that never ends are the value \<open>None\<close>.
\<close>

section \<open>Pixel code strings\<close>

text \<open>\<open>*code++ = v\<close> for each of the values: the array and the number of bytes written so far.\<close>

definition emit :: "u8 list \<Rightarrow> bytes \<times> nat \<Rightarrow> (bytes \<times> nat) option" where
  "emit vs out = (case out of (data, c) \<Rightarrow>
     if c + length vs \<le> length data then Some (take c data @ vs @ drop (c + length vs) data, c + length vs) else None)"

text \<open>The read position: the data behind \<open>pdata\<close>, \<open>blen\<close> and the bit offset \<open>off\<close>.\<close>

type_synonym pos = "bytes \<times> nat \<times> nat"

definition CHECK_OFFSET :: "nat \<Rightarrow> pos \<Rightarrow> pos" where
  "CHECK_OFFSET v = (\<lambda>(pdata, blen, off).
     if off + v \<ge> 8 then (drop 1 pdata, blen + 1, (off + v) mod 8) else (pdata, blen, off + v))"

definition bits8 :: "pos \<Rightarrow> nat \<Rightarrow> u8 option" where
  "bits8 = (\<lambda>(pdata, blen, off) n. TS_READ8_BITS pdata n off)"

text \<open>A value of 16 bits is converted when it is stored in a \<open>uint8_t\<close>.\<close>

definition bits16 :: "pos \<Rightarrow> nat \<Rightarrow> u8 option" where
  "bits16 = (\<lambda>(pdata, blen, off) n. map_option ucast (TS_READ16_BITS pdata n off))"

definition whole_byte :: "pos \<Rightarrow> pos" where
  "whole_byte = (\<lambda>(pdata, blen, off). (drop 1 pdata, blen + 1, off))"

text \<open>
  The loop of \<open>read_2bit_pixel_code_string\<close>, one step per turn.  Three of its reads use \<open>pbuf\<close>, the
  start of the string, and nothing in the body sets \<open>end\<close>.
\<close>

definition step2 :: "bytes \<Rightarrow> pos \<times> bytes \<times> nat \<Rightarrow> (pos \<times> bytes \<times> nat) option" where
  "step2 pbuf st = (case st of (p, out) \<Rightarrow> do {
     next_bits \<leftarrow> TS_READ8_BITS pbuf 2 (snd (snd p));
     if next_bits \<noteq> 0 then do {
       out \<leftarrow> emit [next_bits] out;
       Some (CHECK_OFFSET 2 p, out) }
     else do {
       let p = CHECK_OFFSET 2 p;
       switch1 \<leftarrow> bits8 p 1;
       let p = CHECK_OFFSET 1 p;
       if switch1 = 1 then do {
         next_bits \<leftarrow> TS_READ8_BITS pbuf 3 (snd (snd p));
         let p = CHECK_OFFSET 3 p;
         value \<leftarrow> bits8 p 2;
         let p = CHECK_OFFSET 3 p;
         out \<leftarrow> emit (replicate (unat next_bits + 3) value) out;
         Some (p, out) }
       else do {
         switch2 \<leftarrow> bits8 p 1;
         let p = CHECK_OFFSET 1 p;
         if switch2 = 0 then do {
           switch3 \<leftarrow> bits8 p 2;
           let p = CHECK_OFFSET 2 p;
           if switch3 = 2 then do {
             next_bits \<leftarrow> TS_READ8_BITS pbuf 4 (snd (snd p));
             let p = CHECK_OFFSET 4 p;
             value \<leftarrow> bits8 p 2;
             let p = CHECK_OFFSET 2 p;
             out \<leftarrow> emit (replicate (unat next_bits + 12) value) out;
             Some (p, out) }
           else if switch3 = 3 then
             (if snd (snd p) = 0 then do {
                next_bits \<leftarrow> TS_READ8 (fst p);
                let p = whole_byte p;
                value \<leftarrow> bits8 p 2;
                let p = CHECK_OFFSET 2 p;
                out \<leftarrow> emit (replicate (unat next_bits + 29) value) out;
                Some (p, out) }
              else None)
           else Some (p, out) }
         else Some (p, out) } } })"

partial_function (option) loop2 :: "bytes \<Rightarrow> bool \<Rightarrow> pos \<times> bytes \<times> nat \<Rightarrow> (pos \<times> bytes \<times> nat) option" where
  "loop2 pbuf ending st =
     (if \<not> ending then do { st \<leftarrow> step2 pbuf st; loop2 pbuf ending st } else Some st)"

definition aligned :: "pos \<Rightarrow> nat" where
  "aligned = (\<lambda>(pdata, blen, off). if off \<noteq> 0 then blen + 1 else blen)"

definition read_2bit_pixel_code_string :: "bytes \<Rightarrow> bytes \<Rightarrow> (nat \<times> bytes \<times> nat) option" where
  "read_2bit_pixel_code_string pbuf data = do {
     (p, out) \<leftarrow> loop2 pbuf False ((pbuf, 0, 0), data, 0);
     Some (aligned p, out) }"

text \<open>
  The static array \<open>encode\<close> of the two other decoders and its counter: the codes that wait to be
  written, of which there is room for 256.
\<close>

definition remember :: "u8 \<Rightarrow> u8 list \<Rightarrow> u8 list option" where
  "remember v enc = (if length enc < 256 then Some (enc @ [v]) else None)"

definition flush :: "u8 list \<Rightarrow> u8 list" where
  "flush enc =
     (if length enc > 2 then [0, of_nat (length enc)] @ enc @ replicate ((4 - length enc mod 4) mod 4) 0
      else concat (map (\<lambda>v. [1, v]) enc))"

text \<open>One turn of the loop of \<open>read_4bit_pixel_code_string\<close>; the flag says whether \<open>end\<close> was set.\<close>

definition step4 :: "pos \<times> (bytes \<times> nat) \<times> u8 list \<Rightarrow> (bool \<times> pos \<times> (bytes \<times> nat) \<times> u8 list) option" where
  "step4 st = (case st of (p, out, enc) \<Rightarrow> do {
     next_bits \<leftarrow> bits16 p 4;
     let p = CHECK_OFFSET 4 p;
     if next_bits \<noteq> 0 then do {
       enc \<leftarrow> remember next_bits enc;
       out \<leftarrow> emit [next_bits] out;
       Some (False, p, out, enc) }
     else do {
       out \<leftarrow> emit (flush enc) out;
       switch1 \<leftarrow> bits8 p 1;
       let p = CHECK_OFFSET 1 p;
       if switch1 = 0 then do {
         next_bits \<leftarrow> bits16 p 3;
         let p = CHECK_OFFSET 3 p;
         if next_bits \<noteq> 0 then do {
           out \<leftarrow> emit [next_bits + 2, 0] out;
           Some (False, p, out, []) }
         else Some (True, p, out, []) }
       else do {
         switch2 \<leftarrow> bits8 p 1;
         let p = CHECK_OFFSET 1 p;
         if switch2 = 0 then do {
           next_bits \<leftarrow> bits16 p 2;
           let p = CHECK_OFFSET 2 p;
           value \<leftarrow> bits16 p 4;
           let p = CHECK_OFFSET 4 p;
           out \<leftarrow> emit [next_bits + 4, value] out;
           Some (False, p, out, []) }
         else do {
           switch3 \<leftarrow> bits16 p 2;
           let p = CHECK_OFFSET 2 p;
           if switch3 = 2 then do {
             next_bits \<leftarrow> bits16 p 4;
             let p = CHECK_OFFSET 4 p;
             value \<leftarrow> bits16 p 4;
             let p = CHECK_OFFSET 4 p;
             out \<leftarrow> emit [next_bits + 9, value] out;
             Some (False, p, out, []) }
           else if switch3 = 3 then do {
             next_bits \<leftarrow> bits16 p 8;
             let p = whole_byte p;
             value \<leftarrow> bits16 p 4;
             let p = CHECK_OFFSET 4 p;
             out \<leftarrow> emit [next_bits + 25, value] out;
             Some (False, p, out, []) }
           else if switch3 = 0 then do {
             out \<leftarrow> emit [1, 0] out;
             Some (False, p, out, []) }
           else do {
             out \<leftarrow> emit [2, 0] out;
             Some (False, p, out, []) } } } } })"

partial_function (option) loop4 :: "pos \<times> (bytes \<times> nat) \<times> u8 list \<Rightarrow> (pos \<times> (bytes \<times> nat) \<times> u8 list) option" where
  "loop4 st = do { (ending, st) \<leftarrow> step4 st; if ending then Some st else loop4 st }"

definition read_4bit_pixel_code_string :: "bytes \<Rightarrow> bytes \<times> nat \<Rightarrow> u8 list \<Rightarrow> (nat \<times> (bytes \<times> nat) \<times> u8 list) option" where
  "read_4bit_pixel_code_string pbuf out enc = do {
     (p, out, enc) \<leftarrow> loop4 ((pbuf, 0, 0), out, enc);
     Some (aligned p, out, enc) }"

text \<open>
  One turn of the loop of \<open>read_8bit_pixel_code_string\<close>.  A run of more than two zeros writes its
  length and then a zero in the same place; for a shorter one the number of copies is \<open>encode_len\<close>,
  which has just been reset.
\<close>

definition step8 :: "bytes \<times> nat \<times> (bytes \<times> nat) \<times> u8 list \<Rightarrow> (bool \<times> bytes \<times> nat \<times> (bytes \<times> nat) \<times> u8 list) option" where
  "step8 st = (case st of (pdata, blen, out, enc) \<Rightarrow> do {
     next_bits \<leftarrow> TS_READ8 pdata;
     if next_bits \<noteq> 0 then do {
       enc \<leftarrow> remember next_bits enc;
       Some (False, drop 1 pdata, blen + 1, out, enc) }
     else do {
       out \<leftarrow> emit (flush enc) out;
       switch1 \<leftarrow> TS_READ8_BITS (drop 1 pdata) 1 0;
       if switch1 = 0 then do {
         next_bits \<leftarrow> TS_READ8_BITS (drop 1 pdata) 7 1;
         if next_bits \<noteq> 0 then do {
           out \<leftarrow> (if next_bits > 2 then emit [0] out else emit [] out);
           Some (False, drop 2 pdata, blen + 2, out, []) }
         else Some (True, drop 2 pdata, blen + 2, out, []) }
       else do {
         next_bits \<leftarrow> TS_READ8_BITS (drop 1 pdata) 7 1;
         value \<leftarrow> TS_READ8 (drop 2 pdata);
         out \<leftarrow> emit [next_bits, value] out;
         Some (False, drop 3 pdata, blen + 3, out, []) } } })"

partial_function (option) loop8 ::
  "bytes \<times> nat \<times> (bytes \<times> nat) \<times> u8 list \<Rightarrow> (bytes \<times> nat \<times> (bytes \<times> nat) \<times> u8 list) option" where
  "loop8 st = do { (ending, st) \<leftarrow> step8 st; if ending then Some st else loop8 st }"

definition read_8bit_pixel_code_string :: "bytes \<Rightarrow> bytes \<Rightarrow> u8 list \<Rightarrow> (nat \<times> (bytes \<times> nat) \<times> u8 list) option" where
  "read_8bit_pixel_code_string pbuf data enc = do {
     (_, blen, out, enc) \<leftarrow> loop8 (pbuf, 0, (data, 0), enc);
     Some (blen, out, enc) }"

text \<open>The static variables of the decoders: the codes that wait in each.\<close>

record pix_static =
  enc4 :: "u8 list"
  enc8 :: "u8 list"

definition no_codes :: pix_static where
  "no_codes = \<lparr>enc4 = [], enc8 = []\<rparr>"

text \<open>
  The map tables are read and dropped; when their memory is missing, the error code is taken as a
  length.
\<close>

definition read_table :: "bytes \<Rightarrow> nat \<Rightarrow> unit option" where
  "read_table p n = (if n \<le> length p then Some () else None)"

definition read_pixel_data_sub_block ::
  "alloc_env \<Rightarrow> bytes \<Rightarrow> bytes \<times> nat \<Rightarrow> pix_static \<Rightarrow> (nat \<times> (bytes \<times> nat) \<times> pix_static) option" where
  "read_pixel_data_sub_block e pbuf out stt = do {
     data_type \<leftarrow> TS_READ8 pbuf;
     let pdata = drop 1 pbuf;
     if data_type = 0x10 then do {
       (n, out) \<leftarrow> read_2bit_pixel_code_string pdata (fst out);
       Some (1 + n, out, stt) }
     else if data_type = 0x11 then do {
       (n, out, enc) \<leftarrow> read_4bit_pixel_code_string pdata out (enc4 stt);
       Some (1 + n, out, stt\<lparr>enc4 := enc\<rparr>) }
     else if data_type = 0x12 then do {
       (n, out, enc) \<leftarrow> read_8bit_pixel_code_string pdata (fst out) (enc8 stt);
       Some (1 + n, out, stt\<lparr>enc8 := enc\<rparr>) }
     else if data_type \<in> {0x20, 0x21, 0x22} then
       (if \<not> mok e 0 then Some (nat ENOMEM, out, stt)
        else do {
          let n = (if data_type = 0x20 then 2 else if data_type = 0x21 then 4 else 16);
          _ \<leftarrow> read_table pdata n;
          Some (1 + n, out, stt) })
     else if data_type = 0xf0 then do {
       out \<leftarrow> emit [0, 0] out;
       Some (1, out, stt) }
     else Some (1, out, stt) }"

section \<open>Segments\<close>

definition page_composition_segment :: u8 where "page_composition_segment = 0x10"
definition region_composition_segment :: u8 where "region_composition_segment = 0x11"
definition CLUT_definition_segment :: u8 where "CLUT_definition_segment = 0x12"
definition object_data_segment :: u8 where "object_data_segment = 0x13"
definition display_definition_segment :: u8 where "display_definition_segment = 0x14"
definition disparity_signalling_segment :: u8 where "disparity_signalling_segment = 0x15"
definition alternative_CLUT_segment :: u8 where "alternative_CLUT_segment = 0x16"
definition end_of_display_set_segment :: u8 where "end_of_display_set_segment = 0x80"
definition SUBTITLE_SYNC_BYTE :: u8 where "SUBTITLE_SYNC_BYTE = 0x0F"

record segment_header =
  sh_sync_byte :: u8
  sh_segment_type :: u8
  sh_page_id :: u16
  sh_segment_length :: u16

record display_window =
  horizontal_position_minimum :: u16
  horizontal_position_maximum :: u16
  vertical_position_minimum :: u16
  vertical_position_maximum :: u16

record display_definition =
  dds_version_number :: u8
  display_window_flag :: u8
  display_width :: u16
  display_height :: u16
  dds_window :: display_window

record region =
  rg_region_id :: u8
  rg_horizontal_address :: u16
  rg_vertical_address :: u16

record page_composition =
  pcs_page_time_out :: u8
  pcs_page_version_number :: u8
  pcs_page_state :: u8
  pcs_n_region :: nat
  pcs_region :: "region list"

record sub_object =
  ob_object_id :: u16
  ob_object_type :: u16
  ob_provider_flag :: u16
  ob_horizontal_position :: u16
  ob_vertical_position :: u16
  ob_foreground_pixel_code :: u8
  ob_background_pixel_code :: u8

record region_composition =
  rcs_region_id :: u8
  rcs_region_version_number :: u8
  rcs_region_fill_flag :: u8
  rcs_region_width :: u16
  rcs_region_height :: u16
  rcs_level_of_compatibility :: u8
  rcs_region_depth :: u8
  rcs_CLUT_id :: u8
  rcs_8bit_pixel_code :: u8
  rcs_4bit_pixel_code :: u8
  rcs_2bit_pixel_code :: u8
  rcs_n_objs :: nat
  rcs_object :: "sub_object list"

record clut =
  cl_entry_id :: u8
  cl_2bit_flag :: u8
  cl_4bit_flag :: u8
  cl_8bit_flag :: u8
  cl_full_range_flag :: u8
  cl_Y :: u8
  cl_Cr :: u8
  cl_Cb :: u8
  cl_T :: u8

record CLUT_definition =
  cds_CLUT_id :: u8
  cds_CLUT_version_number :: u8
  cds_n_cluts :: nat
  cds_cluts :: "clut list"

record progressive_pixel_block =
  pp_bitmap_width :: u16
  pp_bitmap_height :: u16
  pp_compressed_data_block_length :: u16
  pp_compressed_bitmap_data_byte :: bytes

text \<open>The union of \<open>struct object_data_segment\<close>; a field is its block length, its data, the bytes decoded and the blocks.\<close>

record field_data =
  fd_block_length :: u16
  fd_data :: bytes
  fd_dec_len :: nat
  fd_num :: nat

datatype object_data = Fields field_data field_data | Codes u8 "u16 list" | Progressive progressive_pixel_block | No_object

record object_segment =
  ods_object_id :: u8
  ods_object_version_number :: u8
  ods_object_coding_method :: u8
  ods_non_modifying_colour_flag :: u8
  ods_data :: object_data

record division_period =
  dp_interval_count :: u8
  dp_shift_update_integer_part :: u8

record disparity_shift_update_sequence =
  du_length :: u8
  du_interval_duration :: u32
  du_division_period_count :: u32
  du_period :: "division_period list"

record sub_region =
  sr_horizontal_position :: u16
  sr_width :: u16
  sr_shift_integer_part :: u8
  sr_shift_fractional_part :: u8
  sr_sub_sequence :: disparity_shift_update_sequence

record disparity_region =
  dr_region_id :: u8
  dr_sequence_region_flag :: u8
  dr_number_of_subregions_minus_1 :: u8
  dr_subregions :: "sub_region list"

record disparity_signalling =
  dss_version_number :: u8
  dss_sequence_page_flag :: u8
  dss_page_default_disparity_shift :: u8
  dss_sequence :: disparity_shift_update_sequence
  dss_n_regions :: nat
  dss_regions :: "disparity_region list"

record aclut =
  ac_luma :: u16
  ac_chroma1 :: u16
  ac_chroma2 :: u16
  ac_T :: u16

record alternative_CLUT =
  acs_CLUT_id :: u8
  acs_CLUT_version_number :: u8
  acs_CLUT_entry_max_number :: u8
  acs_colour_component_type :: u8
  acs_output_bit_depth :: u8
  acs_dynamic_range_and_colour_gamut :: u8
  acs_n_cluts :: nat
  acs_cluts :: "aclut list"

text \<open>What \<open>segment.data\<close> points to; \<open>Null_data\<close> is the null pointer.\<close>

datatype segment_data = Null_data | Display display_definition | Page page_composition | Region region_composition
  | Clut CLUT_definition | Object object_segment | Disparity disparity_signalling | Alt_clut alternative_CLUT

record segment_node =
  sn_header :: segment_header
  sn_data :: segment_data

record subtitle_pes_data =
  sub_data_identifier :: u8
  sub_stream_id :: u8
  seg_list :: "segment_node list"

definition parse_subtitle_segment_header :: "bytes \<Rightarrow> (nat \<times> segment_header) option" where
  "parse_subtitle_segment_header pbuf = do {
     sync \<leftarrow> TS_READ8 pbuf;
     if sync \<noteq> 0x0F then None
     else do {
       ty \<leftarrow> TS_READ8 (drop 1 pbuf);
       page \<leftarrow> TS_READ16 (drop 2 pbuf);
       len \<leftarrow> TS_READ16 (drop 4 pbuf);
       Some (6, \<lparr>sh_sync_byte = sync, sh_segment_type = ty, sh_page_id = page, sh_segment_length = len\<rparr>) } }"

text \<open>
  The parsers of the segments give the length \<open>slen\<close> they have read and the data, or, when memory is
  missing, the error code, which the caller takes as a length, and the data so far.
\<close>

definition parse_display :: "alloc_env \<Rightarrow> bytes \<Rightarrow> (nat \<times> segment_data) option" where
  "parse_display e pdata =
     (if \<not> mok e 0 then Some (nat ENOMEM, Null_data)
      else do {
        v \<leftarrow> TS_READ8_BITS pdata 4 0;
        flag \<leftarrow> TS_READ8_BITS pdata 1 4;
        w \<leftarrow> TS_READ16 (drop 1 pdata);
        h \<leftarrow> TS_READ16 (drop 3 pdata);
        win \<leftarrow> (if flag \<noteq> 0 then do {
                  a \<leftarrow> TS_READ16 (drop 5 pdata); b \<leftarrow> TS_READ16 (drop 7 pdata);
                  c \<leftarrow> TS_READ16 (drop 9 pdata); d \<leftarrow> TS_READ16 (drop 11 pdata);
                  Some \<lparr>horizontal_position_minimum = a, horizontal_position_maximum = b,
                        vertical_position_minimum = c, vertical_position_maximum = d\<rparr> }
                else Some \<lparr>horizontal_position_minimum = 0, horizontal_position_maximum = 0,
                           vertical_position_minimum = 0, vertical_position_maximum = 0\<rparr>);
        Some (if flag \<noteq> 0 then 13 else 5,
              Display \<lparr>dds_version_number = v, display_window_flag = flag, display_width = w, display_height = h,
                       dds_window = win\<rparr>) })"

text \<open>The array of regions has \<open>k\<close> entries; the entries written so far are \<open>rs\<close>.\<close>

function (sequential) region_loop :: "nat \<Rightarrow> nat \<Rightarrow> nat \<Rightarrow> bytes \<Rightarrow> region list \<Rightarrow> (nat \<times> region list) option" where
  "region_loop k segment_length slen pdata rs =
     (if slen < segment_length then
        (if length rs < k then do {
           rid \<leftarrow> TS_READ8 pdata;
           h \<leftarrow> TS_READ16 (drop 2 pdata);
           v \<leftarrow> TS_READ16 (drop 4 pdata);
           region_loop k segment_length (slen + 6) (drop 6 pdata)
             (rs @ [\<lparr>rg_region_id = rid, rg_horizontal_address = h, rg_vertical_address = v\<rparr>]) }
         else None)
      else Some (slen, rs))"
  by pat_completeness auto
termination by (relation "measure (\<lambda>(k, l, slen, p, rs). l - slen)") auto

definition parse_page :: "alloc_env \<Rightarrow> nat \<Rightarrow> bytes \<Rightarrow> (nat \<times> segment_data) option" where
  "parse_page e segment_length pdata =
     (if \<not> mok e 0 then Some (nat ENOMEM, Null_data)
      else do {
        t \<leftarrow> TS_READ8 pdata;
        v \<leftarrow> TS_READ8_BITS (drop 1 pdata) 4 0;
        s \<leftarrow> TS_READ8_BITS (drop 1 pdata) 2 4;
        let pcs = \<lparr>pcs_page_time_out = t, pcs_page_version_number = v, pcs_page_state = s, pcs_n_region = 0, pcs_region = []\<rparr>;
        if \<not> mok e 1 then Some (nat ENOMEM, Page pcs)
        else do {
          (slen, rs) \<leftarrow> region_loop ((segment_length - 2) div 6) segment_length 2 (drop 2 pdata) [];
          Some (slen, Page (pcs\<lparr>pcs_n_region := length rs, pcs_region := rs\<rparr>)) } })"

function (sequential) object_loop :: "alloc_env \<Rightarrow> nat \<Rightarrow> nat \<Rightarrow> bytes \<Rightarrow> sub_object list \<Rightarrow> (bool \<times> nat \<times> sub_object list) option" where
  "object_loop e segment_length slen pdata os =
     (if slen < segment_length then
        (if \<not> mok e (length os) then Some (False, slen, os)
         else do {
           oid \<leftarrow> TS_READ16 pdata;
           ty \<leftarrow> TS_READ16_BITS (drop 2 pdata) 2 0;
           pf \<leftarrow> TS_READ16_BITS (drop 2 pdata) 2 2;
           hp \<leftarrow> TS_READ16_BITS (drop 2 pdata) 12 4;
           vp \<leftarrow> TS_READ16_BITS (drop 4 pdata) 12 4;
           let coded = (ty = 0x01 \<or> ty = 0x02);
           fg \<leftarrow> (if coded then TS_READ8 (drop 6 pdata) else Some 0);
           bg \<leftarrow> (if coded then TS_READ8 (drop 7 pdata) else Some 0);
           let n = (if coded then 8 else 6);
           object_loop e segment_length (slen + n) (drop n pdata)
             (os @ [\<lparr>ob_object_id = oid, ob_object_type = ty, ob_provider_flag = pf, ob_horizontal_position = hp,
                     ob_vertical_position = vp, ob_foreground_pixel_code = fg, ob_background_pixel_code = bg\<rparr>]) })
      else Some (True, slen, os))"
  by pat_completeness auto
termination by (relation "measure (\<lambda>(e, l, slen, p, os). l - slen)") auto

definition parse_region :: "alloc_env \<Rightarrow> nat \<Rightarrow> bytes \<Rightarrow> (nat \<times> segment_data) option" where
  "parse_region e segment_length pdata =
     (if \<not> mok e 0 then Some (nat ENOMEM, Null_data)
      else do {
        rid \<leftarrow> TS_READ8 pdata;
        v \<leftarrow> TS_READ8_BITS (drop 1 pdata) 4 0;
        fill \<leftarrow> TS_READ8_BITS (drop 1 pdata) 1 4;
        w \<leftarrow> TS_READ16 (drop 2 pdata);
        h \<leftarrow> TS_READ16 (drop 4 pdata);
        lev \<leftarrow> TS_READ8_BITS (drop 6 pdata) 3 0;
        dep \<leftarrow> TS_READ8_BITS (drop 6 pdata) 3 3;
        cid \<leftarrow> TS_READ8 (drop 7 pdata);
        p8 \<leftarrow> TS_READ8 (drop 8 pdata);
        p4 \<leftarrow> TS_READ8_BITS (drop 9 pdata) 4 0;
        p2 \<leftarrow> TS_READ8_BITS (drop 9 pdata) 2 4;
        (ok, slen, os) \<leftarrow> object_loop (in_node e 0) segment_length 10 (drop 10 pdata) [];
        Some (if ok then slen else nat ENOMEM,
              Region \<lparr>rcs_region_id = rid, rcs_region_version_number = v, rcs_region_fill_flag = fill, rcs_region_width = w,
                rcs_region_height = h, rcs_level_of_compatibility = lev, rcs_region_depth = dep, rcs_CLUT_id = cid,
                rcs_8bit_pixel_code = p8, rcs_4bit_pixel_code = p4, rcs_2bit_pixel_code = p2,
                rcs_n_objs = (if ok then length os else 0), rcs_object = os\<rparr>) })"

function (sequential) clut_loop :: "alloc_env \<Rightarrow> nat \<Rightarrow> nat \<Rightarrow> bytes \<Rightarrow> clut list \<Rightarrow> (bool \<times> nat \<times> clut list) option" where
  "clut_loop e segment_length slen pdata cs =
     (if slen < segment_length then
        (if \<not> mok e (length cs) then Some (False, slen, cs)
         else do {
           eid \<leftarrow> TS_READ8 pdata;
           f2 \<leftarrow> TS_READ8_BITS (drop 1 pdata) 1 0;
           f4 \<leftarrow> TS_READ8_BITS (drop 1 pdata) 1 1;
           f8 \<leftarrow> TS_READ8_BITS (drop 1 pdata) 1 2;
           full \<leftarrow> TS_READ8_BITS (drop 1 pdata) 1 7;
           y \<leftarrow> (if full \<noteq> 0 then TS_READ8 (drop 2 pdata) else map_option ucast (TS_READ16_BITS (drop 2 pdata) 6 0));
           cr \<leftarrow> (if full \<noteq> 0 then TS_READ8 (drop 3 pdata) else map_option ucast (TS_READ16_BITS (drop 2 pdata) 4 6));
           cb \<leftarrow> (if full \<noteq> 0 then TS_READ8 (drop 4 pdata) else map_option ucast (TS_READ16_BITS (drop 2 pdata) 4 10));
           t \<leftarrow> (if full \<noteq> 0 then TS_READ8 (drop 5 pdata) else map_option ucast (TS_READ16_BITS (drop 2 pdata) 2 14));
           let n = (if full \<noteq> 0 then 6 else 4);
           clut_loop e segment_length (slen + n) (drop n pdata)
             (cs @ [\<lparr>cl_entry_id = eid, cl_2bit_flag = f2, cl_4bit_flag = f4, cl_8bit_flag = f8, cl_full_range_flag = full,
                     cl_Y = y, cl_Cr = cr, cl_Cb = cb, cl_T = t\<rparr>]) })
      else Some (True, slen, cs))"
  by pat_completeness auto
termination by (relation "measure (\<lambda>(e, l, slen, p, cs). l - slen)") auto

definition parse_clut :: "alloc_env \<Rightarrow> nat \<Rightarrow> bytes \<Rightarrow> (nat \<times> segment_data) option" where
  "parse_clut e segment_length pdata =
     (if \<not> mok e 0 then Some (nat ENOMEM, Null_data)
      else do {
        cid \<leftarrow> TS_READ8 pdata;
        v \<leftarrow> TS_READ8_BITS (drop 1 pdata) 4 0;
        (ok, slen, cs) \<leftarrow> clut_loop (in_node e 0) segment_length 2 (drop 2 pdata) [];
        Some (if ok then slen else nat ENOMEM,
              Clut \<lparr>cds_CLUT_id = cid, cds_CLUT_version_number = v, cds_n_cluts = (if ok then length cs else 0), cds_cluts = cs\<rparr>) })"

text \<open>
  The blocks of a field, from position \<open>done_len\<close> of \<open>pdata\<close>: the position behind the last block,
  the decoded data and the number of blocks.
\<close>

partial_function (option) field_loop ::
  "alloc_env \<Rightarrow> bytes \<Rightarrow> nat \<Rightarrow> nat \<Rightarrow> bytes \<times> nat \<Rightarrow> nat \<Rightarrow> pix_static \<Rightarrow> (nat \<times> (bytes \<times> nat) \<times> nat \<times> pix_static) option" where
  "field_loop e pdata block_length done_len out i stt =
     (if done_len < block_length then do {
        (n, out, stt) \<leftarrow> read_pixel_data_sub_block (in_node e i) (drop done_len pdata) out stt;
        field_loop e pdata block_length (done_len + n) out (Suc i) stt }
      else Some (done_len, out, i, stt))"

text \<open>The two fields; without memory the error code is the length.\<close>

definition empty_field :: "u16 \<Rightarrow> field_data" where
  "empty_field n = \<lparr>fd_block_length = n, fd_data = [], fd_dec_len = 0, fd_num = 0\<rparr>"

definition parse_field ::
  "alloc_env \<Rightarrow> nat \<Rightarrow> bytes \<Rightarrow> u16 \<Rightarrow> pix_static \<Rightarrow> ((nat \<times> field_data) option \<times> pix_static) option" where
  "parse_field e k pdata len stt =
     (if len \<noteq> 0 \<and> \<not> mok e k then Some (None, stt)
      else do {
        (n, out, i, stt) \<leftarrow> field_loop (in_node e k) pdata (unat len) 0 (replicate (4 * unat len) 0, 0) 0 stt;
        if n = unat len then Some (Some (n, \<lparr>fd_block_length = len, fd_data = fst out, fd_dec_len = snd out, fd_num = i\<rparr>), stt)
        else None })"

definition parse_fields ::
  "alloc_env \<Rightarrow> nat \<Rightarrow> bytes \<Rightarrow> pix_static \<Rightarrow> ((nat option \<times> object_data) \<times> pix_static) option" where
  "parse_fields e segment_length pdata stt = do {
     t \<leftarrow> TS_READ16 pdata;
     b \<leftarrow> TS_READ16 (drop 2 pdata);
     (r, stt) \<leftarrow> parse_field e 1 (drop 4 pdata) t stt;
     (case r of
        None \<Rightarrow> Some ((None, Fields (empty_field t) (empty_field b)), stt)
      | Some (n_top, top_fd) \<Rightarrow> do {
          (r, stt) \<leftarrow> parse_field e 2 (drop (4 + n_top) pdata) b stt;
          (case r of
             None \<Rightarrow> Some ((None, Fields top_fd (empty_field b)), stt)
           | Some (n_bot, bot_fd) \<Rightarrow>
               if int segment_length - 7 - int n_top - int n_bot \<le> 1
               then Some ((Some (4 + n_top + n_bot + (if (n_top + n_bot) mod 2 = 0 then 1 else 0)), Fields top_fd bot_fd), stt)
               else None) }) }"

text \<open>
  The character codes: \<open>calloc(number_of_codes, 1)\<close> gives one byte for each code, while a code takes
  two, and the data pointer does not move.
\<close>

fun codes_loop :: "nat \<Rightarrow> bytes \<Rightarrow> nat \<Rightarrow> u16 list \<Rightarrow> u16 list option" where
  "codes_loop room pdata 0 cs = Some cs"
| "codes_loop room pdata (Suc k) cs =
     (if 2 * length cs + 2 \<le> room then do { c \<leftarrow> TS_READ8 pdata; codes_loop room pdata k (cs @ [ucast c]) } else None)"

definition parse_codes :: "alloc_env \<Rightarrow> bytes \<Rightarrow> (nat option \<times> object_data) option" where
  "parse_codes e pdata = do {
     n \<leftarrow> TS_READ8 pdata;
     if \<not> mok e 1 then Some (None, Codes n [])
     else do {
       cs \<leftarrow> codes_loop (unat n) (drop 1 pdata) (unat n) [];
       Some (Some 1, Codes n cs) } }"

definition parse_progressive :: "alloc_env \<Rightarrow> bytes \<Rightarrow> (nat option \<times> object_data) option" where
  "parse_progressive e pdata = do {
     w \<leftarrow> TS_READ16 pdata;
     h \<leftarrow> TS_READ16 (drop 2 pdata);
     n \<leftarrow> TS_READ16 (drop 4 pdata);
     let pb = \<lparr>pp_bitmap_width = w, pp_bitmap_height = h, pp_compressed_data_block_length = n, pp_compressed_bitmap_data_byte = []\<rparr>;
     if \<not> mok e 1 then Some (None, Progressive pb)
     else if unat n \<le> length (drop 6 pdata)
     then Some (Some (6 + unat n), Progressive (pb\<lparr>pp_compressed_bitmap_data_byte := take (unat n) (drop 6 pdata)\<rparr>))
     else None }"

definition parse_object :: "alloc_env \<Rightarrow> nat \<Rightarrow> bytes \<Rightarrow> pix_static \<Rightarrow> ((nat \<times> segment_data) \<times> pix_static) option" where
  "parse_object e segment_length pdata stt =
     (if \<not> mok e 0 then Some ((nat ENOMEM, Null_data), stt)
      else do {
        oid \<leftarrow> TS_READ16 pdata;
        v \<leftarrow> TS_READ8_BITS (drop 2 pdata) 4 0;
        m \<leftarrow> TS_READ8_BITS (drop 2 pdata) 2 4;
        nm \<leftarrow> TS_READ8_BITS (drop 2 pdata) 1 6;
        ((r, d), stt) \<leftarrow>
          (if m = 0 then parse_fields e segment_length (drop 3 pdata) stt
           else if m = 1 then map_option (\<lambda>x. (x, stt)) (parse_codes e (drop 3 pdata))
           else if m = 2 then map_option (\<lambda>x. (x, stt)) (parse_progressive e (drop 3 pdata))
           else Some ((Some 0, No_object), stt));
        Some ((case r of None \<Rightarrow> nat ENOMEM | Some n \<Rightarrow> 3 + n,
               Object \<lparr>ods_object_id = ucast oid, ods_object_version_number = v, ods_object_coding_method = m,
                 ods_non_modifying_colour_flag = nm, ods_data = d\<rparr>), stt) })"

text \<open>\<open>k\<close> entries for periods, of which \<open>n\<close> are written.\<close>

fun periods_loop :: "nat \<Rightarrow> nat \<Rightarrow> bytes \<Rightarrow> division_period list \<Rightarrow> division_period list option" where
  "periods_loop k 0 pdata ps = Some ps"
| "periods_loop k (Suc n) pdata ps =
     (if length ps < k then do {
        c \<leftarrow> TS_READ8 pdata;
        s \<leftarrow> TS_READ8 (drop 1 pdata);
        periods_loop k n (drop 2 pdata) (ps @ [\<lparr>dp_interval_count = c, dp_shift_update_integer_part = s\<rparr>]) }
      else None)"

definition zero_sequence :: disparity_shift_update_sequence where
  "zero_sequence = \<lparr>du_length = 0, du_interval_duration = 0, du_division_period_count = 0, du_period = []\<rparr>"

text \<open>
  A sequence of updates: the number of periods read is its own count for the page, and the count of
  the page for a subregion.
\<close>

definition parse_sequence ::
  "bool \<Rightarrow> u32 option \<Rightarrow> bytes \<Rightarrow> (nat option \<times> disparity_shift_update_sequence) option" where
  "parse_sequence mem page_count pdata = do {
     l \<leftarrow> TS_READ8 pdata;
     d \<leftarrow> TS_READ32_BITS (drop 1 pdata) 24 0;
     c \<leftarrow> TS_READ32_BITS (drop 1 pdata) 8 24;
     let s = \<lparr>du_length = l, du_interval_duration = d, du_division_period_count = c, du_period = []\<rparr>;
     if \<not> mem then Some (None, s)
     else do {
       let n = unat (case page_count of None \<Rightarrow> c | Some m \<Rightarrow> m);
       ps \<leftarrow> periods_loop (unat c) n (drop 5 pdata) [];
       Some (Some (5 + 2 * n), s\<lparr>du_period := ps\<rparr>) } }"

text \<open>The subregions of a region; the last component is \<open>False\<close> when memory was missing.\<close>

fun subregion_loop ::
  "alloc_env \<Rightarrow> nat \<Rightarrow> bool \<Rightarrow> disparity_signalling \<Rightarrow> nat \<Rightarrow> bytes \<Rightarrow> (nat \<times> sub_region list \<times> bool) option" where
  "subregion_loop e 0 many dss i pdata = Some (0, [], True)"
| "subregion_loop e (Suc k) many dss i pdata = do {
     h \<leftarrow> (if many then TS_READ16 pdata else Some 0);
     w \<leftarrow> (if many then TS_READ16 (drop 2 pdata) else Some 0);
     let m = (if many then 4 else 0);
     int_part \<leftarrow> TS_READ8 (drop m pdata);
     frac \<leftarrow> TS_READ8_BITS (drop (m + 1) pdata) 4 0;
     (r, s) \<leftarrow> (if dss_sequence_page_flag dss = 1
               then parse_sequence (mok e i) (Some (du_division_period_count (dss_sequence dss))) (drop (m + 2) pdata)
               else Some (Some 0, zero_sequence));
     let sr = \<lparr>sr_horizontal_position = h, sr_width = w, sr_shift_integer_part = int_part,
               sr_shift_fractional_part = frac, sr_sub_sequence = s\<rparr>;
     (case r of
        None \<Rightarrow> Some (0, [sr], False)
      | Some n \<Rightarrow> do {
          (slen, srs, ok) \<leftarrow> subregion_loop e k many dss (Suc i) (drop (m + 2 + n) pdata);
          Some (m + 2 + n + slen, sr # srs, ok) }) }"

text \<open>The byte with the flags of a region is read but not passed.\<close>

function (sequential) disparity_loop ::
  "alloc_env \<Rightarrow> nat \<Rightarrow> disparity_signalling \<Rightarrow> nat \<Rightarrow> bytes \<Rightarrow> disparity_region list \<Rightarrow>
   (bool \<times> nat \<times> disparity_region list) option" where
  "disparity_loop e segment_length dss slen pdata rs =
     (if slen < segment_length then
        (if \<not> mok e (2 * length rs) then Some (False, slen, rs)
         else do {
           rid \<leftarrow> TS_READ8 pdata;
           f \<leftarrow> TS_READ8_BITS (drop 1 pdata) 1 0;
           k \<leftarrow> TS_READ8_BITS (drop 1 pdata) 1 6;
           let r = \<lparr>dr_region_id = rid, dr_sequence_region_flag = f, dr_number_of_subregions_minus_1 = k, dr_subregions = []\<rparr>;
           if \<not> mok e (2 * length rs + 1) then Some (False, slen, rs @ [r])
           else do {
             (n, srs, ok) \<leftarrow> subregion_loop (in_node e (length rs)) (unat k + 1) (k \<noteq> 0) dss 0 (drop 1 pdata);
             if \<not> ok then Some (False, slen, rs @ [r\<lparr>dr_subregions := srs\<rparr>])
             else disparity_loop e segment_length dss (slen + 1 + n) (drop (1 + n) pdata) (rs @ [r\<lparr>dr_subregions := srs\<rparr>]) } })
      else Some (True, slen, rs))"
  by pat_completeness auto
termination by (relation "measure (\<lambda>(e, l, dss, slen, pdata, rs). l - slen)") auto

definition parse_disparity :: "alloc_env \<Rightarrow> nat \<Rightarrow> bytes \<Rightarrow> (nat \<times> segment_data) option" where
  "parse_disparity e segment_length pdata =
     (if \<not> mok e 0 then Some (nat ENOMEM, Null_data)
      else do {
        v \<leftarrow> TS_READ8_BITS pdata 4 0;
        f \<leftarrow> TS_READ8_BITS pdata 1 4;
        sh \<leftarrow> TS_READ8 (drop 1 pdata);
        (r, s) \<leftarrow> (if f = 1 then parse_sequence (mok e 1) None (drop 2 pdata) else Some (Some 0, zero_sequence));
        let dss = \<lparr>dss_version_number = v, dss_sequence_page_flag = f, dss_page_default_disparity_shift = sh,
                   dss_sequence = s, dss_n_regions = 0, dss_regions = []\<rparr>;
        (case r of
           None \<Rightarrow> Some (nat ENOMEM, Disparity dss)
         | Some n \<Rightarrow> do {
             (ok, slen, rs) \<leftarrow> disparity_loop (in_node e 0) segment_length dss (2 + n) (drop (2 + n) pdata) [];
             Some (if ok then slen else nat ENOMEM,
                   Disparity (dss\<lparr>dss_n_regions := (if ok then length rs else 0), dss_regions := rs\<rparr>)) }) })"

text \<open>The loop over the entries compares the length without the four bytes before them.\<close>

function (sequential) aclut_loop ::
  "alloc_env \<Rightarrow> nat \<Rightarrow> u8 \<Rightarrow> nat \<Rightarrow> bytes \<Rightarrow> aclut list \<Rightarrow> (bool \<times> nat \<times> aclut list) option" where
  "aclut_loop e segment_length depth slen pdata cs =
     (if slen - 4 < segment_length then
        (if \<not> mok e (length cs) then Some (False, slen, cs)
         else do {
           l \<leftarrow> (if depth = 1 then map_option ucast (TS_READ8 pdata) else TS_READ16_BITS pdata 10 0);
           c1 \<leftarrow> (if depth = 1 then map_option ucast (TS_READ8 (drop 1 pdata)) else TS_READ16_BITS (drop 1 pdata) 10 2);
           c2 \<leftarrow> (if depth = 1 then map_option ucast (TS_READ8 (drop 2 pdata)) else TS_READ16_BITS (drop 2 pdata) 10 4);
           t \<leftarrow> (if depth = 1 then map_option ucast (TS_READ8 (drop 3 pdata)) else TS_READ16_BITS (drop 3 pdata) 10 2);
           let n = (if depth = 1 then 4 else 5);
           aclut_loop e segment_length depth (slen + n) (drop n pdata)
             (cs @ [\<lparr>ac_luma = l, ac_chroma1 = c1, ac_chroma2 = c2, ac_T = t\<rparr>]) })
      else Some (True, slen, cs))"
  by pat_completeness auto
termination by (relation "measure (\<lambda>(e, l, d, slen, p, cs). l + 4 - slen)") auto

definition parse_alt_clut :: "alloc_env \<Rightarrow> nat \<Rightarrow> bytes \<Rightarrow> (nat \<times> segment_data) option" where
  "parse_alt_clut e segment_length pdata =
     (if \<not> mok e 0 then Some (nat ENOMEM, Null_data)
      else do {
        cid \<leftarrow> TS_READ8 pdata;
        v \<leftarrow> TS_READ8_BITS (drop 1 pdata) 4 0;
        mx \<leftarrow> TS_READ8_BITS (drop 2 pdata) 2 0;
        ty \<leftarrow> TS_READ8_BITS (drop 2 pdata) 2 2;
        depth \<leftarrow> TS_READ8_BITS (drop 2 pdata) 3 4;
        dyn \<leftarrow> TS_READ8 (drop 3 pdata);
        (ok, slen, cs) \<leftarrow> aclut_loop (in_node e 0) segment_length depth 4 (drop 4 pdata) [];
        Some (if ok then slen else nat ENOMEM,
              Alt_clut \<lparr>acs_CLUT_id = cid, acs_CLUT_version_number = v, acs_CLUT_entry_max_number = mx,
                acs_colour_component_type = ty, acs_output_bit_depth = depth, acs_dynamic_range_and_colour_gamut = dyn,
                acs_n_cluts = (if ok then length cs else 0), acs_cluts = cs\<rparr>) })"

definition parse_sub_segment ::
  "alloc_env \<Rightarrow> bytes \<Rightarrow> segment_header \<Rightarrow> pix_static \<Rightarrow> ((nat \<times> segment_data) \<times> pix_static) option" where
  "parse_sub_segment e pdata h stt =
     (let ty = sh_segment_type h; l = unat (sh_segment_length h);
          keep = map_option (\<lambda>x. (x, stt))
      in if ty = display_definition_segment then keep (parse_display e pdata)
         else if ty = page_composition_segment then keep (parse_page e l pdata)
         else if ty = region_composition_segment then keep (parse_region e l pdata)
         else if ty = CLUT_definition_segment then keep (parse_clut e l pdata)
         else if ty = object_data_segment then parse_object e l pdata stt
         else if ty = disparity_signalling_segment then keep (parse_disparity e l pdata)
         else if ty = alternative_CLUT_segment then keep (parse_alt_clut e l pdata)
         else if ty = end_of_display_set_segment then Some ((0, Null_data), stt)
         else Some ((l, Null_data), stt))"

section \<open>The parser\<close>

text \<open>
  \<open>free_subtitles\<close> reads through \<open>segment.data\<close> of the segments of these types, which is null when
  its memory was missing.
\<close>

definition owning_types :: "u8 list" where
  "owning_types = [page_composition_segment, region_composition_segment, CLUT_definition_segment, object_data_segment,
     disparity_signalling_segment, alternative_CLUT_segment]"

definition free_subtitles :: "subtitle_pes_data \<Rightarrow> subtitle_pes_data option" where
  "free_subtitles sub =
     (if list_all (\<lambda>s. sh_segment_type (sn_header s) \<in> set owning_types \<longrightarrow> sn_data s \<noteq> Null_data) (seg_list sub)
      then Some (sub\<lparr>seg_list := []\<rparr>) else None)"

text \<open>The loop over the segments: the result of the function, the segments and the static variables.\<close>

function (sequential) segment_loop ::
  "alloc_env \<Rightarrow> int \<Rightarrow> bytes \<Rightarrow> nat \<Rightarrow> pix_static \<Rightarrow> (int \<times> segment_node list \<times> pix_static) option" where
  "segment_loop e seg_len pdata i stt = do {
     next_bits \<leftarrow> TS_READ8 pdata;
     if next_bits = SUBTITLE_SYNC_BYTE \<and> seg_len \<noteq> 0 then
       (if \<not> mok e i then Some (ENOMEM, [], stt)
        else do {
          (hlen, h) \<leftarrow> parse_subtitle_segment_header pdata;
          ((slen, d), stt) \<leftarrow> parse_sub_segment (in_node e i) (drop 6 pdata) h stt;
          if slen = unat (sh_segment_length h) then do {
            (ret, segs, stt) \<leftarrow> segment_loop e (seg_len - 6 - int slen) (drop (6 + slen) pdata) (Suc i) stt;
            Some (ret, \<lparr>sn_header = h, sn_data = d\<rparr> # segs, stt) }
          else None })
     else Some (0, [], stt) }"
  by pat_completeness auto
termination
  by (relation "measure (\<lambda>(e, l, pdata, i, stt). length pdata)") (auto simp: TS_READ8_def rdb_def split: if_splits)

definition parse_subtitle ::
  "alloc_env \<Rightarrow> bytes \<Rightarrow> int \<Rightarrow> subtitle_pes_data \<times> pix_static \<Rightarrow> (int \<times> subtitle_pes_data \<times> pix_static) option" where
  "parse_subtitle e pbuf len st = (case st of (sub, stt) \<Rightarrow> do {
     sub \<leftarrow> (if seg_list sub \<noteq> [] then free_subtitles sub else Some sub);
     di \<leftarrow> TS_READ8 pbuf;
     si \<leftarrow> TS_READ8 (drop 1 pbuf);
     let sub = sub\<lparr>sub_data_identifier := di, sub_stream_id := si\<rparr>;
     if di \<noteq> 0x20 \<or> si \<noteq> 0x00 then Some (-1, sub, stt)
     else do {
       (ret, segs, stt) \<leftarrow> segment_loop e (len - 2) (drop 2 pbuf) 0 stt;
       Some (ret, sub\<lparr>seg_list := segs\<rparr>, stt) } })"

text \<open>
  The decoder as the PES layer sees it.  The static variables are not part of the data of a stream;
  they are empty whenever the parser has returned (below), so that each call starts from there.
\<close>

definition subtitle_ops :: "subtitle_pes_data sub_ops" where
  "subtitle_ops = \<lparr>so_new = \<lparr>sub_data_identifier = 0, sub_stream_id = 0, seg_list = []\<rparr>,
     so_parse = (\<lambda>e pid pbuf len sub. map_option (\<lambda>(ret, sub, _). (ret, sub)) (parse_subtitle e pbuf len (sub, no_codes)))\<rparr>"

section \<open>The static variables\<close>

lemma step4_ends: "step4 (p, out, enc) = Some (True, p', out', enc') \<Longrightarrow> enc' = []"
  by (auto simp: step4_def Let_def split: Option.bind_splits if_splits)

lemma step8_ends: "step8 (pdata, n, out, enc) = Some (True, pdata', n', out', enc') \<Longrightarrow> enc' = []"
  by (auto simp: step8_def Let_def split: Option.bind_splits if_splits)

lemma loop4_ends:
  assumes "loop4 st = Some r"
  shows "snd (snd r) = []"
  by (rule loop4.raw_induct [where P = "\<lambda>st r. snd (snd r) = []", OF _ assms])
     (auto dest: step4_ends split: Option.bind_splits if_splits)

lemma loop8_ends:
  assumes "loop8 st = Some r"
  shows "snd (snd (snd r)) = []"
  by (rule loop8.raw_induct [where P = "\<lambda>st r. snd (snd (snd r)) = []", OF _ assms])
     (auto dest: step8_ends split: Option.bind_splits if_splits)

lemma sub_block_codes:
  "\<lbrakk>read_pixel_data_sub_block e pbuf out no_codes = Some (n, out', stt)\<rbrakk> \<Longrightarrow> stt = no_codes"
  by (auto simp: read_pixel_data_sub_block_def read_4bit_pixel_code_string_def read_8bit_pixel_code_string_def no_codes_def Let_def
      dest: loop4_ends loop8_ends split: Option.bind_splits if_splits)

lemma field_loop_codes:
  assumes "field_loop e pdata l n out i stt = Some r" "stt = no_codes"
  shows "snd (snd (snd r)) = no_codes"
  by (rule field_loop.raw_induct [where P = "\<lambda>e pdata l n out i stt r. stt = no_codes \<longrightarrow> snd (snd (snd r)) = no_codes",
        OF _ assms(1), THEN mp, OF _ assms(2)])
     (auto dest: sub_block_codes split: Option.bind_splits if_splits)

lemma parse_object_codes: "parse_object e l pdata no_codes = Some (r, stt) \<Longrightarrow> stt = no_codes"
  by (auto simp: parse_object_def parse_fields_def parse_field_def Let_def
      dest!: field_loop_codes split: Option.bind_splits if_splits option.splits)

lemma sub_segment_codes: "parse_sub_segment e pdata h no_codes = Some (r, stt) \<Longrightarrow> stt = no_codes"
  by (auto simp: parse_sub_segment_def Let_def dest: parse_object_codes split: if_splits)

lemma segment_loop_codes: "segment_loop e l pdata i no_codes = Some (ret, segs, stt) \<Longrightarrow> stt = no_codes"
  by (induction e l pdata i no_codes arbitrary: ret segs stt rule: segment_loop.induct)
     (subst (asm) segment_loop.simps, auto dest!: sub_segment_codes simp del: segment_loop.simps split: Option.bind_splits if_splits)

lemma parse_subtitle_codes: "parse_subtitle e pbuf len (sub, no_codes) = Some (ret, sub', stt) \<Longrightarrow> stt = no_codes"
  by (auto simp: parse_subtitle_def Let_def dest: segment_loop_codes simp del: segment_loop.simps split: Option.bind_splits if_splits)

section \<open>Code strings of two bits\<close>

lemma loop2_SomeD:
  assumes "loop2 pbuf ending st = Some r"
  shows "ending"
  by (rule loop2.raw_induct [where P = "\<lambda>_ ending _ _. ending", OF _ assms]) (auto split: Option.bind_splits if_splits)

lemma read_2bit_None: "read_2bit_pixel_code_string pbuf data = None"
  using loop2_SomeD [of pbuf False] by (cases "loop2 pbuf False ((pbuf, 0, 0), data, 0)") (auto simp: read_2bit_pixel_code_string_def)

section \<open>Code strings of eight bits\<close>

text \<open>The codes of a line, as they stand on the wire, and the pixels they stand for.\<close>

datatype code8 = Pix u8 | Zeros nat | Run nat u8

fun code8_ok :: "code8 \<Rightarrow> bool" where
  "code8_ok (Pix v) \<longleftrightarrow> v \<noteq> 0"
| "code8_ok (Zeros n) \<longleftrightarrow> 0 < n \<and> n < 128"
| "code8_ok (Run n v) \<longleftrightarrow> 0 < n \<and> n < 128"

fun enc_code8 :: "code8 \<Rightarrow> bytes" where
  "enc_code8 (Pix v) = [v]"
| "enc_code8 (Zeros n) = [0, of_nat n]"
| "enc_code8 (Run n v) = [0, of_nat (128 + n), v]"

fun pixels8 :: "code8 \<Rightarrow> u8 list" where
  "pixels8 (Pix v) = [v]"
| "pixels8 (Zeros n) = replicate n 0"
| "pixels8 (Run n v) = replicate n v"

text \<open>What the decoder writes, with the codes that wait.\<close>

fun out8 :: "u8 list \<Rightarrow> code8 list \<Rightarrow> u8 list" where
  "out8 w [] = flush w"
| "out8 w (Pix v # cs) = out8 (w @ [v]) cs"
| "out8 w (Zeros n # cs) = flush w @ (if n > 2 then [0] else []) @ out8 [] cs"
| "out8 w (Run n v # cs) = flush w @ [of_nat n, v] @ out8 [] cs"

text \<open>No more than \<open>m\<close> single pixels in a row.\<close>

fun rows_ok :: "nat \<Rightarrow> nat \<Rightarrow> code8 list \<Rightarrow> bool" where
  "rows_ok m k [] \<longleftrightarrow> True"
| "rows_ok m k (Pix v # cs) \<longleftrightarrow> k < m \<and> rows_ok m (Suc k) cs"
| "rows_ok m k (Zeros n # cs) \<longleftrightarrow> rows_ok m 0 cs"
| "rows_ok m k (Run n v # cs) \<longleftrightarrow> rows_ok m 0 cs"

lemma emit_ok:
  "c + length vs \<le> length data \<Longrightarrow> emit vs (data, c) = Some (take c data @ vs @ drop (c + length vs) data, c + length vs)"
  by (simp add: emit_def)

text \<open>The array after \<open>out\<close> has been written at the front.\<close>

definition written :: "u8 list \<Rightarrow> bytes \<Rightarrow> bytes \<times> nat" where
  "written out data = (out @ drop (length out) data, length out)"

lemma emit_written:
  "length out + length vs \<le> length data \<Longrightarrow> emit vs (written out data) = Some (written (out @ vs) data)"
  by (simp add: emit_def written_def add.commute)

lemma bits_8_of_nat:
  assumes "n < 256"
  shows "TS_READ8_BITS (of_nat n # r) 1 0 = Some (of_nat (n div 128))" "TS_READ8_BITS (of_nat n # r) 7 1 = Some (of_nat (n mod 128))"
proof -
  have v: "n < 2 ^ LENGTH(8)" using assms by simp
  have "bits_at (of_nat n :: u8) 1 0 = of_nat (n div 128)" "bits_at (of_nat n :: u8) 7 1 = of_nat (n mod 128)"
    using assms by (subst bits_at_of_nat [OF _ v]; simp)+
  then show "TS_READ8_BITS (of_nat n # r) 1 0 = Some (of_nat (n div 128))" "TS_READ8_BITS (of_nat n # r) 7 1 = Some (of_nat (n mod 128))"
    by (simp_all add: TS_READ8_BITS_def)
qed

lemma of_nat_u8_eq_0: "n < 256 \<Longrightarrow> (of_nat n :: u8) = 0 \<longleftrightarrow> n = 0"
  using unat_of_nat_u8 by fastforce

lemma of_nat_u8_less: "n < 256 \<Longrightarrow> m < 256 \<Longrightarrow> (of_nat m :: u8) < of_nat n \<longleftrightarrow> m < n"
  by (simp add: word_less_nat_alt unat_of_nat_u8)

lemma step8_pix: "v \<noteq> 0 \<Longrightarrow> length w < 256 \<Longrightarrow> step8 (v # q, n, out, w) = Some (False, q, n + 1, out, w @ [v])"
  by (simp add: step8_def remember_def)

lemma step8_end:
  assumes "length out + length (flush w) \<le> length data"
  shows "step8 (0 # 0 # q, n, written out data, w) = Some (True, q, n + 2, written (out @ flush w) data, [])"
  using assms bits_8_of_nat [of 0 q] by (simp add: step8_def emit_written)

lemma step8_zeros:
  assumes "0 < m" "m < 128" "length out + length (flush w @ (if m > 2 then [0] else [])) \<le> length data"
  shows "step8 (0 # of_nat m # q, n, written out data, w) =
    Some (False, q, n + 2, written (out @ flush w @ (if m > 2 then [0] else [])) data, [])"
  using assms bits_8_of_nat [of m q] of_nat_u8_less [of m 2] of_nat_u8_eq_0 [of m]
  by (cases "2 < m") (simp_all add: step8_def emit_written)

lemma step8_run:
  assumes "0 < m" "m < 128" "length out + length (flush w @ [of_nat m, v]) \<le> length data"
  shows "step8 (0 # of_nat (128 + m) # v # q, n, written out data, w) =
    Some (False, q, n + 3, written (out @ flush w @ [of_nat m, v]) data, [])"
proof -
  have "TS_READ8_BITS (of_nat (128 + m) # v # q) 1 0 = Some 1" "TS_READ8_BITS (of_nat (128 + m) # v # q) 7 1 = Some (of_nat m)"
    using assms bits_8_of_nat [of "128 + m" "v # q"] by (simp_all add: div_add1_eq [of 128 m 128])
  with assms(3) show ?thesis by (simp add: step8_def emit_written numeral_3_eq_3 del: of_nat_add)
qed

lemma loop8_step: "step8 st = Some (False, st') \<Longrightarrow> loop8 st = loop8 st'"
  by (subst loop8.simps) simp

lemma loop8_end: "step8 st = Some (True, st') \<Longrightarrow> loop8 st = Some st'"
  by (subst loop8.simps) simp

lemma loop8_codes:
  assumes "\<forall>c \<in> set cs. code8_ok c" "rows_ok 256 (length w) cs" "length out + length (out8 w cs) \<le> length data"
  shows "loop8 (concat (map enc_code8 cs) @ 0 # 0 # rest, n, written out data, w) =
    Some (rest, n + length (concat (map enc_code8 cs)) + 2, written (out @ out8 w cs) data, [])"
  using assms
proof (induction cs arbitrary: w out n)
  case Nil
  then show ?case by (simp add: loop8_end [OF step8_end])
next
  case (Cons c cs)
  show ?case
  proof (cases c)
    case (Pix v)
    with Cons.prems show ?thesis
      using loop8_step [OF step8_pix [of v w]] Cons.IH [of "w @ [v]" out "n + 1"] by simp
  next
    case (Zeros m)
    with Cons.prems show ?thesis
      using loop8_step [OF step8_zeros [of m out w data "concat (map enc_code8 cs) @ 0 # 0 # rest" n]]
        Cons.IH [of "[]" "out @ flush w @ (if m > 2 then [0] else [])" "n + 2"] by simp
  next
    case (Run m v)
    with Cons.prems show ?thesis
      using loop8_step [OF step8_run [of m out w v data "concat (map enc_code8 cs) @ 0 # 0 # rest" n]]
        Cons.IH [of "[]" "out @ flush w @ [of_nat m, v]" "n + 3"] by (simp add: numeral_3_eq_3)
  qed
qed

text \<open>
  How run-length coded data is read: a pair of a count and a value, or, after a zero, a number of
  single values, which are padded to a multiple of four.
\<close>

function (sequential) rle8 :: "u8 list \<Rightarrow> u8 list" where
  "rle8 (c # v # r) =
     (if c \<noteq> 0 then replicate (unat c) v @ rle8 r
      else take (unat v) r @ rle8 (drop (unat v + (4 - unat v mod 4) mod 4) r))"
| "rle8 _ = []"
  by pat_completeness auto
termination by (relation "measure length") auto

lemma rle8_pairs: "rle8 (concat (map (\<lambda>v. [1, v]) w) @ r) = w @ rle8 r"
  by (induction w) simp_all

lemma rle8_flush:
  assumes "length w < 256"
  shows "rle8 (flush w @ r) = w @ rle8 r"
proof (cases "length w > 2")
  case True
  let ?k = "(4 - length w mod 4) mod 4"
  have "rle8 (0 # of_nat (length w) # w @ replicate ?k 0 @ r) = w @ rle8 r"
    using assms by (subst rle8.simps) (simp add: unat_of_nat_u8)
  with True show ?thesis by (simp add: flush_def)
qed (simp add: flush_def rle8_pairs)

definition no_zeros :: "code8 \<Rightarrow> bool" where
  "no_zeros c = (case c of Zeros _ \<Rightarrow> False | _ \<Rightarrow> True)"

lemma rle8_out8:
  assumes "\<forall>c \<in> set cs. code8_ok c \<and> no_zeros c" "rows_ok 255 (length w) cs" "length w < 256"
  shows "rle8 (out8 w cs) = w @ concat (map pixels8 cs)"
  using assms
proof (induction w cs rule: out8.induct)
  case (1 w)
  then show ?case using rle8_flush [of w "[]"] by simp
next
  case (4 w n v cs)
  then have "(of_nat n :: u8) \<noteq> 0" "unat (of_nat n :: u8) = n" by (simp_all add: of_nat_u8_eq_0 unat_of_nat_u8)
  with 4 show ?case by (simp add: rle8_flush)
qed (simp_all add: no_zeros_def)

text \<open>The output is at most twice as long as the code string, so that the array of four times the block length is enough.\<close>

lemma length_flush: "length (flush w) \<le> 2 * length w"
proof (cases "length w > 2")
  case True
  have "(4 - length w mod 4) mod 4 + 2 \<le> length w"
  proof (cases "length w < 5")
    case True
    then have "length w = 3 \<or> length w = 4" using \<open>length w > 2\<close> by auto
    then show ?thesis by auto
  next
    case False
    moreover have "(4 - length w mod 4) mod 4 < 4" by simp
    ultimately show ?thesis by linarith
  qed
  with True show ?thesis by (simp add: flush_def)
qed (simp add: flush_def length_concat sum_list_triv comp_def)

lemma length_out8: "\<forall>c \<in> set cs. code8_ok c \<Longrightarrow> length (out8 w cs) \<le> 2 * (length w + length (concat (map enc_code8 cs)))"
proof (induction w cs rule: out8.induct)
  case (1 w)
  then show ?case using length_flush [of w] by simp
next
  case (3 w n cs)
  then show ?case using length_flush [of w] by auto
next
  case (4 w n v cs)
  then show ?case using length_flush [of w] by auto
qed simp



section \<open>Segments on the wire\<close>

text \<open>Regions of a page.\<close>

record wire_region =
  wr_id :: u8
  wr_reserved :: u8
  wr_h :: u16
  wr_v :: u16

definition enc_region :: "wire_region \<Rightarrow> bytes" where
  "enc_region w = [wr_id w, wr_reserved w] @ be16 (unat (wr_h w)) @ be16 (unat (wr_v w))"

definition region_node :: "wire_region \<Rightarrow> region" where
  "region_node w = \<lparr>rg_region_id = wr_id w, rg_horizontal_address = wr_h w, rg_vertical_address = wr_v w\<rparr>"

lemma length_enc_region [simp]: "length (enc_region w) = 6"
  by (simp add: enc_region_def)

lemma region_loop_entries:
  assumes "length acc + length ws \<le> k"
  shows "region_loop k (slen + 6 * length ws) slen (concat (map enc_region ws) @ rest) acc =
    Some (slen + 6 * length ws, acc @ map region_node ws)"
  using assms
proof (induction ws arbitrary: slen acc)
  case (Cons w ws)
  let ?q = "concat (map enc_region ws) @ rest"
  have d: "drop 2 (enc_region w @ ?q) = be16 (unat (wr_h w)) @ be16 (unat (wr_v w)) @ ?q"
    "drop 4 (enc_region w @ ?q) = be16 (unat (wr_v w)) @ ?q" "drop 6 (enc_region w @ ?q) = ?q"
    by (simp_all add: enc_region_def)
  have r: "TS_READ8 (enc_region w @ ?q) = Some (wr_id w)" by (simp add: enc_region_def)
  have "region_loop k (slen + 6 + 6 * length ws) (slen + 6) ?q (acc @ [region_node w]) =
    Some (slen + 6 + 6 * length ws, (acc @ [region_node w]) @ map region_node ws)"
    using Cons.prems by (intro Cons.IH) simp
  then show ?case
    using Cons.prems
    by (subst region_loop.simps) (simp del: region_loop.simps drop_append add: d r READ16_be16_unat region_node_def add.assoc)
qed simp

text \<open>Objects of a region.\<close>

record wire_object =
  wo_id :: u16
  wo_type :: nat
  wo_provider :: nat
  wo_h :: nat
  wo_reserved :: nat
  wo_v :: nat
  wo_fg :: u8
  wo_bg :: u8

definition coded :: "wire_object \<Rightarrow> bool" where
  "coded w \<longleftrightarrow> wo_type w = 1 \<or> wo_type w = 2"

definition enc_object :: "wire_object \<Rightarrow> bytes" where
  "enc_object w = be16 (unat (wo_id w)) @ be16 (wo_type w * 2 ^ 14 + wo_provider w * 2 ^ 12 + wo_h w) @
     be16 (wo_reserved w * 2 ^ 12 + wo_v w) @ (if coded w then [wo_fg w, wo_bg w] else [])"

definition object_ok :: "wire_object \<Rightarrow> bool" where
  "object_ok w \<longleftrightarrow> wo_type w < 4 \<and> wo_provider w < 4 \<and> wo_h w < 2 ^ 12 \<and> wo_reserved w < 16 \<and> wo_v w < 2 ^ 12"

definition object_node :: "wire_object \<Rightarrow> sub_object" where
  "object_node w = \<lparr>ob_object_id = wo_id w, ob_object_type = of_nat (wo_type w), ob_provider_flag = of_nat (wo_provider w),
     ob_horizontal_position = of_nat (wo_h w), ob_vertical_position = of_nat (wo_v w),
     ob_foreground_pixel_code = (if coded w then wo_fg w else 0), ob_background_pixel_code = (if coded w then wo_bg w else 0)\<rparr>"

lemma length_enc_object: "length (enc_object w) = (if coded w then 8 else 6)"
  by (simp add: enc_object_def)

lemma object_reads:
  assumes "object_ok w"
  shows "TS_READ16 (enc_object w @ q) = Some (wo_id w)"
    "TS_READ16_BITS (drop 2 (enc_object w @ q)) 2 0 = Some (of_nat (wo_type w))"
    "TS_READ16_BITS (drop 2 (enc_object w @ q)) 2 2 = Some (of_nat (wo_provider w))"
    "TS_READ16_BITS (drop 2 (enc_object w @ q)) 12 4 = Some (of_nat (wo_h w))"
    "TS_READ16_BITS (drop 4 (enc_object w @ q)) 12 4 = Some (of_nat (wo_v w))"
    "coded w \<Longrightarrow> TS_READ8 (drop 6 (enc_object w @ q)) = Some (wo_fg w)"
    "coded w \<Longrightarrow> TS_READ8 (drop 7 (enc_object w @ q)) = Some (wo_bg w)"
proof -
  have ok: "wo_type w < 4" "wo_provider w < 4" "wo_h w < 4096" "wo_reserved w < 16" "wo_v w < 4096"
    using assms by (simp_all add: object_ok_def)
  let ?b = "wo_type w * 2 ^ 14 + wo_provider w * 2 ^ 12 + wo_h w" and ?c = "wo_reserved w * 2 ^ 12 + wo_v w"
  have d: "drop 2 (enc_object w @ q) = be16 ?b @ drop 4 (enc_object w @ q)"
    "drop 4 (enc_object w @ q) = be16 ?c @ (if coded w then [wo_fg w, wo_bg w] else []) @ q"
    by (simp_all add: enc_object_def)
  have v: "?b < 65536" "?c < 65536" using ok by simp_all
  show "TS_READ16 (enc_object w @ q) = Some (wo_id w)" by (simp add: enc_object_def READ16_be16_unat)
  show "TS_READ16_BITS (drop 2 (enc_object w @ q)) 2 0 = Some (of_nat (wo_type w))"
    "TS_READ16_BITS (drop 2 (enc_object w @ q)) 2 2 = Some (of_nat (wo_provider w))"
    "TS_READ16_BITS (drop 2 (enc_object w @ q)) 12 4 = Some (of_nat (wo_h w))"
    unfolding d(1)
    by (rule read16_part [of _ 0 2 14 _ "wo_provider w * 2 ^ 12 + wo_h w"], use ok v in auto)
       (rule read16_part [of _ "wo_type w" 2 12 _ "wo_h w"] read16_part [of _ "wo_type w * 4 + wo_provider w" 12 0 _ 0],
        use ok v in auto)+
  show "TS_READ16_BITS (drop 4 (enc_object w @ q)) 12 4 = Some (of_nat (wo_v w))"
    unfolding d(2) by (rule read16_part [of _ "wo_reserved w" 12 0 _ 0]) (use ok v in auto)
  show "TS_READ8 (drop 6 (enc_object w @ q)) = Some (wo_fg w)" "TS_READ8 (drop 7 (enc_object w @ q)) = Some (wo_bg w)" if "coded w"
    using that by (simp_all add: enc_object_def)
qed

interpretation obj: fill_loop "object_loop (always_ok j)" enc_object object_node object_ok for j
proof
  fix w slen l q acc
  assume ok: "object_ok w" and l: "slen + length (enc_object w) \<le> l"
  let ?p = "enc_object w @ q"
  have c: "(of_nat (wo_type w) :: u16) = 1 \<or> (of_nat (wo_type w) :: u16) = 2 \<longleftrightarrow> coded w"
  proof -
    have "wo_type w = 0 \<or> wo_type w = 1 \<or> wo_type w = 2 \<or> wo_type w = 3" using ok by (auto simp: object_ok_def)
    then show ?thesis by (auto simp: coded_def)
  qed
  have d: "drop (if coded w then 8 else 6) ?p = q" by (simp add: length_enc_object)
  have "slen < l" using l by (auto simp: length_enc_object split: if_splits)
  then show "object_loop (always_ok j) l slen ?p acc = object_loop (always_ok j) l (slen + length (enc_object w)) q (acc @ [object_node w])"
    using object_reads [OF ok, of q] d
    by (subst object_loop.simps) (cases "coded w"; simp del: object_loop.simps drop_append add: c length_enc_object object_node_def)
qed simp

text \<open>Entries of a colour table, with full or with reduced range.\<close>

datatype wire_colour = Full u8 u8 u8 u8 | Reduced nat nat nat nat

record wire_clut =
  wc_id :: u8
  wc_f2 :: bool
  wc_f4 :: bool
  wc_f8 :: bool
  wc_reserved :: nat
  wc_colour :: wire_colour

definition clut_flags :: "wire_clut \<Rightarrow> nat" where
  "clut_flags w = of_bool (wc_f2 w) * 2 ^ 7 + of_bool (wc_f4 w) * 2 ^ 6 + of_bool (wc_f8 w) * 2 ^ 5 + wc_reserved w * 2 +
     (case wc_colour w of Full _ _ _ _ \<Rightarrow> 1 | Reduced _ _ _ _ \<Rightarrow> 0)"

definition enc_clut :: "wire_clut \<Rightarrow> bytes" where
  "enc_clut w = [wc_id w, of_nat (clut_flags w)] @ (case wc_colour w of
       Full y cr cb t \<Rightarrow> [y, cr, cb, t]
     | Reduced y cr cb t \<Rightarrow> be16 (y * 2 ^ 10 + cr * 2 ^ 6 + cb * 2 ^ 2 + t))"

definition clut_ok :: "wire_clut \<Rightarrow> bool" where
  "clut_ok w \<longleftrightarrow> wc_reserved w < 16 \<and> (case wc_colour w of Full _ _ _ _ \<Rightarrow> True
     | Reduced y cr cb t \<Rightarrow> y < 64 \<and> cr < 16 \<and> cb < 16 \<and> t < 4)"

definition clut_node :: "wire_clut \<Rightarrow> clut" where
  "clut_node w = (case wc_colour w of
       Full y cr cb t \<Rightarrow> \<lparr>cl_entry_id = wc_id w, cl_2bit_flag = of_bool (wc_f2 w), cl_4bit_flag = of_bool (wc_f4 w),
         cl_8bit_flag = of_bool (wc_f8 w), cl_full_range_flag = 1, cl_Y = y, cl_Cr = cr, cl_Cb = cb, cl_T = t\<rparr>
     | Reduced y cr cb t \<Rightarrow> \<lparr>cl_entry_id = wc_id w, cl_2bit_flag = of_bool (wc_f2 w), cl_4bit_flag = of_bool (wc_f4 w),
         cl_8bit_flag = of_bool (wc_f8 w), cl_full_range_flag = 0, cl_Y = of_nat y, cl_Cr = of_nat cr, cl_Cb = of_nat cb, cl_T = of_nat t\<rparr>)"

lemma clut_flag_reads:
  assumes "wc_reserved w < 16"
  shows "TS_READ8_BITS (of_nat (clut_flags w) # q) 1 0 = Some (of_bool (wc_f2 w))"
    "TS_READ8_BITS (of_nat (clut_flags w) # q) 1 1 = Some (of_bool (wc_f4 w))"
    "TS_READ8_BITS (of_nat (clut_flags w) # q) 1 2 = Some (of_bool (wc_f8 w))"
    "TS_READ8_BITS (of_nat (clut_flags w) # q) 1 7 = Some (case wc_colour w of Full _ _ _ _ \<Rightarrow> 1 | Reduced _ _ _ _ \<Rightarrow> 0)"
proof -
  let ?f = "case wc_colour w of Full _ _ _ _ \<Rightarrow> 1 | Reduced _ _ _ _ \<Rightarrow> (0 :: nat)" and ?r = "wc_reserved w"
  let ?a = "of_bool (wc_f2 w) :: nat" and ?b = "of_bool (wc_f4 w) :: nat" and ?c = "of_bool (wc_f8 w) :: nat"
  have f: "?f \<le> 1" by (simp split: wire_colour.splits)
  have m: "?a \<le> 1" "?b \<le> 1" "?c \<le> 1" by simp_all
  note u = clut_flags_def
  have v: "clut_flags w < 256" using assms by (auto simp: u of_bool_def split: wire_colour.splits)
  have "TS_READ8_BITS (of_nat (clut_flags w) # q) 1 0 = Some (of_nat ?a)"
    by (rule read8_part [OF _ v, of 0 1 7 _ "?b * 2 ^ 6 + ?c * 2 ^ 5 + ?r * 2 + ?f"]) (use f m assms in \<open>auto simp: u\<close>)
  moreover have "TS_READ8_BITS (of_nat (clut_flags w) # q) 1 1 = Some (of_nat ?b)"
    by (rule read8_part [OF _ v, of ?a 1 6 _ "?c * 2 ^ 5 + ?r * 2 + ?f"]) (use f m assms in \<open>auto simp: u\<close>)
  moreover have "TS_READ8_BITS (of_nat (clut_flags w) # q) 1 2 = Some (of_nat ?c)"
    by (rule read8_part [OF _ v, of "?a * 2 + ?b" 1 5 _ "?r * 2 + ?f"]) (use f m assms in \<open>auto simp: u\<close>)
  moreover have "TS_READ8_BITS (of_nat (clut_flags w) # q) 1 7 = Some (of_nat ?f)"
    by (rule read8_part [OF _ v, of "?a * 64 + ?b * 32 + ?c * 16 + ?r" 1 0 _ 0]) (use f m assms in \<open>auto simp: u\<close>)
  ultimately show "TS_READ8_BITS (of_nat (clut_flags w) # q) 1 0 = Some (of_bool (wc_f2 w))"
    "TS_READ8_BITS (of_nat (clut_flags w) # q) 1 1 = Some (of_bool (wc_f4 w))"
    "TS_READ8_BITS (of_nat (clut_flags w) # q) 1 2 = Some (of_bool (wc_f8 w))"
    "TS_READ8_BITS (of_nat (clut_flags w) # q) 1 7 = Some (case wc_colour w of Full _ _ _ _ \<Rightarrow> 1 | Reduced _ _ _ _ \<Rightarrow> 0)"
    by (simp_all split: wire_colour.splits)
qed

lemma reduced_reads:
  assumes "y < 64" "cr < 16" "cb < 16" "t < 4"
  shows "TS_READ16_BITS (be16 (y * 2 ^ 10 + cr * 2 ^ 6 + cb * 2 ^ 2 + t) @ q) 6 0 = Some (of_nat y)"
    "TS_READ16_BITS (be16 (y * 2 ^ 10 + cr * 2 ^ 6 + cb * 2 ^ 2 + t) @ q) 4 6 = Some (of_nat cr)"
    "TS_READ16_BITS (be16 (y * 2 ^ 10 + cr * 2 ^ 6 + cb * 2 ^ 2 + t) @ q) 4 10 = Some (of_nat cb)"
    "TS_READ16_BITS (be16 (y * 2 ^ 10 + cr * 2 ^ 6 + cb * 2 ^ 2 + t) @ q) 2 14 = Some (of_nat t)"
  subgoal by (rule read16_part [of _ 0 6 10 _ "cr * 2 ^ 6 + cb * 2 ^ 2 + t"]) (use assms in auto)
  subgoal by (rule read16_part [of _ y 4 6 _ "cb * 2 ^ 2 + t"]) (use assms in auto)
  subgoal by (rule read16_part [of _ "y * 16 + cr" 4 2 _ t]) (use assms in auto)
  subgoal by (rule read16_part [of _ "y * 256 + cr * 16 + cb" 2 0 _ 0]) (use assms in auto)
  done

lemma ucast_of_nat_u8: "(ucast (of_nat n :: u16) :: u8) = of_nat n"
  by (rule bit_word_eqI) (simp add: bit_ucast_iff bit_of_nat_iff)

lemma length_enc_clut: "length (enc_clut w) = (case wc_colour w of Full _ _ _ _ \<Rightarrow> 6 | Reduced _ _ _ _ \<Rightarrow> 4)"
  by (simp add: enc_clut_def split: wire_colour.splits)

interpretation clt: fill_loop "clut_loop (always_ok j)" enc_clut clut_node clut_ok for j
proof
  fix w slen l q acc
  assume ok: "clut_ok w" and l: "slen + length (enc_clut w) \<le> l"
  have s: "slen < l" using l by (auto simp: length_enc_clut split: wire_colour.splits)
  show "clut_loop (always_ok j) l slen (enc_clut w @ q) acc = clut_loop (always_ok j) l (slen + length (enc_clut w)) q (acc @ [clut_node w])"
  proof (cases "wc_colour w")
    case (Full y cr cb t)
    let ?p = "enc_clut w @ q"
    have p: "?p = wc_id w # of_nat (clut_flags w) # y # cr # cb # t # q" by (simp add: enc_clut_def Full)
    have r: "TS_READ8 ?p = Some (wc_id w)" "drop 1 ?p = of_nat (clut_flags w) # y # cr # cb # t # q" "TS_READ8 (drop 2 ?p) = Some y"
      "TS_READ8 (drop 3 ?p) = Some cr" "TS_READ8 (drop 4 ?p) = Some cb" "TS_READ8 (drop 5 ?p) = Some t" "drop 6 ?p = q"
      unfolding p by simp_all
    have "length (enc_clut w) = 6" by (simp add: length_enc_clut Full)
    with s ok Full show ?thesis
      by (subst clut_loop.simps)
         (simp del: clut_loop.simps One_nat_def drop_append add: r clut_flag_reads clut_ok_def clut_node_def)
  next
    case (Reduced y cr cb t)
    let ?p = "enc_clut w @ q" and ?v = "y * 2 ^ 10 + cr * 2 ^ 6 + cb * 2 ^ 2 + t"
    have p: "?p = wc_id w # of_nat (clut_flags w) # be16 ?v @ q" by (simp add: enc_clut_def Reduced)
    have r: "TS_READ8 ?p = Some (wc_id w)" "drop 1 ?p = of_nat (clut_flags w) # be16 ?v @ q" "drop 2 ?p = be16 ?v @ q" "drop 4 ?p = q"
      unfolding p by (simp_all add: be16_def)
    have c: "y < 64" "cr < 16" "cb < 16" "t < 4" "wc_reserved w < 16" using ok by (simp_all add: clut_ok_def Reduced)
    have "length (enc_clut w) = 4" by (simp add: length_enc_clut Reduced)
    with s Reduced show ?thesis
      by (subst clut_loop.simps, unfold r clut_flag_reads [OF c(5)] reduced_reads [OF c(1-4)])
         (simp del: clut_loop.simps One_nat_def add: clut_node_def ucast_of_nat_u8)
  qed
qed simp

text \<open>
  The segments: a display definition, a page with its regions, a region with its objects, a colour
  table, the end of the display set, and segments of types that the parser skips.
\<close>

record wire_region_head =
  wh_id :: u8
  wh_version :: nat
  wh_fill :: bool
  wh_res1 :: nat
  wh_width :: u16
  wh_height :: u16
  wh_level :: nat
  wh_depth :: nat
  wh_res2 :: nat
  wh_CLUT_id :: u8
  wh_p8 :: u8
  wh_p4 :: nat
  wh_p2 :: nat
  wh_res3 :: nat

datatype wire_seg =
    W_display nat nat u16 u16 "display_window option"
  | W_page u8 nat nat nat "wire_region list"
  | W_region wire_region_head "wire_object list"
  | W_clut u8 nat nat "wire_clut list"
  | W_end
  | W_other u8 bytes

fun enc_window :: "display_window option \<Rightarrow> bytes" where
  "enc_window None = []"
| "enc_window (Some w) = be16 (unat (horizontal_position_minimum w)) @ be16 (unat (horizontal_position_maximum w)) @
     be16 (unat (vertical_position_minimum w)) @ be16 (unat (vertical_position_maximum w))"

fun seg_body :: "wire_seg \<Rightarrow> bytes" where
  "seg_body (W_display v r w h win) = [of_nat (v * 2 ^ 4 + of_bool (win \<noteq> None) * 2 ^ 3 + r)] @ be16 (unat w) @ be16 (unat h) @ enc_window win"
| "seg_body (W_page t v s r rs) = [t, of_nat (v * 2 ^ 4 + s * 2 ^ 2 + r)] @ concat (map enc_region rs)"
| "seg_body (W_region h os) = [wh_id h, of_nat (wh_version h * 2 ^ 4 + of_bool (wh_fill h) * 2 ^ 3 + wh_res1 h)] @
     be16 (unat (wh_width h)) @ be16 (unat (wh_height h)) @
     [of_nat (wh_level h * 2 ^ 5 + wh_depth h * 2 ^ 2 + wh_res2 h), wh_CLUT_id h, wh_p8 h,
      of_nat (wh_p4 h * 2 ^ 4 + wh_p2 h * 2 ^ 2 + wh_res3 h)] @ concat (map enc_object os)"
| "seg_body (W_clut i v r cs) = [i, of_nat (v * 2 ^ 4 + r)] @ concat (map enc_clut cs)"
| "seg_body W_end = []"
| "seg_body (W_other ty b) = b"

fun seg_type :: "wire_seg \<Rightarrow> u8" where
  "seg_type (W_display _ _ _ _ _) = display_definition_segment"
| "seg_type (W_page _ _ _ _ _) = page_composition_segment"
| "seg_type (W_region _ _) = region_composition_segment"
| "seg_type (W_clut _ _ _ _) = CLUT_definition_segment"
| "seg_type W_end = end_of_display_set_segment"
| "seg_type (W_other ty _) = ty"

definition known_types :: "u8 list" where
  "known_types = owning_types @ [display_definition_segment, end_of_display_set_segment]"

fun seg_ok :: "wire_seg \<Rightarrow> bool" where
  "seg_ok (W_display v r w h win) \<longleftrightarrow> v < 16 \<and> r < 8"
| "seg_ok (W_page t v s r rs) \<longleftrightarrow> v < 16 \<and> s < 4 \<and> r < 4"
| "seg_ok (W_region h os) \<longleftrightarrow> wh_version h < 16 \<and> wh_res1 h < 8 \<and> wh_level h < 8 \<and> wh_depth h < 8 \<and> wh_res2 h < 4 \<and>
     wh_p4 h < 16 \<and> wh_p2 h < 4 \<and> wh_res3 h < 4 \<and> (\<forall>w \<in> set os. object_ok w)"
| "seg_ok (W_clut i v r cs) \<longleftrightarrow> v < 16 \<and> r < 16 \<and> (\<forall>w \<in> set cs. clut_ok w)"
| "seg_ok W_end \<longleftrightarrow> True"
| "seg_ok (W_other ty b) \<longleftrightarrow> ty \<notin> set known_types"

definition no_window :: display_window where
  "no_window = \<lparr>horizontal_position_minimum = 0, horizontal_position_maximum = 0, vertical_position_minimum = 0, vertical_position_maximum = 0\<rparr>"

fun seg_data :: "wire_seg \<Rightarrow> segment_data" where
  "seg_data (W_display v r w h win) = Display \<lparr>dds_version_number = of_nat v, display_window_flag = of_bool (win \<noteq> None),
     display_width = w, display_height = h, dds_window = (case win of None \<Rightarrow> no_window | Some x \<Rightarrow> x)\<rparr>"
| "seg_data (W_page t v s r rs) = Page \<lparr>pcs_page_time_out = t, pcs_page_version_number = of_nat v, pcs_page_state = of_nat s,
     pcs_n_region = length rs, pcs_region = map region_node rs\<rparr>"
| "seg_data (W_region h os) = Region \<lparr>rcs_region_id = wh_id h, rcs_region_version_number = of_nat (wh_version h),
     rcs_region_fill_flag = of_bool (wh_fill h), rcs_region_width = wh_width h, rcs_region_height = wh_height h,
     rcs_level_of_compatibility = of_nat (wh_level h), rcs_region_depth = of_nat (wh_depth h), rcs_CLUT_id = wh_CLUT_id h,
     rcs_8bit_pixel_code = wh_p8 h, rcs_4bit_pixel_code = of_nat (wh_p4 h), rcs_2bit_pixel_code = of_nat (wh_p2 h),
     rcs_n_objs = length os, rcs_object = map object_node os\<rparr>"
| "seg_data (W_clut i v r cs) = Clut \<lparr>cds_CLUT_id = i, cds_CLUT_version_number = of_nat v, cds_n_cluts = length cs, cds_cluts = map clut_node cs\<rparr>"
| "seg_data W_end = Null_data"
| "seg_data (W_other ty b) = Null_data"

lemma parse_display_seg:
  assumes "seg_ok (W_display v r w h win)"
  shows "parse_display (always_ok j) (seg_body (W_display v r w h win) @ q) =
    Some (length (seg_body (W_display v r w h win)), seg_data (W_display v r w h win))"
proof -
  let ?b = "v * 2 ^ 4 + of_bool (win \<noteq> None) * 2 ^ 3 + r" and ?p = "seg_body (W_display v r w h win) @ q"
  have v: "?b < 256" using assms by (auto simp: of_bool_def)
  have p: "?p = of_nat ?b # be16 (unat w) @ be16 (unat h) @ enc_window win @ q" by simp
  have r: "TS_READ8_BITS ?p 4 0 = Some (of_nat v)" "TS_READ8_BITS ?p 1 4 = Some (of_nat (of_bool (win \<noteq> None)))"
    unfolding p
    subgoal by (rule read8_part [OF _ v, of 0 4 4 _ "of_bool (win \<noteq> None) * 2 ^ 3 + r"]) (use assms in \<open>auto simp: of_bool_def\<close>)
    subgoal by (rule read8_part [OF _ v, of v 1 3 _ r]) (use assms in auto)
    done
  have d: "drop 1 ?p = be16 (unat w) @ be16 (unat h) @ enc_window win @ q" "drop 3 ?p = be16 (unat h) @ enc_window win @ q"
    "drop 5 ?p = enc_window win @ q" "drop 7 ?p = drop 2 (enc_window win @ q)" "drop 9 ?p = drop 4 (enc_window win @ q)"
    "drop 11 ?p = drop 6 (enc_window win @ q)"
    by (simp_all add: drop_Cons')
  show ?thesis
    unfolding parse_display_def r d by (cases win) (simp_all add: READ16_be16_unat no_window_def)
qed

lemma parse_page_seg:
  assumes "seg_ok (W_page t v s r rs)"
  shows "parse_page (always_ok j) (length (seg_body (W_page t v s r rs))) (seg_body (W_page t v s r rs) @ q) =
    Some (length (seg_body (W_page t v s r rs)), seg_data (W_page t v s r rs))"
proof -
  let ?b = "v * 2 ^ 4 + s * 2 ^ 2 + r" and ?p = "seg_body (W_page t v s r rs) @ q"
  have v: "?b < 256" using assms by simp
  have d: "drop 1 ?p = of_nat ?b # concat (map enc_region rs) @ q" "drop 2 ?p = concat (map enc_region rs) @ q" by simp_all
  have r: "TS_READ8_BITS (drop 1 ?p) 4 0 = Some (of_nat v)" "TS_READ8_BITS (drop 1 ?p) 2 4 = Some (of_nat s)"
    unfolding d
    subgoal by (rule read8_part [OF _ v, of 0 4 4 _ "s * 2 ^ 2 + r"]) (use assms in auto)
    subgoal by (rule read8_part [OF _ v, of v 2 2 _ r]) (use assms in auto)
    done
  have n: "length (seg_body (W_page t v s r rs)) = 2 + 6 * length rs"
    by (induction rs) simp_all
  have "region_loop (length rs) (2 + 6 * length rs) 2 (concat (map enc_region rs) @ q) [] = Some (2 + 6 * length rs, map region_node rs)"
    using region_loop_entries [of "[]" rs "length rs" 2 q] by simp
  then show ?thesis
    unfolding parse_page_def n r unfolding d(2) by (simp del: region_loop.simps)
qed

lemma parse_region_seg:
  assumes ok: "seg_ok (W_region h os)"
  shows "parse_region (always_ok j) (length (seg_body (W_region h os))) (seg_body (W_region h os) @ q) =
    Some (length (seg_body (W_region h os)), seg_data (W_region h os))"
proof -
  let ?b = "wh_version h * 2 ^ 4 + of_bool (wh_fill h) * 2 ^ 3 + wh_res1 h" and ?c = "wh_level h * 2 ^ 5 + wh_depth h * 2 ^ 2 + wh_res2 h"
    and ?d = "wh_p4 h * 2 ^ 4 + wh_p2 h * 2 ^ 2 + wh_res3 h" and ?p = "seg_body (W_region h os) @ q"
  have v: "?b < 256" "?c < 256" "?d < 256" using ok by (auto simp: of_bool_def)
  have d: "drop 1 ?p = of_nat ?b # be16 (unat (wh_width h)) @ drop 4 ?p"
    "drop 2 ?p = be16 (unat (wh_width h)) @ drop 4 ?p" "drop 4 ?p = be16 (unat (wh_height h)) @ drop 6 ?p"
    "drop 6 ?p = of_nat ?c # drop 7 ?p" "drop 7 ?p = wh_CLUT_id h # drop 8 ?p" "drop 8 ?p = wh_p8 h # drop 9 ?p"
    "drop 9 ?p = of_nat ?d # drop 10 ?p" "drop 10 ?p = concat (map enc_object os) @ q"
    by (simp_all add: drop_Cons')
  have r0: "TS_READ8 ?p = Some (wh_id h)" by simp
  have r1: "TS_READ8_BITS (drop 1 ?p) 4 0 = Some (of_nat (wh_version h))" "TS_READ8_BITS (drop 1 ?p) 1 4 = Some (of_nat (of_bool (wh_fill h)))"
    unfolding d(1)
    subgoal by (rule read8_part [OF _ v(1), of 0 4 4 _ "of_bool (wh_fill h) * 2 ^ 3 + wh_res1 h"]) (use ok in \<open>auto simp: of_bool_def\<close>)
    subgoal by (rule read8_part [OF _ v(1), of "wh_version h" 1 3 _ "wh_res1 h"]) (use ok in auto)
    done
  have r2: "TS_READ8_BITS (drop 6 ?p) 3 0 = Some (of_nat (wh_level h))" "TS_READ8_BITS (drop 6 ?p) 3 3 = Some (of_nat (wh_depth h))"
    unfolding d(4)
    subgoal by (rule read8_part [OF _ v(2), of 0 3 5 _ "wh_depth h * 2 ^ 2 + wh_res2 h"]) (use ok in auto)
    subgoal by (rule read8_part [OF _ v(2), of "wh_level h" 3 2 _ "wh_res2 h"]) (use ok in auto)
    done
  have r3: "TS_READ8_BITS (drop 9 ?p) 4 0 = Some (of_nat (wh_p4 h))" "TS_READ8_BITS (drop 9 ?p) 2 4 = Some (of_nat (wh_p2 h))"
    unfolding d(7)
    subgoal by (rule read8_part [OF _ v(3), of 0 4 4 _ "wh_p2 h * 2 ^ 2 + wh_res3 h"]) (use ok in auto)
    subgoal by (rule read8_part [OF _ v(3), of "wh_p4 h" 2 2 _ "wh_res3 h"]) (use ok in auto)
    done
  have r4: "TS_READ16 (drop 2 ?p) = Some (wh_width h)" "TS_READ16 (drop 4 ?p) = Some (wh_height h)"
    "TS_READ8 (drop 7 ?p) = Some (wh_CLUT_id h)" "TS_READ8 (drop 8 ?p) = Some (wh_p8 h)"
    subgoal unfolding d(2) by (rule READ16_be16_unat)
    subgoal unfolding d(3) by (rule READ16_be16_unat)
    subgoal unfolding d(5) by simp
    subgoal unfolding d(6) by simp
    done
  have n: "length (seg_body (W_region h os)) = 10 + length (concat (map enc_object os))" by simp
  have "\<forall>w \<in> set os. object_ok w" using ok by simp
  from obj.loop_entries [OF this, of j 10 q "[]"] show ?thesis
    unfolding parse_region_def n r0 r1 r2 r3 r4 unfolding d(8) by (simp del: object_loop.simps)
qed

lemma parse_clut_seg:
  assumes ok: "seg_ok (W_clut i v r cs)"
  shows "parse_clut (always_ok j) (length (seg_body (W_clut i v r cs))) (seg_body (W_clut i v r cs) @ q) =
    Some (length (seg_body (W_clut i v r cs)), seg_data (W_clut i v r cs))"
proof -
  let ?b = "v * 2 ^ 4 + r" and ?p = "seg_body (W_clut i v r cs) @ q"
  have v: "?b < 256" using ok by simp
  have d: "drop 1 ?p = of_nat ?b # concat (map enc_clut cs) @ q" "drop 2 ?p = concat (map enc_clut cs) @ q" by simp_all
  have r: "TS_READ8 ?p = Some i" "TS_READ8_BITS (drop 1 ?p) 4 0 = Some (of_nat v)"
    subgoal by simp
    subgoal unfolding d(1) by (rule read8_part [OF _ v, of 0 4 4 _ r]) (use ok in auto)
    done
  have n: "length (seg_body (W_clut i v r cs)) = 2 + length (concat (map enc_clut cs))" by simp
  have "\<forall>w \<in> set cs. clut_ok w" using ok by simp
  from clt.loop_entries [OF this, of j 2 q "[]"] show ?thesis
    unfolding parse_clut_def n r unfolding d(2) by (simp del: clut_loop.simps)
qed

lemmas segment_types = page_composition_segment_def region_composition_segment_def CLUT_definition_segment_def object_data_segment_def
  display_definition_segment_def disparity_signalling_segment_def alternative_CLUT_segment_def end_of_display_set_segment_def

lemma parse_sub_segment_seg:
  assumes "seg_ok s" "sh_segment_type h = seg_type s" "unat (sh_segment_length h) = length (seg_body s)"
  shows "parse_sub_segment (always_ok j) (seg_body s @ q) h stt = Some ((length (seg_body s), seg_data s), stt)"
proof (cases s)
  case (W_display v r w hh win)
  then show ?thesis using assms parse_display_seg [of v r w hh win j q]
    by (simp del: seg_body.simps seg_data.simps add: parse_sub_segment_def)
next
  case (W_page t v st r rs)
  then show ?thesis using assms parse_page_seg [of t v st r rs j q]
    by (simp del: seg_body.simps seg_data.simps add: parse_sub_segment_def segment_types)
next
  case (W_region hd os)
  then show ?thesis using assms parse_region_seg [of hd os j q]
    by (simp del: seg_body.simps seg_data.simps add: parse_sub_segment_def segment_types)
next
  case (W_clut i v r cs)
  then show ?thesis using assms parse_clut_seg [of i v r cs j q]
    by (simp del: seg_body.simps seg_data.simps add: parse_sub_segment_def segment_types)
next
  case W_end
  then show ?thesis using assms by (simp add: parse_sub_segment_def segment_types)
next
  case (W_other ty b)
  then show ?thesis using assms by (simp add: parse_sub_segment_def known_types_def owning_types_def)
qed

definition enc_seg :: "u16 \<times> wire_seg \<Rightarrow> bytes" where
  "enc_seg x = [SUBTITLE_SYNC_BYTE, seg_type (snd x)] @ be16 (unat (fst x)) @ be16 (length (seg_body (snd x))) @ seg_body (snd x)"

definition seg_node :: "u16 \<times> wire_seg \<Rightarrow> segment_node" where
  "seg_node x = \<lparr>sn_header = \<lparr>sh_sync_byte = SUBTITLE_SYNC_BYTE, sh_segment_type = seg_type (snd x), sh_page_id = fst x,
     sh_segment_length = of_nat (length (seg_body (snd x)))\<rparr>, sn_data = seg_data (snd x)\<rparr>"

definition wire_seg_ok :: "u16 \<times> wire_seg \<Rightarrow> bool" where
  "wire_seg_ok x \<longleftrightarrow> seg_ok (snd x) \<and> length (seg_body (snd x)) < 65536"

lemma segment_loop_entries:
  assumes "\<forall>x \<in> set xs. wire_seg_ok x" "b \<noteq> SUBTITLE_SYNC_BYTE"
  shows "segment_loop (always_ok j) (int (length (concat (map enc_seg xs))) + int k) (concat (map enc_seg xs) @ b # rest) i stt =
    Some (0, map seg_node xs, stt)"
  using assms(1)
proof (induction xs arbitrary: i)
  case Nil
  then show ?case using assms(2) by simp
next
  case (Cons x xs)
  obtain pg s where x: "x = (pg, s)" by fastforce
  let ?n = "length (seg_body s)" and ?q = "concat (map enc_seg xs) @ b # rest"
  have ok: "seg_ok s" "?n < 65536" using Cons.prems by (simp_all add: wire_seg_ok_def x)
  let ?p = "enc_seg x @ ?q"
  have p: "?p = SUBTITLE_SYNC_BYTE # seg_type s # be16 (unat pg) @ be16 ?n @ seg_body s @ ?q" by (simp add: enc_seg_def x)
  have d: "drop 2 ?p = be16 (unat pg) @ be16 ?n @ seg_body s @ ?q" "drop 4 ?p = be16 ?n @ seg_body s @ ?q"
    "drop 6 ?p = seg_body s @ ?q" "drop (6 + ?n) ?p = ?q"
    unfolding p by (simp_all add: drop_Cons')
  have h: "parse_subtitle_segment_header ?p = Some (6, sn_header (seg_node x))"
    unfolding parse_subtitle_segment_header_def d unfolding p
    by (simp add: READ16_be16_unat READ16_be16 ok SUBTITLE_SYNC_BYTE_def seg_node_def x)
  have u: "unat (sh_segment_length (sn_header (seg_node x))) = ?n"
    using ok(2) by (simp add: seg_node_def x unsigned_of_nat take_bit_nat_eq_self)
  have m: "parse_sub_segment (always_ok j) (seg_body s @ ?q) (sn_header (seg_node x)) stt = Some ((?n, seg_data s), stt)"
    by (rule parse_sub_segment_seg [OF ok(1) _ u]) (simp add: seg_node_def x)
  have l: "length (enc_seg x) = 6 + ?n" by (simp add: enc_seg_def x)
  have r: "TS_READ8 ?p = Some SUBTITLE_SYNC_BYTE" by (simp add: p)
  have nd: "\<lparr>sn_header = sn_header (seg_node x), sn_data = seg_data s\<rparr> = seg_node x" by (simp add: seg_node_def x)
  have "segment_loop (always_ok j) (int (length (concat (map enc_seg xs))) + int k) ?q (Suc i) stt = Some (0, map seg_node xs, stt)"
    using Cons by simp
  then show ?case
    by (subst segment_loop.simps, unfold list.map concat.simps append_assoc r h d(3))
       (simp del: segment_loop.simps append_assoc drop_append add: m u d(4) nd l)
qed

lemma seg_node_owned: "wire_seg_ok x \<Longrightarrow> sh_segment_type (sn_header (seg_node x)) \<in> set owning_types \<Longrightarrow> sn_data (seg_node x) \<noteq> Null_data"
  by (cases "snd x") (auto simp: seg_node_def wire_seg_ok_def known_types_def owning_types_def segment_types)

lemma parse_subtitle_encoded:
  assumes "\<forall>x \<in> set xs. wire_seg_ok x" "b \<noteq> SUBTITLE_SYNC_BYTE" "\<forall>x \<in> set old. wire_seg_ok x"
    and "seg_list sub = map seg_node old" "int (length (concat (map enc_seg xs))) + 2 \<le> len"
  shows "\<exists>sub'. parse_subtitle (always_ok j) ([0x20, 0x00] @ concat (map enc_seg xs) @ b # rest) len (sub, stt) = Some (0, sub', stt) \<and>
    seg_list sub' = map seg_node xs \<and> (\<exists>sub''. free_subtitles sub' = Some sub'' \<and> seg_list sub'' = [])"
proof -
  obtain k where k: "len - 2 = int (length (concat (map enc_seg xs))) + int k"
    using assms(5) by (metis add.commute diff_add_cancel le_diff_eq zle_iff_zadd)
  have f: "\<exists>s. free_subtitles s' = Some s \<and> seg_list s = []" if "seg_list s' = map seg_node ys" "\<forall>x \<in> set ys. wire_seg_ok x" for s' ys
    using that seg_node_owned by (auto simp: free_subtitles_def list_all_iff)
  obtain s where "(if seg_list sub \<noteq> [] then free_subtitles sub else Some sub) = Some s"
    using f [OF assms(4,3)] by (cases "seg_list sub = []") auto
  then show ?thesis
    using segment_loop_entries [OF assms(1,2), of j k rest 0 stt] f [of _ xs] assms(1)
    by (simp add: parse_subtitle_def k del: segment_loop.simps)
qed


definition example_segs :: "(u16 \<times> wire_seg) list" where
  "example_segs = [(1, W_display 1 0 719 575 None),
     (1, W_page 30 2 1 0 [\<lparr>wr_id = 5, wr_reserved = 0, wr_h = 60, wr_v = 400\<rparr>]),
     (1, W_region \<lparr>wh_id = 5, wh_version = 2, wh_fill = True, wh_res1 = 7, wh_width = 600, wh_height = 48, wh_level = 3, wh_depth = 3,
          wh_res2 = 3, wh_CLUT_id = 1, wh_p8 = 0, wh_p4 = 0, wh_p2 = 0, wh_res3 = 3\<rparr>
        [\<lparr>wo_id = 9, wo_type = 0, wo_provider = 0, wo_h = 8, wo_reserved = 15, wo_v = 2, wo_fg = 0, wo_bg = 0\<rparr>]),
     (1, W_clut 1 2 15 [\<lparr>wc_id = 1, wc_f2 = False, wc_f4 = False, wc_f8 = True, wc_reserved = 15, wc_colour = Full 235 128 128 0\<rparr>,
                        \<lparr>wc_id = 2, wc_f2 = False, wc_f4 = True, wc_f8 = False, wc_reserved = 15, wc_colour = Reduced 16 8 8 3\<rparr>]),
     (1, W_end)]"

definition example_pes :: bytes where
  "example_pes = [0, 0, 1, 0xBD, 0, 94, 0x80, 0, 0] @ [0x20, 0x00] @ concat (map enc_seg example_segs) @ [0xFF]"


lemma aclut_loop_past:
  "aclut_loop (always_ok j) l depth slen p cs = Some (ok, n, cs') \<Longrightarrow> ok \<and> l \<le> n - 4 \<and> slen \<le> n"
proof (induction "l + 4 - slen" arbitrary: slen p cs rule: less_induct)
  case less
  note eq = less.prems [unfolded aclut_loop.simps [of _ _ _ slen]]
  show ?case
  proof (cases "slen - 4 < l")
    case True
    then obtain m x where m: "aclut_loop (always_ok j) l depth (slen + m) (drop m p) (cs @ [x]) = Some (ok, n, cs')" "0 < m"
      using eq by (auto simp: Let_def simp del: aclut_loop.simps split: Option.bind_splits if_splits)
    moreover have "l + 4 - (slen + m) < l + 4 - slen" using True m(2) by linarith
    ultimately show ?thesis using less.hyps by fastforce
  qed (use eq in auto)
qed

lemma alt_clut_past: "parse_alt_clut (always_ok j) l p = Some (n, d) \<Longrightarrow> n \<noteq> l"
  by (auto simp: parse_alt_clut_def simp del: aclut_loop.simps dest!: aclut_loop_past split: Option.bind_splits)

text \<open>Character codes: one is enough to overflow their array.\<close>

lemma codes_loop_room: "codes_loop room p m cs = Some r \<Longrightarrow> 0 < m \<Longrightarrow> 2 * (length cs + m) \<le> room"
proof (induction m arbitrary: cs)
  case (Suc m)
  then obtain c where "codes_loop room p m (cs @ [c]) = Some r" "2 * length cs + 2 \<le> room"
    by (auto split: Option.bind_splits if_splits)
  with Suc.IH [of "cs @ [c]"] show ?case by (cases "m = 0") auto
qed simp

lemma codes_loop_overflow: "0 < k \<Longrightarrow> codes_loop k p k [] = None"
  using codes_loop_room [of k p k "[]"] by (cases "codes_loop k p k []") auto

text \<open>What the object data segments contain that the parser cannot read.\<close>

definition bad_object :: "bytes \<Rightarrow> bool" where
  "bad_object body \<longleftrightarrow> (\<exists>a b f q. body = a # b # f # q \<and>
     (bits_at f 2 4 = 1 \<and> q \<noteq> [] \<and> hd q \<noteq> 0 \<or>
      bits_at f 2 4 = 0 \<and> (\<exists>n m r. q = be16 n @ be16 m @ 0x10 # r \<and> 0 < n \<and> n < 65536)))"

lemma field_loop_2bit: "0 < n \<Longrightarrow> field_loop e (0x10 # r) n 0 out i stt = None"
  by (subst field_loop.simps) (simp add: read_pixel_data_sub_block_def read_2bit_None)

lemma bad_object_None:
  assumes "bad_object body"
  shows "parse_object (always_ok j) l (body @ q) stt = None"
proof -
  obtain a b f t where body: "body = a # b # f # t"
    and c: "bits_at f 2 4 = 1 \<and> t \<noteq> [] \<and> hd t \<noteq> 0 \<or>
      bits_at f 2 4 = 0 \<and> (\<exists>n m r. t = be16 n @ be16 m @ 0x10 # r \<and> 0 < n \<and> n < 65536)"
    using assms unfolding bad_object_def by blast
  have r: "TS_READ16 (body @ q) = Some (push_bit 8 (ucast a) OR ucast b)" "TS_READ8_BITS (drop 2 (body @ q)) 4 0 = Some (bits_at f 4 0)"
    "TS_READ8_BITS (drop 2 (body @ q)) 2 4 = Some (bits_at f 2 4)" "TS_READ8_BITS (drop 2 (body @ q)) 1 6 = Some (bits_at f 1 6)"
    "drop 3 (body @ q) = t @ q"
    by (simp_all add: body TS_READ8_BITS_def TS_READ16_def)
  have o: "parse_object (always_ok j) l (body @ q) stt = None"
    if "(if bits_at f 2 4 = 0 then parse_fields (always_ok j) l (t @ q) stt else
      if bits_at f 2 4 = 1 then map_option (\<lambda>x. (x, stt)) (parse_codes (always_ok j) (t @ q)) else Some undefined) = None"
    using that unfolding parse_object_def r by (simp split: if_splits)
  from c show ?thesis
  proof
    assume "bits_at f 2 4 = 1 \<and> t \<noteq> [] \<and> hd t \<noteq> 0"
    moreover from this obtain k t' where "t = k # t'" "k \<noteq> 0" by (cases t) auto
    moreover have "codes_loop (unat k) p (unat k) [] = None" if "k \<noteq> 0" for k :: u8 and p
      using that by (intro codes_loop_overflow) (simp add: unat_gt_0)
    ultimately show ?thesis by (intro o) (simp add: parse_codes_def)
  next
    assume "bits_at f 2 4 = 0 \<and> (\<exists>n m r. t = be16 n @ be16 m @ 0x10 # r \<and> 0 < n \<and> n < 65536)"
    then obtain n m s where t: "bits_at f 2 4 = 0" "t @ q = be16 n @ be16 m @ 0x10 # s @ q" "0 < n" "n < 65536" by auto
    have "unat (of_nat n :: u16) = n" "(of_nat n :: u16) \<noteq> 0"
      using t(3,4) by (simp_all add: unsigned_of_nat take_bit_nat_eq_self word_of_nat_eq_0_iff nat_dvd_not_less)
    then have "parse_fields (always_ok j) l (t @ q) stt = None"
      using t(3) unfolding t(2) parse_fields_def
      by (simp add: READ16_be16 t(4) parse_field_def field_loop_2bit split: Option.bind_splits)
    with t(1) show ?thesis by (intro o) simp
  qed
qed

text \<open>
  C39. Segments that the parser does not survive, whatever else the packet holds: an alternative
  colour table, whose loop reads past the segment, so that the assertion on the length fails; an
  object coded as characters, whose first code is written outside its array; and an object whose
  top field starts with a line of two-bit pixel codes, whose decoder never ends.
\<close>

theorem subtitle_unreadable:
  assumes "ty = alternative_CLUT_segment \<or> ty = object_data_segment \<and> bad_object body"
    and "length body < 65536" "page < 65536" "len \<noteq> 2"
  shows "parse_subtitle (always_ok j)
    ([0x20, 0x00] @ [SUBTITLE_SYNC_BYTE, ty] @ be16 page @ be16 (length body) @ body @ rest) len (sub, stt) = None"
proof -
  let ?p = "SUBTITLE_SYNC_BYTE # ty # be16 page @ be16 (length body) @ body @ rest"
  let ?h = "\<lparr>sh_sync_byte = SUBTITLE_SYNC_BYTE, sh_segment_type = ty, sh_page_id = of_nat page, sh_segment_length = of_nat (length body)\<rparr>"
  have h: "parse_subtitle_segment_header ?p = Some (6, ?h)"
    using assms(2,3) by (simp add: parse_subtitle_segment_header_def SUBTITLE_SYNC_BYTE_def READ16_be16)
  have u: "unat (of_nat (length body) :: u16) = length body"
    using assms(2) by (simp add: unsigned_of_nat take_bit_nat_eq_self)
  have d: "drop 6 ?p = body @ rest" by simp
  have s: "parse_sub_segment (always_ok j) (body @ rest) ?h stt = Some ((n, x), stt') \<Longrightarrow> n \<noteq> length body" for n x stt'
    using assms(1) alt_clut_past [of j "length body" "body @ rest"] bad_object_None [of body j "length body" rest stt]
    by (auto simp: parse_sub_segment_def segment_types u)
  have "segment_loop (always_ok j) (len - 2) ?p 0 stt = None"
    using assms(4) by (subst segment_loop.simps)
      (auto simp: h d u simp del: segment_loop.simps drop_append drop_Cons_numeral dest: s split: Option.bind_splits)
  then show ?thesis
    by (simp add: parse_subtitle_def del: segment_loop.simps split: Option.bind_splits)
qed

theorem subtitle_unreadable_witness:
  "parse_subtitle (always_ok (\<lambda>_. 0))
    ([0x20, 0x00] @ [SUBTITLE_SYNC_BYTE, object_data_segment] @ be16 1 @ be16 (length [0, 1, 0, 0, 3, 0, 0, 0x10, 0x40, 0 :: u8]) @
      [0, 1, 0, 0, 3, 0, 0, 0x10, 0x40, 0] @ [0xFF]) 20 (so_new subtitle_ops, no_codes) = None"
proof (rule subtitle_unreadable)
  have "bad_object [0, 1, 0, 0, 3, 0, 0, 0x10, 0x40, 0]"
    unfolding bad_object_def
    by (rule exI [of _ 0], rule exI [of _ 1], rule exI [of _ 0], rule exI [of _ "[0, 3, 0, 0, 0x10, 0x40, 0]"],
        intro conjI disjI2, simp, simp add: bits_at_def, rule exI [of _ 3], rule exI [of _ 0], simp add: be16_def)
  then show "object_data_segment = alternative_CLUT_segment \<or>
    object_data_segment = object_data_segment \<and> bad_object [0, 1, 0, 0, 3, 0, 0, 0x10, 0x40, 0]" by simp
qed simp_all

end
