(* ===== verification/Hexdump.thy ===== *)
theory Hexdump
  imports Json_Output
begin

text \<open>
  What the dump functions call: \<open>res_put\<close> with its formatted value, and \<open>res_hexdump\<close>
  (\<^verbatim>\<open>src/result.c\<close>).  A dump is the sequence of its calls.  Any sequence of calls
  with keys, and of arrays opened by a key, is written as a JSON text.
\<close>

section \<open>Formats\<close>

text \<open>The conversions of \<open>printf\<close> that the dump functions use.\<close>

fun hex_nat :: "nat \<Rightarrow> string" where
  "hex_nat n = (if n < 16 then [hex_digit n] else hex_nat (n div 16) @ [hex_digit (n mod 16)])"

declare hex_nat.simps [simp del]

definition pad_left :: "nat \<Rightarrow> char \<Rightarrow> string \<Rightarrow> string" where
  "pad_left n c s = replicate (n - length s) c @ s"

definition hex02 :: "nat \<Rightarrow> string" where
  "hex02 n = pad_left 2 CHR ''0'' (hex_nat n)"

definition upper_hex :: "string \<Rightarrow> string" where
  "upper_hex = map (\<lambda>c. if c \<in> set ''abcdef'' then char_of (of_char c - 32 :: nat) else c)"

section \<open>Hex dumps\<close>

text \<open>
  In the hierarchical formats the dump is one string in an array of \<open>LINE_LEN * 4\<close> characters.
  A piece that does not fit ends it (\<open>Inl\<close>); the printable characters at the end of a row are
  written without a check, and so is the final null character.
\<close>

definition RAW_LEN :: nat where "RAW_LEN = LINE_LEN * 4"

fun put_pieces :: "string list \<Rightarrow> string \<Rightarrow> string + string" where
  "put_pieces [] raw = Inr raw"
| "put_pieces (s # ss) raw = (if length raw + length s < RAW_LEN then put_pieces ss (raw @ s) else Inl raw)"

definition printable :: "u8 \<Rightarrow> char" where
  "printable b = (if 0x20 \<le> b \<and> b < 0x7F then char_of (unat b) else CHR ''.'')"

definition row_pieces :: "nat \<Rightarrow> bytes \<Rightarrow> string list" where
  "row_pieces ofs bs = [pad_left 8 CHR ''0'' (hex_nat ofs) @ '':''] @ map (\<lambda>b. '' '' @ hex02 (unat b)) bs @
     replicate (16 - length bs) ''   '' @ [''  | '']"

definition finish_raw :: "string \<Rightarrow> string option" where
  "finish_raw raw = (if length raw < RAW_LEN then Some raw else None)"

function (sequential) hex_rows :: "bytes \<Rightarrow> nat \<Rightarrow> string \<Rightarrow> string option" where
  "hex_rows data ofs raw =
     (if length data \<le> ofs then finish_raw raw
      else let raw = (if 0 < ofs \<and> length raw < RAW_LEN then raw @ [NL] else raw); bs = take 16 (drop ofs data) in
        case put_pieces (row_pieces ofs bs) raw of
          Inl raw \<Rightarrow> finish_raw raw
        | Inr raw \<Rightarrow> if length raw + length bs \<le> RAW_LEN then hex_rows data (ofs + length bs) (raw @ map printable bs) else None)"
  by pat_completeness auto
termination by (relation "measure (\<lambda>(data, ofs, raw). length data - ofs)") auto

definition hex_raw :: "bytes \<Rightarrow> string option" where
  "hex_raw data = hex_rows data 0 []"

text \<open>
  In the other formats every row is a line of its own; the title stands before the first row.  A
  piece that does not fit ends the line (\<open>Inl\<close>).  A row gives what is printed and the number of
  bytes passed.
\<close>

definition add_piece :: "string \<Rightarrow> string \<Rightarrow> string + string" where
  "add_piece line s = (if length line + length s < LINE_LEN then Inr (line @ s) else Inl (take (LINE_LEN - 1) (line @ s)))"

fun add_pieces :: "string list \<Rightarrow> string \<Rightarrow> string + string" where
  "add_pieces [] line = Inr line"
| "add_pieces (s # ss) line = (case add_piece line s of Inl l \<Rightarrow> Inl l | Inr l \<Rightarrow> add_pieces ss l)"

fun add_chars :: "char list \<Rightarrow> nat \<Rightarrow> string \<Rightarrow> (string \<times> nat) + string" where
  "add_chars [] n line = Inr line"
| "add_chars (c # cs) n line = (case add_piece line [c] of Inl l \<Rightarrow> Inl (l, n) | Inr l \<Rightarrow> add_chars cs (Suc n) l)"

definition text_row :: "nat \<Rightarrow> bytes \<Rightarrow> nat \<Rightarrow> string \<Rightarrow> (string \<times> nat) option" where
  "text_row lv data ofs line =
     (let bs = take 16 (drop ofs data); addr = upper_hex (pad_left 8 CHR ''0'' (hex_nat ofs)) @ '':'' in
      case add_pieces (replicate lv ''  '') line of
        Inl l \<Rightarrow> Some (l, 0)
      | Inr line \<Rightarrow>
          if LINE_LEN < length line + length addr then None
          else case add_pieces (addr # map (\<lambda>b. '' '' @ upper_hex (hex02 (unat b))) bs @ replicate (17 - length bs) '' | '') line of
            Inl l \<Rightarrow> Some (l, 0)
          | Inr line \<Rightarrow>
              (case add_chars (map printable bs) 0 line of
                 Inl r \<Rightarrow> Some r
               | Inr line \<Rightarrow> Some (case add_piece line [NL] of Inl l \<Rightarrow> l | Inr l \<Rightarrow> l, length bs)))"

partial_function (option) text_rows :: "nat \<Rightarrow> bytes \<Rightarrow> nat \<Rightarrow> string \<Rightarrow> string \<Rightarrow> string option" where
  "text_rows lv data ofs line acc =
     (if length data \<le> ofs then Some acc
      else do {
        (l, n) \<leftarrow> text_row lv data ofs line;
        text_rows lv data (ofs + n) [] (acc @ c_str l) })"

definition hex_text :: "nat \<Rightarrow> string \<Rightarrow> bytes \<Rightarrow> string option" where
  "hex_text lv title data =
     (let line = fst (indent_loop lv (if lv = 0 then [NL] else [])) in
      case add_piece line (c_str title @ '': len '' @ dec_nat (length data) @ [NL]) of
        Inl _ \<Rightarrow> Some (''title too long: '' @ c_str title)
      | Inr line \<Rightarrow> text_rows lv data 0 line [])"

definition res_hexdump :: "alloc_env \<Rightarrow> nat \<Rightarrow> string \<Rightarrow> bytes \<Rightarrow> res_state \<Rightarrow> res_state option" where
  "res_hexdump e lv title data st =
     (if is_hier st then do {
        raw \<leftarrow> hex_raw data;
        if rs_outtype st = RES_YAML then y_emit e (int lv) (Some title) (Some raw) st
        else j_emit (int lv) (Some title) (Some raw) st }
      else do {
        t \<leftarrow> hex_text lv title data;
        fputs t st })"

section \<open>Dumps as sequences of calls\<close>

datatype rcall = Put nat "string option" "string option" | Hexd nat string bytes

fun run_call :: "alloc_env \<Rightarrow> rcall \<Rightarrow> res_state \<Rightarrow> res_state option" where
  "run_call e (Put lv key fmt) st = res_put e (int lv) key fmt st"
| "run_call e (Hexd lv title data) st = res_hexdump e lv title data st"

fun call_lv :: "rcall \<Rightarrow> nat" where
  "call_lv (Put lv key fmt) = lv"
| "call_lv (Hexd lv title data) = lv"

text \<open>What a call adds to the tree of the output.\<close>

fun emitted :: "rcall \<Rightarrow> call option" where
  "emitted (Put lv key fmt) = Some (int lv, key, map_option (snprintf LINE_LEN) fmt)"
| "emitted (Hexd lv title data) = map_option (\<lambda>raw. (int lv, Some title, Some raw)) (hex_raw data)"

definition rtree_step :: "rcall \<Rightarrow> frame list \<Rightarrow> frame list option" where
  "rtree_step c fs = do {
     p \<leftarrow> emitted c;
     if call_lv c \<le> 14 then tree_put p fs else None }"

section \<open>Dumps in the tree\<close>

interpretation dump: simulation "in_tree pre html" "run_call e" rtree_step
proof
  fix st fs c fs'
  assume r: "in_tree pre html st fs" and t: "rtree_step c fs = Some fs'"
  obtain lv key val where c: "emitted c = Some (lv, key, val)" "lv = int (call_lv c)" "call_lv c \<le> 14" and p: "tree_put (lv, key, val) fs = Some fs'"
    using t by (cases c) (auto simp: rtree_step_def Option.bind_eq_Some_conv split: if_splits)
  have "\<not> (key = None \<and> val = None)"
    using p by (cases val) (auto simp: tree_put_def Let_def Option.bind_eq_Some_conv split: if_splits)
  then have "run_call e c st = j_emit lv key val st"
    using r c hier_types by (cases c) (auto simp: res_put_def res_hexdump_def is_hier_def in_tree_def)
  with j_emit_law [of pre st fs, OF _ _ p] c(2,3) tree_put_kind [OF p] r show "\<exists>st'. run_call e c st = Some st' \<and> in_tree pre html st' fs'"
    by (auto simp: in_tree_def same_output_def)
qed

text \<open>The innermost open container of a level below \<open>c\<close> is an array.\<close>

definition arr_below :: "int \<Rightarrow> frame list \<Rightarrow> bool" where
  "arr_below c fs \<longleftrightarrow> (case dropWhile (\<lambda>f. c \<le> fr_lv f) fs of [] \<Rightarrow> False | f # _ \<Rightarrow> \<exists>vs. fr_body f = Arr vs)"

lemma arr_below_Cons:
  "arr_below c (f # fs) \<longleftrightarrow> (if c \<le> fr_lv f then arr_below c fs else \<exists>vs. fr_body f = Arr vs)"
  by (simp add: arr_below_def)

lemma arr_below_pop:
  fixes fs :: "frame list"
  shows "\<lbrakk>pop_frames (\<lambda>f. fr_lv f < m) fs = Some fs'; arr_below c fs; c \<le> m\<rbrakk> \<Longrightarrow> arr_below c fs'"
proof (induction "\<lambda>f :: frame. fr_lv f < m" fs rule: pop_frames.induct)
  case (1 f g fs)
  show ?case
  proof (cases "fr_lv f < m")
    case False
    with 1 obtain b where b: "add_child (fr_key f) (tree (fr_body f)) (fr_body g) = Some b"
      "pop_frames (\<lambda>f. fr_lv f < m) (g\<lparr>fr_body := b\<rparr> # fs) = Some fs'"
      by (auto simp: Option.bind_eq_Some_conv)
    have "arr_below c (g # fs)" using 1(3,4) False by (simp add: arr_below_Cons)
    then have "arr_below c (g\<lparr>fr_body := b\<rparr> # fs)"
      using b(1) by (cases "fr_key f") (auto simp: arr_below_Cons split: if_splits)
    with 1(1) False b 1(4) show ?thesis by blast
  qed (use 1 in auto)
qed auto

lemma tree_put_keyed:
  assumes "levels_ok fs"
  shows "\<exists>fs'. tree_put (lv, Some k, val) fs = Some fs' \<and> (arr_below c fs \<and> c \<le> lv \<longrightarrow> arr_below c fs')"
proof -
  obtain gs where gs: "pop_frames (\<lambda>f. fr_lv f < lv) fs = Some gs" "levels_ok gs"
    using pop_frames_total [OF assms] by blast
  obtain f hs where w: "wrap_frame lv False gs = f # hs" "\<forall>vs. fr_body f \<noteq> Arr vs" "arr_below c gs \<and> c \<le> lv \<longrightarrow> arr_below c (f # hs)"
    using gs(2) by (cases gs; cases "fr_body (hd gs)") (auto simp: arr_below_Cons)
  have a: "arr_below c fs \<and> c \<le> lv \<longrightarrow> arr_below c (f # hs)" using arr_below_pop [OF gs(1)] w(3) by blast
  obtain ms where ms: "resolve False (fr_body f) = Obj ms" using w(2) by (cases "fr_body f") auto
  show ?thesis
    using a w(2) by (cases val) (auto simp: tree_put_def gs(1) w(1) on_top_def ms arr_below_Cons split: if_splits)
qed

lemma tree_put_element:
  assumes "levels_ok fs" "arr_below (lv + 1) fs"
  shows "\<exists>fs'. tree_put (lv, None, Some v) fs = Some fs' \<and> arr_below (lv + 1) fs'"
proof -
  obtain gs where gs: "pop_frames (\<lambda>f. fr_lv f < lv + 1) fs = Some gs" "levels_ok gs" "length gs = 1 \<or> fr_lv (hd gs) < lv + 1"
    using pop_frames_total [OF assms(1)] by blast
  have "arr_below (lv + 1) gs" using arr_below_pop [OF gs(1) assms(2)] by simp
  with gs(2,3) obtain f hs vs where "gs = f # hs" "fr_body f = Arr vs" "fr_lv f < lv + 1"
    by (cases gs) (auto simp: arr_below_Cons arr_below_def split: if_splits)
  with gs(1) show ?thesis by (auto simp: tree_put_def on_top_def arr_below_Cons)
qed

lemma tree_put_first:
  assumes "fr_body f = Undecided" "fr_lv f \<le> lv"
  shows "\<exists>fs'. tree_put (lv, None, Some v) (f # fs) = Some fs' \<and> arr_below (lv + 1) fs'"
  using assms by (cases fs) (auto simp: tree_put_def on_top_def arr_below_Cons)

section \<open>Hex dumps of descriptors and of teletext lines fit\<close>

lemma length_hex_nat: "n < 16 ^ Suc k \<Longrightarrow> length (hex_nat n) \<le> Suc k"
proof (induction k arbitrary: n)
  case (Suc k)
  then show ?case by (subst hex_nat.simps) (simp add: less_mult_imp_div_less)
qed (subst hex_nat.simps, simp)

lemma put_pieces_fit: "length raw + length (concat ss) < RAW_LEN \<Longrightarrow> put_pieces ss raw = Inr (raw @ concat ss)"
  by (induction ss arbitrary: raw) simp_all

lemma length_row:
  assumes "ofs < 4294967296" "length bs \<le> 16"
  shows "length (concat (row_pieces ofs bs)) = 61"
proof -
  have "length (hex02 (unat b)) = 2" for b :: u8
    using length_hex_nat [of "unat b" 1] unsigned_less [of b, where ?'a = nat] by (simp add: hex02_def pad_left_def)
  then have h: "length (concat (map (\<lambda>b. '' '' @ hex02 (unat b)) bs)) = 3 * length bs" by (induction bs) simp_all
  have r: "length (concat (replicate n ''   '')) = 3 * n" for n by (induction n) simp_all
  have "length (pad_left 8 CHR ''0'' (hex_nat ofs)) = 8"
    using length_hex_nat [of ofs 7] assms(1) by (simp add: pad_left_def)
  with h r assms(2) show ?thesis by (simp add: row_pieces_def)
qed

lemma hex_rows_defined:
  assumes "length raw + 78 * ((length data - ofs + 15) div 16) < RAW_LEN" "length data < 4294967296"
  shows "\<exists>r. hex_rows data ofs raw = Some r"
  using assms
proof (induction data ofs raw rule: hex_rows.induct)
  case (1 data ofs raw)
  show ?case
  proof (cases "length data \<le> ofs")
    case True
    with 1(2) show ?thesis by (simp add: finish_raw_def)
  next
    case False
    let ?raw = "if 0 < ofs \<and> length raw < RAW_LEN then raw @ [NL] else raw" and ?bs = "take 16 (drop ofs data)"
    have n: "(length data - ofs + 15) div 16 = Suc ((length data - (ofs + length ?bs) + 15) div 16)"
      using False by (simp add: min_def) arith
    have le: "length ?raw \<le> Suc (length raw)" by simp
    have row: "length (concat (row_pieces ofs ?bs)) = 61" using False 1(3) by (intro length_row) simp_all
    have p: "put_pieces (row_pieces ofs ?bs) ?raw = Inr (?raw @ concat (row_pieces ofs ?bs))"
      by (rule put_pieces_fit) (use 1(2) n le row in linarith)
    have b: "length ?bs \<le> 16" by simp
    have "length (?raw @ concat (row_pieces ofs ?bs)) + length ?bs \<le> RAW_LEN"
      unfolding length_append row using 1(2) n le b by linarith
    moreover have "length ((?raw @ concat (row_pieces ofs ?bs)) @ map printable ?bs) + 78 * ((length data - (ofs + length ?bs) + 15) div 16) < RAW_LEN"
      unfolding length_append length_map row using 1(2) n le b by linarith
    ultimately show ?thesis
      using 1(1) [OF False refl refl p] 1(3) False p by (subst hex_rows.simps) (simp add: Let_def)
  qed
qed

lemma hex_raw_defined: "length data \<le> 255 \<Longrightarrow> hex_raw data \<noteq> None"
  using hex_rows_defined [of "[]" data 0] by (simp add: hex_raw_def RAW_LEN_def LINE_LEN_def)

section \<open>Dumps that make JSON\<close>

text \<open>
  Calls with a key, and arrays: a key without value, and elements that may be followed by calls
  with keys at a deeper level.
\<close>

definition keyed :: "rcall \<Rightarrow> bool" where
  "keyed c \<longleftrightarrow> call_lv c \<le> 14 \<and> (case c of Put lv key fmt \<Rightarrow> key \<noteq> None | Hexd lv title data \<Rightarrow> True)"

definition fits :: "rcall \<Rightarrow> bool" where
  "fits c \<longleftrightarrow> (case c of Put lv key fmt \<Rightarrow> True | Hexd lv title data \<Rightarrow> length data \<le> 255)"

inductive dump_ok :: "rcall list \<Rightarrow> bool" where
  ok_end: "dump_ok []"
| ok_key: "\<lbrakk>keyed c; dump_ok cs\<rbrakk> \<Longrightarrow> dump_ok (c # cs)"
| ok_array: "\<lbrakk>l \<le> lv; lv \<le> 14; \<forall>(v, bs) \<in> set items. \<forall>c \<in> set bs. keyed c \<and> lv < call_lv c; dump_ok cs\<rbrakk> \<Longrightarrow>
    dump_ok (Put l (Some k) None # concat (map (\<lambda>(v, bs). Put lv None (Some v) # bs) items) @ cs)"

lemma dump_ok_append: "\<lbrakk>dump_ok cs; dump_ok ds\<rbrakk> \<Longrightarrow> dump_ok (cs @ ds)"
proof (induction rule: dump_ok.induct)
  case (ok_array l lv items cs k)
  then show ?case using dump_ok.ok_array [of l lv items "cs @ ds" k] by simp
qed (auto intro: dump_ok.intros)

lemma dump_ok_keyed: "\<forall>c \<in> set cs. keyed c \<Longrightarrow> dump_ok cs"
  by (induction cs) (auto intro: dump_ok.intros)

lemma dump_ok_concat: "\<forall>cs \<in> set css. dump_ok cs \<Longrightarrow> dump_ok (concat css)"
  by (induction css) (auto intro: dump_ok.intros dump_ok_append)

lemma dump_ok_elements:
  "\<lbrakk>l \<le> lv; lv \<le> 14\<rbrakk> \<Longrightarrow> dump_ok (Put l (Some k) None # map (\<lambda>v. Put lv None (Some v)) vs)"
  using ok_array [of l lv "map (\<lambda>v. (v, [])) vs" "[]" k] by (simp add: ok_end comp_def concat_map_singleton)

lemma rtree_keyed:
  assumes "in_tree pre html st fs" "keyed c" "fits c"
  shows "\<exists>st' fs'. run_call e c st = Some st' \<and> in_tree pre html st' fs' \<and>
    (\<forall>m. arr_below m fs \<and> m \<le> int (call_lv c) \<longrightarrow> arr_below m fs')"
proof -
  have l: "levels_ok fs" using assms(1) by (simp add: in_tree_def rel_def)
  obtain k val where c: "emitted c = Some (int (call_lv c), Some k, val)" "call_lv c \<le> 14"
    using assms(2,3) hex_raw_defined by (cases c) (fastforce simp: keyed_def fits_def)+
  obtain fs' where f: "tree_put (int (call_lv c), Some k, val) fs = Some fs'" using tree_put_keyed [OF l] by blast
  then have a: "\<forall>m. arr_below m fs \<and> m \<le> int (call_lv c) \<longrightarrow> arr_below m fs'"
    using tree_put_keyed [OF l, of "int (call_lv c)" k val] by fastforce
  have "rtree_step c fs = Some fs'" using c f by (simp add: rtree_step_def)
  from dump.step [OF assms(1) this] a show ?thesis by blast
qed

lemma run_keyed_block:
  assumes "in_tree pre html st fs" "\<forall>c \<in> set cs. keyed c \<and> lv < call_lv c \<and> fits c" "arr_below (int lv + 1) fs"
  shows "\<exists>st' fs'. fold_opt (run_call e) cs st = Some st' \<and> in_tree pre html st' fs' \<and> arr_below (int lv + 1) fs'"
  using assms
proof (induction cs arbitrary: st fs)
  case (Cons c cs)
  obtain st1 fs1 where 1: "run_call e c st = Some st1" "in_tree pre html st1 fs1" "arr_below (int lv + 1) fs1"
    using rtree_keyed [OF Cons.prems(1), of c e] Cons.prems(2,3) by auto
  with Cons.IH [OF 1(2) _ 1(3)] Cons.prems(2) show ?case by auto
qed auto

lemma run_element:
  assumes "in_tree pre html st fs" "lv \<le> 14" "arr_below (int lv + 1) fs \<or> fr_body (hd fs) = Undecided \<and> fr_lv (hd fs) \<le> int lv"
  shows "\<exists>st' fs'. run_call e (Put lv None (Some v)) st = Some st' \<and> in_tree pre html st' fs' \<and> arr_below (int lv + 1) fs'"
proof -
  have l: "levels_ok fs" using assms(1) by (simp add: in_tree_def rel_def)
  obtain fs' where f: "tree_put (int lv, None, Some (snprintf LINE_LEN v)) fs = Some fs'" "arr_below (int lv + 1) fs'"
    using assms(3) tree_put_element [OF l, of "int lv" "snprintf LINE_LEN v"]
      tree_put_first [of "hd fs" "int lv" "snprintf LINE_LEN v" "tl fs"] l by (cases fs) auto
  have "rtree_step (Put lv None (Some v)) fs = Some fs'" using f assms(2) by (simp add: rtree_step_def)
  from dump.step [OF assms(1) this] f(2) show ?thesis by blast
qed

lemma run_items:
  assumes "in_tree pre html st fs" "lv \<le> 14" "\<forall>(v, bs) \<in> set items. \<forall>c \<in> set bs. keyed c \<and> lv < call_lv c \<and> fits c"
    and "arr_below (int lv + 1) fs \<or> fr_body (hd fs) = Undecided \<and> fr_lv (hd fs) \<le> int lv"
  shows "\<exists>st' fs'. fold_opt (run_call e) (concat (map (\<lambda>(v, bs). Put lv None (Some v) # bs) items)) st = Some st' \<and> in_tree pre html st' fs'"
  using assms
proof (induction items arbitrary: st fs)
  case (Cons it items)
  obtain v bs where it: "it = (v, bs)" by (cases it)
  obtain st1 fs1 where 1: "run_call e (Put lv None (Some v)) st = Some st1" "in_tree pre html st1 fs1" "arr_below (int lv + 1) fs1"
    using run_element [OF Cons.prems(1,2,4)] by blast
  obtain st2 fs2 where 2: "fold_opt (run_call e) bs st1 = Some st2" "in_tree pre html st2 fs2" "arr_below (int lv + 1) fs2"
    using run_keyed_block [OF 1(2) _ 1(3), of bs e] Cons.prems(3) it by auto
  have "\<forall>(v, bs) \<in> set items. \<forall>c \<in> set bs. keyed c \<and> lv < call_lv c \<and> fits c" using Cons.prems(3) by simp
  from Cons.IH [OF 2(2) Cons.prems(2) this] 2(1,3) 1(1) it show ?case by (auto simp: fold_opt_append)
qed auto

lemma run_dump:
  assumes "dump_ok cs" "\<forall>c \<in> set cs. fits c" "in_tree pre html st fs"
  shows "\<exists>st' fs'. fold_opt (run_call e) cs st = Some st' \<and> in_tree pre html st' fs'"
  using assms
proof (induction arbitrary: st fs rule: dump_ok.induct)
  case (ok_key c cs)
  obtain st1 fs1 where "run_call e c st = Some st1" "in_tree pre html st1 fs1"
    using rtree_keyed [OF ok_key.prems(2) ok_key.hyps(1), of e] ok_key.prems(1) by auto
  with ok_key.IH ok_key.prems(1) show ?case by auto
next
  case (ok_array l lv items cs k)
  have l: "levels_ok fs" using ok_array.prems(2) by (simp add: in_tree_def rel_def)
  obtain fs1 where f: "tree_put (int l, Some k, None) fs = Some fs1" using tree_put_keyed [OF l] by blast
  then have h: "fr_body (hd fs1) = Undecided" "fr_lv (hd fs1) = int l"
    by (auto simp: tree_put_def Option.bind_eq_Some_conv Let_def)
  have "rtree_step (Put l (Some k) None) fs = Some fs1" using f ok_array.hyps by (simp add: rtree_step_def)
  from dump.step [OF ok_array.prems(2) this] obtain st1 where 1: "run_call e (Put l (Some k) None) st = Some st1" "in_tree pre html st1 fs1" by blast
  have "\<forall>(v, bs) \<in> set items. \<forall>c \<in> set bs. keyed c \<and> lv < call_lv c \<and> fits c"
    using ok_array.hyps(3) ok_array.prems(1) by fastforce
  from run_items [OF 1(2) ok_array.hyps(2) this, of e] h ok_array.hyps(1)
  obtain st2 fs2 where 2: "fold_opt (run_call e) (concat (map (\<lambda>(v, bs). Put lv None (Some v) # bs) items)) st1 = Some st2" "in_tree pre html st2 fs2"
    by auto
  from ok_array.IH [OF _ 2(2)] ok_array.prems(1) 1(1) 2(1) show ?case by (auto simp: fold_opt_append)
qed auto

section \<open>Every dump is a JSON text\<close>

lemma dump_json:
  assumes "dump_ok calls" "\<forall>c \<in> set calls. fits c"
  shows "\<exists>st1 st2 t.
    fold_opt (run_call e) calls (res_open True html_head (res_settype (if html then RES_HTML else RES_JSON) st)) = Some st1 \<and>
    res_close e html_foot st1 = Some st2 \<and>
    rs_out st2 = Some ((if html then html_head else []) @ root_text t @ (if html then html_foot else [])) \<and>
    json_text (root_text t) (json_of t)"
  using run_dump [OF assms in_tree_open] res_close_law by blast

end
