(* ===== verification/Options.thy ===== *)
theory Options
  imports Hexdump Psi_Tables
begin

text \<open>
  The command line (\<^verbatim>\<open>src/options.c\<close>): tables, input and output formats and selected PIDs, and the
  configuration they make.  Strings are C strings without their end; a null pointer is \<open>None\<close>.
\<close>

section \<open>Numbers\<close>

text \<open>\<open>strtol\<close> of the C library: the value, what follows the number, and whether it was out of range.\<close>

definition c_isspace :: "char \<Rightarrow> bool" where
  "c_isspace c \<longleftrightarrow> c \<in> {CHR '' '', CHR 0x09, CHR 0x0A, CHR 0x0B, CHR 0x0C, CHR 0x0D}"

definition digit_val :: "char \<Rightarrow> nat option" where
  "digit_val c = (let n = of_char c in
     if 48 \<le> n \<and> n \<le> 57 then Some (n - 48)
     else if 97 \<le> n \<and> n \<le> 102 then Some (n - 87)
     else if 65 \<le> n \<and> n \<le> 70 then Some (n - 55)
     else None)"

definition is_digit :: "nat \<Rightarrow> char \<Rightarrow> bool" where
  "is_digit base c \<longleftrightarrow> (case digit_val c of Some d \<Rightarrow> d < base | None \<Rightarrow> False)"

definition digits_val :: "nat \<Rightarrow> string \<Rightarrow> nat" where
  "digits_val base ds = foldl (\<lambda>a c. a * base + the (digit_val c)) 0 ds"

definition hex_prefix :: "string \<Rightarrow> bool" where
  "hex_prefix s = (case s of a # b # _ \<Rightarrow> a = CHR ''0'' \<and> (b = CHR ''x'' \<or> b = CHR ''X'') | _ \<Rightarrow> False)"

definition LONG_MAX :: int where "LONG_MAX = 2 ^ 63 - 1"

definition strtol :: "nat \<Rightarrow> string \<Rightarrow> int \<times> string \<times> bool" where
  "strtol base s =
     (let s1 = dropWhile c_isspace s;
          neg = (s1 \<noteq> [] \<and> hd s1 = CHR ''-'');
          s2 = (if s1 \<noteq> [] \<and> (hd s1 = CHR ''-'' \<or> hd s1 = CHR ''+'') then tl s1 else s1);
          s3 = (if base = 16 \<and> hex_prefix s2 \<and> drop 2 s2 \<noteq> [] \<and> is_digit 16 (s2 ! 2) then drop 2 s2 else s2);
          ds = takeWhile (is_digit base) s3;
          v = (if neg then - int (digits_val base ds) else int (digits_val base ds))
      in if ds = [] then (0, s, False)
         else if v > LONG_MAX then (LONG_MAX, dropWhile (is_digit base) s3, True)
         else if v < - LONG_MAX - 1 then (- LONG_MAX - 1, dropWhile (is_digit base) s3, True)
         else (v, dropWhile (is_digit base) s3, False))"

section \<open>Configuration\<close>

definition TS_MAX_PID :: nat where "TS_MAX_PID = 8191"
definition UINT8_MAX :: u8 where "UINT8_MAX = 255"

record config =
  co_name :: string
  co_pids :: "u8 list"
  co_type :: u8
  co_brief :: bool
  co_detail :: bool
  co_stats :: bool
  co_mem :: u8
  co_output :: u8
  co_tables :: u16

definition tsaconf :: config where
  "tsaconf = \<lparr>co_name = [], co_pids = replicate (TS_MAX_PID + 1) 0, co_type = 0, co_brief = True, co_detail = False,
     co_stats = False, co_mem = 0, co_output = 0, co_tables = 0\<rparr>"

fun find_name :: "string list \<Rightarrow> string \<Rightarrow> nat \<Rightarrow> nat option" where
  "find_name [] s i = None"
| "find_name (x # xs) s i = (if x = s then Some i else find_name xs s (Suc i))"

definition table_names :: "string list" where
  "table_names = [''pat'', ''cat'', ''pmt'', ''tsdt'', ''nit'', ''sdt'', ''bat'', ''tdt'', ''eit'']"

definition parse_table :: "string \<Rightarrow> config \<Rightarrow> u8 \<times> config" where
  "parse_table table c =
     (case find_name table_names table 0 of
        Some i \<Rightarrow> (0, c\<lparr>co_tables := or (co_tables c) (push_bit i 1)\<rparr>)
      | None \<Rightarrow> (UINT8_MAX, c))"

definition parse_format_type :: "string \<Rightarrow> u8" where
  "parse_format_type format = (case find_name [''file'', ''udp''] format 0 of Some i \<Rightarrow> of_nat i | None \<Rightarrow> UINT8_MAX)"

definition parse_output_type :: "string \<Rightarrow> u8" where
  "parse_output_type format =
     (case find_name [''stdout'', ''txt'', ''json'', ''yaml'', ''html''] format 0 of Some i \<Rightarrow> of_nat i | None \<Rightarrow> UINT8_MAX)"

text \<open>
  The value of a PID token, \<open>None\<close> for the result -1.  Behind a prefix \<open>0x\<close> the end of the number is
  compared with the start of the token, which it never is.
\<close>

definition parse_selected_pid_value :: "string \<Rightarrow> nat option" where
  "parse_selected_pid_value token =
     (let (val, rest, range) = (if hex_prefix token then strtol 16 (drop 2 token) else strtol 10 token);
          no_number = (\<not> hex_prefix token \<and> length rest = length token)
      in if range \<or> no_number \<or> rest \<noteq> [] then None
         else if val < 0 \<or> int TS_MAX_PID < val then None
         else Some (nat val))"

definition set_pids :: "nat list \<Rightarrow> config \<Rightarrow> config" where
  "set_pids ps c = c\<lparr>co_pids := fold (\<lambda>i xs. xs[i := 1]) ps (co_pids c)\<rparr>"

definition parse_token :: "string \<Rightarrow> nat list option" where
  "parse_token tok =
     (if CHR ''-'' \<in> set tok then do {
        lo \<leftarrow> parse_selected_pid_value (takeWhile (\<lambda>c. c \<noteq> CHR ''-'') tok);
        hi \<leftarrow> parse_selected_pid_value (tl (dropWhile (\<lambda>c. c \<noteq> CHR ''-'') tok));
        if lo > hi then None else Some [lo..<Suc hi] }
      else map_option (\<lambda>p. [p]) (parse_selected_pid_value tok))"

text \<open>The PIDs counted so far and the configuration; \<open>None\<close> in the first place is the result -1.\<close>

function (sequential) pids_loop :: "string \<Rightarrow> nat \<Rightarrow> config \<Rightarrow> nat option \<times> config" where
  "pids_loop p n c =
     (if p = [] then (Some n, c)
      else let tok = takeWhile (\<lambda>x. x \<noteq> CHR '','') p; rest = dropWhile (\<lambda>x. x \<noteq> CHR '','') p in
        if tok = [] \<or> 64 \<le> length tok then (None, c)
        else case parse_token tok of
          None \<Rightarrow> (None, c)
        | Some ps \<Rightarrow>
            let c = set_pids ps c; n = n + length ps in
            if rest = [] then (Some n, c) else pids_loop (tl rest) n c)"
  by pat_completeness auto
termination
proof (relation "measure (\<lambda>(p, n, c). length p)")
  fix p :: string and n and c :: config and tok rest ps c' n'
  assume "p \<noteq> []" "rest = dropWhile (\<lambda>x. x \<noteq> CHR '','') p" "rest \<noteq> []"
  then have "length rest \<le> length p" "0 < length p" by (simp_all add: length_dropWhile_le)
  then show "((tl rest, n', c'), (p, n, c)) \<in> measure (\<lambda>(p, n, c). length p)" by (cases p) auto
qed simp

definition parse_selected_pids :: "string \<Rightarrow> config \<Rightarrow> nat option \<times> config" where
  "parse_selected_pids format c = pids_loop format 0 c"

section \<open>Arguments\<close>

text \<open>
  \<open>getopt_long\<close> is a function of the C library: the options it finds, in order, each with its
  argument, are a parameter, as are whether a file can be opened and the output file.  The function
  returns a value or ends the program.
\<close>

definition EINVAL :: int where "EINVAL = 22"
definition ENOENT :: int where "ENOENT = 2"

datatype outcome = Returned int | Exited int

text \<open>One option: the end of the function, or the result of the last selection of PIDs and the configuration.\<close>

definition option_step :: "char \<times> string option \<Rightarrow> int \<times> config \<Rightarrow> ((outcome \<times> config) + (int \<times> config)) option" where
  "option_step o_arg st = (case (o_arg, st) of ((opt, optarg), (ret, c)) \<Rightarrow>
     if opt = CHR ''?'' then Some (Inl (Returned (- EINVAL), c))
     else if opt = CHR ''h'' \<or> opt = CHR ''v'' then Some (Inl (Exited 0, c))
     else if opt = CHR ''b'' then Some (Inr (ret, c\<lparr>co_brief := True\<rparr>))
     else if opt = CHR ''d'' then Some (Inr (ret, c\<lparr>co_detail := True\<rparr>))
     else if opt = CHR ''S'' then Some (Inr (ret, c\<lparr>co_stats := True\<rparr>))
     else if opt = CHR ''s'' then do { a \<leftarrow> optarg; Some (Inr (ret, snd (parse_table a c))) }
     else if opt = CHR ''f'' then do { a \<leftarrow> optarg; Some (Inr (ret, c\<lparr>co_type := parse_format_type a\<rparr>)) }
     else if opt = CHR ''o'' then do { a \<leftarrow> optarg; Some (Inr (ret, c\<lparr>co_output := parse_output_type a\<rparr>)) }
     else if opt = CHR ''p'' then do {
       a \<leftarrow> optarg;
       let (n, c) = parse_selected_pids a c;
       Some (Inr (case n of None \<Rightarrow> -1 | Some k \<Rightarrow> int k, c)) }
     else Some (Inr (ret, c)))"

fun options_loop :: "(char \<times> string option) list \<Rightarrow> int \<times> config \<Rightarrow> ((outcome \<times> config) + (int \<times> config)) option" where
  "options_loop [] st = Some (Inr st)"
| "options_loop (x # xs) st = do {
     r \<leftarrow> option_step x st;
     (case r of Inl e \<Rightarrow> Some (Inl e) | Inr st \<Rightarrow> options_loop xs st) }"

definition prog_parse_args ::
  "(string \<Rightarrow> bool) \<Rightarrow> bool \<Rightarrow> string \<Rightarrow> string list \<Rightarrow> (char \<times> string option) list \<Rightarrow> config \<times> res_state \<Rightarrow>
   (outcome \<times> config \<times> res_state) option" where
  "prog_parse_args readable opened html_head argv opts st = (case st of (c, res) \<Rightarrow>
     if length argv < 2 then Some (Returned (- EINVAL), c, res)
     else do {
       r \<leftarrow> options_loop opts (0, c);
       (case r of
          Inl (e, c) \<Rightarrow> Some (e, c, res)
        | Inr (ret, c) \<Rightarrow>
            if ret < 0 then Some (Exited 1, c, res)
            else let c = c\<lparr>co_name := snprintf 256 (last argv)\<rparr> in
              if co_type c = UINT8_MAX then Some (Returned (- EINVAL), c, res)
              else if co_type c = 0 \<and> \<not> readable (last argv) then Some (Returned (- ENOENT), c, res)
              else if co_output c = UINT8_MAX then Some (Returned (- EINVAL), c, res)
              else Some (Returned 0, c, res_open opened html_head (res_settype (unat (co_output c)) res))) })"

text \<open>What the start of the table layer reads of the configuration.\<close>

definition selected :: "config \<Rightarrow> u16 \<Rightarrow> bool" where
  "selected c p \<longleftrightarrow> unat p \<le> TS_MAX_PID \<and> co_pids c ! unat p = 1"

section \<open>Numbers in tokens\<close>

lemma digit_dec: "d < 10 \<Longrightarrow> digit_val (char_of (48 + d)) = Some d"
  by (simp add: digit_val_def Let_def)

lemma lt16_cases: "(d :: nat) < 16 \<Longrightarrow> d \<in> {0, 1, 2, 3, 4, 5, 6, 7, 8, 9, 10, 11, 12, 13, 14, 15}"
  by (simp, arith)

lemma digit_hex: "d < 16 \<Longrightarrow> digit_val (hex_digit d) = Some d"
  by (drule lt16_cases) (auto simp: digit_val_def hex_digit_def Let_def)

lemma digits_val_snoc: "digits_val b (ds @ [c]) = digits_val b ds * b + the (digit_val c)"
  by (simp add: digits_val_def)

lemma dec_nat_digits: "(\<forall>c \<in> set (dec_nat n). is_digit 10 c) \<and> digits_val 10 (dec_nat n) = n \<and> dec_nat n \<noteq> []"
proof (induction n rule: dec_nat.induct)
  case (1 n)
  show ?case
  proof (cases "n < 10")
    case True
    then have "dec_nat n = [char_of (48 + n)]" by (subst dec_nat.simps) simp
    with True show ?thesis by (simp add: digit_dec is_digit_def digits_val_def)
  next
    case False
    then have "dec_nat n = dec_nat (n div 10) @ [char_of (48 + n mod 10)]" by (subst dec_nat.simps) simp
    with 1 False show ?thesis by (auto simp: digit_dec is_digit_def digits_val_snoc)
  qed
qed

lemma hex_nat_digits: "(\<forall>c \<in> set (hex_nat n). is_digit 16 c) \<and> digits_val 16 (hex_nat n) = n \<and> hex_nat n \<noteq> []"
proof (induction n rule: hex_nat.induct)
  case (1 n)
  show ?case
  proof (cases "n < 16")
    case True
    then have "hex_nat n = [hex_digit n]" by (subst hex_nat.simps) simp
    with True show ?thesis by (simp add: digit_hex is_digit_def digits_val_def)
  next
    case False
    then have "hex_nat n = hex_nat (n div 16) @ [hex_digit (n mod 16)]" by (subst hex_nat.simps) simp
    with 1 False show ?thesis by (auto simp: digit_hex is_digit_def digits_val_snoc)
  qed
qed

text \<open>A string of digits is neither space nor sign, and not a prefix of a hexadecimal number.\<close>

lemma is_digit_plain:
  assumes "is_digit b c"
  shows "\<not> c_isspace c" "c \<noteq> CHR ''-''" "c \<noteq> CHR ''+''" "c \<noteq> CHR '',''" "c \<noteq> CHR ''x''" "c \<noteq> CHR ''X''"
  using assms by (auto simp: is_digit_def digit_val_def c_isspace_def Let_def split: if_splits)

lemma strtol_digits:
  assumes "\<forall>c \<in> set ds. is_digit b c" "ds \<noteq> []" "int (digits_val b ds) \<le> LONG_MAX"
  shows "strtol b ds = (int (digits_val b ds), [], False)"
proof -
  obtain d ds' where ds: "ds = d # ds'" using assms(2) by (cases ds) auto
  have d: "is_digit b d" using assms(1) by (simp add: ds)
  have 1: "dropWhile c_isspace ds = ds" "hd ds \<noteq> CHR ''-''" "hd ds \<noteq> CHR ''+''"
    using is_digit_plain [OF d] by (simp_all add: ds)
  have 2: "\<not> hex_prefix ds"
    using assms(1) is_digit_plain(5,6) by (cases ds') (auto simp: hex_prefix_def ds)
  have 3: "takeWhile (is_digit b) ds = ds" "dropWhile (is_digit b) ds = []" using assms(1) by (simp_all add: takeWhile_eq_all_conv dropWhile_eq_Nil_conv)
  show ?thesis
    using assms(2,3) unfolding strtol_def Let_def 1(1) by (simp add: 1 2 3)
qed

section \<open>Lists of PIDs\<close>

text \<open>A PID in decimal or hexadecimal digits, single PIDs and ranges, and their list with commas.\<close>

datatype number = Dec nat | Hex nat

fun number_val :: "number \<Rightarrow> nat" where
  "number_val (Dec n) = n"
| "number_val (Hex n) = n"

fun number_text :: "number \<Rightarrow> string" where
  "number_text (Dec n) = dec_nat n"
| "number_text (Hex n) = ''0x'' @ hex_nat n"

datatype item = Single number | Range number number

fun item_text :: "item \<Rightarrow> string" where
  "item_text (Single a) = number_text a"
| "item_text (Range a b) = number_text a @ ''-'' @ number_text b"

fun item_pids :: "item \<Rightarrow> nat list" where
  "item_pids (Single a) = [number_val a]"
| "item_pids (Range a b) = [number_val a..<Suc (number_val b)]"

fun item_ok :: "item \<Rightarrow> bool" where
  "item_ok (Single a) \<longleftrightarrow> number_val a \<le> TS_MAX_PID"
| "item_ok (Range a b) \<longleftrightarrow> number_val a \<le> number_val b \<and> number_val b \<le> TS_MAX_PID"

fun items_text :: "item list \<Rightarrow> string" where
  "items_text [] = ''''"
| "items_text [x] = item_text x"
| "items_text (x # xs) = item_text x @ '','' @ items_text xs"

lemma length_dec_nat: "n < 10 ^ Suc k \<Longrightarrow> length (dec_nat n) \<le> Suc k"
proof (induction k arbitrary: n)
  case (Suc k)
  then show ?case by (subst dec_nat.simps) (simp add: less_mult_imp_div_less)
qed (subst dec_nat.simps, simp)

lemma length_number_text: "number_val a \<le> TS_MAX_PID \<Longrightarrow> length (number_text a) \<le> 6"
proof (cases a)
  case (Dec n)
  assume "number_val a \<le> TS_MAX_PID"
  with Dec length_dec_nat [of n 3] show ?thesis by (simp add: TS_MAX_PID_def)
next
  case (Hex n)
  assume "number_val a \<le> TS_MAX_PID"
  with Hex length_hex_nat [of n 3] show ?thesis by (simp add: TS_MAX_PID_def)
qed

lemma digits_plain: "\<forall>c \<in> set ds. is_digit b c \<Longrightarrow> CHR ''-'' \<notin> set ds \<and> CHR '','' \<notin> set ds"
  using is_digit_plain(2) [of b "CHR ''-''"] is_digit_plain(4) [of b "CHR '',''"] by auto

lemma number_text_plain: "CHR ''-'' \<notin> set (number_text a)" "CHR '','' \<notin> set (number_text a)" "number_text a \<noteq> []"
proof -
  have "CHR ''-'' \<notin> set (number_text a) \<and> CHR '','' \<notin> set (number_text a) \<and> number_text a \<noteq> []"
  proof (cases a)
    case (Dec n)
    with dec_nat_digits [of n] digits_plain [of "dec_nat n" 10] show ?thesis by simp
  next
    case (Hex n)
    with hex_nat_digits [of n] digits_plain [of "hex_nat n" 16] show ?thesis by simp
  qed
  then show "CHR ''-'' \<notin> set (number_text a)" "CHR '','' \<notin> set (number_text a)" "number_text a \<noteq> []" by blast+
qed

lemma item_text_plain: "CHR '','' \<notin> set (item_text x)" "item_text x \<noteq> []"
  by (cases x; simp add: number_text_plain)+

lemma length_item_text:
  assumes "item_ok x"
  shows "length (item_text x) < 64"
proof (cases x)
  case (Single a)
  with assms length_number_text [of a] show ?thesis by simp
next
  case (Range a b)
  with assms length_number_text [of a] length_number_text [of b] show ?thesis by simp
qed

lemma parse_number: "number_val a \<le> TS_MAX_PID \<Longrightarrow> parse_selected_pid_value (number_text a) = Some (number_val a)"
proof (cases a)
  case (Dec n)
  assume n: "number_val a \<le> TS_MAX_PID"
  have d: "\<forall>c \<in> set (dec_nat n). is_digit 10 c" "dec_nat n \<noteq> []" "digits_val 10 (dec_nat n) = n" using dec_nat_digits by auto
  have h: "\<not> hex_prefix (dec_nat n)"
  proof (cases "dec_nat n")
    case (Cons c cs)
    then show ?thesis using d(1) is_digit_plain(5,6) by (cases cs) (auto simp: hex_prefix_def)
  qed (simp add: hex_prefix_def)
  have "strtol 10 (dec_nat n) = (int n, [], False)"
    using strtol_digits [OF d(1,2)] n Dec by (simp add: d(3) LONG_MAX_def TS_MAX_PID_def)
  with h n Dec d(2) show ?thesis by (simp add: parse_selected_pid_value_def)
next
  case (Hex n)
  assume n: "number_val a \<le> TS_MAX_PID"
  have d: "\<forall>c \<in> set (hex_nat n). is_digit 16 c" "hex_nat n \<noteq> []" "digits_val 16 (hex_nat n) = n" using hex_nat_digits by auto
  have "strtol 16 (hex_nat n) = (int n, [], False)"
    using strtol_digits [OF d(1,2)] n Hex by (simp add: d(3) LONG_MAX_def TS_MAX_PID_def)
  with n Hex show ?thesis by (simp add: parse_selected_pid_value_def hex_prefix_def)
qed

lemma takeWhile_upto:
  "c \<notin> set xs \<Longrightarrow> takeWhile (\<lambda>x. x \<noteq> c) (xs @ c # ys) = xs" "c \<notin> set xs \<Longrightarrow> dropWhile (\<lambda>x. x \<noteq> c) (xs @ c # ys) = c # ys"
  by (induction xs) auto

lemma takeWhile_none: "c \<notin> set xs \<Longrightarrow> takeWhile (\<lambda>x. x \<noteq> c) xs = xs" "c \<notin> set xs \<Longrightarrow> dropWhile (\<lambda>x. x \<noteq> c) xs = []"
  by (induction xs) auto

lemma parse_token_item: "item_ok x \<Longrightarrow> parse_token (item_text x) = Some (item_pids x)"
proof (cases x)
  case (Single a)
  assume "item_ok x"
  with Single show ?thesis by (simp add: parse_token_def parse_number number_text_plain(1))
next
  case (Range a b)
  assume ok: "item_ok x"
  have t: "takeWhile (\<lambda>c. c \<noteq> CHR ''-'') (item_text x) = number_text a" "dropWhile (\<lambda>c. c \<noteq> CHR ''-'') (item_text x) = ''-'' @ number_text b"
    using Range number_text_plain(1) [of a] takeWhile_upto [of "CHR ''-''"] by simp_all
  show ?thesis using ok Range unfolding parse_token_def t by (simp add: parse_number)
qed

lemma pids_loop_items:
  assumes "\<forall>x \<in> set xs. item_ok x"
  shows "pids_loop (items_text xs) n c = (Some (n + length (concat (map item_pids xs))), set_pids (concat (map item_pids xs)) c)"
  using assms
proof (induction xs arbitrary: n c rule: items_text.induct)
  case 1
  then show ?case by (simp add: set_pids_def)
next
  case (2 x)
  have t: "takeWhile (\<lambda>c. c \<noteq> CHR '','') (item_text x) = item_text x" "dropWhile (\<lambda>c. c \<noteq> CHR '','') (item_text x) = []"
    using item_text_plain(1) [of x] takeWhile_none [of "CHR '',''"] by simp_all
  show ?case
    using 2 item_text_plain(2) [of x] length_item_text [of x]
    by (subst pids_loop.simps) (simp del: pids_loop.simps add: t parse_token_item not_le)
next
  case (3 x y zs)
  let ?r = "items_text (y # zs)"
  have t: "takeWhile (\<lambda>c. c \<noteq> CHR '','') (item_text x @ '','' @ ?r) = item_text x"
    "dropWhile (\<lambda>c. c \<noteq> CHR '','') (item_text x @ '','' @ ?r) = '','' @ ?r"
    using item_text_plain(1) [of x] takeWhile_upto [of "CHR '',''"] by simp_all
  have "pids_loop ?r (n + length (item_pids x)) (set_pids (item_pids x) c) =
    (Some (n + length (item_pids x) + length (concat (map item_pids (y # zs)))),
     set_pids (concat (map item_pids (y # zs))) (set_pids (item_pids x) c))"
    using 3 by simp
  then show ?case
    using 3 item_text_plain(2) [of x] length_item_text [of x] unfolding items_text.simps
    by (subst pids_loop.simps, unfold t Let_def)
       (simp del: pids_loop.simps add: parse_token_item not_le set_pids_def)
qed

lemma nth_fold_set: "k < length xs \<Longrightarrow> fold (\<lambda>i xs. xs[i := v]) is xs ! k = (if k \<in> set is then v else xs ! k)"
  by (induction "is" arbitrary: xs) (auto simp: nth_list_update)

lemma selected_set_pids:
  assumes "length (co_pids c) = TS_MAX_PID + 1"
  shows "selected (set_pids ps c) p \<longleftrightarrow> selected c p \<or> unat p \<le> TS_MAX_PID \<and> unat p \<in> set ps"
  using assms by (auto simp: selected_def set_pids_def nth_fold_set split: if_splits)

lemma selected_tsaconf: "\<not> selected tsaconf p"
  using nth_replicate [of "unat p" "TS_MAX_PID + 1" "0 :: u8"] by (simp add: selected_def tsaconf_def del: replicate.simps)



text \<open>
  Three consequences of how errors are handled: \<open>0x\<close> without digits is PID 0; an error in one list is
  forgotten when a later one is in order; an option without its argument follows a null pointer.
\<close>

lemma bare_prefix_is_pid_0: "parse_selected_pid_value ''0x'' = Some 0"
  by (simp add: parse_selected_pid_value_def hex_prefix_def strtol_def)

lemma bad_list_forgotten:
  assumes "parse_selected_pids bad tsaconf = (None, c)" "parse_selected_pids good c = (Some n, c')"
    and "2 \<le> length argv" "readable (last argv)" "co_type c' = 0" "co_output c' = 0"
  shows "prog_parse_args readable opened html_head argv [(CHR ''p'', Some bad), (CHR ''p'', Some good)] (tsaconf, res) =
    Some (Returned 0, c'\<lparr>co_name := snprintf 256 (last argv)\<rparr>, res_open opened html_head (res_settype RES_STD res))"
  using assms by (simp add: prog_parse_args_def option_step_def UINT8_MAX_def RES_STD_def not_less)

lemma missing_argument: "opt \<in> {CHR ''s'', CHR ''f'', CHR ''o'', CHR ''p''} \<Longrightarrow> option_step (opt, None) st = None"
  by (cases st) (auto simp: option_step_def)

end
