(* ===== verification/Program_Stream.thy ===== *)
theory Program_Stream
  imports Pes Dvb_Si Wire
begin

unbundle bit_operations_syntax

text \<open>
  Program streams (\<^verbatim>\<open>src/ps.c\<close>, \<^verbatim>\<open>include/ps.h\<close>): packs with their headers, program stream maps and
  directories.  A position in a packet is its distance from the start; a position before it is an
  access outside of the packet.
\<close>

section \<open>Data\<close>

definition PACK_START :: u32 where "PACK_START = 0x000001BA"
definition SYSTEM_START :: u32 where "SYSTEM_START = 0x000001BB"
definition PROGRAM_END :: u32 where "PROGRAM_END = 0x000001B9"
definition stream_id_program_stream_map :: u32 where "stream_id_program_stream_map = 0xBC"

record estd =
  estd_stream_id :: u8
  PSTD_buffer_bound_scale :: u16
  PSTD_buffer_size_bound :: u16

record system_header =
  system_header_start_code :: u32
  header_length :: u16
  sh_marker_bit :: u32
  rate_bound :: u32
  sh_marker_bit1 :: u32
  audio_bound :: u32
  fixed_flag :: u32
  CSPS_flag :: u32
  system_audio_lock_flag :: u8
  system_video_lock_flag :: u8
  sh_marker_bit2 :: u8
  video_bound :: u8
  packet_rate_restriction_flag :: u8
  sh_es :: "estd option"

record pack_header =
  pack_start_code :: u32
  pack_md :: u64
  program_mux_rate_l :: u8
  pk_marker_bit5 :: u8
  pk_marker_bit6 :: u8
  pk_reserved :: u8
  pack_stuffing_length :: u8

record es_map =
  em_stream_type :: u8
  em_elementary_stream_id :: u8
  em_info_length :: u16
  em_list :: "descriptor list"

record ps_map =
  pm_packet_start_code_prefix :: u32
  pm_map_stream_id :: u32
  pm_map_length :: u16
  pm_current_next_indicator :: u8
  pm_version :: u8
  pm_marker_bit :: u8
  pm_info_length :: u16
  pm_list :: "descriptor list"
  pm_elementary_stream_map_length :: u16
  pm_h :: "es_map list"

record access_unit =
  au_packet_stream_id :: u8
  au_offset_sign :: u16
  au_offset1 :: u16
  au_offset2 :: u16
  au_offset3 :: u16
  au_reference_offset :: u16
  au_PTS1 :: u8
  au_PTS2 :: u16
  au_PTS3 :: u16
  au_bytes_to_read1 :: u16
  au_bytes_to_read2 :: u8
  au_intra_coded_indicator :: u8
  au_coding_parameters_indicator :: u8
  au_marker_bits :: "u16 list"

record directory_PES_packet =
  dp_packet_start_code_prefix :: u32
  dp_directory_stream_id :: u32
  dp_PES_packet_length :: u16
  dp_number_of_access_units :: u16
  dp_marker_bits :: "u16 list"
  dp_prev_directory_offsets :: "u16 list"
  dp_units :: "access_unit option list option"

section \<open>Packs\<close>

definition parse_system_header :: "bytes \<Rightarrow> (int \<times> system_header) option" where
  "parse_system_header buf = do {
     start \<leftarrow> TS_READ32 buf;
     n \<leftarrow> TS_READ16 (drop 4 buf);
     m0 \<leftarrow> TS_READ32_BITS (drop 6 buf) 1 0;
     rate \<leftarrow> TS_READ32_BITS (drop 6 buf) 22 1;
     m1 \<leftarrow> TS_READ32_BITS (drop 6 buf) 1 23;
     audio \<leftarrow> TS_READ32_BITS (drop 6 buf) 6 24;
     fixed \<leftarrow> TS_READ32_BITS (drop 6 buf) 1 30;
     csps \<leftarrow> TS_READ32_BITS (drop 6 buf) 1 31;
     al \<leftarrow> TS_READ8_BITS (drop 10 buf) 1 0;
     vl \<leftarrow> TS_READ8_BITS (drop 10 buf) 1 1;
     m2 \<leftarrow> TS_READ8_BITS (drop 10 buf) 1 2;
     video \<leftarrow> TS_READ8_BITS (drop 10 buf) 5 3;
     restr \<leftarrow> TS_READ8_BITS (drop 11 buf) 1 0;
     more_es \<leftarrow> TS_READ_BIT (drop 12 buf) 7;
     es \<leftarrow> (if more_es \<noteq> 0 then do {
              sid \<leftarrow> TS_READ8 (drop 12 buf);
              sc \<leftarrow> TS_READ16_BITS (drop 13 buf) 1 2;
              bd \<leftarrow> TS_READ16_BITS (drop 13 buf) 13 3;
              Some (Some \<lparr>estd_stream_id = sid, PSTD_buffer_bound_scale = sc, PSTD_buffer_size_bound = bd\<rparr>) }
            else Some None);
     Some (uint n + 6,
       \<lparr>system_header_start_code = start, header_length = n, sh_marker_bit = m0, rate_bound = rate, sh_marker_bit1 = m1,
        audio_bound = audio, fixed_flag = fixed, CSPS_flag = csps, system_audio_lock_flag = al, system_video_lock_flag = vl,
        sh_marker_bit2 = m2, video_bound = video, packet_rate_restriction_flag = restr, sh_es = es\<rparr>) }"

definition at_pos :: "bytes \<Rightarrow> int \<Rightarrow> bytes option" where
  "at_pos pkt pos = (if pos < 0 then None else Some (drop (nat pos) pkt))"

text \<open>The loop over the program stream maps behind the headers: the position and the length left.\<close>

partial_function (option) maps_loop ::
  "alloc_env \<Rightarrow> 'sub sub_ops \<Rightarrow> u16 \<Rightarrow> bytes \<Rightarrow> int \<Rightarrow> u16 \<Rightarrow> nat \<Rightarrow> 'sub mpegts_pes_t \<times> teletext_store \<Rightarrow>
   (u16 \<times> 'sub mpegts_pes_t \<times> teletext_store) option" where
  "maps_loop e so pid pkt pos l i st = do {
     buf \<leftarrow> at_pos pkt pos;
     next_head \<leftarrow> TS_READ32 buf;
     if drop_bit 8 next_head = PES_PACKET_START \<and> next_head AND 0xFF = stream_id_program_stream_map then do {
       (ret, st) \<leftarrow> parse_pes_packet (in_node e i) so pid buf st;
       maps_loop e so pid pkt (pos + ret) (l - word_of_int ret) (Suc i) st }
     else Some (l, st) }"

definition parse_pack ::
  "alloc_env \<Rightarrow> 'sub sub_ops \<Rightarrow> u16 \<Rightarrow> bytes \<Rightarrow> u16 \<Rightarrow> 'sub mpegts_pes_t \<times> teletext_store \<Rightarrow>
   (int \<times> pack_header \<times> 'sub mpegts_pes_t \<times> teletext_store) option" where
  "parse_pack e so pid pkt len st = do {
     start \<leftarrow> TS_READ32 pkt;
     md \<leftarrow> TS_READ64 (drop 4 pkt);
     rate \<leftarrow> TS_READ8_BITS (drop 12 pkt) 6 0;
     m5 \<leftarrow> TS_READ8_BITS (drop 12 pkt) 1 6;
     m6 \<leftarrow> TS_READ8_BITS (drop 12 pkt) 1 7;
     res \<leftarrow> TS_READ8_BITS (drop 13 pkt) 3 0;
     n \<leftarrow> TS_READ8_BITS (drop 13 pkt) 5 3;
     let ph = \<lparr>pack_start_code = start, pack_md = md, program_mux_rate_l = rate, pk_marker_bit5 = m5, pk_marker_bit6 = m6,
               pk_reserved = res, pack_stuffing_length = n\<rparr>;
     let pos = 14 + unat n;
     let l = len - 14 - ucast n;
     next_head \<leftarrow> TS_READ32 (drop pos pkt);
     (pos, l) \<leftarrow> (if next_head = SYSTEM_START then do {
                   (ret, _) \<leftarrow> parse_system_header (drop pos pkt);
                   Some (int pos + ret, l - word_of_int ret) }
                 else Some (int pos, l));
     (l, st) \<leftarrow> maps_loop e so pid pkt pos l 0 st;
     Some (uint len - uint l, ph, st) }"

partial_function (option) ps_loop ::
  "alloc_env \<Rightarrow> 'sub sub_ops \<Rightarrow> u16 \<Rightarrow> bytes \<Rightarrow> int \<Rightarrow> u16 \<Rightarrow> nat \<Rightarrow> 'sub mpegts_pes_t \<times> teletext_store \<Rightarrow>
   (bool \<times> 'sub mpegts_pes_t \<times> teletext_store) option" where
  "ps_loop e so pid pkt pos l i st = do {
     buf \<leftarrow> at_pos pkt pos;
     head \<leftarrow> TS_READ32 buf;
     if head = PACK_START then do {
       (ret, _, st) \<leftarrow> parse_pack (in_node e i) so pid buf l st;
       ps_loop e so pid pkt (pos + ret) (l - word_of_int ret) (Suc i) st }
     else Some (head = PROGRAM_END, st) }"

definition parse_ps ::
  "alloc_env \<Rightarrow> 'sub sub_ops \<Rightarrow> u16 \<Rightarrow> bytes \<Rightarrow> u16 \<Rightarrow> 'sub mpegts_pes_t \<times> teletext_store \<Rightarrow>
   (bool \<times> 'sub mpegts_pes_t \<times> teletext_store) option" where
  "parse_ps e so pid pkt len st = ps_loop e so pid pkt 0 len 0 st"

section \<open>Program stream maps\<close>

function (sequential) es_map_loop ::
  "alloc_env \<Rightarrow> (u8 \<Rightarrow> desc_ops) \<Rightarrow> nat \<Rightarrow> nat \<Rightarrow> bytes \<Rightarrow> es_map list \<Rightarrow> (bool \<times> nat \<times> es_map list) option" where
  "es_map_loop e des_ops map_len k buf ns =
     (if k < map_len then
        (if \<not> mok e (length ns) then Some (False, k, ns)
         else do {
           ty \<leftarrow> TS_READ8 buf;
           sid \<leftarrow> TS_READ8 (drop 1 buf);
           n \<leftarrow> TS_READ16 (drop 2 buf);
           ds \<leftarrow> parse_descriptors (in_node e (length ns)) des_ops (drop 4 buf) (uint n);
           es_map_loop e des_ops map_len (k + 4 + unat n) (drop (4 + unat n) buf)
             (ns @ [\<lparr>em_stream_type = ty, em_elementary_stream_id = sid, em_info_length = n, em_list = ds\<rparr>]) })
      else Some (True, k, ns))"
  by pat_completeness auto
termination by (relation "measure (\<lambda>(e, d, map_len, k, buf, ns). map_len - k)") auto

definition parse_program_stream_map ::
  "alloc_env \<Rightarrow> (u8 \<Rightarrow> desc_ops) \<Rightarrow> bytes \<Rightarrow> u16 \<Rightarrow> (int \<times> ps_map) option" where
  "parse_program_stream_map e des_ops buf len = do {
     pre \<leftarrow> TS_READ32_BITS buf 24 0;
     sid \<leftarrow> TS_READ32_BITS buf 8 24;
     ml \<leftarrow> TS_READ16 (drop 4 buf);
     cni \<leftarrow> TS_READ8_BITS (drop 6 buf) 1 0;
     ver \<leftarrow> TS_READ8_BITS (drop 6 buf) 5 3;
     mark \<leftarrow> TS_READ8_BITS (drop 7 buf) 1 7;
     il \<leftarrow> TS_READ16 (drop 8 buf);
     ds \<leftarrow> parse_descriptors (in_node e 0) des_ops (drop 10 buf) (uint il);
     el \<leftarrow> TS_READ16 (drop (10 + unat il) buf);
     (ok, _, ns) \<leftarrow> es_map_loop (in_node e 1) des_ops (unat el) 0 (drop (12 + unat il) buf) [];
     let pm = \<lparr>pm_packet_start_code_prefix = pre, pm_map_stream_id = sid, pm_map_length = ml, pm_current_next_indicator = cni,
       pm_version = ver, pm_marker_bit = mark, pm_info_length = il, pm_list = ds, pm_elementary_stream_map_length = el, pm_h = ns\<rparr>;
     Some (if ok then uint il + uint el + 16 else ENOMEM, pm) }"

section \<open>Directories\<close>

text \<open>One access unit, 18 bytes; its marker bits in order.\<close>

definition parse_access_unit :: "bytes \<Rightarrow> access_unit option" where
  "parse_access_unit buf = do {
     sid \<leftarrow> TS_READ8 buf;
     sign \<leftarrow> TS_READ16_BITS (drop 1 buf) 1 0;
     o1 \<leftarrow> TS_READ16_BITS (drop 1 buf) 14 1;
     m1 \<leftarrow> TS_READ16_BITS (drop 1 buf) 1 15;
     o2 \<leftarrow> TS_READ16_BITS (drop 3 buf) 15 1;
     m2 \<leftarrow> TS_READ16_BITS (drop 3 buf) 1 15;
     o3 \<leftarrow> TS_READ16_BITS (drop 5 buf) 15 1;
     m3 \<leftarrow> TS_READ16_BITS (drop 5 buf) 1 15;
     ref \<leftarrow> TS_READ16 (drop 7 buf);
     m4 \<leftarrow> TS_READ8_BITS (drop 9 buf) 1 0;
     p1 \<leftarrow> TS_READ8_BITS (drop 9 buf) 4 1;
     m5 \<leftarrow> TS_READ8_BITS (drop 9 buf) 1 7;
     p2 \<leftarrow> TS_READ16_BITS (drop 10 buf) 15 1;
     m6 \<leftarrow> TS_READ16_BITS (drop 10 buf) 1 15;
     p3 \<leftarrow> TS_READ16_BITS (drop 12 buf) 15 1;
     m7 \<leftarrow> TS_READ16_BITS (drop 12 buf) 1 15;
     b1 \<leftarrow> TS_READ16_BITS (drop 14 buf) 15 1;
     m8 \<leftarrow> TS_READ16_BITS (drop 14 buf) 1 15;
     b2 \<leftarrow> TS_READ8 (drop 16 buf);
     m9 \<leftarrow> TS_READ8_BITS (drop 17 buf) 1 0;
     ic \<leftarrow> TS_READ8_BITS (drop 17 buf) 1 1;
     cp \<leftarrow> TS_READ8_BITS (drop 17 buf) 2 2;
     Some \<lparr>au_packet_stream_id = sid, au_offset_sign = sign, au_offset1 = o1, au_offset2 = o2, au_offset3 = o3,
           au_reference_offset = ref, au_PTS1 = p1 AND 7, au_PTS2 = p2, au_PTS3 = p3, au_bytes_to_read1 = b1, au_bytes_to_read2 = b2,
           au_intra_coded_indicator = ic, au_coding_parameters_indicator = cp,
           au_marker_bits = [m1, m2, m3, ucast m4, ucast m5, m6, m7, m8, ucast m9]\<rparr> }"

text \<open>The loop does not count the units: it writes the first one again and again.\<close>

partial_function (option) units_loop :: "nat \<Rightarrow> nat \<Rightarrow> bytes \<Rightarrow> access_unit option list \<Rightarrow> (bytes \<times> access_unit option list) option" where
  "units_loop n i buf us =
     (if i < n then do { u \<leftarrow> parse_access_unit buf; units_loop n i (drop 18 buf) (us[i := Some u]) }
      else Some (buf, us))"

definition parse_directory_PES_packet :: "alloc_env \<Rightarrow> bytes \<Rightarrow> u16 \<Rightarrow> (int \<times> directory_PES_packet) option" where
  "parse_directory_PES_packet e buf len = do {
     pre \<leftarrow> TS_READ32_BITS buf 24 0;
     sid \<leftarrow> TS_READ32_BITS buf 8 24;
     pl \<leftarrow> TS_READ16 (drop 4 buf);
     n \<leftarrow> TS_READ16_BITS (drop 6 buf) 15 0;
     m0 \<leftarrow> TS_READ16_BITS (drop 6 buf) 1 15;
     o1 \<leftarrow> TS_READ16_BITS (drop 8 buf) 15 0; m1 \<leftarrow> TS_READ16_BITS (drop 8 buf) 1 15;
     o2 \<leftarrow> TS_READ16_BITS (drop 10 buf) 15 0; m2 \<leftarrow> TS_READ16_BITS (drop 10 buf) 1 15;
     o3 \<leftarrow> TS_READ16_BITS (drop 12 buf) 15 0; m3 \<leftarrow> TS_READ16_BITS (drop 12 buf) 1 15;
     o4 \<leftarrow> TS_READ16_BITS (drop 14 buf) 15 0; m4 \<leftarrow> TS_READ16_BITS (drop 14 buf) 1 15;
     o5 \<leftarrow> TS_READ16_BITS (drop 16 buf) 15 0; m5 \<leftarrow> TS_READ16_BITS (drop 16 buf) 1 15;
     o6 \<leftarrow> TS_READ16_BITS (drop 18 buf) 15 0; m6 \<leftarrow> TS_READ16_BITS (drop 18 buf) 1 15;
     let dpp = \<lparr>dp_packet_start_code_prefix = pre, dp_directory_stream_id = sid, dp_PES_packet_length = pl,
       dp_number_of_access_units = n, dp_marker_bits = [m0, m1, m2, m3, m4, m5, m6],
       dp_prev_directory_offsets = [o1, o2, o3, o4, o5, o6], dp_units = None\<rparr>;
     if \<not> mok e 0 then Some (ENOMEM, dpp)
     else do {
       (rest, us) \<leftarrow> units_loop (unat n) 0 (drop 20 buf) (replicate (unat n) None);
       Some (int (length buf) - int (length rest), dpp\<lparr>dp_units := Some us\<rparr>) } }"

section \<open>Maps on the wire\<close>

record wire_es_map =
  wm_type :: u8
  wm_id :: u8
  wm_descs :: "(u8 \<times> bytes) list"

definition enc_es_map :: "wire_es_map \<Rightarrow> bytes" where
  "enc_es_map w = [wm_type w, wm_id w] @ be16 (length (darea (wm_descs w))) @ darea (wm_descs w)"

definition es_map_ok :: "(nat \<Rightarrow> u8) \<Rightarrow> (u8 \<Rightarrow> desc_ops) \<Rightarrow> wire_es_map \<Rightarrow> bool" where
  "es_map_ok j des_ops w \<longleftrightarrow> length (darea (wm_descs w)) < 65536 \<and> dok j des_ops (wm_descs w)"

definition es_map_node :: "(nat \<Rightarrow> u8) \<Rightarrow> (u8 \<Rightarrow> desc_ops) \<Rightarrow> wire_es_map \<Rightarrow> es_map" where
  "es_map_node j des_ops w = \<lparr>em_stream_type = wm_type w, em_elementary_stream_id = wm_id w,
     em_info_length = of_nat (length (darea (wm_descs w))), em_list = dparsed j des_ops (wm_descs w)\<rparr>"

lemma len16: "n < 65536 \<Longrightarrow> unat (of_nat n :: u16) = n" "n < 65536 \<Longrightarrow> uint (of_nat n :: u16) = int n"
  by (simp_all add: unsigned_of_nat take_bit_nat_eq_self uint_of_nat_len)

interpretation esm: fill_loop "es_map_loop (always_ok j) des_ops" enc_es_map "es_map_node j des_ops" "es_map_ok j des_ops" for j des_ops
proof
  fix w k l q acc
  assume ok: "es_map_ok j des_ops w" and l: "k + length (enc_es_map w) \<le> l"
  let ?n = "length (darea (wm_descs w))" and ?p = "enc_es_map w @ q"
  have o: "?n < 65536" "dok j des_ops (wm_descs w)" using ok by (simp_all add: es_map_ok_def)
  have d: "TS_READ8 ?p = Some (wm_type w)" "TS_READ8 (drop 1 ?p) = Some (wm_id w)" "drop 2 ?p = be16 ?n @ darea (wm_descs w) @ q"
    "drop 4 ?p = darea (wm_descs w) @ q" "drop (4 + ?n) ?p = q"
    by (simp_all add: enc_es_map_def drop_Cons')
  have e: "length (enc_es_map w) = 4 + ?n" by (simp add: enc_es_map_def)
  have "k < l" using l e by simp
  then show "es_map_loop (always_ok j) des_ops l k ?p acc =
      es_map_loop (always_ok j) des_ops l (k + length (enc_es_map w)) q (acc @ [es_map_node j des_ops w])"
    by (subst es_map_loop.simps)
       (simp del: es_map_loop.simps drop_append One_nat_def add: d e READ16_be16 o(1) len16 parse_darea [OF o(2)] es_map_node_def add.assoc)
qed simp

text \<open>
  C33. A program stream map is read back as it was written: version, descriptors and, in order, the
  elementary streams, each with its type, identifier and descriptors; the result is the length of
  the map.
\<close>

theorem program_stream_map_roundtrip:
  assumes buf: "buf = be32 (0x1BC) @ be16 ml @ [of_nat (cni * 2 ^ 7 + res * 2 ^ 5 + ver), of_nat (res1 * 2 + mark)] @
      be16 (length (darea ds)) @ darea ds @ be16 (length (concat (map enc_es_map ws))) @ concat (map enc_es_map ws) @ crc"
    and sz: "ml < 65536" "cni < 2" "res < 4" "ver < 32" "res1 < 128" "mark < 2" "length crc = 4"
      "length (darea ds) < 65536" "length (concat (map enc_es_map ws)) < 65536"
    and ok: "dok j des_ops ds" "\<forall>w \<in> set ws. es_map_ok j des_ops w"
  shows "\<exists>pm. parse_program_stream_map (always_ok j) des_ops (buf @ rest) len = Some (int (length buf), pm) \<and>
    pm_map_stream_id pm = 0xBC \<and> pm_map_length pm = of_nat ml \<and> pm_current_next_indicator pm = of_nat cni \<and> pm_version pm = of_nat ver \<and>
    pm_list pm = dparsed j des_ops ds \<and> pm_h pm = map (es_map_node j des_ops) ws"
proof -
  let ?n = "length (darea ds)" and ?e = "concat (map enc_es_map ws)" and ?v = "cni * 2 ^ 7 + res * 2 ^ 5 + ver" and ?m = "res1 * 2 + mark"
  let ?p = "buf @ rest"
  have p: "?p = be32 (1 * 2 ^ 8 + 0xBC) @ drop 4 ?p" by (simp add: buf)
  have d: "drop 4 ?p = be16 ml @ drop 6 ?p" "drop 6 ?p = of_nat ?v # drop 7 ?p" "drop 7 ?p = of_nat ?m # drop 8 ?p"
    "drop 8 ?p = be16 ?n @ drop 10 ?p" "drop 10 ?p = darea ds @ be16 (length ?e) @ ?e @ crc @ rest"
    "drop (10 + ?n) ?p = be16 (length ?e) @ ?e @ crc @ rest" "drop (12 + ?n) ?p = ?e @ crc @ rest"
    by (simp_all add: buf drop_Cons')
  have v: "?v < 256" "?m < 256" using sz(2-6) by auto
  have r1: "TS_READ32_BITS ?p 24 0 = Some (of_nat 1)" "TS_READ32_BITS ?p 8 24 = Some (of_nat 0xBC)"
    by (subst p, rule read32_fields; simp)+
  have r2: "TS_READ16 (drop 4 ?p) = Some (of_nat ml)" unfolding d(1) using sz(1) by (rule READ16_be16)
  have r3: "TS_READ8_BITS (drop 6 ?p) 1 0 = Some (of_nat cni)" "TS_READ8_BITS (drop 6 ?p) 5 3 = Some (of_nat ver)"
    "TS_READ8_BITS (drop 7 ?p) 1 7 = Some (of_nat mark)"
    subgoal unfolding d(2) by (rule read8_part [OF _ v(1), of 0 1 7 _ "res * 2 ^ 5 + ver"]) (use sz in auto)
    subgoal unfolding d(2) by (rule read8_part [OF _ v(1), of "cni * 4 + res" 5 0 _ 0]) (use sz in auto)
    subgoal unfolding d(3) by (rule read8_part [OF _ v(2), of res1 1 0 _ 0]) (use sz in auto)
    done
  have r4: "TS_READ16 (drop 8 ?p) = Some (of_nat ?n)" unfolding d(4) using sz(8) by (rule READ16_be16)
  have r5: "TS_READ16 (drop (10 + ?n) ?p) = Some (of_nat (length ?e))" unfolding d(6) using sz(9) by (rule READ16_be16)
  have a: "parse_descriptors (always_ok j) des_ops (drop 10 ?p) (int ?n) = Some (dparsed j des_ops ds)"
    unfolding d(5) by (rule parse_darea [OF ok(1)])
  have b: "es_map_loop (always_ok j) des_ops (length ?e) 0 (drop (12 + ?n) ?p) [] = Some (True, length ?e, map (es_map_node j des_ops) ws)"
    unfolding d(7) using esm.loop_entries [OF ok(2), of 0 "crc @ rest" "[]"] by simp
  have l: "int (length buf) = int ?n + int (length ?e) + 16" using sz(7) by (simp add: buf)
  show ?thesis
    unfolding parse_program_stream_map_def r1 r2 r3 r4 Option.bind_lunit in_node_always_ok len16 [OF sz(8)] a r5 len16 [OF sz(9)] b l
    by simp
qed

theorem program_stream_map_roundtrip_witness:
  "\<exists>pm. parse_program_stream_map (always_ok (\<lambda>_. 0)) (\<lambda>_. Reserved)
      ([0, 0, 1, 0xBC, 0, 18, 0xE3, 0xFF, 0, 0, 0, 6, 0x1B, 0xE0, 0, 2, 0x52, 0, 1, 2, 3, 4] @ [0]) 23 =
        Some (int (length [0, 0, 1, 0xBC, 0, 18, 0xE3, 0xFF, 0, 0, 0, 6, 0x1B, 0xE0, 0, 2, 0x52, 0, 1, 2, 3, 4 :: u8]), pm) \<and>
    pm_map_stream_id pm = 0xBC \<and> pm_map_length pm = of_nat 18 \<and> pm_current_next_indicator pm = of_nat 1 \<and> pm_version pm = of_nat 3 \<and>
    pm_list pm = dparsed (\<lambda>_. 0) (\<lambda>_. Reserved) [] \<and>
    pm_h pm = map (es_map_node (\<lambda>_. 0) (\<lambda>_. Reserved)) [\<lparr>wm_type = 0x1B, wm_id = 0xE0, wm_descs = [(0x52, [])]\<rparr>]"
proof (rule program_stream_map_roundtrip [where crc = "[1, 2, 3, 4]"])
  show "[0, 0, 1, 0xBC, 0, 18, 0xE3, 0xFF, 0, 0, 0, 6, 0x1B, 0xE0, 0, 2, 0x52, 0, 1, 2, 3, 4] =
    be32 (0x1BC) @ be16 18 @ [of_nat (1 * 2 ^ 7 + 3 * 2 ^ 5 + 3), of_nat (127 * 2 + 1)] @ be16 (length (darea [])) @ darea [] @
      be16 (length (concat (map enc_es_map [\<lparr>wm_type = 0x1B, wm_id = 0xE0, wm_descs = [(0x52, [])]\<rparr>]))) @
      concat (map enc_es_map [\<lparr>wm_type = 0x1B, wm_id = 0xE0, wm_descs = [(0x52, [])]\<rparr>]) @ [1, 2, 3, 4]"
    by (simp add: be32_def be16_def darea_def enc_es_map_def encode_def)
qed (simp_all add: dok_def darea_def enc_es_map_def encode_def es_map_ok_def parse_alone_def descriptor_parse_def
      parse_reserved_descriptor_def rd_bytes_def)

section \<open>Packs on the wire\<close>

record wire_pack =
  wp_md :: bytes
  wp_mux :: u8
  wp_reserved :: nat
  wp_stuffing :: bytes
  wp_system :: "bytes option"

definition enc_system :: "bytes option \<Rightarrow> bytes" where
  "enc_system s = (case s of None \<Rightarrow> [] | Some b \<Rightarrow> be32 0x1BB @ be16 (length b) @ b)"

definition enc_pack :: "wire_pack \<Rightarrow> bytes" where
  "enc_pack w = be32 0x1BA @ wp_md w @ [wp_mux w, of_nat (wp_reserved w * 2 ^ 5 + length (wp_stuffing w))] @ wp_stuffing w @
     enc_system (wp_system w)"

definition pack_ok :: "wire_pack \<Rightarrow> bool" where
  "pack_ok w \<longleftrightarrow> length (wp_md w) = 8 \<and> wp_reserved w < 8 \<and> length (wp_stuffing w) < 32 \<and>
     (case wp_system w of None \<Rightarrow> True | Some b \<Rightarrow> 6 \<le> length b \<and> length b < 65536)"

lemma TS_READ32_defined: "4 \<le> length p \<Longrightarrow> \<exists>v. TS_READ32 p = Some v"
  by (simp add: TS_READ32_in)

lemma system_header_length:
  assumes "6 \<le> length b" "length b < 65536" "4 \<le> length q"
  shows "\<exists>sh. parse_system_header (be32 h @ be16 (length b) @ b @ q) = Some (int (length b) + 6, sh)"
proof -
  let ?p = "be32 h @ be16 (length b) @ b @ q"
  have r: "TS_READ32 ?p = Some (of_nat h)" "TS_READ16 (drop 4 ?p) = Some (of_nat (length b))"
    using assms(2) by (simp_all add: READ32_be32 READ16_be16)
  obtain v where v: "TS_READ32 (drop 6 ?p) = Some v" using TS_READ32_defined [of "drop 6 ?p"] assms by auto
  obtain x y z where xyz: "TS_READ8 (drop 10 ?p) = Some x" "TS_READ8 (drop 11 ?p) = Some y" "TS_READ8 (drop 12 ?p) = Some z"
    using assms by (simp add: TS_READ8_def rdb_def)
  obtain u where u: "TS_READ16 (drop 13 ?p) = Some u" using assms by (simp add: TS_READ16_in)
  have "TS_READ_BIT (drop 12 ?p) 7 \<noteq> None"
    using assms by (simp add: TS_READ_BIT_def rdb_def)
  then show ?thesis
    unfolding parse_system_header_def TS_READ32_BITS_def TS_READ8_BITS_def TS_READ16_BITS_def r v xyz u
    by (auto simp: len16(2) [OF assms(2)])
qed

lemma uint_minus_of_nat:
  assumes "c \<le> unat (l :: u16)"
  shows "uint (l - of_nat c) = uint l - int c"
proof -
  have "c < 65536" using assms unsigned_less [of l, where ?'a = nat] by simp
  then have "uint (of_nat c :: u16) = int c" by (rule len16(2))
  moreover from this have "uint (of_nat c :: u16) \<le> uint l" using assms unfolding uint_nat [of l] by linarith
  ultimately show ?thesis using uint_sub_lem [THEN iffD1, of "of_nat c" l] by simp
qed

lemma maps_loop_stop:
  assumes "h \<in> {0x1BA, 0x1B9}" "drop n pkt = be32 h @ r"
  shows "maps_loop e so pid pkt (int n) l i st = Some (l, st)"
  using assms by (subst maps_loop.simps)
    (auto simp: at_pos_def READ32_be32 PES_PACKET_START_def stream_id_program_stream_map_def)

lemma parse_pack_encoded:
  assumes ok: "pack_ok w" and h: "h \<in> {0x1BA, 0x1B9}" and l: "length (enc_pack w) \<le> unat len"
  shows "\<exists>ph. parse_pack e so pid (enc_pack w @ be32 h @ r) len st = Some (int (length (enc_pack w)), ph, st)"
proof -
  let ?n = "length (wp_stuffing w)" and ?p = "enc_pack w @ be32 h @ r" and ?s = "enc_system (wp_system w)"
  let ?v = "wp_reserved w * 2 ^ 5 + ?n"
  have o: "length (wp_md w) = 8" "wp_reserved w < 8" "?n < 32" using ok by (simp_all add: pack_ok_def)
  have le: "length (enc_pack w) = 14 + ?n + length ?s" by (simp add: enc_pack_def o)
  have d: "TS_READ32 ?p = Some (of_nat 0x1BA)" "drop 12 ?p = wp_mux w # drop 13 ?p" "drop 13 ?p = of_nat ?v # drop 14 ?p"
    "drop (14 + ?n) ?p = ?s @ be32 h @ r"
    by (simp_all add: enc_pack_def READ32_be32 o drop_Cons')
  obtain md where md: "TS_READ64 (drop 4 ?p) = Some md" using o by (simp add: enc_pack_def TS_READ64_in)
  have mux: "TS_READ8 (drop 12 ?p) = Some (wp_mux w)" unfolding d(2) by simp
  have v: "?v < 256" using o by simp
  have n: "TS_READ8_BITS (drop 13 ?p) 3 0 = Some (of_nat (wp_reserved w))" "TS_READ8_BITS (drop 13 ?p) 5 3 = Some (of_nat ?n)"
    unfolding d(3)
    subgoal by (rule read8_part [OF _ v, of 0 3 5 _ ?n]) (use o in auto)
    subgoal by (rule read8_part [OF _ v, of "wp_reserved w" 5 0 _ 0]) (use o in auto)
    done
  have u: "unat (of_nat ?n :: u8) = ?n" using o(3) by (intro unat_of_nat_u8) simp
  have c: "ucast (of_nat ?n :: u8) = (of_nat ?n :: u16)" using u by (metis of_nat_unat)
  have l2: "len - 14 - of_nat ?n = len - of_nat (14 + ?n)" by simp
  show ?thesis
  proof (cases "wp_system w")
    case None
    have "TS_READ32 (drop (14 + ?n) ?p) = Some (of_nat h)" unfolding d(4) by (simp add: enc_system_def None READ32_be32)
    moreover have "(of_nat h :: u32) \<noteq> SYSTEM_START" using h by (auto simp: SYSTEM_START_def)
    moreover have "maps_loop e so pid ?p (int (14 + ?n)) (len - of_nat (14 + ?n)) 0 st = Some (len - of_nat (14 + ?n), st)"
      by (rule maps_loop_stop [OF h]) (unfold d(4), simp add: enc_system_def None)
    moreover have "uint len - uint (len - of_nat (14 + ?n)) = int (14 + ?n)" "length (enc_pack w) = 14 + ?n"
      using l le None by (simp_all only: uint_minus_of_nat) (simp_all add: enc_system_def)
    ultimately show ?thesis
      unfolding parse_pack_def TS_READ8_BITS_def [of "drop 12 _"] d(1) md mux n Option.bind_lunit Let_def u c l2
      by (simp del: of_nat_add)
  next
    case (Some b)
    have b: "6 \<le> length b" "length b < 65536" using ok Some by (simp_all add: pack_ok_def)
    obtain sh where sh: "parse_system_header (drop (14 + ?n) ?p) = Some (int (length b) + 6, sh)"
      unfolding d(4) using system_header_length [OF b, of "be32 h @ r"] by (auto simp: enc_system_def Some)
    have sl: "length ?s = 6 + length b" by (simp add: enc_system_def Some)
    have l3: "len - of_nat (14 + ?n) - (of_nat (length b) + 6) = len - of_nat (length (enc_pack w))"
      unfolding le sl by simp
    have "TS_READ32 (drop (14 + ?n) ?p) = Some SYSTEM_START"
      unfolding d(4) by (simp add: enc_system_def Some READ32_be32 SYSTEM_START_def)
    moreover have "maps_loop e so pid ?p (int (length (enc_pack w))) (len - of_nat (length (enc_pack w))) 0 st =
        Some (len - of_nat (length (enc_pack w)), st)"
      by (rule maps_loop_stop [OF h]) simp
    moreover have "int (14 + ?n) + (int (length b) + 6) = int (length (enc_pack w))" using le sl by simp
    moreover have "uint len - uint (len - of_nat (length (enc_pack w))) = int (length (enc_pack w))"
      using l by (simp only: uint_minus_of_nat)
    ultimately show ?thesis
      unfolding parse_pack_def TS_READ8_BITS_def [of "drop 12 _"] d(1) md mux n Option.bind_lunit Let_def u c l2
      using sh by (simp del: of_nat_add add: l3)
  qed
qed

lemma enc_packs_head:
  "\<exists>h r'. concat (map enc_pack ws) @ be32 0x1B9 @ r = be32 h @ r' \<and> h = (if ws = [] then 0x1B9 else 0x1BA)"
  by (cases ws) (auto simp: enc_pack_def)

lemma ps_loop_packs:
  assumes "\<forall>w \<in> set ws. pack_ok w" "drop n pkt = concat (map enc_pack ws) @ be32 0x1B9 @ r"
    and "length (concat (map enc_pack ws)) \<le> unat l"
  shows "ps_loop e so pid pkt (int n) l i st = Some (True, st)"
  using assms
proof (induction ws arbitrary: n l i)
  case Nil
  then show ?case by (subst ps_loop.simps) (simp add: at_pos_def READ32_be32 PACK_START_def PROGRAM_END_def)
next
  case (Cons w ws)
  obtain h r' where h: "concat (map enc_pack ws) @ be32 0x1B9 @ r = be32 h @ r'" "h \<in> {0x1BA, 0x1B9}"
    using enc_packs_head [of ws r] by auto
  have p: "drop n pkt = enc_pack w @ be32 h @ r'" using Cons.prems(2) h(1) by simp
  have le: "length (enc_pack w) \<le> unat l" "pack_ok w" using Cons.prems(1,3) by simp_all
  obtain ph where ph: "parse_pack (in_node e i) so pid (drop n pkt) l st = Some (int (length (enc_pack w)), ph, st)"
    unfolding p using parse_pack_encoded [OF le(2) h(2) le(1)] by metis
  have "TS_READ32 (drop n pkt) = Some PACK_START" by (simp add: p enc_pack_def READ32_be32 PACK_START_def)
  moreover have "unat (l - of_nat (length (enc_pack w))) = unat l - length (enc_pack w)"
    using uint_minus_of_nat [OF le(1)] le(1) unfolding uint_nat by linarith
  then have "length (concat (map enc_pack ws)) \<le> unat (l - of_nat (length (enc_pack w)))" using Cons.prems(3) by simp
  moreover have "drop (n + length (enc_pack w)) pkt = drop (length (enc_pack w)) (drop n pkt)" by (simp add: add.commute)
  then have "drop (n + length (enc_pack w)) pkt = concat (map enc_pack ws) @ be32 0x1B9 @ r" unfolding p h(1) by simp
  ultimately have "ps_loop e so pid pkt (int (n + length (enc_pack w))) (l - of_nat (length (enc_pack w))) (Suc i) st = Some (True, st)"
    "TS_READ32 (drop n pkt) = Some PACK_START"
    using Cons.prems(1) Cons.IH [of "n + length (enc_pack w)" "l - of_nat (length (enc_pack w))" "Suc i"] by simp_all
  then show ?case
    by (subst ps_loop.simps) (simp add: at_pos_def ph)
qed

text \<open>
  C34. A program stream that consists of packs, each with a header, stuffing and, where it has one, a
  system header, and of the end code: the parser walks over all packs and finds the end code; the
  state of the elementary streams does not change.
\<close>

theorem parse_ps_packs:
  assumes "\<forall>w \<in> set ws. pack_ok w" "length (concat (map enc_pack ws)) \<le> unat len"
  shows "parse_ps e so pid (concat (map enc_pack ws) @ be32 0x1B9 @ rest) len st = Some (True, st)"
  using ps_loop_packs [OF assms(1) _ assms(2), of 0 "concat (map enc_pack ws) @ be32 0x1B9 @ rest" rest e so pid 0 st]
  by (simp add: parse_ps_def)

theorem parse_ps_packs_witness:
  "parse_ps (always_ok (\<lambda>_. 0)) \<lparr>so_new = (), so_parse = (\<lambda>_ _ _ _ v. Some (0, v))\<rparr> 0
    (concat (map enc_pack [\<lparr>wp_md = [0x44, 0, 4, 0, 4, 1, 1, 0x89], wp_mux = 0xC3, wp_reserved = 7, wp_stuffing = [0xFF],
      wp_system = Some [0x80, 0xC4, 0xE1, 4, 0xE1, 0x7F]\<rparr>]) @ be32 0x1B9 @ []) 31 (static_pes, zero_store) =
    Some (True, (static_pes :: unit mpegts_pes_t), zero_store)"
  by (rule parse_ps_packs) (simp_all add: pack_ok_def enc_pack_def enc_system_def)

lemma units_loop_SomeD:
  assumes "units_loop n i buf us = Some r"
  shows "n \<le> i"
  by (rule units_loop.raw_induct [where P = "\<lambda>n i _ _ _. n \<le> i", OF _ assms])
    (force split: if_splits Option.bind_splits)

text \<open>A directory with access units is never read: the loop over the units does not count them.\<close>

lemma directory_never_read:
  assumes "TS_READ16_BITS (drop 6 buf) 15 0 = Some n" "n \<noteq> 0"
  shows "parse_directory_PES_packet (always_ok j) buf len = None"
proof -
  have "units_loop (unat n) 0 q us = None" for q us
    using units_loop_SomeD [of "unat n" 0 q us] assms(2) by (cases "units_loop (unat n) 0 q us") (auto simp: unat_eq_0)
  then show ?thesis
    unfolding parse_directory_PES_packet_def assms(1) by (auto simp: Let_def split: Option.bind_splits)
qed

end
