(* ===== verification/Dump_Descriptor.thy ===== *)
theory Dump_Descriptor
  imports Hexdump Descriptor_Tables Utils
begin

text \<open>
  The dump functions of the descriptors: the dumping expansion of the member macros
  (\<^verbatim>\<open>include/descriptor.h\<close>), the functions that members name for their elements, and
  \<open>dump_descriptors\<close> (\<^verbatim>\<open>src/descriptor.c\<close>).  The descriptors are those that were
  read completely.  \<open>None\<close> is undefined behaviour: a structure or a 64-bit value passed to \<open>%x\<close>, the
  address of an array printed as a number, an array that was never filled, a string without end.
\<close>

section \<open>Shared pieces\<close>

fun seqs :: "'a list option list \<Rightarrow> 'a list option" where
  "seqs [] = Some []"
| "seqs (x # xs) = do { a \<leftarrow> x; b \<leftarrow> seqs xs; Some (a @ b) }"

definition kv :: "nat \<Rightarrow> string \<Rightarrow> string \<Rightarrow> rcall" where
  "kv lv key val = Put lv (Some key) (Some val)"

definition x0 :: "nat \<Rightarrow> string" where
  "x0 n = ''0x'' @ hex_nat n"

text \<open>\<open>%d\<close> on a 32-bit value.\<close>

definition i32 :: "nat \<Rightarrow> string" where
  "i32 n = dec_int (if n < 2 ^ 31 then int n else int n - 2 ^ 32)"

definition dec_of :: "nat \<Rightarrow> fields \<Rightarrow> string \<Rightarrow> rcall" where
  "dec_of lv fs nm = kv lv nm (i32 (fnum fs nm))"

definition hex_of :: "nat \<Rightarrow> fields \<Rightarrow> string \<Rightarrow> rcall" where
  "hex_of lv fs nm = kv lv nm (x0 (fnum fs nm))"

definition chr :: "nat \<Rightarrow> char" where "chr n = char_of (n mod 256)"

text \<open>A code of 24 bits printed with \<open>%c%c%c\<close>, the high byte first.\<close>

definition chars3 :: "nat \<Rightarrow> string" where
  "chars3 n = [chr (n div 65536), chr (n div 256), chr n]"

definition text_of :: "bytes \<Rightarrow> string" where
  "text_of b = map (\<lambda>x. char_of (unat x)) b"

text \<open>\<open>%s\<close> on an array with room for a null character behind it, and on one without.\<close>

definition str_field :: "fields \<Rightarrow> string \<Rightarrow> string option" where
  "str_field fs nm = (case map_of fs nm of Some (FBytes b) \<Rightarrow> Some (c_str (text_of b)) | _ \<Rightarrow> None)"

definition str_unended :: "fields \<Rightarrow> string \<Rightarrow> string option" where
  "str_unended fs nm = (case map_of fs nm of Some (FBytes b) \<Rightarrow> if 0 \<in> set b then Some (c_str (text_of b)) else None | _ \<Rightarrow> None)"

definition items_of :: "fields \<Rightarrow> string \<Rightarrow> fval list" where
  "items_of fs nm = (case map_of fs nm of Some (FList vs) \<Rightarrow> vs | _ \<Rightarrow> [])"

definition items_n :: "fields \<Rightarrow> string \<Rightarrow> nat \<Rightarrow> fval list option" where
  "items_n fs nm n = (if length (items_of fs nm) = n then Some (items_of fs nm) else None)"

definition rec_of :: "fval \<Rightarrow> fields" where
  "rec_of v = (case v of FRec fs \<Rightarrow> fs | _ \<Rightarrow> [])"

definition bytes_of :: "fval \<Rightarrow> bytes" where
  "bytes_of v = (case v of FBytes b \<Rightarrow> b | _ \<Rightarrow> [])"

text \<open>The number in bytes \<open>a\<close> to \<open>a + n - 1\<close> of a structure in memory.\<close>

definition mem_num :: "nat \<Rightarrow> nat \<Rightarrow> bytes \<Rightarrow> nat" where
  "mem_num a n b = le_num (take n (drop a b))"

section \<open>Elements\<close>

definition dump_ISO_639_language_descriptor :: "nat \<Rightarrow> bytes \<Rightarrow> rcall list" where
  "dump_ISO_639_language_descriptor lv b =
     [kv lv ''ISO_639_language_code'' (chars3 (mem_num 0 3 b)), kv lv ''audio_type'' (i32 (mem_num 3 1 b))]"

definition server_type_name :: "nat \<Rightarrow> string" where
  "server_type_name n =
     (if 2 \<le> n \<and> n \<le> 9 then ''H.264/AVC''
      else if n = 1 then ''digital television service''
      else if n = 0xA then ''advanced codec digital radio sound service''
      else if n = 0x1F then ''HEVC digital television service''
      else if n = 0x20 then ''HEVC UHD digital television service''
      else ''unknown type'')"

definition dump_service_list :: "nat \<Rightarrow> bytes \<Rightarrow> rcall list" where
  "dump_service_list lv b =
     [kv lv ''service_id'' (x0 (mem_num 0 2 b)), kv lv ''service_type'' (server_type_name (mem_num 2 1 b))]"

definition dump_teletext_infos :: "nat \<Rightarrow> bytes \<Rightarrow> rcall list" where
  "dump_teletext_infos lv b =
     [kv lv ''ISO_639_language_code'' (chars3 (mem_num 0 3 b)),
      kv lv ''teletext_type'' (i32 (mem_num 3 1 b mod 32)),
      kv lv ''teletext_magazine_number'' (i32 (mem_num 3 1 b mod 32)),
      kv lv ''teletext_page_number'' (i32 (mem_num 4 1 b))]"

definition dump_local_time_offset :: "nat \<Rightarrow> bytes \<Rightarrow> rcall list option" where
  "dump_local_time_offset lv b = do {
     utc \<leftarrow> convert_UTC (take 5 (drop 6 b)) 20;
     Some [kv lv ''country'' (chars3 (mem_num 0 3 b)),
       kv lv ''country_region_id'' (i32 (mem_num 3 1 b mod 64)),
       kv lv ''local_time_offset_polarity'' (i32 (mem_num 3 1 b div 128)),
       kv lv ''local_time_offset'' (i32 (mem_num 4 2 b)),
       kv lv ''time_of_change'' utc,
       kv lv ''next_time_offset'' (i32 (mem_num 11 2 b))] }"

definition dump_subtitling_descriptor :: "nat \<Rightarrow> bytes \<Rightarrow> rcall list" where
  "dump_subtitling_descriptor lv b =
     [kv lv ''ISO_639_language_code'' (chars3 (mem_num 0 3 b)),
      kv lv ''subtitling_type'' (x0 (mem_num 3 1 b)),
      kv lv ''composotion_page_id'' (i32 (mem_num 4 2 b)),
      kv lv ''ancillary_page_id'' (i32 (mem_num 6 2 b))]"

definition dump_service_locations :: "nat \<Rightarrow> bytes \<Rightarrow> rcall list" where
  "dump_service_locations lv b =
     [kv lv ''stream_type'' (i32 (mem_num 0 1 b)),
      kv lv ''elementary_PID'' (x0 (mem_num 1 2 b div 8) @ ''('' @ i32 (mem_num 1 2 b div 8) @ '')''),
      kv lv ''ISO_639_language_code'' [chr (mem_num 3 1 b), chr (mem_num 4 1 b), chr (mem_num 5 1 b)]]"

definition dump_extend_event_linkage_info :: "nat \<Rightarrow> fields \<Rightarrow> rcall list" where
  "dump_extend_event_linkage_info lv f =
     dec_of lv f ''loop_length'' #
     concat (map (\<lambda>v. let s = rec_of v in
       map (dec_of lv s) [''target_event_id'', ''target_listed'', ''event_simulcast'', ''link_type'', ''target_id_type'',
         ''original_network_id_flag'', ''service_id_flag''] @
       (if fnum s ''target_id_type'' = 3 then [dec_of lv s ''user_defined_id'']
        else (if fnum s ''target_id_type'' = 1 then [dec_of lv s ''target_transport_stream_id''] else []) @
          (if fnum s ''original_network_id_flag'' \<noteq> 0 then [dec_of lv s ''target_original_network_id''] else []) @
          (if fnum s ''service_id_flag'' \<noteq> 0 then [dec_of lv s ''target_service_id''] else [])))
       (items_of f ''subinfo''))"

definition dump_multilingual_node :: "nat \<Rightarrow> fields \<Rightarrow> rcall list option" where
  "dump_multilingual_node lv f = do {
     t \<leftarrow> str_field f ''text_char'';
     Some [kv lv ''ISO_639_language_code'' (chars3 (fnum f ''ISO_639_language_code'')), kv lv ''text_char'' t] }"

definition dump_multilingual_service_node :: "nat \<Rightarrow> fields \<Rightarrow> rcall list option" where
  "dump_multilingual_service_node lv f = do {
     t \<leftarrow> str_field f ''text_char'';
     s \<leftarrow> str_field f ''service_char'';
     Some [kv lv ''ISO_639_language_code'' (chars3 (fnum f ''ISO_639_language_code'')), dec_of lv f ''name_length'',
       kv lv ''text_char'' t, dec_of lv f ''service_name_length'', kv lv ''service_char'' s] }"

definition dump_cell_list_descriptor :: "nat \<Rightarrow> fields \<Rightarrow> rcall list option" where
  "dump_cell_list_descriptor lv f = do {
     subs \<leftarrow> items_n f ''subcell_list'' (fnum f ''subcell_info_loop_length'' div 8);
     Some ([dec_of lv f ''cell_id''] @ map (hex_of lv f) [''cell_latitude'', ''cell_longitude'', ''cell_extent_of_latitude'', ''cell_extent_of_longitude''] @
       [dec_of lv f ''subcell_info_loop_length''] @
       concat (map (\<lambda>v. map (dec_of lv (rec_of v)) [''cell_id_extension'', ''subcell_latitude'', ''subcell_longitude'',
         ''subcell_extent_of_latitude'', ''subcell_extent_of_longitude'']) subs)) }"

definition dump_cell_frequency_link_descriptor :: "nat \<Rightarrow> fields \<Rightarrow> rcall list option" where
  "dump_cell_frequency_link_descriptor lv f = do {
     subs \<leftarrow> items_n f ''subcell_info_list'' (fnum f ''subcell_info_loop_length'' div 5);
     Some (map (dec_of lv f) [''cell_id'', ''frequency'', ''subcell_info_loop_length''] @
       concat (map (\<lambda>v. [dec_of lv (rec_of v) ''cell_id_extension'',
         kv lv ''transposer_frequency'' (dec_nat (fnum (rec_of v) ''transposer_frequency''))]) subs)) }"

definition dump_compatibility_descriptor :: "nat \<Rightarrow> fields \<Rightarrow> rcall list option" where
  "dump_compatibility_descriptor lv f = do {
     subs \<leftarrow> items_n f ''sub'' (fnum f ''count'');
     ds \<leftarrow> seqs (map (\<lambda>v. let s = rec_of v in do {
       ss \<leftarrow> items_n s ''sub'' (fnum s ''count'');
       bs \<leftarrow> seqs (map (\<lambda>w. do {
         t \<leftarrow> str_unended (rec_of w) ''sub_descriptor_byte'';
         Some (map (dec_of lv (rec_of w)) [''sub_descriptor_tag'', ''sub_descriptor_length''] @ [kv lv ''sub_descriptor_byte'' t]) }) ss);
       Some (map (dec_of lv s) [''type'', ''length'', ''specifierType'', ''specifierData'', ''model'', ''version'', ''count''] @ bs) }) subs);
     Some (map (dec_of lv f) [''length'', ''count''] @ ds) }"

definition dump_module_info_list :: "nat \<Rightarrow> fields \<Rightarrow> rcall list option" where
  "dump_module_info_list lv f = do {
     ms \<leftarrow> items_n f ''info'' (fnum f ''num_of_modules'');
     ds \<leftarrow> seqs (map (\<lambda>v. do {
       t \<leftarrow> str_unended (rec_of v) ''module_info_byte'';
       Some (map (dec_of lv (rec_of v)) [''module_id'', ''module_size'', ''module_info_length''] @ [kv lv ''module_info_byte'' t]) }) ms);
     Some (dec_of lv f ''num_of_modules'' # ds) }"

definition dump_text_info :: "nat \<Rightarrow> fields \<Rightarrow> rcall list option" where
  "dump_text_info lv f = do {
     t \<leftarrow> str_unended f ''text_char'';
     Some [kv lv ''ISO_639_language_code'' (chars3 (fnum f ''ISO_639_language_code'')), dec_of lv f ''text_length'', kv lv ''text_char'' t] }"

text \<open>The function that goes with a hand-written parser.\<close>

definition custom_dump :: "custom \<Rightarrow> nat \<Rightarrow> fval \<Rightarrow> rcall list option" where
  "custom_dump c lv v = (let f = rec_of v in case c of
     parse_extend_event_linkage_info \<Rightarrow> Some (dump_extend_event_linkage_info lv f)
   | parse_multilingual_node \<Rightarrow> dump_multilingual_node lv f
   | parse_multilingual_service_node \<Rightarrow> dump_multilingual_service_node lv f
   | parse_cell_list \<Rightarrow> dump_cell_list_descriptor lv f
   | parse_cell_frequency_link \<Rightarrow> dump_cell_frequency_link_descriptor lv f
   | parse_compatibility \<Rightarrow> dump_compatibility_descriptor lv f
   | parse_module_info_list \<Rightarrow> dump_module_info_list lv f
   | parse_text_info \<Rightarrow> dump_text_info lv f)"

text \<open>The members declared with \<open>__mplast_custom\<close> and their functions.\<close>

definition mplast_custom :: "string \<Rightarrow> (nat \<Rightarrow> bytes \<Rightarrow> rcall list option) option" where
  "mplast_custom nm =
     (if nm = ''languages'' then Some (\<lambda>lv b. Some (dump_ISO_639_language_descriptor lv b))
      else if nm = ''services'' then Some (\<lambda>lv b. Some (dump_service_list lv b))
      else if nm = ''vbi_teletext'' \<or> nm = ''teletext_infos'' then Some (\<lambda>lv b. Some (dump_teletext_infos lv b))
      else if nm = ''time_list'' then Some dump_local_time_offset
      else if nm = ''subtitle_list'' then Some (\<lambda>lv b. Some (dump_subtitling_descriptor lv b))
      else None)"

section \<open>The dumping expansion of the members\<close>

definition contains :: "string \<Rightarrow> string \<Rightarrow> bool" where
  "contains p s = list_ex (\<lambda>i. take (length p) (drop i s) = p) [0..<Suc (length s)]"

definition DUMP_MEMBER :: "nat \<Rightarrow> string \<Rightarrow> nat \<Rightarrow> rcall list" where
  "DUMP_MEMBER lv nm v = (if take 8 nm = ''reserved'' then [] else [kv (lv + 1) nm (x0 v)])"

text \<open>The bytes of one element, in memory order, in an array of 2048 characters.\<close>

definition raw_element :: "bytes \<Rightarrow> string" where
  "raw_element b = concat (map (\<lambda>x. '' '' @ x0 (unat x)) b)"

definition dump_array :: "nat \<Rightarrow> string \<Rightarrow> bytes \<Rightarrow> rcall list" where
  "dump_array lv nm b = (if contains ''name'' nm then [kv lv nm (c_str (text_of b))] else [Hexd lv nm b])"

fun dump_member :: "nat \<Rightarrow> fields \<Rightarrow> member \<Rightarrow> rcall list option" where
  "dump_member lv r (M ty nm bits) =
     (if take 8 nm \<noteq> ''reserved'' \<and> 32 < bits then None else Some (DUMP_MEMBER lv nm (fnum r nm)))"
| "dump_member lv r (M1 ty nm) =
     (if take 8 nm \<noteq> ''reserved'' \<and> (ty = T_uint24 \<or> ty = T_uint64) then None else Some (DUMP_MEMBER lv nm (fnum r nm)))"
| "dump_member lv r (Mplast sz nm) =
     (case mplast_custom nm of
        Some cb \<Rightarrow> seqs (map (\<lambda>v. cb (lv + 1) (bytes_of v)) (items_of r nm))
      | None \<Rightarrow>
          if items_of r nm = [] then Some []
          else if sz = 1 then Some (dump_array (lv + 1) nm (concat (map bytes_of (items_of r nm))))
          else Some (map (\<lambda>v. kv (lv + 1) nm (raw_element (bytes_of v))) (items_of r nm)))"
| "dump_member lv r (Mplast_sub c nm) = seqs (map (custom_dump c (lv + 1)) (items_of r nm))"
| "dump_member lv r (Mif sz nm cond val) =
     (if fnum r cond \<noteq> val then Some []
      else if (sz = 1 \<or> sz = 2 \<or> sz = 4) \<and> nm \<noteq> ''logo_iden_2'' then Some (DUMP_MEMBER lv nm (fnum r nm))
      else None)"
| "dump_member lv r (Mif_custom c nm cond val) =
     (if fnum r cond = val then custom_dump c lv (case map_of r nm of Some v \<Rightarrow> v | None \<Rightarrow> FRec []) else Some [])"
| "dump_member lv r (Mrangelv_custom c nm cond lo hi) =
     (if lo \<le> fnum r cond \<and> fnum r cond \<le> hi then custom_dump c lv (case map_of r nm of Some v \<Rightarrow> v | None \<Rightarrow> FRec []) else Some [])"
| "dump_member lv r (Mlv sz cntname d nm) =
     (let n = fnum r cntname div d; b = (case map_of r nm of Some v \<Rightarrow> bytes_of v | None \<Rightarrow> []) in
      if length b \<noteq> n * sz then None
      else if nm = ''service_locations'' then Some (concat (map (\<lambda>i. dump_service_locations (lv + 1) (take 6 (drop (6 * i) b))) [0..<n]))
      else if sz = 1 then Some (dump_array (lv + 1) nm b)
      else if n = 0 then Some []
      else None)"
| "dump_member lv r (Mploop k nm) = (if items_of r nm = [] then Some [] else None)"
| "dump_member lv r (Mploop_custom c nm) = seqs (map (custom_dump c lv) (items_of r nm))"

section \<open>Descriptors\<close>

definition MAX_TAG_NAME :: nat where "MAX_TAG_NAME = 64"

definition tag_name :: "u8 \<Rightarrow> string" where
  "tag_name = fold (\<lambda>(nm, tag, ms) f. f(tag := snprintf MAX_TAG_NAME (nm @ ''_descriptor''))) foreach_enum_descriptor (\<lambda>_. ''reserved'')"

definition dump_reserved :: "nat \<Rightarrow> descriptor \<Rightarrow> rcall list" where
  "dump_reserved lv d =
     (let b = (case map_of (d_body d) ''data'' of Some v \<Rightarrow> bytes_of v | None \<Rightarrow> []) in
      [kv lv (tag_name (d_tag d)) (''descriptor 0x'' @ hex02 (unat (d_tag d)) @ '' len '' @ dec_nat (unat (d_length d))),
       Hexd (lv + 1) ''unknown'' (take 16 b)])"

definition dump_generated :: "nat \<Rightarrow> member list \<Rightarrow> descriptor \<Rightarrow> rcall list option" where
  "dump_generated lv ms d = do {
     cs \<leftarrow> seqs (map (dump_member lv (d_body d)) ms);
     Some (kv lv (tag_name (d_tag d)) (''0x'' @ hex02 (unat (d_tag d)) @ '' len '' @ dec_nat (unat (d_length d))) # cs) }"

definition descriptor_dump :: "nat \<Rightarrow> descriptor \<Rightarrow> rcall list option" where
  "descriptor_dump lv d =
     (case init_descriptor_parsers (d_tag d) of
        Reserved \<Rightarrow> Some (dump_reserved lv d)
      | Generated tag ms \<Rightarrow> dump_generated lv ms d)"

definition dump_descriptors :: "nat \<Rightarrow> descriptor list \<Rightarrow> rcall list option" where
  "dump_descriptors lv ds = seqs (map (descriptor_dump lv) ds)"

section \<open>Every call has a key and the level asked for, or one more\<close>

definition labelled :: "nat \<Rightarrow> rcall \<Rightarrow> bool" where
  "labelled lv c \<longleftrightarrow> lv \<le> call_lv c \<and> call_lv c \<le> lv + 1 \<and> (case c of Put l key fmt \<Rightarrow> key \<noteq> None | Hexd l title data \<Rightarrow> True)"

definition labels :: "nat \<Rightarrow> rcall list option \<Rightarrow> bool" where
  "labels lv r \<longleftrightarrow> (case r of None \<Rightarrow> True | Some cs \<Rightarrow> list_all (labelled lv) cs)"

named_theorems label_intros

lemma labels_None [simp]: "labels lv None" by (simp add: labels_def)

lemma labels_Some [simp]: "labels lv (Some cs) \<longleftrightarrow> list_all (labelled lv) cs" by (simp add: labels_def)

lemma labels_bind [label_intros]: "(\<And>x. labels lv (f x)) \<Longrightarrow> labels lv (r \<bind> f)"
  by (cases r) auto

lemma labelled_kv [simp]: "labelled lv (kv l k v) \<longleftrightarrow> lv \<le> l \<and> l \<le> lv + 1"
  "labelled lv (dec_of l f nm) \<longleftrightarrow> lv \<le> l \<and> l \<le> lv + 1" "labelled lv (hex_of l f nm) \<longleftrightarrow> lv \<le> l \<and> l \<le> lv + 1"
  "labelled lv (Hexd l t b) \<longleftrightarrow> lv \<le> l \<and> l \<le> lv + 1"
  by (simp_all add: labelled_def kv_def dec_of_def hex_of_def)

lemma seqs_labels: "(\<And>x. x \<in> set xs \<Longrightarrow> labels lv x) \<Longrightarrow> labels lv (seqs xs)"
proof (induction xs)
  case (Cons x xs)
  then have "labels lv x" "labels lv (seqs xs)" by simp_all
  then show ?case by (cases x; cases "seqs xs") simp_all
qed simp

lemma seqs_SomeD: "(\<And>x. x \<in> set xs \<Longrightarrow> labels lv x) \<Longrightarrow> seqs xs = Some cs \<Longrightarrow> list_all (labelled lv) cs"
  using seqs_labels [of xs lv] by (simp add: labels_def)

lemma labels_bind_seqs:
  "\<lbrakk>\<And>x. x \<in> set xs \<Longrightarrow> labels lv x; \<And>cs. list_all (labelled lv) cs \<Longrightarrow> labels lv (f cs)\<rbrakk> \<Longrightarrow> labels lv (seqs xs \<bind> f)"
  using seqs_SomeD [of xs lv] by (cases "seqs xs") auto

lemma list_all_concat_map: "(\<And>x. x \<in> set xs \<Longrightarrow> list_all P (f x)) \<Longrightarrow> list_all P (concat (map f xs))"
  by (induction xs) auto

lemmas labels_steps = labels_bind_seqs
  labels_bind [where r = "items_n f nm n" for f nm n] labels_bind [where r = "str_unended f nm" for f nm]
  labels_bind [where r = "str_field f nm" for f nm]

lemma custom_dump_labels: "lv \<le> l \<Longrightarrow> l \<le> lv + 1 \<Longrightarrow> labels lv (custom_dump c l v)"
  by (cases c) (auto simp: custom_dump_def dump_extend_event_linkage_info_def dump_multilingual_node_def dump_multilingual_service_node_def
      dump_cell_list_descriptor_def dump_cell_frequency_link_descriptor_def dump_compatibility_descriptor_def dump_module_info_list_def
      dump_text_info_def Let_def list_all_append intro!: labels_steps list_all_concat_map)

lemma if_Some_cases:
  "(if a then Some p else if b then Some q else if c then Some x else if d then Some y else if f then Some z else None) = Some r \<Longrightarrow>
   r = p \<or> r = q \<or> r = x \<or> r = y \<or> r = z"
  by (simp split: if_splits)

lemma mplast_custom_labels: "mplast_custom nm = Some cb \<Longrightarrow> labels lv (cb (Suc lv) b)"
  unfolding mplast_custom_def
  by (drule if_Some_cases) (auto simp: dump_ISO_639_language_descriptor_def dump_service_list_def dump_teletext_infos_def
      dump_local_time_offset_def dump_subtitling_descriptor_def intro!: labels_bind)

lemma dump_member_labels: "labels lv (dump_member lv r m)"
proof (cases m)
  case (Mplast sz nm)
  then show ?thesis
    by (auto simp: dump_array_def list_all_iff intro!: seqs_labels intro: mplast_custom_labels split: option.splits)
qed (auto simp: DUMP_MEMBER_def dump_array_def dump_service_locations_def list_all_iff Let_def
      intro!: seqs_labels custom_dump_labels split: option.splits)

lemma dump_descriptors_labels: "labels lv (dump_descriptors lv ds)"
proof -
  have "labels lv (descriptor_dump lv d)" for d
    by (auto simp: descriptor_dump_def dump_reserved_def dump_generated_def Let_def intro!: labels_bind_seqs dump_member_labels
        split: desc_ops.splits)
  then show ?thesis unfolding dump_descriptors_def by (intro seqs_labels) auto
qed

lemma dump_descriptors_keyed:
  assumes "dump_descriptors lv ds = Some cs" "lv \<le> 13"
  shows "\<forall>c \<in> set cs. keyed c \<and> lv \<le> call_lv c"
proof
  fix c assume "c \<in> set cs"
  with dump_descriptors_labels [of lv ds] assms have "labelled lv c" by (simp add: list_all_iff)
  with assms(2) show "keyed c \<and> lv \<le> call_lv c" by (cases c) (auto simp: labelled_def keyed_def)
qed

end
