(* ===== verification/Dump_Tables.thy ===== *)
theory Dump_Tables
  imports Dump_Descriptor Options Psi_Tables Atsc_Psip
begin

text \<open>
  The dump functions of the tables (\<^verbatim>\<open>src/table.c\<close>, \<^verbatim>\<open>src/dvb_si.c\<close>,
  \<^verbatim>\<open>src/atsc_psip.c\<close>), each as the sequence of its calls.  \<open>None\<close> is undefined behaviour,
  as in the dumps of descriptors; the 40-bit start time of an event passed to \<open>%x\<close> is such a case.
\<close>

section \<open>PSI tables\<close>

definition opened :: "nat \<Rightarrow> string \<Rightarrow> rcall" where
  "opened lv key = Put lv (Some key) None"

definition dn :: "'a::len word \<Rightarrow> string" where "dn x = dec_nat (unat x)"
definition xn :: "'a::len word \<Rightarrow> string" where "xn x = x0 (unat x)"

definition dump_nonempty :: "nat \<Rightarrow> descriptor list \<Rightarrow> rcall list option" where
  "dump_nonempty lv ds = (if ds \<noteq> [] then dump_descriptors lv ds else Some [])"

definition dump_section_header :: "string \<Rightarrow> table_header \<Rightarrow> rcall list" where
  "dump_section_header table_name h =
     [opened 0 table_name, kv 1 ''section_length'' (dn (th_section_length h))] @
     (if th_syntax h = 1 then [kv 1 ''transport_stream_id'' (dn (th_table_id_ext h))] else []) @
     [kv 1 ''version_number'' (dn (th_version h)), kv 1 ''active'' (xn (th_current_next h))]"

definition dump_pat :: "pat_t \<Rightarrow> rcall list" where
  "dump_pat p = dump_section_header ''PAT'' (pat_header p) @
     opened 1 ''program_number @ PMT_PID'' #
     map (\<lambda>n. Put 1 None (Some (pad_left 14 CHR '' '' (dn (pn_program_number n)) @ '' @ '' @ xn (pn_program_map_PID n) @
       '' ('' @ dn (pn_program_map_PID n) @ '')''))) (pat_h p)"

definition dump_cat :: "cat_t \<Rightarrow> rcall list option" where
  "dump_cat c = do {
     ds \<leftarrow> dump_nonempty 2 (Table.cat_list c);
     Some (dump_section_header ''CAT'' (cat_header c) @ opened 1 ''ca systems'' # ds) }"

definition dump_tsdt :: "tsdt_t \<Rightarrow> rcall list option" where
  "dump_tsdt t = do {
     ds \<leftarrow> dump_nonempty 2 (tsdt_list t);
     Some (dump_section_header ''TSDT'' (tsdt_header t) @ ds) }"

definition stream_types :: "string list" where
  "stream_types = [''Reserved'', ''ISO/IEC 11172 Video'', ''ISO/IEC 13818-2 Video'', ''ISO/IEC 11172 Audio'', ''ISO/IEC 13818-3 Audio'',
     ''ISO/IEC 13818-1 Private Section'', ''ISO/IEC 13818-1 Private PES data packets'', ''ISO/IEC 13522 MHEG'',
     ''ISO/IEC 13818-1 Annex A DSM CC'', ''ITU-T Rec. H.222.1'', ''ISO/IEC 13818-6 type A'', ''ISO/IEC 13818-6 type B'',
     ''ISO/IEC 13818-6 type C'', ''ISO/IEC 13818-6 type D'', ''ISO/IEC 13818-1 auxiliary'',
     ''ISO/IEC 13818-7 Audio with ADTS transport syntax'', ''ISO/IEC 14496-2 Visual'',
     ''ISO/IEC 14496-3 Audio with the LATM transport syntax'',
     ''ISO/IEC 14496-1 SL-packetized stream or FlexMux stream carried in PES packets'',
     ''ISO/IEC 14496-1 SL-packetized stream or FlexMux stream carried in ISO/IEC14496_sections'',
     ''ISO/IEC 13818-6 Synchronized Download Protocol'']"

definition get_stream_type :: "u8 \<Rightarrow> string" where
  "get_stream_type ty = (if ty < 0x15 then stream_types ! unat ty
     else if ty < 0x80 then ''ISO/IEC 13818-1 reserved''
     else if ty = 0x86 then ''SCTE SPLICE INFO''
     else ''User Private'')"

definition dump_es :: "es_node \<Rightarrow> rcall list option" where
  "dump_es n = do {
     ds \<leftarrow> dump_nonempty 4 (es_list n);
     Some (opened 3 (snprintf 512 (''0x'' @ hex02 (unat (es_stream_type n)) @ '' ('' @ get_stream_type (es_stream_type n) @ '') @ '' @
       xn (es_elementary_PID n))) # ds) }"

definition dump_pmt :: "pmt_t \<Rightarrow> u16 \<Rightarrow> rcall list option" where
  "dump_pmt p pid = do {
     ds \<leftarrow> dump_descriptors 2 (pmt_list p);
     es \<leftarrow> seqs (map dump_es (pmt_h p));
     Some ([opened 0 ''active PMT'', kv 1 ''program_number'' (dn (pmt_program_number p) @ ''  => pmt pid '' @ xn pid),
       kv 1 ''version_number'' (dn (th_version (pmt_header p))), kv 1 ''PCR_PID'' (xn (pmt_PCR_PID p) @ '' ('' @ dn (pmt_PCR_PID p) @ '')'')] @
       ds @ [opened 1 ''components'', opened 2 ''type @ elementary_PID''] @ es) }"

section \<open>DVB tables\<close>

definition dump_tdt :: "tdt_t \<Rightarrow> rcall list option" where
  "dump_tdt t = do {
     utc \<leftarrow> convert_UTC (tdt_utc_time t) 20;
     Some [opened 0 ''TDT (Time and Date Table)'', kv 1 ''UTC time'' utc] }"

definition dump_tot :: "tot_t \<Rightarrow> rcall list option" where
  "dump_tot t = do {
     utc \<leftarrow> convert_UTC (tot_utc_time t) 20;
     ds \<leftarrow> dump_descriptors 2 (tot_list t);
     Some ([opened 0 ''TOT (Time Offset Table)'', kv 1 ''UTC time'' utc] @ ds) }"

definition yes_no :: "u8 \<Rightarrow> string" where
  "yes_no b = (if b \<noteq> 0 then ''yes'' else ''no'')"

definition dump_service :: "service_node \<Rightarrow> rcall list option" where
  "dump_service n = do {
     ds \<leftarrow> dump_descriptors 4 (sv_list n);
     Some ([kv 2 ''service_id'' (''0x'' @ pad_left 4 CHR ''0'' (hex_nat (unat (sv_service_id n))) @ ''('' @ dn (sv_service_id n) @ '') ''),
       kv 3 ''EIT_schedule_flag'' (xn (sv_EIT_schedule_flag n) @ '' ''),
       kv 3 ''EIT_present_following_flag'' (xn (sv_EIT_present_following_flag n) @ '' ''),
       kv 3 ''running_status'' (xn (sv_running_status n)), kv 3 ''free_CA_mode'' (xn (sv_free_CA_mode n))] @ ds) }"

definition dump_sdt :: "sdt_t \<Rightarrow> rcall list option" where
  "dump_sdt t = do {
     let h = sdt_header t;
     let sdt_name = (if th_table_id h = 0x42 then ''SDT ACTUAL tid 0x42'' else if th_table_id h = 0x46 then ''SDT OTHER tid 0x46'' else '''');
     ss \<leftarrow> seqs (map dump_service (sdt_h t));
     Some ([opened 0 sdt_name, kv 1 ''transport_stream_id'' (xn (th_table_id_ext h)), kv 1 ''section_length'' (dn (th_section_length h)),
       kv 1 ''version_number'' (dn (th_version h)), kv 1 ''Current next'' (yes_no (th_current_next h)),
       kv 1 ''original_network_id'' (xn (sdt_original_network_id t))] @ ss) }"

text \<open>An element of the array of transport streams and the calls that follow it.\<close>

definition bat_item :: "transport_stream_node \<Rightarrow> (string \<times> rcall list) option" where
  "bat_item n = do {
     ds \<leftarrow> (if tn_transport_descriptors_length n \<noteq> 0 then dump_descriptors 4 (tn_list n) else Some []);
     Some (''0x'' @ pad_left 4 CHR ''0'' (hex_nat (unat (tn_transport_stream_id n))) @ ''('' @ dn (tn_transport_stream_id n) @ '') '',
       kv 3 ''original_network_id'' (hex_nat (unat (tn_original_network_id n)) @ '' '') # ds) }"

fun all_some :: "'a option list \<Rightarrow> 'a list option" where
  "all_some [] = Some []"
| "all_some (x # xs) = do { a \<leftarrow> x; as \<leftarrow> all_some xs; Some (a # as) }"

definition dump_bat :: "bat_t \<Rightarrow> rcall list option" where
  "dump_bat t = do {
     let h = bat_header t;
     ds \<leftarrow> dump_descriptors 2 (bat_list t);
     items \<leftarrow> (if bat_transport_stream_loop_length t \<noteq> 0 then all_some (map bat_item (bat_h t)) else Some []);
     Some ([opened 0 ''BAT'', kv 1 ''section_length'' (dn (th_section_length h)), kv 1 ''bouquet_id'' (xn (bat_bouquet_id t)),
       kv 1 ''version_number'' ('' '' @ dn (th_version h)), kv 1 ''Current next'' ('' '' @ yes_no (th_current_next h)),
       kv 1 ''bouquet descriptor length'' ('' '' @ dn (bat_bouquet_descriptors_length t))] @ ds @
       (if bat_transport_stream_loop_length t \<noteq> 0
        then opened 1 ''transport_streams'' # concat (map (\<lambda>(v, bs). Put 2 None (Some v) # bs) items) else [])) }"

definition dump_stream :: "transport_stream_node \<Rightarrow> rcall list option" where
  "dump_stream n = do {
     ds \<leftarrow> dump_descriptors 5 (tn_list n);
     Some ([kv 3 ''transport_stream_id'' (xn (tn_transport_stream_id n) @ '' ''), kv 4 ''original_network_id'' (xn (tn_original_network_id n) @ '' '')] @ ds) }"

definition dump_nit :: "nit_t \<Rightarrow> rcall list option" where
  "dump_nit t = do {
     let h = nit_header t;
     let nit_name = (if th_table_id h = 0x40 then ''NIT ACTUAL tid 0x40'' else if th_table_id h = 0x41 then ''NIT OTHER tid 0x41'' else '''');
     ds \<leftarrow> dump_descriptors 2 (nit_list t);
     ts \<leftarrow> seqs (map dump_stream (nit_h t));
     Some ([opened 0 nit_name, kv 1 ''section_length'' ('' '' @ dn (th_section_length h)), kv 1 ''network_id'' ('' '' @ xn (nit_network_id t)),
       kv 1 ''version_number'' ('' '' @ dn (th_version h)), kv 1 ''Current next'' ('' '' @ yes_no (th_current_next h))] @
       ds @ opened 2 ''transport_stream '' # ts) }"

definition dump_eit :: "eit_t \<Rightarrow> rcall list option" where
  "dump_eit t =
     (if eit_h t \<noteq> [] then None
      else Some (dump_section_header ''EIT'' (eit_header t) @
        [kv 1 ''transport_stream_id'' ('' '' @ xn (eit_transport_stream_id t)), kv 1 ''original_network_id'' ('' '' @ xn (eit_original_network_id t)),
         kv 1 ''segment_last_section_number'' ('' '' @ xn (eit_segment_last_section_number t)), opened 1 ''events'']))"

section \<open>ATSC tables\<close>

definition cells :: "nat \<Rightarrow> 'a list option \<Rightarrow> 'a list option" where
  "cells n a = (case a of None \<Rightarrow> if n = 0 then Some [] else None | Some xs \<Rightarrow> if n \<le> length xs then Some (take n xs) else None)"

definition dump_mgt :: "atsc_mgt_t \<Rightarrow> rcall list option" where
  "dump_mgt t = do {
     xs \<leftarrow> cells (unat (mgt_tables_defined t)) (mgt_tables t);
     cs \<leftarrow> seqs (map (\<lambda>x. do {
       ds \<leftarrow> dump_nonempty 3 (dt_list x);
       Some ([kv 2 ''table_type'' (''0x'' @ pad_left 4 CHR ''0'' (hex_nat (unat (dt_table_type x)))), kv 2 ''table_type_PID'' (xn (dt_table_type_PID x)),
         kv 2 ''version_number'' (dn (dt_version_number x)), kv 2 ''number_bytes'' (dn (dt_number_bytes x))] @ ds) }) xs);
     ds \<leftarrow> dump_nonempty 1 (mgt_list t);
     Some (dump_section_header ''MGT (Master Guide Table)'' (mgt_header t) @
       [kv 1 ''protocol_version'' (dn (mgt_protocol_version t)), kv 1 ''tables_defined'' (dn (mgt_tables_defined t))] @ cs @ ds) }"

definition dump_vct :: "string \<Rightarrow> atsc_vct_t \<Rightarrow> rcall list option" where
  "dump_vct nm t = do {
     xs \<leftarrow> cells (unat (vct_num_channels_in_section t)) (vct_channels t);
     cs \<leftarrow> seqs (map (\<lambda>x. do {
       ds \<leftarrow> dump_nonempty 4 (ch_list x);
       Some ([opened 2 ''channel'', kv 3 ''major_channel_number'' (dn (ch_major_channel_number x)),
         kv 3 ''minor_channel_number'' (dn (ch_minor_channel_number x)), kv 3 ''modulation_mode'' (dn (ch_modulation_mode x)),
         kv 3 ''program_number'' (dn (ch_program_number x)), kv 3 ''service_type'' (dn (ch_service_type x)),
         kv 3 ''source_id'' (dn (ch_source_id x))] @ ds) }) xs);
     ds \<leftarrow> dump_nonempty 1 (vct_list t);
     Some (dump_section_header nm (vct_header t) @
       [kv 1 ''protocol_version'' (dn (vct_protocol_version t)), kv 1 ''num_channels_in_section'' (dn (vct_num_channels_in_section t))] @ cs @ ds) }"

definition dump_rrt :: "atsc_rrt_t \<Rightarrow> rcall list option" where
  "dump_rrt t = do {
     ds \<leftarrow> dump_nonempty 1 (rrt_list t);
     Some (dump_section_header ''RRT (Rating Region Table)'' (rrt_header t) @
       [kv 1 ''protocol_version'' (dn (rrt_protocol_version t)), kv 1 ''dimensions_defined'' (dn (rrt_dimensions_defined t))] @ ds) }"

definition dump_ett :: "atsc_ett_t \<Rightarrow> rcall list option" where
  "dump_ett t = Some (dump_section_header ''ETT (Extended Text Table)'' (ett_header t) @
     [kv 1 ''protocol_version'' (dn (ett_protocol_version t)), kv 1 ''ETM_id'' (xn (ett_ETM_id t))])"

definition dump_atsc_eit :: "atsc_eit_t \<Rightarrow> rcall list option" where
  "dump_atsc_eit t = do {
     xs \<leftarrow> cells (unat (aeit_num_events_in_section t)) (aeit_events t);
     cs \<leftarrow> seqs (map (\<lambda>x. do {
       ds \<leftarrow> dump_nonempty 3 (de_list x);
       Some ([kv 2 ''event_id'' (xn (de_event_id x)), kv 2 ''start_time'' (dn (de_start_time x)),
         kv 2 ''length_in_seconds'' (dn (de_length_in_seconds x))] @ ds) }) xs);
     Some (dump_section_header ''ATSC EIT (Event Information Table)'' (aeit_header t) @
       [kv 1 ''protocol_version'' (dn (aeit_protocol_version t)), kv 1 ''num_events_in_section'' (dn (aeit_num_events_in_section t))] @ cs) }"

definition dump_stt :: "atsc_stt_t \<Rightarrow> rcall list option" where
  "dump_stt t = do {
     ds \<leftarrow> dump_nonempty 1 (stt_list t);
     Some (dump_section_header ''STT (System Time Table)'' (stt_header t) @
       [kv 1 ''protocol_version'' (dn (stt_protocol_version t)), kv 1 ''system_time'' (dn (stt_system_time t)),
        kv 1 ''GPS_UTC_offset'' (dn (stt_GPS_UTC_offset t)), kv 1 ''daylight_saving'' (xn (stt_daylight_saving t))] @ ds) }"

definition dump_dcct :: "atsc_dcct_t \<Rightarrow> rcall list option" where
  "dump_dcct t = do {
     ds \<leftarrow> dump_nonempty 1 (dcct_list t);
     Some (dump_section_header ''DCCT (Directed Channel Change Table)'' (dcct_header t) @
       [kv 1 ''protocol_version'' (dn (dcct_protocol_version t)), kv 1 ''dcc_test_count'' (dn (dcct_test_count t))] @ ds) }"

definition dump_dccsct :: "atsc_dccsct_t \<Rightarrow> rcall list option" where
  "dump_dccsct t = do {
     ds \<leftarrow> dump_nonempty 1 (dccsct_list t);
     Some (dump_section_header ''DCCSCT (Directed Channel Change Selection Table)'' (dccsct_header t) @
       [kv 1 ''protocol_version'' (dn (dccsct_protocol_version t)), kv 1 ''updates_defined'' (dn (dccsct_updates_defined t))] @ ds) }"

definition dump_when :: "bool \<Rightarrow> rcall list option \<Rightarrow> rcall list option" where
  "dump_when b cs = (if b then cs else Some [])"

definition dump_atsc_tables :: "atsc_state \<Rightarrow> rcall list option" where
  "dump_atsc_tables st = (let m = at_seen_mask st; p = at_psip st in seqs [
     dump_when (and m PSIP_MGT \<noteq> 0) (dump_mgt (ps_mgt p)),
     dump_when (and m PSIP_TVCT \<noteq> 0) (dump_vct ''TVCT (Terrestrial Virtual Channel Table)'' (ps_tvct p)),
     dump_when (and m PSIP_CVCT \<noteq> 0) (dump_vct ''CVCT (Cable Virtual Channel Table)'' (ps_cvct p)),
     dump_when (and m PSIP_RRT \<noteq> 0) (dump_rrt (ps_rrt p)),
     dump_when (and m PSIP_EIT \<noteq> 0) (dump_atsc_eit (ps_eit p)),
     dump_when (and m PSIP_ETT \<noteq> 0) (dump_ett (ps_ett p)),
     dump_when (and m PSIP_STT \<noteq> 0) (dump_stt (ps_stt p)),
     dump_when (and m PSIP_DCCT \<noteq> 0) (dump_dcct (ps_dcct p)),
     dump_when (and m PSIP_DCCSCT \<noteq> 0) (dump_dccsct (ps_dccsct p))])"

section \<open>All tables\<close>

definition PAT_SHOW :: u16 where "PAT_SHOW = push_bit 0 1"
definition CAT_SHOW :: u16 where "CAT_SHOW = push_bit 1 1"
definition PMT_SHOW :: u16 where "PMT_SHOW = push_bit 2 1"
definition TSDT_SHOW :: u16 where "TSDT_SHOW = push_bit 3 1"
definition NIT_SHOW :: u16 where "NIT_SHOW = push_bit 4 1"
definition SDT_SHOW :: u16 where "SDT_SHOW = push_bit 5 1"
definition BAT_SHOW :: u16 where "BAT_SHOW = push_bit 6 1"
definition TDT_SHOW :: u16 where "TDT_SHOW = push_bit 7 1"
definition EIT_SHOW :: u16 where "EIT_SHOW = push_bit 8 1"
definition PSIP_SHOW :: u16 where "PSIP_SHOW = push_bit 9 1"

definition tables_of_pid :: "nat \<Rightarrow> u16" where
  "tables_of_pid i =
     (if i = 0 then PAT_SHOW else if i = 1 then CAT_SHOW else if i = 2 then TSDT_SHOW else if i = 0x10 then NIT_SHOW
      else if i = 0x11 then or SDT_SHOW BAT_SHOW else if i = 0x12 then EIT_SHOW else if i = 0x14 then TDT_SHOW
      else if i = 0x1FFB then PSIP_SHOW else PMT_SHOW)"

definition convert_pids_to_tables :: "config \<Rightarrow> config" where
  "convert_pids_to_tables c =
     fold (\<lambda>i c. if co_pids c ! i \<noteq> 0 then c\<lparr>co_tables := or (co_tables c) (tables_of_pid i)\<rparr> else c) [0..<8192] c"

definition all_tables :: u16 where
  "all_tables = or PAT_SHOW (or CAT_SHOW (or PMT_SHOW (or TSDT_SHOW (or NIT_SHOW (or SDT_SHOW (or BAT_SHOW (or TDT_SHOW (or EIT_SHOW PSIP_SHOW))))))))"

definition pmt_dumps :: "mpeg_psi_t \<Rightarrow> rcall list option" where
  "pmt_dumps psi = seqs (map (\<lambda>i. do {
     b \<leftarrow> bitmap64_get (psi_pmt_bitmap psi) i;
     if b then dump_pmt (psi_pmt psi (of_nat i)) (of_nat i) else Some [] }) [0x10..<0x2000])"

definition shown_tables :: "mpeg_psi_t \<Rightarrow> atsc_state \<Rightarrow> u16 \<Rightarrow> rcall list option list" where
  "shown_tables psi atsc tables = (let s = psi_stats psi; on = (\<lambda>bit. and tables bit \<noteq> 0) in [
     dump_when (pat_sections s \<noteq> 0 \<and> on PAT_SHOW) (seqs (map (Some \<circ> dump_pat) (psi_pat_list psi))),
     dump_when (0 < psi_ca_num psi \<and> on CAT_SHOW) (seqs (map dump_cat (psi_cat_list psi))),
     dump_when (tsdt_sections s \<noteq> 0 \<and> on TSDT_SHOW) (dump_tsdt (psi_tsdt psi)),
     dump_when (on PMT_SHOW) (pmt_dumps psi),
     dump_when (sdt_actual_sections s \<noteq> 0 \<and> on SDT_SHOW) (dump_sdt (psi_sdt_actual psi)),
     dump_when (sdt_other_sections s \<noteq> 0 \<and> on SDT_SHOW) (dump_sdt (psi_sdt_other psi)),
     dump_when (nit_actual_sections s \<noteq> 0 \<and> on NIT_SHOW) (dump_nit (psi_nit_actual psi)),
     dump_when (nit_other_sections s \<noteq> 0 \<and> on NIT_SHOW) (dump_nit (psi_nit_other psi)),
     dump_when (bat_sections s \<noteq> 0 \<and> on BAT_SHOW) (dump_bat (psi_bat psi)),
     dump_when (tdt_sections s \<noteq> 0 \<and> on TDT_SHOW) (dump_tdt (psi_tdt psi)),
     dump_when (tot_sections s \<noteq> 0 \<and> on TDT_SHOW) (dump_tot (psi_tot psi)),
     dump_when (eit_actual_sections s \<noteq> 0 \<and> on EIT_SHOW) (dump_eit (psi_eit_actual psi)),
     dump_when (eit_other_sections s \<noteq> 0 \<and> on EIT_SHOW) (dump_eit (psi_eit_other psi)),
     dump_when (psip_seen atsc \<and> on PSIP_SHOW) (dump_atsc_tables atsc)])"

definition dump_tables :: "mpeg_psi_t \<Rightarrow> atsc_state \<Rightarrow> config \<Rightarrow> (rcall list \<times> config) option" where
  "dump_tables psi atsc c =
     (let c = convert_pids_to_tables c in
      if \<not> co_brief c then Some ([], c)
      else let c = (if co_tables c = 0 then c\<lparr>co_tables := all_tables\<rparr> else c) in
        map_option (\<lambda>cs. (cs, c)) (seqs (shown_tables psi atsc (co_tables c))))"

section \<open>The dumps of the tables make JSON\<close>

definition keyedr :: "rcall list option \<Rightarrow> bool" where
  "keyedr r \<longleftrightarrow> (case r of None \<Rightarrow> True | Some cs \<Rightarrow> list_all keyed cs)"

definition okr :: "rcall list option \<Rightarrow> bool" where
  "okr r \<longleftrightarrow> (case r of None \<Rightarrow> True | Some cs \<Rightarrow> dump_ok cs)"

lemma keyedr_simps [simp]: "keyedr None" "keyedr (Some cs) \<longleftrightarrow> list_all keyed cs"
  by (simp_all add: keyedr_def)

lemma okr_simps [simp]: "okr None" "okr (Some cs) \<longleftrightarrow> dump_ok cs"
  by (simp_all add: okr_def)

lemma keyed_simps [simp]: "keyed (kv lv k v) \<longleftrightarrow> lv \<le> 14" "keyed (opened lv k) \<longleftrightarrow> lv \<le> 14" "keyed (dec_of lv f nm) \<longleftrightarrow> lv \<le> 14"
  "keyed (hex_of lv f nm) \<longleftrightarrow> lv \<le> 14" "keyed (Hexd lv t b) \<longleftrightarrow> lv \<le> 14"
  by (simp_all add: keyed_def kv_def opened_def dec_of_def hex_of_def)

lemma keyedr_bind: "(\<And>x. keyedr (f x)) \<Longrightarrow> keyedr (r \<bind> f)"
  by (cases r) auto

lemma keyedr_bind_keyed: "\<lbrakk>keyedr r; \<And>cs. list_all keyed cs \<Longrightarrow> keyedr (f cs)\<rbrakk> \<Longrightarrow> keyedr (r \<bind> f)"
  by (cases r) auto

lemma keyedr_seqs: "(\<And>x. x \<in> set xs \<Longrightarrow> keyedr x) \<Longrightarrow> keyedr (seqs xs)"
proof (induction xs)
  case (Cons x xs)
  then have "keyedr x" "keyedr (seqs xs)" by simp_all
  then show ?case by (cases x; cases "seqs xs") simp_all
qed simp

lemma okr_seqs: "(\<And>x. x \<in> set xs \<Longrightarrow> okr x) \<Longrightarrow> okr (seqs xs)"
proof (induction xs)
  case (Cons x xs)
  then have "okr x" "okr (seqs xs)" by simp_all
  then show ?case by (cases x; cases "seqs xs") (simp_all add: dump_ok_append)
qed (simp add: ok_end)

lemma okr_keyed: "keyedr r \<Longrightarrow> okr r"
  by (cases r) (simp_all add: list_all_iff dump_ok_keyed)

lemma keyedr_descriptors: "lv \<le> 13 \<Longrightarrow> keyedr (dump_descriptors lv ds)"
  using dump_descriptors_keyed [of lv ds] by (cases "dump_descriptors lv ds") (auto simp: list_all_iff)

lemma keyedr_nonempty: "lv \<le> 13 \<Longrightarrow> keyedr (dump_nonempty lv ds)"
  by (simp add: dump_nonempty_def keyedr_descriptors)

lemma keyed_section_header [simp]: "list_all keyed (dump_section_header nm h)"
  by (simp add: dump_section_header_def)

lemmas keyedr_steps = keyedr_bind_keyed [OF keyedr_descriptors] keyedr_bind_keyed [OF keyedr_nonempty] keyedr_bind_keyed [OF keyedr_seqs]
  keyedr_bind [where r = "convert_UTC t n" for t n] keyedr_bind [where r = "cells n a" for n a]

lemmas table_dumps = dump_cat_def dump_tsdt_def dump_es_def dump_pmt_def dump_tdt_def dump_tot_def dump_service_def dump_sdt_def
  dump_stream_def dump_nit_def dump_eit_def dump_mgt_def dump_vct_def dump_rrt_def dump_ett_def dump_atsc_eit_def dump_stt_def
  dump_dcct_def dump_dccsct_def

lemma table_dumps_keyed:
  "keyedr (dump_cat c)" "keyedr (dump_tsdt t)" "keyedr (dump_pmt p pid)" "keyedr (dump_tdt td)" "keyedr (dump_tot tt)" "keyedr (dump_sdt sd)"
  "keyedr (dump_nit n)" "keyedr (dump_eit ev)" "keyedr (dump_mgt mg)" "keyedr (dump_vct nm vc)" "keyedr (dump_rrt rr)" "keyedr (dump_ett et)"
  "keyedr (dump_atsc_eit ae)" "keyedr (dump_stt st)" "keyedr (dump_dcct dc)" "keyedr (dump_dccsct ds)"
  by (auto simp: table_dumps Let_def intro!: keyedr_steps)

lemma dump_pat_ok: "dump_ok (dump_pat p)"
proof -
  have "dump_ok (opened 1 ''program_number @ PMT_PID'' # map (\<lambda>v. Put 1 None (Some v)) vs)" for vs
    unfolding opened_def by (rule dump_ok_elements) simp_all
  note this [of "map (\<lambda>n. pad_left 14 CHR '' '' (dn (pn_program_number n)) @ '' @ '' @ xn (pn_program_map_PID n) @
       '' ('' @ dn (pn_program_map_PID n) @ '')'') (pat_h p)", unfolded map_map comp_def]
  then show ?thesis
    unfolding dump_pat_def by (rule dump_ok_append [rotated]) (simp add: dump_ok_keyed keyed_section_header [unfolded list_all_iff])
qed

lemma all_some_SomeD: "all_some xs = Some ys \<Longrightarrow> y \<in> set ys \<Longrightarrow> Some y \<in> set xs"
  by (induction xs arbitrary: ys) (auto simp: Option.bind_eq_Some_conv)

lemma bat_item_keyed:
  assumes "bat_item n = Some (v, bs)" "c \<in> set bs"
  shows "keyed c \<and> 2 < call_lv c"
proof -
  from assms(1) obtain ds where ds: "(if tn_transport_descriptors_length n \<noteq> 0 then dump_descriptors 4 (tn_list n) else Some []) = Some ds"
    "bs = kv 3 ''original_network_id'' (hex_nat (unat (tn_original_network_id n)) @ '' '') # ds"
    by (auto simp: bat_item_def Option.bind_eq_Some_conv)
  have "\<forall>c \<in> set ds. keyed c \<and> 4 \<le> call_lv c"
    using ds(1) dump_descriptors_keyed [of 4 "tn_list n" ds] by (auto split: if_splits)
  with assms(2) ds(2) show ?thesis by (auto simp: kv_def keyed_def)
qed

lemma dump_bat_ok: "okr (dump_bat t)"
proof (cases "dump_bat t")
  case (Some cs)
  then obtain ds items where d: "dump_descriptors 2 (bat_list t) = Some ds"
    and it: "(if bat_transport_stream_loop_length t \<noteq> 0 then all_some (map bat_item (bat_h t)) else Some []) = Some items"
    and cs: "cs = [opened 0 ''BAT'', kv 1 ''section_length'' (dn (th_section_length (bat_header t))), kv 1 ''bouquet_id'' (xn (bat_bouquet_id t)),
       kv 1 ''version_number'' ('' '' @ dn (th_version (bat_header t))), kv 1 ''Current next'' ('' '' @ yes_no (th_current_next (bat_header t))),
       kv 1 ''bouquet descriptor length'' ('' '' @ dn (bat_bouquet_descriptors_length t))] @ ds @
       (if bat_transport_stream_loop_length t \<noteq> 0
        then opened 1 ''transport_streams'' # concat (map (\<lambda>(v, bs). Put 2 None (Some v) # bs) items) else [])"
    unfolding dump_bat_def by (auto simp: Option.bind_eq_Some_conv Let_def)
  have k: "\<forall>c \<in> set ds. keyed c" using dump_descriptors_keyed [OF d] by auto
  have "\<forall>(v, bs) \<in> set items. \<forall>c \<in> set bs. keyed c \<and> 2 < call_lv c"
    using it bat_item_keyed [OF sym] by (auto split: if_splits dest!: all_some_SomeD)
  from ok_array [OF _ _ this ok_end, of 1 "''transport_streams''"]
  have "dump_ok (opened 1 ''transport_streams'' # concat (map (\<lambda>(v, bs). Put 2 None (Some v) # bs) items))"
    by (simp add: opened_def)
  then have "dump_ok cs" unfolding cs using k by (intro dump_ok_append) (simp_all add: ok_key ok_end dump_ok_keyed)
  with Some show ?thesis by simp
qed simp

lemma okr_when: "okr r \<Longrightarrow> okr (dump_when b r)"
  by (simp add: dump_when_def ok_end)

lemmas table_dumps_okr = table_dumps_keyed [THEN okr_keyed]

lemma dump_atsc_ok: "okr (dump_atsc_tables st)"
  unfolding dump_atsc_tables_def Let_def
  by (rule okr_seqs) (auto intro!: okr_when table_dumps_okr)

lemma keyedr_map: "(\<And>i. keyedr (f i)) \<Longrightarrow> keyedr (seqs (map f xs))"
  by (rule keyedr_seqs) auto

lemma pmt_dumps_ok: "okr (pmt_dumps psi)"
  unfolding pmt_dumps_def by (intro okr_keyed keyedr_map keyedr_bind) (simp add: table_dumps_keyed)

lemma shown_tables_ok: "list_all okr (shown_tables psi atsc tables)"
proof -
  have "okr (seqs (map (Some \<circ> dump_pat) ps))" for ps by (rule okr_seqs) (auto simp: dump_pat_ok)
  moreover have "okr (seqs (map dump_cat xs))" for xs by (rule okr_seqs) (auto intro: table_dumps_okr)
  ultimately show ?thesis
    unfolding shown_tables_def Let_def list.pred_inject
    by (intro conjI okr_when table_dumps_okr dump_atsc_ok pmt_dumps_ok dump_bat_ok list.pred_inject(1) TrueI)
qed

lemma dump_tables_ok: "dump_tables psi atsc c = Some (cs, c') \<Longrightarrow> dump_ok cs"
proof -
  have "okr (seqs (shown_tables psi atsc t))" for t
    using shown_tables_ok [of psi atsc t] by (intro okr_seqs) (simp add: list_all_iff)
  then have "seqs (shown_tables psi atsc t) = Some cs \<Longrightarrow> dump_ok cs" for t cs
    by (metis okr_simps(2))
  then show "dump_tables psi atsc c = Some (cs, c') \<Longrightarrow> dump_ok cs"
    by (auto simp: dump_tables_def Let_def ok_end split: if_splits)
qed

end
