(* ===== verification/Dump_Streams.thy ===== *)
theory Dump_Streams
  imports Dump_Tables Subtitle Ts
begin

text \<open>
  The dump functions of the streams: SCTE-35 (\<^verbatim>\<open>src/scte.c\<close>), PES with teletext and
  subtitles (\<^verbatim>\<open>src/pes.c\<close>, \<^verbatim>\<open>src/teletext.c\<close>, \<^verbatim>\<open>src/subtitle.c\<close>) and the statistics
  of the PIDs (\<^verbatim>\<open>src/ts.c\<close>).
\<close>

section \<open>SCTE-35\<close>

definition splice_tag_names :: "string list" where
  "splice_tag_names = [''avail'', ''DTMF'', ''segmentation'', ''time'', ''audio'']"

definition dump_splice_descriptor :: "nat \<Rightarrow> splice_descriptor \<Rightarrow> rcall list option" where
  "dump_splice_descriptor lv d =
     (if unat (sd_tag d) < 5 then do {
        let hd = kv lv (splice_tag_names ! unat (sd_tag d)) (xn (sd_tag d) @ '' len '' @ dn (sd_length d));
        if sd_tag d = 0 then do {
          pid \<leftarrow> TS_READ32 (sd_data d);
          Some [hd, kv (lv + 1) ''provider_avail_id'' (xn pid)] }
        else if sd_tag d = 1 then do {
          preroll \<leftarrow> TS_READ8 (sd_data d);
          b \<leftarrow> rdb (sd_data d) 1;
          t \<leftarrow> (if 0 \<in> set (drop 2 (sd_data d)) then Some (c_str (text_of (drop 2 (sd_data d)))) else None);
          Some [hd, kv (lv + 1) ''preroll'' (dn preroll), kv (lv + 1) ''dtmf_count'' (dn (and (drop_bit 5 b) 0x11)),
            kv (lv + 1) ''DTMF_char'' t] }
        else Some [hd] }
      else Some [])"

definition dump_splice_descriptors :: "nat \<Rightarrow> splice_descriptor list \<Rightarrow> rcall list option" where
  "dump_splice_descriptors lv ds = seqs (map (dump_splice_descriptor lv) ds)"

text \<open>A number of 33 bits, in two fields.\<close>

definition wide :: "u8 \<Rightarrow> u32 \<Rightarrow> string" where
  "wide h l = dec_nat (unat h * 2 ^ 32 + unat l)"

definition dump_schedule_event :: "splice_event \<Rightarrow> rcall list option" where
  "dump_schedule_event v = do {
     cs \<leftarrow> (if splice_event_cancel_indicator v = 0 then do {
        comps \<leftarrow> (if program_splice_flag v = 0 then cells (unat (component_count v)) (components v) else Some []);
        Some ([kv 3 ''out_of_network_indicator'' (dn (out_of_network_indicator v)), kv 3 ''program_splice_flag'' (dn (program_splice_flag v)),
            kv 3 ''duration_flag'' (dn (duration_flag v))] @
          (if program_splice_flag v = 1 then [kv 3 ''utc_splice_time'' (dn (utc_splice_time v))] else []) @
          (if program_splice_flag v = 0 then kv 3 ''component_count'' (dn (component_count v)) #
             concat (map (\<lambda>c. kv 3 ''component_tag'' (xn (component_tag c)) #
               (if splice_immediate_flag v = 0 then [kv 3 ''utc_splice_time'' (dn (ec_utc_splice_time c))] else [])) comps) else []) @
          (if duration_flag v = 1 then [kv 3 ''duration'' (wide (duration_h (splice_event.duration v)) (bd_duration (splice_event.duration v)))] else []) @
          [kv 3 ''unique_program_id'' (dn (unique_program_id v)), kv 3 ''avail_num'' (dn (avail_num v)),
           kv 3 ''avails_expected'' (dn (avails_expected v))]) }
      else Some []);
     Some ([kv 3 ''splice_event_id'' (i32 (unat (splice_event_id v))),
       kv 3 ''splice_event_cancel_indicator'' (dn (splice_event_cancel_indicator v))] @ cs) }"

definition dump_insert_event :: "splice_event \<Rightarrow> rcall list option" where
  "dump_insert_event v = do {
     cs \<leftarrow> (if splice_event_cancel_indicator v = 0 then do {
        comps \<leftarrow> (if program_splice_flag v = 0 then cells (unat (component_count v)) (components v) else Some []);
        Some ([kv 3 ''out_of_network_indicator'' (dn (out_of_network_indicator v)), kv 3 ''program_splice_flag'' (dn (program_splice_flag v)),
            kv 3 ''duration_flag'' (dn (duration_flag v)), kv 3 ''splice_immediate_flag'' (dn (splice_immediate_flag v))] @
          (if program_splice_flag v \<noteq> 0 \<and> splice_immediate_flag v = 0
           then [kv 3 ''pts_time'' (wide (pts_time_h (evt_time v)) (pts_time (evt_time v)))] else []) @
          (if program_splice_flag v = 0 then kv 3 ''component_count'' (dn (component_count v)) #
             concat (map (\<lambda>c. kv 3 ''component_tag'' (xn (component_tag c)) #
               (if splice_immediate_flag v = 0 then [kv 3 ''pts_time'' (wide (pts_time_h (ec_time c)) (pts_time (ec_time c)))] else [])) comps) else []) @
          (if duration_flag v = 1 then [kv 3 ''duration'' (wide (duration_h (splice_event.duration v)) (bd_duration (splice_event.duration v)))] else []) @
          [kv 3 ''unique_program_id'' (dn (unique_program_id v)), kv 3 ''avail_num'' (dn (avail_num v)),
           kv 3 ''avails_expected'' (dn (avails_expected v))]) }
      else Some []);
     Some ([kv 3 ''splice_event_id'' (xn (splice_event_id v)),
       kv 3 ''splice_event_cancel_indicator'' (dn (splice_event_cancel_indicator v))] @ cs) }"

definition dump_command :: "u32 \<Rightarrow> command \<Rightarrow> rcall list option" where
  "dump_command ty c =
     (if ty = 4 then (case c of
        Cmd_schedule s \<Rightarrow> do {
          vs \<leftarrow> cells (unat (splice_count s)) (splices s);
          cs \<leftarrow> seqs (map dump_schedule_event vs);
          Some (kv 3 ''splice_count'' (dn (splice_count s)) # cs) }
      | _ \<Rightarrow> None)
      else if ty = 5 then (case c of Cmd_event v \<Rightarrow> dump_insert_event v | _ \<Rightarrow> None)
      else if ty = 6 then (case c of Cmd_time t \<Rightarrow> Some [kv 3 ''pts_time'' (wide (pts_time_h t) (pts_time t))] | _ \<Rightarrow> None)
      else Some [])"

definition dump_splice :: "scte_t \<Rightarrow> rcall list option" where
  "dump_splice s = do {
     cs \<leftarrow> dump_command (sc_splice_command_type s) (sc_command s);
     ds \<leftarrow> (if sc_list s \<noteq> [] then dump_splice_descriptors 2 (sc_list s) else Some []);
     Some ([kv 1 ''PID'' (dn (sc_pid s)), kv 2 ''sap_type'' (dn (sc_sap_type s)), kv 2 ''protocol_version'' (dn (sc_protocol_version s)),
       kv 2 ''encrypted_packet'' (dn (sc_encrypted_packet s)), kv 2 ''encryption_algorithm'' (dn (sc_encryption_algorithm s)),
       kv 2 ''cw_index'' (dn (sc_cw_index s)), kv 2 ''tier'' (dn (sc_tier s)), kv 2 ''splice_command_type'' (dn (sc_splice_command_type s)),
       kv 2 ''splice_command_length'' (dn (sc_splice_command_length s))] @ cs @ ds) }"

definition dump_scte_info :: "config \<Rightarrow> mpegts_scte_t \<Rightarrow> rcall list option" where
  "dump_scte_info c scte =
     (if \<not> co_detail c \<or> scte_pid_num scte = 0 then Some []
      else do {
        ss \<leftarrow> cells (scte_pid_num scte) (Some (scte_list scte));
        cs \<leftarrow> seqs (map dump_splice ss);
        Some (opened 0 ''SCTE'' # cs) })"

section \<open>Teletext\<close>

definition dump_data_unit :: "data_unit \<Rightarrow> rcall list" where
  "dump_data_unit u =
     [kv 3 ''data_unit_id'' (xn (du_data_unit_id u)), kv 3 ''data_unit_length'' (dn (du_data_unit_length u)),
      kv 3 ''field_parity'' (dn (du_field_parity u)),
      kv 3 ''line_offset'' (dn (du_line_offset u) @ ''->'' @
        (if 6 < du_line_offset u \<and> du_line_offset u < 0x17
         then if du_field_parity u \<noteq> 0 then dn (du_line_offset u) else dec_nat (unat (du_line_offset u) + 313)
         else ''-1'')),
      kv 3 ''field_parity'' (dn (du_field_parity u)), kv 3 ''framing_code'' (dn (du_framing_code u)),
      kv 3 ''magazine_and_packet_address'' (xn (du_magazine_and_packet_address u)), Hexd 3 ''data_block'' (du_data_block u)]"

definition dump_teletext :: "teletext_pes_data \<Rightarrow> rcall list option" where
  "dump_teletext t = do {
     us \<leftarrow> cells (nat (tt_n_units t)) (tt_units t);
     Some (kv 2 ''data_identifier'' (xn (tt_data_identifier t)) # concat (map dump_data_unit us)) }"

definition dump_teletext_page_oneline :: "teletext_store \<Rightarrow> int \<Rightarrow> int \<Rightarrow> int \<Rightarrow> rcall" where
  "dump_teletext_page_oneline g X P Y =
     kv 1 (snprintf 8 (''X/'' @ dec_int Y)) (c_str (map (\<lambda>i. char_of (unat (and (g_text g X P Y i) 0x7F))) (map int [0..<40])))"

definition dump_teletext_pages :: "teletext_store \<Rightarrow> int \<Rightarrow> int \<Rightarrow> rcall list" where
  "dump_teletext_pages g X P = opened 0 (snprintf 32 (''Page '' @ dec_int P)) # map (dump_teletext_page_oneline g X P) (map int [1..<26])"

section \<open>Subtitles\<close>

definition subtitle_get_type :: "u8 \<Rightarrow> string option" where
  "subtitle_get_type ty =
     (if ty = page_composition_segment then Some ''page_composition_segment''
      else if ty = region_composition_segment then Some ''region_composition_segment''
      else if ty = CLUT_definition_segment then Some ''CLUT_definition_segment''
      else if ty = object_data_segment then Some ''object_data_segment''
      else if ty = display_definition_segment then Some ''display_definition_segment''
      else if ty = disparity_signalling_segment then Some ''disparity_signalling_segment''
      else if ty = alternative_CLUT_segment then Some ''alternative_CLUT_segment''
      else if ty = end_of_display_set_segment then Some ''end_of_display_set_segment''
      else None)"

definition dump_clut :: "CLUT_definition \<Rightarrow> rcall list option" where
  "dump_clut c = do {
     xs \<leftarrow> cells (cds_n_cluts c) (Some (cds_cluts c));
     Some ([kv 4 ''CLUT_id'' (dn (cds_CLUT_id c)), kv 4 ''CLUT_version_number'' (dn (cds_CLUT_version_number c))] @
       concat (map (\<lambda>x. [kv 5 ''entry_id'' (dn (cl_entry_id x))] @
         (if cl_2bit_flag x \<noteq> 0 then [kv 5 ''clut_bit_depth'' ''2''] else []) @
         (if cl_4bit_flag x \<noteq> 0 then [kv 5 ''clut_bit_depth'' ''4''] else []) @
         (if cl_8bit_flag x \<noteq> 0 then [kv 5 ''clut_bit_depth'' ''8''] else []) @
         [kv 5 ''color'' (''(Y '' @ dn (cl_Y x) @ '' Cr '' @ dn (cl_Cr x) @ '' Cb '' @ dn (cl_Cb x) @ '' T '' @ dn (cl_T x) @ '')'')]) xs)) }"

definition dump_region :: "region_composition \<Rightarrow> rcall list option" where
  "dump_region r = do {
     xs \<leftarrow> cells (rcs_n_objs r) (Some (rcs_object r));
     Some ([kv 4 ''region_id'' (dn (rcs_region_id r)), kv 4 ''region_version_number'' (dn (rcs_region_version_number r)),
       kv 4 ''region_fill_flag'' (dn (rcs_region_fill_flag r)), kv 4 ''region_width'' (dn (rcs_region_width r)),
       kv 4 ''region_height'' (dn (rcs_region_height r)), kv 4 ''region_level_of_compatibility'' (dn (rcs_level_of_compatibility r)),
       kv 4 ''region_depth'' (dn (rcs_region_depth r)), kv 4 ''CLUT_id'' (dn (rcs_CLUT_id r)),
       kv 4 ''region_8bit_pixel_code'' (xn (rcs_8bit_pixel_code r)), kv 4 ''region_4bit_pixel_code'' (xn (rcs_4bit_pixel_code r)),
       kv 4 ''region_2bit_pixel_code'' (xn (rcs_2bit_pixel_code r)), kv 4 ''n_objs'' (dec_nat (rcs_n_objs r))] @
       concat (map (\<lambda>x. [kv 5 ''object_id'' (dn (ob_object_id x)), kv 5 ''object_type'' (dn (ob_object_type x)),
         kv 5 ''object_horizontal_position'' (dn (ob_horizontal_position x)), kv 5 ''object_vertical_position'' (dn (ob_vertical_position x)),
         kv 5 ''foreground_pixel_code'' (dn (ob_foreground_pixel_code x)), kv 5 ''background_pixel_code'' (dn (ob_background_pixel_code x))]) xs)) }"

definition dump_object :: "object_segment \<Rightarrow> rcall list option" where
  "dump_object o_seg = do {
     cs \<leftarrow> (if ods_object_coding_method o_seg = 0 then (case ods_data o_seg of
              Fields t b \<Rightarrow> Some [kv 5 ''top_field_data_block_length'' (dn (fd_block_length t)),
                kv 5 ''bottom_field_data_block_length'' (dn (fd_block_length b)),
                kv 5 ''num_top'' (dec_nat (fd_num t)), kv 5 ''num_bottom'' (dec_nat (fd_num b))]
            | _ \<Rightarrow> None)
          else if ods_object_coding_method o_seg = 1 then (case ods_data o_seg of
              Codes n xs \<Rightarrow> do {
                ys \<leftarrow> cells (unat n) (Some xs);
                Some (kv 5 ''number_of_codes'' (dn n) # map (\<lambda>x. kv 6 ''code'' (xn x)) ys) }
            | _ \<Rightarrow> None)
          else if ods_object_coding_method o_seg = 2 then (case ods_data o_seg of
              Progressive p \<Rightarrow> Some [kv 5 ''bitmap_width'' (dn (pp_bitmap_width p)), kv 5 ''bitmap_height'' (dn (pp_bitmap_height p)),
                kv 5 ''compressed_data_block_length'' (dn (pp_compressed_data_block_length p))]
            | _ \<Rightarrow> None)
          else Some []);
     Some ([kv 4 ''object_id'' (dn (ods_object_id o_seg)), kv 4 ''object_version_number'' (dn (ods_object_version_number o_seg)),
       kv 4 ''object_coding_method'' (dn (ods_object_coding_method o_seg)),
       kv 4 ''non_modifying_colour_flag'' (dn (ods_non_modifying_colour_flag o_seg))] @ cs) }"

definition dump_page :: "page_composition \<Rightarrow> rcall list option" where
  "dump_page p = do {
     xs \<leftarrow> cells (pcs_n_region p) (Some (pcs_region p));
     Some ([kv 4 ''page_time_out'' (dn (pcs_page_time_out p)), kv 4 ''page_version_number'' (dn (pcs_page_version_number p)),
       kv 4 ''page_state'' (dn (pcs_page_state p)), kv 4 ''n_region'' (dec_nat (pcs_n_region p))] @
       concat (map (\<lambda>x. [kv 5 ''region_id'' (dn (rg_region_id x)), kv 5 ''region_horizontal_address'' (dn (rg_horizontal_address x)),
         kv 5 ''region_vertical_address'' (dn (rg_vertical_address x))]) xs)) }"

definition dump_segment :: "Subtitle.segment_node \<Rightarrow> rcall list option" where
  "dump_segment n = (let h = sn_header n; ty = sh_segment_type h in do {
     nm \<leftarrow> subtitle_get_type ty;
     cs \<leftarrow> (if ty = CLUT_definition_segment then (case sn_data n of Clut c \<Rightarrow> dump_clut c | _ \<Rightarrow> None)
       else if ty = region_composition_segment then (case sn_data n of Region r \<Rightarrow> dump_region r | _ \<Rightarrow> None)
       else if ty = object_data_segment then (case sn_data n of Object x \<Rightarrow> dump_object x | _ \<Rightarrow> None)
       else if ty = page_composition_segment then (case sn_data n of Page p \<Rightarrow> dump_page p | _ \<Rightarrow> None)
       else Some []);
     Some ([kv 3 ''segment_type'' nm, kv 3 ''page_id'' (dn (sh_page_id h)), kv 3 ''segment_length'' (dn (sh_segment_length h))] @ cs) })"

definition dump_subtitles :: "subtitle_pes_data \<Rightarrow> rcall list option" where
  "dump_subtitles s = do {
     cs \<leftarrow> seqs (map dump_segment (seg_list s));
     Some (opened 2 ''subtitle'' # cs) }"

section \<open>PES\<close>

definition dump_pes_private :: "subtitle_pes_data pes_t \<Rightarrow> rcall list option" where
  "dump_pes_private pt = (case pe_priv pt of
     None \<Rightarrow> Some []
   | Some p \<Rightarrow>
       if pe_tag pt = 0x59 then (case p of Priv_subtitle s \<Rightarrow> dump_subtitles s | _ \<Rightarrow> None)
       else if pe_tag pt = 0x56 then (case p of Priv_teletext t \<Rightarrow> dump_teletext t | _ \<Rightarrow> None)
       else Some [])"

definition dump_pes :: "subtitle_pes_data pes_t \<Rightarrow> rcall list option" where
  "dump_pes pt = do {
     cs \<leftarrow> dump_pes_private pt;
     Some ([kv 1 ''PID'' (xn (pe_pid pt) @ ''('' @ dn (pe_pid pt) @ '')''), kv 2 ''stream_type'' (get_stream_type (pe_type pt)),
       kv 2 ''stream_id'' (xn (stream_id pt))] @ cs) }"

definition dump_pes_infos :: "config \<Rightarrow> subtitle_pes_data mpegts_pes_t \<Rightarrow> rcall list option" where
  "dump_pes_infos c pes =
     (if \<not> co_detail c then Some []
      else do {
        ps \<leftarrow> (if pes_freed pes then None else cells (pes_pid_num pes) (Some (pes_list pes)));
        cs \<leftarrow> seqs (map dump_pes ps);
        Some ((if 0 < pes_pid_num pes then [opened 0 ''PES''] else []) @ cs) })"

section \<open>Statistics\<close>


definition ts_info_line :: "nat \<Rightarrow> pid_ops \<Rightarrow> string" where
  "ts_info_line pid p =
     pad_left 4 CHR ''0'' (dec_nat pid) @ ''(0x'' @ pad_left 4 CHR ''0'' (hex_nat pid) @ '')   :  '' @
     pad_left 10 CHR '' '' (dn (pkts_in p)) @ pad_left 10 CHR '' '' (dn (error_in p)) @ pad_left 10 CHR '' '' (dn (sections_in p)) @
     pad_left 13 CHR '' '' (dn (pd_bitrate p div 1000))"

definition dump_ts_info :: "config \<Rightarrow> (u16 \<Rightarrow> pid_ops) \<Rightarrow> rcall list" where
  "dump_ts_info c pid_dev =
     (if \<not> co_stats c then []
      else opened 0 ''TS bits statistics'' # map (\<lambda>v. Put 1 None (Some v))
        ((pad_left 7 CHR '' '' ''PID'' @ pad_left 21 CHR '' '' ''In'' @ pad_left 11 CHR '' '' ''Err'' @ pad_left 11 CHR '' '' ''Sections'' @
          pad_left 13 CHR '' '' ''Rate(kbps)'') #
         map (\<lambda>pid. ts_info_line pid (pid_dev (of_nat pid))) (filter (\<lambda>pid. pkts_in (pid_dev (of_nat pid)) \<noteq> 0) [0..<unat NULL_PID + 1])))"

section \<open>The dumps of the streams make JSON\<close>

lemmas stream_steps = keyedr_bind_keyed [OF keyedr_seqs] keyedr_bind [where r = "cells n a" for n a]
  keyedr_bind [where r = "TS_READ32 p" for p] keyedr_bind [where r = "TS_READ8 p" for p] keyedr_bind [where r = "rdb p n" for p n]
  keyedr_bind [where r = "subtitle_get_type ty" for ty]

lemma dump_splice_descriptor_keyed: "keyedr (dump_splice_descriptor 2 d)"
  by (auto simp: dump_splice_descriptor_def Let_def intro!: stream_steps)

lemma dump_event_keyed: "keyedr (dump_schedule_event v)" "keyedr (dump_insert_event v)"
proof -
  have comps: "list_all keyed (concat (map (\<lambda>c. kv 3 k (f c) # (if b then [kv 3 l (g c)] else [])) xs))"
    for k l and f g :: "event_component \<Rightarrow> string" and b xs
    by (intro list_all_concat_map) simp
  show "keyedr (dump_schedule_event v)"
    unfolding dump_schedule_event_def by (rule keyedr_bind_keyed) (simp_all add: comps keyedr_bind)
  show "keyedr (dump_insert_event v)"
    unfolding dump_insert_event_def by (rule keyedr_bind_keyed) (simp_all add: comps keyedr_bind)
qed

lemma dump_splice_keyed: "keyedr (dump_splice s)"
proof -
  have "keyedr (dump_command ty c)" for ty c
    unfolding dump_command_def
    by (auto split: command.splits intro!: stream_steps dump_event_keyed)
  moreover have "keyedr (dump_splice_descriptors 2 ds)" for ds
    unfolding dump_splice_descriptors_def by (rule keyedr_map) (rule dump_splice_descriptor_keyed)
  ultimately show ?thesis unfolding dump_splice_def
    by (auto intro!: keyedr_bind_keyed)
qed

lemma dump_scte_info_ok: "okr (dump_scte_info c scte)"
  unfolding dump_scte_info_def by (rule okr_keyed) (auto intro!: stream_steps dump_splice_keyed)

lemma dump_subtitles_keyed: "keyedr (dump_subtitles s)"
proof -
  have "keyedr (dump_clut c)" "keyedr (dump_region r)" "keyedr (dump_object b)" "keyedr (dump_page p)" for c r b p
    by (auto simp: dump_clut_def dump_region_def dump_object_def dump_page_def split: object_data.splits
        intro!: keyedr_bind_keyed stream_steps list_all_concat_map simp: list_all_iff)
  then have "keyedr (dump_segment n)" for n
    by (auto simp: dump_segment_def Let_def split: segment_data.splits intro!: stream_steps keyedr_bind_keyed)
  then show ?thesis unfolding dump_subtitles_def by (auto intro!: stream_steps)
qed

lemma dump_teletext_keyed: "keyedr (dump_teletext t)"
  by (auto simp: dump_teletext_def dump_data_unit_def intro!: stream_steps list_all_concat_map)

lemma dump_pes_infos_ok: "okr (dump_pes_infos c pes)"
proof -
  have "keyedr (dump_pes_private pt)" for pt
    by (auto simp: dump_pes_private_def dump_subtitles_keyed dump_teletext_keyed split: option.splits priv.splits)
  then have "keyedr (dump_pes pt)" for pt
    unfolding dump_pes_def by (rule keyedr_bind_keyed) simp
  then have "keyedr (dump_pes_infos c pes)"
    unfolding dump_pes_infos_def by (auto intro!: keyedr_bind [where r = "if b then None else r" for b r] keyedr_map stream_steps)
  then show ?thesis by (rule okr_keyed)
qed

lemma dump_ts_info_ok: "dump_ok (dump_ts_info c pid_dev)"
proof (cases "co_stats c")
  case True
  then show ?thesis
    by (simp only: dump_ts_info_def opened_def not_True_eq_False if_False) (rule dump_ok_elements, simp_all)
qed (simp add: dump_ts_info_def ok_end)

end
