(* ===== verification/Udp_Input.thy ===== *)
theory Udp_Input
  imports Ts_Process Options
begin

text \<open>
  The UDP input (\<^verbatim>\<open>src/udp.c\<close>).  The network is a parameter: whether a socket can be had, what
  \<open>inet_pton\<close> makes of an address, and the datagrams that \<open>recv\<close> returns, one after the other.
\<close>

section \<open>URLs\<close>

record url =
  ur_addr :: u32
  ur_port :: u16

text \<open>\<open>atoi\<close> of the C library: \<open>strtol\<close> in base 10, as \<open>int\<close>.\<close>

definition atoi :: "string \<Rightarrow> int" where
  "atoi s = sint (word_of_int (fst (strtol 10 s)) :: 32 word)"

text \<open>
  The part behind the protocol starts three characters later; in a shorter string that is behind its
  end.  A failing \<open>inet_pton\<close> leaves the address as it was.
\<close>

definition parse_url :: "(string \<Rightarrow> u32 option) \<Rightarrow> string \<Rightarrow> string \<Rightarrow> url \<Rightarrow> url option" where
  "parse_url inet_pton u protocl s =
     (if take (length protocl) u \<noteq> protocl then Some s
      else if length u < length protocl + 3 then None
      else let start = drop (length protocl + 3) u;
               host = takeWhile (\<lambda>c. c \<noteq> CHR '':'') start;
               s = s\<lparr>ur_port := (if CHR '':'' \<in> set start then word_of_int (atoi (tl (dropWhile (\<lambda>c. c \<noteq> CHR '':'') start))) else 9001)\<rparr>
           in Some (case inet_pton host of Some a \<Rightarrow> s\<lparr>ur_addr := a\<rparr> | None \<Rightarrow> s))"

text \<open>\<open>None\<close> in the second place is the null pointer.\<close>

definition parse_url_path :: "(string \<Rightarrow> u32 option) \<Rightarrow> string \<Rightarrow> url \<Rightarrow> url option option" where
  "parse_url_path inet_pton urlpath s =
     (if take 3 urlpath \<noteq> ''udp'' then Some None
      else map_option Some (parse_url inet_pton urlpath ''udp'' s))"

section \<open>The socket\<close>

text \<open>
  The input: the URL and how many datagrams have been read.  A null URL is followed; the results of
  \<open>bind\<close> and of the other calls on the socket are ignored.  The address of the URL is not used.
\<close>

record udp_io =
  ui_url :: url
  ui_read :: nat

definition udp_open :: "bool \<Rightarrow> (string \<Rightarrow> u32 option) \<Rightarrow> url \<Rightarrow> string \<Rightarrow> udp_io option option" where
  "udp_open socket inet_pton surl urlpath = (case parse_url_path inet_pton urlpath surl of
     None \<Rightarrow> None
   | Some None \<Rightarrow> None
   | Some (Some u) \<Rightarrow> Some (if socket then Some \<lparr>ui_url = u, ui_read = 0\<rparr> else None))"

text \<open>\<open>recv\<close> into an array of 2048 bytes; its result is stored in a \<open>size_t\<close>, also when it is -1.\<close>

definition recv_len :: "int \<Rightarrow> nat" where
  "recv_len ret = nat (ret mod 2 ^ 64)"

definition udp_read :: "(nat \<Rightarrow> bytes) \<Rightarrow> udp_io \<Rightarrow> int \<times> bytes \<times> udp_io" where
  "udp_read recv io = (0, take 2048 (recv (ui_read io)), io\<lparr>ui_read := Suc (ui_read io)\<rparr>)"

definition udp_close :: int where "udp_close = 0"

definition udp_end :: "udp_io \<Rightarrow> int" where "udp_end io = 1"

text \<open>The input for a URL that \<open>udp_open\<close> accepts, on a network without errors.\<close>

definition udp_ops :: "bool \<Rightarrow> (string \<Rightarrow> u32 option) \<Rightarrow> url \<Rightarrow> (nat \<Rightarrow> bytes) \<Rightarrow> udp_io io_ops" where
  "udp_ops socket inet_pton surl recv =
     \<lparr>io_open = (\<lambda>name. case udp_open socket inet_pton surl name of Some r \<Rightarrow> r | None \<Rightarrow> None), io_read = udp_read recv, io_end = udp_end\<rparr>"

section \<open>Properties\<close>

lemma recv_error_len: "recv_len (-1) = 2 ^ 64 - 1"
  by (simp add: recv_len_def)

lemma no_url_null: "take 3 name \<noteq> ''udp'' \<Longrightarrow> udp_open socket inet_pton surl name = None"
  by (simp add: udp_open_def parse_url_path_def)

text \<open>The loop never ends over UDP, since the end of the input never comes and no read fails.\<close>

lemma udp_loop_never_ends: "process_loop fuel (udp_ops socket inet_pton surl recv) proc k ptr con io s \<noteq> Some (Some r)"
  by (induction fuel arbitrary: ptr con io s)
     (auto simp: udp_ops_def udp_read_def udp_end_def split: option.splits prod.splits)

text \<open>
  C36. The UDP input.  With a URL that is accepted, \<open>ts_process\<close> returns only with -1 and the state
  unchanged: either the first datagram shows no packet size, or the loop over the datagrams never
  ends.  And it does return -1 whenever the first datagram has less than 2040 bytes, as a datagram of
  the usual seven packets has.
\<close>

theorem udp_input:
  assumes "udp_open socket inet_pton surl name = Some (Some io)"
  shows "(\<forall>fuel r s'. ts_process fuel (udp_ops socket inet_pton surl recv) name proc pc s = Some (Some (r, s')) \<longrightarrow> r = -1 \<and> s' = s) \<and>
    (length (recv 0) < 2040 \<longrightarrow> (\<forall>fuel. ts_process fuel (udp_ops socket inet_pton surl recv) name proc pc s = Some (Some (-1, s))))"
proof -
  let ?ops = "udp_ops socket inet_pton surl recv"
  have io: "io_open ?ops name = Some io" "ui_read io = 0"
    using assms by (auto simp: udp_ops_def udp_open_def split: option.splits if_splits)
  let ?io = "io\<lparr>ui_read := Suc 0\<rparr>" and ?b = "take 2048 (recv 0)"
  have rd: "io_read ?ops io = (0, ?b, ?io)" by (simp add: udp_ops_def udp_read_def io(2))
  have never: "map_option (map_option f) (process_loop fuel ?ops p k ptr con j s) \<noteq> Some (Some x)" for f fuel p k ptr con j s and x :: "int \<times> 'a"
    using udp_loop_never_ends [of fuel socket inet_pton surl recv p k ptr con j s]
    by (cases "process_loop fuel ?ops p k ptr con j s") (auto split: option.splits)
  have "\<forall>fuel r s'. ts_process fuel ?ops name proc pc s = Some (Some (r, s')) \<longrightarrow> r = -1 \<and> s' = s"
    unfolding ts_process_def io(1) option.case rd prod.case
    by (auto simp: Let_def never simp del: map_option_eq_Some split: option.splits prod.splits)
  moreover have "ts_process fuel ?ops name proc pc s = Some (Some (-1, s))" if "length (recv 0) < 2040" for fuel
  proof -
    have "length ?b div 204 < 10" using that by simp
    then have "mpegts_probe ?b (length ?b) = Some (-1)" by (simp add: mpegts_probe_def packet_sizes Let_def del: length_take)
    then show ?thesis unfolding ts_process_def io(1) option.case rd prod.case by (simp add: probe_pktlen_def)
  qed
  ultimately show ?thesis by blast
qed

theorem udp_input_witness:
  "ts_process 9 (udp_ops True (\<lambda>_. Some 1) \<lparr>ur_addr = 0, ur_port = 0\<rparr> (\<lambda>_. replicate 1316 0x47)) ''udp://10.0.0.1:1234''
     (\<lambda>_ c cs. Some (cs @ [c])) [] ([] :: bytes list) = Some (Some (-1, []))"
proof -
  have "drop 6 ''udp://10.0.0.1:1234'' = ''10.0.0.1:1234''" "take 3 ''udp://10.0.0.1:1234'' = ''udp''" by code_simp+
  then have "\<exists>io. udp_open True (\<lambda>_. Some 1) \<lparr>ur_addr = 0, ur_port = 0\<rparr> ''udp://10.0.0.1:1234'' = Some (Some io)"
    unfolding udp_open_def parse_url_path_def parse_url_def Let_def by simp
  then obtain io where "udp_open True (\<lambda>_. Some 1) \<lparr>ur_addr = 0, ur_port = 0\<rparr> ''udp://10.0.0.1:1234'' = Some (Some io)" by blast
  from udp_input [OF this, of "\<lambda>_. replicate 1316 0x47" "\<lambda>_ c cs. Some (cs @ [c])" "[]" "[]"]
  have "length (replicate 1316 (0x47 :: u8)) < 2040 \<longrightarrow> ?thesis" by blast
  then show ?thesis by (simp only: length_replicate)
qed

end
