(* ===== verification/Free_Tables.thy ===== *)
theory Free_Tables
  imports Ts_Invariant Simulation
begin

text \<open>
  The release of the tables at the end of the program: \<open>free_tables\<close> of \<^verbatim>\<open>src/table.c\<close>.  Heap blocks
  of the section headers are followed, so that a block that is released twice is undefined behaviour;
  a list whose nodes are released is empty afterwards.
\<close>

section \<open>Headers\<close>

definition free_table_header :: "table_header \<Rightarrow> table_header option" where
  "free_table_header h = do {
     p \<leftarrow> free_blk (th_data h);
     let nodes = (if th_alias h \<and> th_data h \<noteq> Null then (th_sections h)(0 := (th_sections h 0)\<lparr>sn_ptr := p\<rparr>) else th_sections h);
     nodes \<leftarrow> clear_sections nodes (unat (th_last_section h) + 1);
     Some (h\<lparr>th_data := p, th_sections := nodes\<rparr>) }"

section \<open>Tables\<close>

definition free_cat :: "cat_t \<Rightarrow> cat_t option" where
  "free_cat c = do { h \<leftarrow> free_table_header (cat_header c); Some (c\<lparr>cat_list := [], cat_header := h\<rparr>) }"

definition free_pmt :: "nat \<Rightarrow> mpeg_psi_t \<Rightarrow> mpeg_psi_t option" where
  "free_pmt i psi = do {
     b \<leftarrow> bitmap64_get (psi_pmt_bitmap psi) i;
     if \<not> b then Some psi
     else do {
       let t = psi_pmt psi (of_nat i);
       h \<leftarrow> free_table_header (pmt_header t);
       bm \<leftarrow> bitmap64_clear (psi_pmt_bitmap psi) i;
       Some (psi\<lparr>psi_pmt := (psi_pmt psi)(of_nat i := t\<lparr>pmt_h := [], pmt_list := [], pmt_header := h\<rparr>), psi_pmt_bitmap := bm\<rparr>) } }"

fun unregister_programs :: "program_node list \<Rightarrow> ('sub, 'at) world \<Rightarrow> ('sub, 'at) world option" where
  "unregister_programs [] w = Some w"
| "unregister_programs (p # ps) w = unregister_pmt_ops (pn_program_map_PID p) w \<bind> unregister_programs ps"

fun free_pats :: "pat_t list \<Rightarrow> ('sub, 'at) world \<Rightarrow> (pat_t list \<times> ('sub, 'at) world) option" where
  "free_pats [] w = Some ([], w)"
| "free_pats (t # ts) w = do {
     w \<leftarrow> unregister_programs (pat_h t) w;
     h \<leftarrow> free_table_header (pat_header t);
     (ts, w) \<leftarrow> free_pats ts w;
     Some (t\<lparr>pat_h := [], pat_header := h\<rparr> # ts, w) }"

definition free_sdt :: "sdt_t \<Rightarrow> sdt_t option" where
  "free_sdt t = do { h \<leftarrow> free_table_header (sdt_header t); Some (t\<lparr>sdt_h := [], sdt_header := h\<rparr>) }"

definition free_nit :: "nit_t \<Rightarrow> nit_t option" where
  "free_nit t = do { h \<leftarrow> free_table_header (nit_header t); Some (t\<lparr>nit_list := [], nit_h := [], nit_header := h\<rparr>) }"

definition free_bat :: "bat_t \<Rightarrow> bat_t option" where
  "free_bat t = do { h \<leftarrow> free_table_header (bat_header t); Some (t\<lparr>bat_list := [], bat_h := [], bat_header := h\<rparr>) }"

definition free_eit :: "eit_t \<Rightarrow> eit_t option" where
  "free_eit t = do { h \<leftarrow> free_table_header (eit_header t); Some (t\<lparr>eit_h := [], eit_header := h\<rparr>) }"

definition free_if :: "u64 \<Rightarrow> ('t \<Rightarrow> 't option) \<Rightarrow> 't \<Rightarrow> 't option" where
  "free_if sections free t = (if sections \<noteq> 0 then free t else Some t)"

definition free_dvb :: "mpeg_psi_t \<Rightarrow> mpeg_psi_t option" where
  "free_dvb psi = (let s = psi_stats psi in do {
     sa \<leftarrow> free_if (sdt_actual_sections s) free_sdt (psi_sdt_actual psi);
     so \<leftarrow> free_if (sdt_other_sections s) free_sdt (psi_sdt_other psi);
     na \<leftarrow> free_if (nit_actual_sections s) free_nit (psi_nit_actual psi);
     no \<leftarrow> free_if (nit_other_sections s) free_nit (psi_nit_other psi);
     b \<leftarrow> free_if (bat_sections s) free_bat (psi_bat psi);
     ea \<leftarrow> free_if (eit_actual_sections s) free_eit (psi_eit_actual psi);
     eo \<leftarrow> free_if (eit_other_sections s) free_eit (psi_eit_other psi);
     let tot = (if tot_sections s \<noteq> 0 then (psi_tot psi)\<lparr>tot_list := []\<rparr> else psi_tot psi);
     Some (psi\<lparr>psi_sdt_actual := sa, psi_sdt_other := so, psi_nit_actual := na, psi_nit_other := no, psi_bat := b,
       psi_eit_actual := ea, psi_eit_other := eo, psi_tot := tot\<rparr>) })"

fun map_opt :: "('a \<Rightarrow> 'b option) \<Rightarrow> 'a list \<Rightarrow> 'b list option" where
  "map_opt f [] = Some []"
| "map_opt f (x # xs) = do { y \<leftarrow> f x; ys \<leftarrow> map_opt f xs; Some (y # ys) }"

definition free_tables :: "('sub, 'at) world \<Rightarrow> ('sub, 'at) world option" where
  "free_tables w = do {
     let psi = wd_psi w;
     cats \<leftarrow> (if 0 < psi_ca_num psi then map_opt free_cat (psi_cat_list psi) else Some (psi_cat_list psi));
     psi \<leftarrow> fold_opt free_pmt [0..<0x2000] (psi\<lparr>psi_cat_list := cats\<rparr>);
     let w = w\<lparr>wd_psi := psi\<rparr>;
     (pats, w) \<leftarrow> (if pat_sections (psi_stats psi) \<noteq> 0 then free_pats (psi_pat_list psi) w else Some (psi_pat_list psi, w));
     psi \<leftarrow> free_dvb ((wd_psi w)\<lparr>psi_pat_list := pats\<rparr>);
     w \<leftarrow> unregister_scte_ops (w\<lparr>wd_psi := psi\<rparr>);
     (pes, fs) \<leftarrow> unregister_pes_ops (wd_pes w, wd_filters w);
     Some (w\<lparr>wd_pes := pes, wd_filters := fs\<rparr>) }"

section \<open>What a header must be like\<close>

definition releasable :: "table_header \<Rightarrow> bool" where
  "releasable h \<longleftrightarrow> th_data h \<noteq> Freed \<and> (th_alias h \<longrightarrow> th_data h = Null) \<and>
     (\<forall>i \<le> unat (th_last_section h). sn_len (th_sections h i) \<noteq> 0 \<longrightarrow> sn_ptr (th_sections h i) \<noteq> Freed)"

lemma free_blk_ok: "b \<noteq> Freed \<Longrightarrow> \<exists>b'. free_blk b = Some b'"
  by (cases b) (auto simp: free_blk_def)

lemma clear_loop_ok:
  "\<forall>i. k \<le> i \<and> i < k + n \<and> sn_len (nodes i) \<noteq> 0 \<longrightarrow> sn_ptr (nodes i) \<noteq> Freed \<Longrightarrow> \<exists>nodes'. clear_loop nodes k n = Some nodes'"
proof (induction n arbitrary: nodes k)
  case (Suc n)
  obtain p where p: "(if sn_len (nodes k) \<noteq> 0 then free_blk (sn_ptr (nodes k)) else Some (sn_ptr (nodes k))) = Some p"
    using Suc.prems [rule_format, of k] free_blk_ok [of "sn_ptr (nodes k)"] by (cases "sn_len (nodes k) = 0") auto
  have "\<exists>nodes'. clear_loop (nodes(k := \<lparr>sn_len = 0, sn_ptr = p\<rparr>)) (Suc k) n = Some nodes'"
    using Suc.prems by (intro Suc.IH) auto
  with p show ?case by (simp only: clear_loop.simps Option.bind_lunit)
qed simp

lemma free_table_header_ok: "releasable h \<Longrightarrow> \<exists>h'. free_table_header h = Some h'"
  using clear_loop_ok [of 0 "min (unat (th_last_section h) + 1) MAX_SECTION_NUM" "th_sections h"] free_blk_ok [of "th_data h"]
  by (auto simp: free_table_header_def releasable_def clear_sections_def Let_def)

text \<open>
  After a section without the long header, the data and the first section are one block: the end of the
  program releases it twice.
\<close>

lemma short_section_double_free:
  assumes "parse_section_header e p n h = Some (0, h')" "TS_READ_BIT (drop 1 p) 7 = Some 0" "n \<noteq> 3"
  shows "free_table_header h' = None"
proof -
  have n: "sn_len (th_sections h' 0) \<noteq> 0" "sn_ptr (th_sections h' 0) = th_data h'" "th_alias h'" "\<exists>b. th_data h' = Blk b"
    using assms by (auto simp: parse_section_header_def short_section_def Let_def ENOMEM_def INVALID_SEC_LEN_def Option.bind_eq_Some_conv
        split: if_splits option.splits)
  have "min (unat (th_last_section h') + 1) MAX_SECTION_NUM \<noteq> 0" by (simp add: MAX_SECTION_NUM_def)
  then obtain k where "min (unat (th_last_section h') + 1) MAX_SECTION_NUM = Suc k" by (metis not0_implies_Suc)
  with n show ?thesis
    by (auto simp: free_table_header_def free_blk_def clear_sections_def Let_def simp del: min_Suc2)
qed

section \<open>Filters\<close>

lemma uninit_table_filter_ok:
  assumes "fs_ok fs" "unat pid < 8192"
  shows "\<exists>fs'. uninit_table_filter pid tid m fs = Some fs' \<and> fs_ok fs'"
proof -
  have t: "tab_ok fs" and wf: "head_wf pid (fs pid)" using assms by (auto simp: fs_ok_def tab_ok_def filter_consts)
  have p: "pid_filter fs pid = Some (fs pid)" using assms(2) by (simp add: pid_filter_def filter_consts)
  have wfs: "\<forall>f \<in> set (take (num (fs pid)) (slots (fs pid))). param_wf (f_para f)"
    using wf by (auto simp: head_wf_def)
  note l = lookup_loop_find [OF wfs table_para_wf, of 0 tid m]
  show ?thesis
  proof (cases "filter_lookup fs pid (Some (table_para tid m)) = Some None")
    case True
    then show ?thesis using assms(1) by (simp add: uninit_table_filter_def)
  next
    case False
    then obtain i where i: "filter_lookup fs pid (Some (table_para tid m)) = Some (Some (pid, gen (fs pid), i))" "i < num (fs pid)"
    proof -
      have n: "length (take (num (fs pid)) (slots (fs pid))) = num (fs pid)" using wf by (simp add: head_wf_def)
      let ?f = "List.find (\<lambda>k. same_filter (f_para (take (num (fs pid)) (slots (fs pid)) ! k)) (table_para tid m)) [0..<num (fs pid)]"
      have e: "filter_lookup fs pid (Some (table_para tid m)) =
        (if num (fs pid) = 0 then Some None else Some (map_option (\<lambda>i. (pid, gen (fs pid), i)) ?f))"
        using l p by (simp add: filter_lookup_def n option.map_comp comp_def del: length_take)
      with False obtain i where "?f = Some i" by (cases ?f) (auto split: if_splits)
      moreover from this have "i < num (fs pid)" by (auto simp: find_Some_iff)
      ultimately show ?thesis using e by (intro that) auto
    qed
    obtain fs' where fs': "filter_free fs (Some (pid, gen (fs pid), i)) = Some (0, fs')" "tab_ok fs'"
      "mset (live (fs pid)) = add_mset (live (fs pid) ! i) (mset (live (fs' pid)))" "\<forall>q. q \<noteq> pid \<longrightarrow> fs' q = fs q"
      using filter_free_law [OF t, of pid i] assms(2) i(2) by (auto simp: filter_consts)
    have "length (live (fs' q)) \<le> length (live (fs q))" for q
      using fs'(4) arg_cong [OF fs'(3), of size] by (cases "q = pid") auto
    then have "fs_ok fs'" using fs'(2) assms(1) unfolding fs_ok_def by (meson le_trans)
    with fs'(1) i(1) show ?thesis by (simp add: uninit_table_filter_def)
  qed
qed

section \<open>The release runs through\<close>

text \<open>What the removal of filters changes.\<close>

definition trimmed :: "('sub, 'at) world \<Rightarrow> ('sub, 'at) world \<Rightarrow> bool" where
  "trimmed w w' \<longleftrightarrow> wd_scte w' = wd_scte w \<and> wd_pes w' = wd_pes w \<and>
     (wd_psi w')\<lparr>psi_pmt_bitmap := []\<rparr> = (wd_psi w)\<lparr>psi_pmt_bitmap := []\<rparr> \<and> fs_ok (wd_filters w') \<and>
     length (psi_pmt_bitmap (wd_psi w')) = 128 \<and> bitmap_abs (psi_pmt_bitmap (wd_psi w')) \<subseteq> bitmap_abs (psi_pmt_bitmap (wd_psi w))"

lemma trimmed_refl: "\<lbrakk>fs_ok (wd_filters w); length (psi_pmt_bitmap (wd_psi w)) = 128\<rbrakk> \<Longrightarrow> trimmed w w"
  by (simp add: trimmed_def)

lemma trimmed_trans: "\<lbrakk>trimmed u v; trimmed v w\<rbrakk> \<Longrightarrow> trimmed u w"
  by (auto simp: trimmed_def)

lemma trimmed_ok: "trimmed u v \<Longrightarrow> fs_ok (wd_filters v) \<and> length (psi_pmt_bitmap (wd_psi v)) = 128"
  by (auto simp: trimmed_def)

lemma unregister_pmt_ops_ok:
  assumes "fs_ok (wd_filters w)" "length (psi_pmt_bitmap (wd_psi w)) = 128" "unat pid < 8192"
  shows "\<exists>w'. unregister_pmt_ops pid w = Some w' \<and> trimmed w w'"
proof -
  obtain fs where fs: "uninit_table_filter pid PMT_TID 0xFF (wd_filters w) = Some fs" "fs_ok fs"
    using uninit_table_filter_ok [OF assms(1,3)] by blast
  obtain bm where bm: "bitmap64_clear (psi_pmt_bitmap (wd_psi w)) (unat pid) = Some bm" "length bm = 128"
    "bitmap_abs bm = bitmap_abs (psi_pmt_bitmap (wd_psi w)) - {unat pid}"
    using pid_bm.clear_abs [OF assms(2,3)] by blast
  show ?thesis using fs bm by (auto simp: unregister_pmt_ops_def trimmed_def)
qed

lemma unregister_programs_ok:
  assumes "fs_ok (wd_filters w)" "length (psi_pmt_bitmap (wd_psi w)) = 128" "\<forall>p \<in> set ps. unat (pn_program_map_PID p) < 8192"
  shows "\<exists>w'. unregister_programs ps w = Some w' \<and> trimmed w w'"
  using assms
proof (induction ps arbitrary: w)
  case (Cons p ps)
  obtain w1 where 1: "unregister_pmt_ops (pn_program_map_PID p) w = Some w1" "trimmed w w1"
    using unregister_pmt_ops_ok [OF Cons.prems(1,2)] Cons.prems(3) by auto
  obtain w2 where "unregister_programs ps w1 = Some w2" "trimmed w1 w2"
    using Cons.IH [of w1] trimmed_ok [OF 1(2)] Cons.prems(3) by auto
  with 1 show ?case by (auto intro: trimmed_trans)
qed (simp add: trimmed_refl)

definition pat_releasable :: "pat_t \<Rightarrow> bool" where
  "pat_releasable t \<longleftrightarrow> releasable (pat_header t) \<and> (\<forall>p \<in> set (pat_h t). unat (pn_program_map_PID p) < 8192)"

lemma free_pats_ok:
  assumes "fs_ok (wd_filters w)" "length (psi_pmt_bitmap (wd_psi w)) = 128" "\<forall>t \<in> set ts. pat_releasable t"
  shows "\<exists>ts' w'. free_pats ts w = Some (ts', w') \<and> trimmed w w'"
  using assms
proof (induction ts arbitrary: w)
  case (Cons t ts)
  obtain w1 where 1: "unregister_programs (pat_h t) w = Some w1" "trimmed w w1"
    using unregister_programs_ok [OF Cons.prems(1,2), of "pat_h t"] Cons.prems(3) by (auto simp: pat_releasable_def)
  obtain h where h: "free_table_header (pat_header t) = Some h"
    using free_table_header_ok [of "pat_header t"] Cons.prems(3) by (auto simp: pat_releasable_def)
  obtain ts' w2 where "free_pats ts w1 = Some (ts', w2)" "trimmed w1 w2"
    using Cons.IH [of w1] trimmed_ok [OF 1(2)] Cons.prems(3) by auto
  with 1 h show ?case by (auto intro: trimmed_trans)
qed (simp add: trimmed_refl)

lemma free_pmts_ok:
  assumes "length (psi_pmt_bitmap psi) = 128" "set is \<subseteq> {..<8192}"
    and "\<forall>i \<in> bitmap_abs (psi_pmt_bitmap psi). releasable (pmt_header (psi_pmt psi (of_nat i)))"
  shows "\<exists>bm pmt. fold_opt free_pmt is psi = Some (psi\<lparr>psi_pmt := pmt, psi_pmt_bitmap := bm\<rparr>) \<and> length bm = 128 \<and>
    bitmap_abs bm = bitmap_abs (psi_pmt_bitmap psi) - set is"
  using assms
proof (induction "is" arbitrary: psi)
  case Nil
  then show ?case by (auto intro!: exI [of _ "psi_pmt_bitmap psi"] exI [of _ "psi_pmt psi"])
next
  case (Cons i "is")
  let ?b = "psi_pmt_bitmap psi"
  have i: "i < 8192" using Cons.prems(2) by simp
  have get: "bitmap64_get ?b i = Some (i \<in> bitmap_abs ?b)" by (rule pid_bm.get_abs [OF Cons.prems(1) i])
  show ?case
  proof (cases "i \<in> bitmap_abs ?b")
    case False
    then have "free_pmt i psi = Some psi" using get by (simp add: free_pmt_def)
    then show ?thesis using Cons.IH [OF Cons.prems(1) _ Cons.prems(3)] Cons.prems(2) False by auto
  next
    case True
    obtain h where h: "free_table_header (pmt_header (psi_pmt psi (of_nat i))) = Some h"
      using free_table_header_ok Cons.prems(3) True by blast
    obtain bm where bm: "bitmap64_clear ?b i = Some bm" "length bm = 128" "bitmap_abs bm = bitmap_abs ?b - {i}"
      using pid_bm.clear_abs [OF Cons.prems(1) i] by blast
    let ?t = "(psi_pmt psi (of_nat i))\<lparr>pmt_h := [], pmt_list := [], pmt_header := h\<rparr>"
    let ?psi = "psi\<lparr>psi_pmt := (psi_pmt psi)(of_nat i := ?t), psi_pmt_bitmap := bm\<rparr>"
    have f: "free_pmt i psi = Some ?psi" using get True h bm(1) by (simp add: free_pmt_def Let_def)
    have "(of_nat k :: u16) \<noteq> of_nat i" if "k \<in> bitmap_abs bm" for k
      using that bm(3) bitmap_abs_bound [OF bm(2)] i by (metis DiffD2 insertI1 lessThan_iff subsetD unat_of_nat_13)
    then have "\<forall>k \<in> bitmap_abs (psi_pmt_bitmap ?psi). releasable (pmt_header (psi_pmt ?psi (of_nat k)))"
      using Cons.prems(3) bm(3) by auto
    from Cons.IH [of ?psi, OF _ _ this] bm Cons.prems(2) f show ?thesis by auto
  qed
qed

definition dvb_releasable :: "mpeg_psi_t \<Rightarrow> bool" where
  "dvb_releasable psi \<longleftrightarrow> (let s = psi_stats psi in
     (sdt_actual_sections s \<noteq> 0 \<longrightarrow> releasable (sdt_header (psi_sdt_actual psi))) \<and>
     (sdt_other_sections s \<noteq> 0 \<longrightarrow> releasable (sdt_header (psi_sdt_other psi))) \<and>
     (nit_actual_sections s \<noteq> 0 \<longrightarrow> releasable (nit_header (psi_nit_actual psi))) \<and>
     (nit_other_sections s \<noteq> 0 \<longrightarrow> releasable (nit_header (psi_nit_other psi))) \<and>
     (bat_sections s \<noteq> 0 \<longrightarrow> releasable (bat_header (psi_bat psi))) \<and>
     (eit_actual_sections s \<noteq> 0 \<longrightarrow> releasable (eit_header (psi_eit_actual psi))) \<and>
     (eit_other_sections s \<noteq> 0 \<longrightarrow> releasable (eit_header (psi_eit_other psi))))"

lemma free_parts_ok:
  "(n \<noteq> 0 \<longrightarrow> releasable (sdt_header s)) \<Longrightarrow> \<exists>t. free_if n free_sdt s = Some t"
  "(n \<noteq> 0 \<longrightarrow> releasable (nit_header i)) \<Longrightarrow> \<exists>t. free_if n free_nit i = Some t"
  "(n \<noteq> 0 \<longrightarrow> releasable (bat_header b)) \<Longrightarrow> \<exists>t. free_if n free_bat b = Some t"
  "(n \<noteq> 0 \<longrightarrow> releasable (eit_header v)) \<Longrightarrow> \<exists>t. free_if n free_eit v = Some t"
  using free_table_header_ok [of "sdt_header s"] free_table_header_ok [of "nit_header i"] free_table_header_ok [of "bat_header b"]
    free_table_header_ok [of "eit_header v"]
  by (auto simp: free_if_def free_sdt_def free_nit_def free_bat_def free_eit_def)

lemma free_dvb_ok:
  assumes "dvb_releasable psi"
  shows "\<exists>psi'. free_dvb psi = Some psi' \<and> psi_pmt_bitmap psi' = psi_pmt_bitmap psi"
proof -
  note r = assms [unfolded dvb_releasable_def Let_def]
  obtain t1 t2 t3 t4 t5 t6 t7 where
    "free_if (sdt_actual_sections (psi_stats psi)) free_sdt (psi_sdt_actual psi) = Some t1"
    "free_if (sdt_other_sections (psi_stats psi)) free_sdt (psi_sdt_other psi) = Some t2"
    "free_if (nit_actual_sections (psi_stats psi)) free_nit (psi_nit_actual psi) = Some t3"
    "free_if (nit_other_sections (psi_stats psi)) free_nit (psi_nit_other psi) = Some t4"
    "free_if (bat_sections (psi_stats psi)) free_bat (psi_bat psi) = Some t5"
    "free_if (eit_actual_sections (psi_stats psi)) free_eit (psi_eit_actual psi) = Some t6"
    "free_if (eit_other_sections (psi_stats psi)) free_eit (psi_eit_other psi) = Some t7"
    using r free_parts_ok by meson
  then show ?thesis by (simp add: free_dvb_def Let_def)
qed

text \<open>Everything the release needs of a state.\<close>

definition psi_releasable :: "mpeg_psi_t \<Rightarrow> bool" where
  "psi_releasable psi \<longleftrightarrow>
     (0 < psi_ca_num psi \<longrightarrow> (\<forall>c \<in> set (psi_cat_list psi). releasable (cat_header c))) \<and>
     (\<forall>i \<in> bitmap_abs (psi_pmt_bitmap psi). releasable (pmt_header (psi_pmt psi (of_nat i)))) \<and>
     (pat_sections (psi_stats psi) \<noteq> 0 \<longrightarrow> (\<forall>t \<in> set (psi_pat_list psi). pat_releasable t)) \<and> dvb_releasable psi"

lemma unregister_scte_loop_ok:
  "\<lbrakk>fs_ok fs; \<forall>x \<in> set xs. unat (sc_pid x) < 8192\<rbrakk> \<Longrightarrow> \<exists>fs'. unregister_scte_loop xs fs = Some fs' \<and> fs_ok fs'"
proof (induction xs arbitrary: fs)
  case (Cons x xs)
  then obtain fs1 where "uninit_table_filter (sc_pid x) SCTE_SPLICE_TID 0xFF fs = Some fs1" "fs_ok fs1"
    using uninit_table_filter_ok by fastforce
  with Cons show ?case by simp
qed simp

lemma pes_para: "pes_filter_para = table_para 0 0"
  by (simp add: pes_filter_para_def table_para_def numeral_nat)

lemma unregister_loop_Cons: "unregister_loop (pt # rest) fs = uninit_table_filter (pe_pid pt) 0 0 fs \<bind> unregister_loop rest"
  by (auto simp: uninit_table_filter_def pes_para option.map_comp split: option.splits Option.bind_splits prod.splits)

lemma unregister_loop_ok:
  "\<lbrakk>fs_ok fs; \<forall>x \<in> set xs. unat (pe_pid x) < 8192\<rbrakk> \<Longrightarrow> \<exists>fs'. unregister_loop xs fs = Some fs' \<and> fs_ok fs'"
proof (induction xs arbitrary: fs)
  case (Cons x xs)
  then obtain fs1 where "uninit_table_filter (pe_pid x) 0 0 fs = Some fs1" "fs_ok fs1"
    using uninit_table_filter_ok [of fs "pe_pid x" 0 0] by auto
  with Cons show ?case unfolding unregister_loop_Cons by simp
qed simp

lemma map_opt_ok: "\<forall>x \<in> set xs. \<exists>y. f x = Some y \<Longrightarrow> \<exists>ys. map_opt f xs = Some ys"
  by (induction xs) auto

lemma dvb_releasable_upd:
  "dvb_releasable (psi\<lparr>psi_pmt_bitmap := b\<rparr>) \<longleftrightarrow> dvb_releasable psi" "dvb_releasable (psi\<lparr>psi_pmt := p\<rparr>) \<longleftrightarrow> dvb_releasable psi"
  "dvb_releasable (psi\<lparr>psi_cat_list := c\<rparr>) \<longleftrightarrow> dvb_releasable psi" "dvb_releasable (psi\<lparr>psi_pat_list := t\<rparr>) \<longleftrightarrow> dvb_releasable psi"
  by (simp_all add: dvb_releasable_def)

lemma free_tables_law:
  assumes "world_ok 0 w" "psi_releasable (wd_psi w)"
    and "\<forall>x \<in> set (scte_list (wd_scte w)). unat (sc_pid x) < 8192" "\<forall>x \<in> set (pes_list (wd_pes w)). unat (pe_pid x) < 8192"
  shows "\<exists>w'. free_tables w = Some w' \<and> fs_ok (wd_filters w') \<and> bitmap_abs (psi_pmt_bitmap (wd_psi w')) = {} \<and>
    scte_pid_num (wd_scte w') = 0 \<and> pes_pid_num (wd_pes w') = 0"
proof -
  let ?psi = "wd_psi w"
  have ok: "fs_ok (wd_filters w)" "length (psi_pmt_bitmap ?psi) = 128" "\<not> pes_freed (wd_pes w)"
    using assms(1) by (auto simp: world_ok_0 pes_inv_def)
  note rel = assms(2) [unfolded psi_releasable_def]
  have "\<forall>c \<in> set (psi_cat_list ?psi). \<exists>c'. free_cat c = Some c'" if "0 < psi_ca_num ?psi"
    using rel that free_table_header_ok by (fastforce simp: free_cat_def)
  then obtain cats where cats: "(if 0 < psi_ca_num ?psi then map_opt free_cat (psi_cat_list ?psi) else Some (psi_cat_list ?psi)) = Some cats"
    using map_opt_ok [of "psi_cat_list ?psi" free_cat] by (cases "0 < psi_ca_num ?psi") auto
  let ?p1 = "?psi\<lparr>psi_cat_list := cats\<rparr>"
  have all: "set [0..<0x2000] \<subseteq> {..<8192 :: nat}" unfolding set_upt by auto
  obtain bm pmt where pm: "fold_opt free_pmt [0..<0x2000] ?p1 = Some (?p1\<lparr>psi_pmt := pmt, psi_pmt_bitmap := bm\<rparr>)" "length bm = 128"
    "bitmap_abs bm = bitmap_abs (psi_pmt_bitmap ?psi) - set [0..<0x2000]"
    using free_pmts_ok [of ?p1, OF _ all] rel ok(2) by (auto simp del: upt_rec_numeral set_upt)
  then have bm: "bitmap_abs bm = {}" using bitmap_abs_bound [OF ok(2)] unfolding set_upt by fastforce
  let ?p2 = "?p1\<lparr>psi_pmt := pmt, psi_pmt_bitmap := bm\<rparr>"
  let ?w2 = "w\<lparr>wd_psi := ?p2\<rparr>"
  have "\<exists>pats w3. (if pat_sections (psi_stats ?p2) \<noteq> 0 then free_pats (psi_pat_list ?p2) ?w2 else Some (psi_pat_list ?p2, ?w2)) = Some (pats, w3) \<and> trimmed ?w2 w3"
    using free_pats_ok [of ?w2 "psi_pat_list ?p2"] trimmed_refl [of ?w2] ok pm(2) rel by auto
  then obtain pats w3 where w3: "(if pat_sections (psi_stats ?p2) \<noteq> 0 then free_pats (psi_pat_list ?p2) ?w2 else Some (psi_pat_list ?p2, ?w2)) = Some (pats, w3)"
    "trimmed ?w2 w3" by blast
  note t3 = w3(2) [unfolded trimmed_def]
  have "dvb_releasable ((wd_psi w3)\<lparr>psi_pmt_bitmap := []\<rparr>)" using t3 rel by (simp add: dvb_releasable_upd)
  then have "dvb_releasable ((wd_psi w3)\<lparr>psi_pat_list := pats\<rparr>)" by (simp add: dvb_releasable_upd)
  then obtain psi4 where psi4: "free_dvb ((wd_psi w3)\<lparr>psi_pat_list := pats\<rparr>) = Some psi4" "psi_pmt_bitmap psi4 = psi_pmt_bitmap (wd_psi w3)"
    using free_dvb_ok by fastforce
  have sc: "wd_scte w3 = wd_scte w" "wd_pes w3 = wd_pes w" "fs_ok (wd_filters w3)" using t3 by simp_all
  obtain fs5 where fs5: "unregister_scte_loop (take (scte_pid_num (wd_scte w3)) (scte_list (wd_scte w3))) (wd_filters w3) = Some fs5" "fs_ok fs5"
    using unregister_scte_loop_ok [OF sc(3)] assms(3) sc(1) by (metis in_set_takeD)
  obtain fs6 where fs6: "unregister_loop (take (pes_pid_num (wd_pes w3)) (pes_list (wd_pes w3))) fs5 = Some fs6" "fs_ok fs6"
    using unregister_loop_ok [OF fs5(2)] assms(4) sc(2) by (metis in_set_takeD)
  have "bitmap_abs (psi_pmt_bitmap (wd_psi w3)) = {}" using t3 bm by simp
  then show ?thesis
    using ok(3) sc(2) fs5(1) fs6 psi4 unfolding free_tables_def Let_def cats pm(1) w3(1) Option.bind_lunit prod.case
    by (simp add: unregister_scte_ops_def unregister_pes_ops_def)
qed

section \<open>Properties\<close>



end
