(* ===== verification/Tsanalyze_Main.thy ===== *)
theory Tsanalyze_Main
  imports Dump_Streams Udp_Input Free_Tables
begin

text \<open>
  The program (\<^verbatim>\<open>src/main.c\<close>): the inputs are registered, the arguments read, the packets of the input
  analysed, and what was found is dumped.  The state of the PES layer holds subtitles, that of the tables
  the ATSC tables.
\<close>

section \<open>The program put together\<close>

type_synonym program = "(subtitle_pes_data, atsc_state) ts_state"

definition program_handlers :: "(subtitle_pes_data, atsc_state) handlers" where
  "program_handlers = \<lparr>hd_des_ops = init_descriptor_parsers, hd_sub = subtitle_ops, hd_atsc = atsc_psip_proc init_descriptor_parsers\<rparr>"

text \<open>
  The surroundings: the files that can be opened, the page size, the network, whether the output file can
  be opened, the texts of the HTML template, the allocator, the width of a bit field in an expression
  and the bytes of an uninitialised array.
\<close>

record surroundings =
  en_disk :: "string \<Rightarrow> bytes option"
  en_page :: nat
  en_socket :: bool
  en_inet_pton :: "string \<Rightarrow> u32 option"
  en_recv :: "nat \<Rightarrow> bytes"
  en_output :: bool
  en_head :: string
  en_foot :: string
  en_alloc :: alloc_env
  en_bw :: nat
  en_stack :: bytes

datatype input = File_input "file_io io_ops" | Udp_input "udp_io io_ops"

definition IO_FILE :: nat where "IO_FILE = 0"
definition IO_UDP :: nat where "IO_UDP = 1"

definition fileio_init :: "surroundings \<Rightarrow> input ioops \<Rightarrow> input ioops option" where
  "fileio_init env t = map_option snd (register_io_ops IO_FILE (File_input (file_ops (en_disk env) (en_page env))) t)"

definition static_url :: url where "static_url = \<lparr>ur_addr = 0, ur_port = 0\<rparr>"

definition udp_io_init :: "surroundings \<Rightarrow> input ioops \<Rightarrow> input ioops option" where
  "udp_io_init env t = map_option snd (register_io_ops IO_UDP
     (Udp_input (udp_ops (en_socket env) (en_inet_pton env) static_url (en_recv env))) t)"

definition ts_config :: "config \<Rightarrow> tsa_config" where
  "ts_config c = \<lparr>cf_pids = Options.selected c, cf_detail = co_detail c\<rparr>"

text \<open>\<open>ts_process\<close> on the input of the configuration; its result is not used.\<close>

definition ts_process_input :: "nat \<Rightarrow> surroundings \<Rightarrow> config \<Rightarrow> input ioops \<Rightarrow> program \<Rightarrow> program option option" where
  "ts_process_input fuel env c t st =
     (let proc = packet_step (en_alloc env) (en_bw env) (ts_config c) program_handlers;
          state = map_option (map_option (\<lambda>r. snd (snd r))) in
      case lookup_io_ops (unat (co_type c)) t of
        Some (Some (File_input ops)) \<Rightarrow> state (ts_process fuel ops (co_name c) proc (en_stack env) (0, st))
      | Some (Some (Udp_input ops)) \<Rightarrow>
          if udp_open (en_socket env) (en_inet_pton env) static_url (co_name c) = None then Some None
          else state (ts_process fuel ops (co_name c) proc (en_stack env) (0, st))
      | _ \<Rightarrow> Some None)"

section \<open>The end\<close>

definition dump_calls :: "config \<Rightarrow> program \<Rightarrow> rcall list option" where
  "dump_calls c st = (let w = st_world st in do {
     (tables, c) \<leftarrow> dump_tables (wd_psi w) (wd_atsc w) c;
     pes \<leftarrow> dump_pes_infos c (wd_pes w);
     scte \<leftarrow> dump_scte_info c (wd_scte w);
     Some (tables @ pes @ scte @ dump_ts_info c (st_pid_dev st)) })"

definition dump_result :: "surroundings \<Rightarrow> config \<Rightarrow> int \<Rightarrow> program \<Rightarrow> res_state \<Rightarrow> (outcome \<times> res_state) option" where
  "dump_result env c sig st res = do {
     cs \<leftarrow> dump_calls c st;
     res \<leftarrow> fold_opt (run_call (en_alloc env)) cs res;
     res \<leftarrow> res_close (en_alloc env) (en_foot env) res;
     w \<leftarrow> free_tables (st_world st);
     _ \<leftarrow> uninit_pid_processor (st\<lparr>st_world := w\<rparr>);
     Some (Exited sig, res) }"

text \<open>
  \<open>main\<close> without the signal handler: how the program ends and what it has written.  \<open>None\<close>: the fuel is
  used up; \<open>Some None\<close>: the behaviour is undefined.
\<close>

definition main :: "nat \<Rightarrow> surroundings \<Rightarrow> string list \<Rightarrow> (char \<times> string option) list \<Rightarrow> (outcome \<times> res_state) option option" where
  "main fuel env argv opts =
     (case do {
        t \<leftarrow> fileio_init env static_ioops;
        t \<leftarrow> udp_io_init env t;
        r \<leftarrow> prog_parse_args (\<lambda>f. en_disk env f \<noteq> None) (en_output env) (en_head env) argv opts (tsaconf, static_res);
        Some (t, r) } of
      None \<Rightarrow> Some None
    | Some (t, Exited n, c, res) \<Rightarrow> Some (Some (Exited n, res))
    | Some (t, Returned n, c, res) \<Rightarrow>
        if n < 0 then Some (Some (Returned (-1), res))
        else (case init_pid_processor (en_alloc env) (ts_config c) atsc_init_tables (static_state atsc_init_tables) of
            None \<Rightarrow> Some None
          | Some st \<Rightarrow> (case ts_process_input fuel env c t st of
              None \<Rightarrow> None
            | Some None \<Rightarrow> Some None
            | Some (Some st) \<Rightarrow> Some (dump_result env c 0 st res))))"

section \<open>The loop keeps what the packets keep\<close>

lemma packets_loop_keeps:
  assumes keeps: "\<forall>d s s'. P s \<longrightarrow> proc d s = Some s' \<longrightarrow> P s'"
  shows "\<lbrakk>P s; packets_loop proc k ptr s = Some (p, s')\<rbrakk> \<Longrightarrow> P s'"
proof (induction ptr arbitrary: s rule: measure_induct_rule [where f = length])
  case (less ptr)
  show ?case
  proof (cases "0 < k \<and> k \<le> length ptr")
    case True
    then obtain s1 where s1: "proc ptr s = Some s1" "packets_loop proc k (drop k ptr) s1 = Some (p, s')"
      using less.prems(2) by (subst (asm) packets_loop.simps) (auto simp: Option.bind_eq_Some_conv)
    have "P s1" using keeps less.prems(1) s1(1) by blast
    moreover have "length (drop k ptr) < length ptr" using True by auto
    ultimately show ?thesis using less.IH s1(2) by blast
  next
    case False
    then show ?thesis using less.prems by (subst (asm) packets_loop.simps) auto
  qed
qed

lemma process_block_keeps:
  assumes keeps: "\<forall>d s s'. P s \<longrightarrow> proc d s = Some s' \<longrightarrow> P s'"
    and s: "P s" "process_block proc k ptr con s = Some (c, s')"
  shows "P s'"
proof -
  obtain pc n where c: "con = (pc, n)" by (cases con)
  obtain s1 p where 1: "(if n = k then proc pc s else Some s) = Some s1" "packets_loop proc k ptr s1 = Some (p, s')"
    using s(2) by (auto simp: process_block_def c Let_def Option.bind_eq_Some_conv split: if_splits)
  have "P s1" using 1(1) keeps s(1) by (auto split: if_splits)
  then show ?thesis by (rule packets_loop_keeps [OF keeps _ 1(2)])
qed

lemma process_loop_keeps:
  assumes keeps: "\<forall>d s s'. P s \<longrightarrow> proc d s = Some s' \<longrightarrow> P s'"
  shows "\<lbrakk>P s; process_loop fuel ops proc k ptr con io s = Some (Some (io', s'))\<rbrakk> \<Longrightarrow> P s'"
proof (induction fuel arbitrary: ptr con io s)
  case (Suc fuel)
  then obtain pc n s1 where b: "process_block proc k ptr con s = Some ((pc, n), s1)"
    by (auto split: option.splits)
  have "P s1" by (rule process_block_keeps [OF keeps Suc.prems(1) b])
  with Suc.prems(2) b Suc.IH show ?case by (auto split: prod.splits if_splits option.splits)
qed simp

lemma ts_process_keeps:
  assumes keeps: "\<forall>k d s s'. P s \<longrightarrow> proc k d s = Some s' \<longrightarrow> P s'"
  shows "\<lbrakk>P s; ts_process fuel ops name proc pc s = Some (Some (r, s'))\<rbrakk> \<Longrightarrow> P s'"
proof -
  have "P s'" if "P s" "process_loop fuel ops (proc k) k ptr con io s = Some (Some (io', s'))" for k ptr con io io'
    by (rule process_loop_keeps [where P = P, OF _ that]) (use keeps in blast)
  then show "\<lbrakk>P s; ts_process fuel ops name proc pc s = Some (Some (r, s'))\<rbrakk> \<Longrightarrow> P s'"
    by (auto simp: ts_process_def Let_def split: option.splits prod.splits)
qed

lemma packets_keep_state:
  assumes "state_ok st" "ts_process fuel ops name (packet_step (always_ok j) bw cfg hs) pc (0, st) = Some (Some (r, n, st'))"
  shows "state_ok st'"
proof -
  have "state_ok (snd (n, st'))"
  proof (rule ts_process_keeps [where P = "\<lambda>s. state_ok (snd s)", OF _ _ assms(2)])
    show "\<forall>k d s s'. state_ok (snd s) \<longrightarrow> packet_step (always_ok j) bw cfg hs k d s = Some s' \<longrightarrow> state_ok (snd s')"
      using ts_proc_keeps by (fastforce simp: packet_step_def Option.bind_eq_Some_conv in_node_always_ok)
  qed (use assms(1) in simp)
  then show ?thesis by simp
qed

lemma ts_process_input_keeps:
  assumes "en_alloc env = always_ok j" "state_ok st" "ts_process_input fuel env c t st = Some (Some st')"
  shows "state_ok st'"
proof (cases "\<exists>ops. lookup_io_ops (unat (co_type c)) t = Some (Some (File_input ops))")
  case True
  with assms(1,3) show ?thesis
    by (auto simp: ts_process_input_def Let_def dest: packets_keep_state [OF assms(2)])
next
  case False
  with assms(1,3) show ?thesis
    by (auto simp: ts_process_input_def Let_def split: option.splits input.splits if_splits dest: packets_keep_state [OF assms(2)])
qed

section \<open>The arguments and the inputs\<close>

lemma option_step_end: "option_step x st = Some (Inl (r, c)) \<Longrightarrow> r \<noteq> Returned 0"
  by (auto simp: option_step_def EINVAL_def Option.bind_eq_Some_conv split: prod.splits if_splits)

lemma options_loop_end: "options_loop xs st = Some (Inl (r, c)) \<Longrightarrow> r \<noteq> Returned 0"
proof (induction xs arbitrary: st)
  case (Cons x xs)
  then obtain y where y: "option_step x st = Some y" by (auto simp: Option.bind_eq_Some_conv)
  with Cons show ?case by (cases y) (auto dest: option_step_end)
qed simp

lemma prog_parse_args_opens:
  assumes p: "prog_parse_args readable ok head argv opts (c0, res0) = Some (Returned 0, c, res)"
  shows "res = res_open ok head (res_settype (unat (co_output c)) res0)"
proof -
  obtain y where y: "options_loop opts (0, c0) = Some y"
    using p by (auto simp: prog_parse_args_def EINVAL_def Option.bind_eq_Some_conv split: if_splits)
  show ?thesis
  proof (cases y)
    case (Inl ec)
    then show ?thesis using p y options_loop_end by (cases ec) (auto simp: prog_parse_args_def EINVAL_def split: if_splits)
  next
    case (Inr rc)
    then show ?thesis using p y by (cases rc) (auto simp: prog_parse_args_def EINVAL_def ENOENT_def Let_def split: if_splits)
  qed
qed

definition program_inputs :: "surroundings \<Rightarrow> input ioops" where
  "program_inputs env = static_ioops[IO_FILE := Some (File_input (file_ops (en_disk env) (en_page env))),
     IO_UDP := Some (Udp_input (udp_ops (en_socket env) (en_inet_pton env) static_url (en_recv env)))]"

lemma inputs_registered: "fileio_init env static_ioops \<bind> udp_io_init env = Some (program_inputs env)"
  by (simp add: fileio_init_def udp_io_init_def register_io_ops_def program_inputs_def static_ioops_def MAX_IO_METHOD_def IO_FILE_def IO_UDP_def)

section \<open>The end runs through\<close>

lemma uninit_filters_ok: "\<lbrakk>fs_ok fs; \<forall>x \<in> set qs. unat (fst x) < 8192\<rbrakk> \<Longrightarrow> \<exists>fs'. uninit_filters qs fs = Some fs'"
proof (induction qs arbitrary: fs)
  case (Cons q qs)
  obtain pid tid m cb where q: "q = (pid, tid, m, cb)" by (cases q)
  obtain fs1 where "uninit_table_filter pid tid m fs = Some fs1" "fs_ok fs1"
    using uninit_table_filter_ok [OF Cons.prems(1)] Cons.prems(2) q by fastforce
  with Cons q show ?case by simp
qed simp

lemma uninit_pid_processor_ok: "fs_ok (wd_filters (st_world st)) \<Longrightarrow> \<exists>st'. uninit_pid_processor st = Some st'"
  using uninit_filters_ok [OF _ table_filters_pids, of "wd_filters (st_world st)"]
  by (auto simp: uninit_pid_processor_def uninit_table_ops_def)

lemma dump_calls_ok: "dump_calls c st = Some cs \<Longrightarrow> dump_ok cs"
  using dump_tables_ok dump_pes_infos_ok dump_scte_info_ok dump_ts_info_ok
  by (fastforce simp: dump_calls_def Let_def okr_def Option.bind_eq_Some_conv intro!: dump_ok_append split: option.splits)

text \<open>What the release of the tables needs of a state beyond the invariant.\<close>

definition world_releasable :: "('sub, 'at) world \<Rightarrow> bool" where
  "world_releasable w \<longleftrightarrow> psi_releasable (wd_psi w) \<and>
     (\<forall>x \<in> set (scte_list (wd_scte w)). unat (sc_pid x) < 8192) \<and> (\<forall>x \<in> set (pes_list (wd_pes w)). unat (pe_pid x) < 8192)"

lemma dump_result_json:
  assumes "state_ok st" "world_releasable (st_world st)" "dump_calls c st = Some cs" "\<forall>x \<in> set cs. fits x" "en_output env"
  shows "\<exists>res' t. dump_result env c sig st (res_open (en_output env) (en_head env) (res_settype RES_JSON static_res)) = Some (Exited sig, res') \<and>
    rs_out res' = Some (root_text t) \<and> json_text (root_text t) (json_of t)"
proof -
  obtain r1 r2 t where r: "fold_opt (run_call (en_alloc env)) cs (res_open True (en_head env) (res_settype RES_JSON static_res)) = Some r1"
    "res_close (en_alloc env) (en_foot env) r1 = Some r2" "rs_out r2 = Some (root_text t)" "json_text (root_text t) (json_of t)"
    using dump_json [OF dump_calls_ok [OF assms(3)] assms(4), of "en_alloc env" "en_head env" False static_res "en_foot env"] by auto
  have "world_ok 0 (st_world st)" using assms(1) by (simp add: state_ok_def)
  then obtain w where w: "free_tables (st_world st) = Some w" "fs_ok (wd_filters w)"
    using free_tables_law assms(2) by (metis world_releasable_def)
  then obtain st' where "uninit_pid_processor (st\<lparr>st_world := w\<rparr>) = Some st'"
    using uninit_pid_processor_ok [of "st\<lparr>st_world := w\<rparr>"] by auto
  with r w assms(3,5) show ?thesis by (auto simp: dump_result_def)
qed

section \<open>Properties\<close>


definition example_surroundings :: surroundings where
  "example_surroundings = \<lparr>en_disk = [''a.ts'' \<mapsto> [0]], en_page = 4096, en_socket = False, en_inet_pton = (\<lambda>_. None), en_recv = (\<lambda>_. []),
     en_output = True, en_head = [], en_foot = [], en_alloc = always_ok (\<lambda>_. 0), en_bw = 33, en_stack = replicate 204 0\<rparr>"

definition example_config :: config where
  "example_config = tsaconf\<lparr>co_stats := True, co_output := 2, co_tables := 0x80, co_name := ''a.ts''\<rparr>"

lemma example_args:
  "prog_parse_args (\<lambda>f. en_disk example_surroundings f \<noteq> None) (en_output example_surroundings) (en_head example_surroundings)
     [''tsanalyze'', ''-S'', ''-s'', ''tdt'', ''-o'', ''json'', ''a.ts''] [(CHR ''S'', None), (CHR ''s'', Some ''tdt''), (CHR ''o'', Some ''json'')] (tsaconf, static_res) =
     Some (Returned 0, example_config, res_open True [] (res_settype RES_JSON static_res))"
proof -
  have t: "co_type tsaconf = 0" "co_tables tsaconf = 0" by (simp_all add: tsaconf_def)
  have "find_name table_names ''tdt'' 0 = Some 7" "find_name [''stdout'', ''txt'', ''json'', ''yaml'', ''html''] ''json'' 0 = Some 2"
    "snprintf 256 ''a.ts'' = ''a.ts''" by code_simp+
  then show ?thesis
    by (simp add: prog_parse_args_def option_step_def parse_table_def parse_output_type_def t example_config_def example_surroundings_def
        UINT8_MAX_def RES_JSON_def Let_def)
qed

lemma example_not_a_stream: "ts_process_input 1 example_surroundings example_config (program_inputs example_surroundings) st = Some (Some st)"
proof -
  have "unat (co_type example_config) = 0" "co_name example_config = ''a.ts''" by (simp_all add: example_config_def tsaconf_def)
  then show ?thesis
    by (simp add: ts_process_input_def lookup_io_ops_def program_inputs_def static_ioops_def MAX_IO_METHOD_def IO_FILE_def IO_UDP_def Let_def
        ts_process_def file_ops_def fileio_open_def fileio_read_def example_surroundings_def mpegts_probe_def packet_sizes probe_pktlen_def CHECK_COUNT_def)
qed

lemma convert_none: "\<forall>i < 8192. co_pids c ! i = 0 \<Longrightarrow> convert_pids_to_tables c = c"
  unfolding convert_pids_to_tables_def by (rule fold_invariant [where Q = "\<lambda>i. i < 8192" and P = "\<lambda>d. d = c"]) (auto simp del: upt_rec_numeral)

lemma init_processor_state:
  assumes "init_pid_processor e cfg at0 (static_state at0) = Some st"
  shows "\<exists>bm. wd_psi (st_world st) = psi_table_init\<lparr>psi_section_bitmap := bm\<rparr> \<and> wd_atsc (st_world st) = at0 \<and>
    wd_pes (st_world st) = static_pes \<and> wd_scte (st_world st) = static_scte \<and> st_pid_dev st = static_pid_dev"
proof -
  have "psi_table_init = psi_table_init\<lparr>psi_section_bitmap := replicate 128 0\<rparr>" by (simp add: psi_table_init_def)
  then have same: "\<exists>bm. psi_table_init = psi_table_init\<lparr>psi_section_bitmap := bm\<rparr>" by blast
  show ?thesis
    using assms same
    by (auto simp: init_pid_processor_def init_table_ops_def Let_def Option.bind_eq_Some_conv static_state_def static_world_def
        simp del: upt_rec_numeral split: if_splits)
qed


end
