(* ===== verification/Spec2Isabelle.thy ===== *)
theory Spec2Isabelle
  imports Utils Crc32 Pid_Filter Section Ts_Probe Descriptor_Tables Ts_Process Ccan_List Json_Output Atsc_Psip Subtitle Options Program_Stream Tsanalyze_Main
begin

text \<open>
  tsanalyze reads an MPEG-2 transport stream from a file or from UDP, decodes the tables and streams of
  DVB, ATSC and ISDB in it, and prints them as text, JSON, YAML or HTML.  This development models its C
  sources and proves what its parts do and how they work together.

  \<^bold>\<open>The program.\<close>  \<open>main\<close> (\<^verbatim>\<open>src/main.c\<close>) registers the two inputs, reads the arguments, installs
  the first filters and runs \<open>ts_process\<close>, which takes blocks from the input, finds the packet size and calls
  \<open>ts_proc\<close> on every packet (\<^verbatim>\<open>src/ts.c\<close>).  \<open>ts_proc\<close> reads the packet header and the clock references,
  and \<open>section_preproc\<close> puts sections and PES packets together.  A complete unit goes to \<open>filter_proc\<close>
  (\<^verbatim>\<open>src/filter.c\<close>), which runs the callbacks of the filters of its PID.  The callbacks parse the tables
  (\<^verbatim>\<open>src/table.c\<close>, \<^verbatim>\<open>src/dvb_si.c\<close>, \<^verbatim>\<open>src/atsc_psip.c\<close>, \<^verbatim>\<open>src/scte.c\<close>) and the elementary streams
  (\<^verbatim>\<open>src/pes.c\<close>, \<^verbatim>\<open>src/teletext.c\<close>, \<^verbatim>\<open>src/subtitle.c\<close>) and install further filters: a PAT those for its
  program maps, a PMT those for its streams.  At the end \<open>dump_result\<close> hands what was found to
  \<open>res_put\<close> and \<open>res_hexdump\<close> (\<^verbatim>\<open>src/result.c\<close>) and releases it.

  \<^bold>\<open>The theories.\<close>
  \<^item> Shared ground: \<open>Ts_Prelude\<close> (words, memory, the \<open>TS_READ\<close> macros of \<^verbatim>\<open>include/ts.h\<close>, the
    allocator, reading of bit strings), \<open>Wire\<close> (numbers as they stand in a stream; the locale \<open>fill_loop\<close>
    of a loop that fills an array), \<open>Simulation\<close> (sequences of operations and the locale \<open>simulation\<close>).
  \<^item> \<open>Utils\<close> (\<^verbatim>\<open>src/utils.c\<close>): bitmaps, with their contract \<open>bitmap_spec\<close>, and dates.
    \<open>Crc32\<close> (\<^verbatim>\<open>src/crc32.c\<close>).  \<open>Ccan_List\<close> (\<^verbatim>\<open>include/list.h\<close>): the intrusive lists on a heap of nodes.
  \<^item> \<open>Pid_Filter\<close> (\<^verbatim>\<open>src/filter.c\<close>): the table of filters and the contract \<open>filter_registry\<close> that the
    parsers rely on.  \<open>Section\<close>, \<open>Ts_Probe\<close>, \<open>Ts\<close>, \<open>Ts_Process\<close> (\<^verbatim>\<open>src/ts.c\<close>): reassembly, packet size,
    packets, the outer loop with the registry of inputs (\<^verbatim>\<open>src/tsio.c\<close>) and the file input
    (\<^verbatim>\<open>src/fileio.c\<close>), an instance of \<open>block_source\<close>.  \<open>Udp_Input\<close> (\<^verbatim>\<open>src/udp.c\<close>).
  \<^item> \<open>Descriptor\<close> and \<open>Descriptor_Tables\<close> (\<^verbatim>\<open>include/descriptor.h\<close>, the headers of \<^verbatim>\<open>include/dvb\<close>,
    \<^verbatim>\<open>atsc\<close>, \<^verbatim>\<open>isdb\<close> and \<^verbatim>\<open>scte\<close>, \<^verbatim>\<open>src/descriptor.c\<close>): the macros that generate one parser per
    descriptor are one interpreter, \<open>member_step\<close>, and the lists of members are its data.  The locale
    \<open>descriptor_table\<close> is the contract of the table of parsers.
  \<^item> \<open>Table_Header\<close>, \<open>Table\<close>, \<open>Psi_Tables\<close>, \<open>Free_Tables\<close> (\<^verbatim>\<open>src/table.c\<close>), \<open>Dvb_Si\<close>, \<open>Atsc_Psip\<close>,
    \<open>Scte\<close>, \<open>Pes\<close>, \<open>Teletext\<close>, \<open>Subtitle\<close>: the tables and streams, each with its records, its parsers and
    its static variables; \<open>entry_loop\<close> and \<open>counted_step\<close> are the contracts of the loops over entries.
    \<open>Program_Stream\<close> (\<^verbatim>\<open>src/ps.c\<close>).  \<open>Ts_Invariant\<close>: the invariant of all of this together.
  \<^item> \<open>Result\<close>, \<open>Json_Output\<close>, \<open>Hexdump\<close> (\<^verbatim>\<open>src/result.c\<close>): the output and its reference, a tree that is
    printed.  \<open>Dump_Descriptor\<close>, \<open>Dump_Tables\<close>, \<open>Dump_Streams\<close>: the dump functions of all sources, as
    the sequences of the calls they make.
  \<^item> \<open>Options\<close> (\<^verbatim>\<open>src/options.c\<close>) and \<open>Tsanalyze_Main\<close> (\<^verbatim>\<open>src/main.c\<close>): the program put together.

  \<^bold>\<open>How the code is represented.\<close>  Structures are records with a prefix for each type, integers are
  words of their width (\<open>u8\<close> to \<open>u64\<close>), and an \<open>int\<close> is an integer where it cannot overflow, or goes through
  \<open>i16\<close> or a word of 32 bits where the source narrows it.  Bytes in memory are lists; a pointer into a buffer is the rest of the list, and
  reading behind it has no value.  The static variables of all files are the fields of \<open>ts_state\<close>,
  \<open>world\<close>, \<open>mpeg_psi_t\<close> and the records below them, and the functions return the changed state.  The state of
  the subtitle decoder and of the ATSC tables are type parameters of \<open>world\<close>, so that the packet layer does not depend on
  them; \<open>Tsanalyze_Main\<close> instantiates both with the code's own (\<open>subtitle_ops\<close>, \<open>atsc_psip_proc\<close>).
  \<open>None\<close> is what C leaves undefined, a failing assertion, or a loop that does not end; error codes of the
  source are values.  The list type of \<^verbatim>\<open>include/list.h\<close> is verified on its heap in \<open>Ccan_List\<close>; the
  tables then hold lists as values.

  \<^bold>\<open>Parameters.\<close>  An \<open>alloc_env\<close> says which allocations of a call succeed and what fresh memory holds;
  \<open>always_ok j\<close> lets all succeed with contents \<open>j\<close>.  The width \<open>bw\<close> of a 33-bit bit field in an
  expression is left open by C.  The disk, the page size, the network, \<open>inet_pton\<close>, the options that
  \<open>getopt_long\<close> delivers and the texts of \<^verbatim>\<open>include/html_template.h\<close> are the record \<open>surroundings\<close>, or
  arguments of the definitions that use them.

  \<^bold>\<open>Bounds and fuel.\<close>  \<open>process_loop\<close> has fuel, since it runs as long as the input: for a file,
  one more than its number of blocks is enough (\<open>ts_process_file\<close>); over UDP none is (\<open>udp_input\<close>).
  All other loops are structural, have a measure, or are \<open>partial_function\<close>s on option, for which
  termination is proved where it holds and refuted where it does not (\<open>psip_stt_returns\<close>,
  \<open>subtitle_unreadable\<close>).  A filter head has at most \<open>NUM_FILTER_MAX\<close> slots.  The levels of the output are 0
  to 14: the stack of the emitter has 32 places and a level takes at most two.

  \<^bold>\<open>What is shown.\<close>
  \<^item> Through all components: a PAT and the PMT of one of its programs, packet by packet, end with the
    streams registered (\<open>pat_pmt_chain\<close>); an invariant of every reachable state (\<open>ts_run_invariant\<close>); which packets of a
    file are analysed (\<open>ts_process_file\<close>); the run from the arguments to a JSON text
    (\<open>main_writes_json\<close>); a selection of PIDs on the command line and the filters it installs
    (\<open>selected_pids_filtered\<close>); the release of everything (\<open>free_tables_runs\<close>).
  \<^item> Round trips: what an encoder writes according to the standard, the parser reads back, for PAT, PMT, NIT, SDT,
    MGT, ETT, program stream maps, areas of descriptors, subtitles in PES packets, and runs of bit fields.
  \<^item> Against a reference: the CRC and polynomial division, dispatch by table id and the linear scan,
    eight-bit pixel codes and the pixels they stand for, the lists and abstract lists, the JSON emitter
    and the printed tree, the calendar.
  \<^item> Safety and bounds: reassembly, probing, the text line, the release of list nodes.
  \<^item> Where the code does not do what it means to: the theorem states what it does instead, such as
    \<open>multi_section_never_complete\<close>, \<open>pcr_division_by_zero\<close>, \<open>subtitle_unreadable\<close>, \<open>udp_input\<close>, and
    the last block of a file in \<open>ts_process_file\<close>.

  \<^bold>\<open>Not modelled.\<close>  The functions that release the memory of descriptors, events, subtitles and
  PES data at the end of the program are taken to release it (where a block can be released twice, it is followed:
  section headers, the nodes of the lists, the array of streams, subtitles between packets).  The signal handler, which
  runs \<open>dump_result\<close> between any two instructions, is left out, and so are \<open>filter_dump\<close> and the usage text, which only print; the export of
  subtitle bitmaps and the fallbacks for the Microsoft compiler, which the program does not reach;
  \<^verbatim>\<open>src/win_getopt.c\<close>, a third-party copy of getopt; the Python binding and the generator of test files.
\<close>

section \<open>From the PAT to the elementary streams\<close>

text \<open>
  C1. The way from packets to streams, through all components.  In a state where the PAT filter is
  the only one on PID 0 and no PAT has been seen, a packet with a PAT and then a packet with the
  PMT of one of its programs: both are reassembled, dispatched and parsed; the programs and the
  elementary streams are those on the wire; every stream in PES packets is from then on taken as
  elementary stream when details are asked for; and the state stays consistent.
\<close>

theorem pat_pmt_chain:
  assumes pat: "pat = hdr1 @ concat (map enc_program xs) @ crc1" "length hdr1 = 8" "length crc1 = 4"
      "single_section pat" "section_size pat = length pat" "length pat \<le> 183" "pat ! 0 = PAT_TID"
      "check_section_header_version pat 0x1F = Some 1" "\<forall>x \<in> set xs. program_ok x" "distinct (map w_number xs)"
    and pmt: "pmt = hdr2 @ pid13 r0 pcr @ len12 r1 (length (darea ds)) @ darea ds @ concat (map enc_es es) @ crc2"
      "length hdr2 = 8" "length crc2 = 4" "r0 < 8" "r1 < 16" "unat pcr < 8192"
      "single_section pmt" "section_size pmt = length pmt" "length pmt \<le> 183" "pmt ! 0 = PMT_TID"
      "dok j (hd_des_ops hs) ds" "\<forall>x \<in> set es. es_ok j (hd_des_ops hs) x"
    and prog: "filter (\<lambda>x. w_map_pid x = pid) xs = [x]" "pid \<noteq> NIT_PID" "pid \<noteq> NULL_PID" "c1 < 16" "c2 < 16"
    and st: "world_ok (n + length es + length xs) (st_world st)" "psi_pat_list (wd_psi (st_world st)) = []"
      "live (wd_filters (st_world st) PAT_PID) = [stored_filter PAT_PID (table_para PAT_TID 0xFF) Pat_proc]"
      "live (wd_filters (st_world st) pid) = []"
      "header_ok (pmt_header (psi_pmt (wd_psi (st_world st)) pid))"
      "0 \<notin> bitmap_abs (th_bitmap (pmt_header (psi_pmt (wd_psi (st_world st)) pid)))"
  shows "\<exists>st1 st2. ts_proc (always_ok j) bw cfg hs (section_packet PAT_PID c1 pat stuffa) 188 st = Some (0, st1) \<and>
    ts_proc (always_ok j) bw cfg hs (section_packet pid c2 pmt stuffb) 188 st1 = Some (0, st2) \<and>
    world_ok n (st_world st2) \<and>
    (\<exists>p. psi_pat_list (wd_psi (st_world st1)) = [p] \<and> pat_h p = map program_of xs) \<and>
    pmt_PCR_PID (psi_pmt (wd_psi (st_world st2)) pid) = pcr \<and>
    pmt_h (psi_pmt (wd_psi (st_world st2)) pid) = map (es_of j (hd_des_ops hs)) es \<and>
    (\<forall>x \<in> set es. pes_type (w_type x) \<longrightarrow> check_es_pid True (wd_pes (st_world st2)) (w_pid x) = Some True)"
proof -
  let ?w = "st_world st"
  define w0 where "w0 = upd_psi (counted pat_sections_update) ?w"
  have w0: "world_ok (n + length es + length xs) w0" using st(1) by (simp add: world_ok_def counted_def w0_def)
  have ne: "psi_pat_list (wd_psi w0) = []" "wd_filters w0 = wd_filters ?w" "psi_pmt (wd_psi w0) = psi_pmt (wd_psi ?w)"
    using st(2) by (simp_all add: counted_def w0_def)
  have len: "3 \<le> length pat" "3 \<le> length pmt" using pat(4) pmt(7) by (auto simp: single_section_def)
  have b1: "unat (of_nat (length pat) :: u16) = length pat" "unat (of_nat (length pmt) :: u16) = length pmt"
    using pat(6) pmt(9) by (simp_all add: unat_of_nat_13)
  have x: "x \<in> set xs" "w_map_pid x = pid" using prog(1) by (auto simp: filter_eq_Cons_iff)
  have pid: "unat pid < 8192" using pat(9) x by (auto simp: program_ok_def)
  have "pid \<noteq> PAT_PID" using st(3,4) by auto
  obtain w1 p where w1: "parse_pat (always_ok j) (pat @ stuffa) (of_nat (length pat)) w0 = Some (0, w1)"
    "world_ok (n + length es) w1" "psi_pat_list (wd_psi w1) = [p]" "pat_h p = map program_of xs"
    "psi_pmt (wd_psi w1) = psi_pmt (wd_psi ?w)" "pmt_pids xs \<subseteq> bitmap_abs (psi_pmt_bitmap (wd_psi w1))"
    "\<forall>q. live (wd_filters w1 q) = live (wd_filters ?w q) @ pmt_filters xs q"
    using parse_pat_law [where w = w0 and j = j and stuff = stuffa, OF pat(1-5) b1(1) _ pat(9,10) w0] pat(8) by (auto simp: ne)
  obtain st1 where st1: "ts_proc (always_ok j) bw cfg hs (section_packet PAT_PID c1 pat stuffa) 188 st = Some (0, st1)" "st_world st1 = w1"
    using ts_proc_table [of PAT_PID c1 pat PAT_TID _ st Pat_proc "always_ok j" hs stuffa w1, OF _ _ prog(4) len(1) pat(5-7) st(1) _ st(3)] w1(1)
    by (auto simp: PAT_PID_def NULL_PID_def is_psi_low invoke_def pat_proc_def w0_def)
  have "filter (\<lambda>x. w_map_pid x = pid \<and> pid \<noteq> NIT_PID) xs = [x]" using prog(1,2) by simp
  then have l1: "live (wd_filters w1 pid) = [stored_filter pid (table_para PMT_TID 0xFF) Pmt_proc]"
    using w1(7) st(4) by (simp add: pmt_filters_def)
  have "unat pid \<in> pmt_pids xs" using x prog(2) by (auto simp: pmt_pids_def)
  then have psi: "is_psi pid w1 = Some True" using w1(2,6) pid by (intro is_psi_pmt) auto
  obtain w2 where w2: "parse_pmt (always_ok j) hs pid (pmt @ stuffb) (of_nat (length pmt)) w1 = Some (0, w2)" "world_ok n w2"
    "pmt_PCR_PID (psi_pmt (wd_psi w2) pid) = pcr" "pmt_h (psi_pmt (wd_psi w2) pid) = map (es_of j (hd_des_ops hs)) es"
    "{unat (w_pid x) |x. x \<in> set es \<and> pes_type (w_type x)} \<subseteq> bitmap_abs (pes_pid_bitmap (wd_pes w2))"
    using parse_pmt_law [where w = w1 and stuff = stuffb, OF pmt(1-6) pid pmt(7,8) b1(2) pmt(11,12) _ _ w1(2)] st(5,6) by (auto simp: w1(5))
  obtain st2 where st2: "ts_proc (always_ok j) bw cfg hs (section_packet pid c2 pmt stuffb) 188 st1 = Some (0, st2)" "st_world st2 = w2"
    using ts_proc_table [of pid c2 pmt PMT_TID "n + length es" st1 Pmt_proc "always_ok j" hs stuffb w2, OF pid prog(3,5) len(2) pmt(8-10)] w1(2) psi l1 w2(1)
    by (auto simp: st1(2) invoke_def pmt_proc_def)
  have "check_es_pid True (wd_pes w2) (w_pid x) = Some True" if "x \<in> set es" "pes_type (w_type x)" for x
  proof -
    have "length (pes_pid_bitmap (wd_pes w2)) = 128" using w2(2) by (simp add: world_ok_def pes_inv_def)
    moreover have "unat (w_pid x) < 8192" using pmt(12) that(1) by (auto simp: es_ok_def)
    ultimately show ?thesis using w2(5) that by (auto simp: check_es_pid_registered)
  qed
  then show ?thesis using st1 st2 w1(3,4) w2(2-4) by auto
qed

text \<open>An example: the state with the PAT filter, a PAT with program 1 on PID 0x100, its PMT with one video stream.\<close>

definition example_filters :: "filter_cb filter_tab" where
  "example_filters = static_pid_filter(PAT_PID := filter_rebuild
     \<lparr>num = 1, cap = 1, slots = [stored_filter PAT_PID (table_para PAT_TID 0xFF) Pat_proc],
      tidmap = replicate 256 0, multi = False, gen = 1\<rparr>)"

definition example_state :: "(unit, unit) ts_state" where
  "example_state = \<lparr>st_sec = static_sec, st_pid_dev = static_pid_dev,
     st_world = (static_world ())\<lparr>wd_filters := example_filters\<rparr>\<rparr>"

lemma example_live: "live (example_filters q) =
    (if q = PAT_PID then [stored_filter PAT_PID (table_para PAT_TID 0xFF) Pat_proc] else [])"
  by (simp add: example_filters_def live_static) (simp add: live_def)

lemma example_ok: "world_ok 2 (st_world example_state)"
proof -
  have "tab_ok example_filters"
    unfolding example_filters_def
    by (rule tab_ok_upd [OF tab_ok_static])
       (simp_all add: head_wf_def in_step_rebuild live_def stored_filter_def stored_def param_wf_def filter_consts Let_def table_para_def)
  moreover have "world_ok 2 (static_world () :: (unit, unit) world)" by (rule world_ok_static) (simp add: filter_consts)
  ultimately show ?thesis
    by (simp add: example_state_def world_ok_def example_live filter_consts)
qed

theorem pat_pmt_chain_witness:
  "\<exists>st1 st2. ts_proc (always_ok (\<lambda>_. 0)) 64 \<lparr>cf_pids = (\<lambda>_. False), cf_detail = True\<rparr> plain_handlers
      (section_packet PAT_PID 0 [0, 0xB0, 13, 0, 1, 0xC1, 0, 0, 0, 1, 0xE1, 0, 1, 2, 3, 4] (replicate 167 0xFF)) 188 example_state = Some (0, st1) \<and>
    ts_proc (always_ok (\<lambda>_. 0)) 64 \<lparr>cf_pids = (\<lambda>_. False), cf_detail = True\<rparr> plain_handlers
      (section_packet 0x100 0 [2, 0xB0, 18, 0, 1, 0xC1, 0, 0, 0xE1, 1, 0xF0, 0, 2, 0xE1, 1, 0xF0, 0, 1, 2, 3, 4] (replicate 162 0xFF)) 188 st1 =
      Some (0, st2) \<and>
    pmt_PCR_PID (psi_pmt (wd_psi (st_world st2)) 0x100) = 0x101 \<and>
    check_es_pid True (wd_pes (st_world st2)) 0x101 = Some True"
proof -
  let ?xs = "[\<lparr>w_number = 1, w_prog_res = 7, w_map_pid = 0x100\<rparr>]"
  let ?es = "[\<lparr>w_type = 2, w_pid_res = 7, w_pid = 0x101, w_es_res = 15, w_es_descs = []\<rparr>]"
  let ?pat = "[0, 0xB0, 13, 0, 1, 0xC1, 0, 0, 0, 1, 0xE1, 0, 1, 2, 3, 4] :: bytes"
  let ?pmt = "[2, 0xB0, 18, 0, 1, 0xC1, 0, 0, 0xE1, 1, 0xF0, 0, 2, 0xE1, 1, 0xF0, 0, 1, 2, 3, 4] :: bytes"
  have pat: "?pat = [0, 0xB0, 13, 0, 1, 0xC1, 0, 0] @ concat (map enc_program ?xs) @ [1, 2, 3, 4]"
    by (simp add: be16_def enc_program_def pid13_def)
  have pmt: "?pmt = [2, 0xB0, 18, 0, 1, 0xC1, 0, 0] @ pid13 7 0x101 @ len12 15 (length (darea [])) @ darea [] @ concat (map enc_es ?es) @ [1, 2, 3, 4]"
    by (simp add: len12_def be16_def darea_def enc_es_def pid13_def)
  have ver: "check_section_header_version ?pat 0x1F = Some 1"
    by (simp add: check_section_header_version_def TS_READ_BIT_def TS_READ8_BITS_def TS_READ8_def bits_at_def rdb_def mask_eq_exp_minus_1)
  have sec: "single_section ?pat" "section_size ?pat = length ?pat" "\<forall>x \<in> set ?xs. program_ok x" "single_section ?pmt" "section_size ?pmt = length ?pmt"
    by (simp_all add: single_section_def section_size_def program_ok_def)
  have es: "dok (\<lambda>_. 0) (hd_des_ops plain_handlers) []" "\<forall>x \<in> set ?es. es_ok (\<lambda>_. 0) (hd_des_ops plain_handlers) x"
    by (simp_all add: dok_def es_ok_def darea_def)
  have st: "world_ok (0 + length ?es + length ?xs) (st_world example_state)" "psi_pat_list (wd_psi (st_world example_state)) = []"
    "live (wd_filters (st_world example_state) PAT_PID) = [stored_filter PAT_PID (table_para PAT_TID 0xFF) Pat_proc]"
    "live (wd_filters (st_world example_state) 0x100) = []"
    "header_ok (pmt_header (psi_pmt (wd_psi (st_world example_state)) 0x100))"
    "0 \<notin> bitmap_abs (th_bitmap (pmt_header (psi_pmt (wd_psi (st_world example_state)) 0x100)))"
    using example_ok header_ok_zero
    by (simp_all add: example_state_def static_world_def psi_table_init_def example_live zero_pmt_def numeral_2_eq_2) (simp add: PAT_PID_def)
  have cs: "length [0, 0xB0, 13, 0, 1, 0xC1, 0, 0 :: u8] = 8" "length [1, 2, 3, 4 :: u8] = 4" "length ?pat \<le> 183" "?pat ! 0 = PAT_TID"
    "distinct (map w_number ?xs)" "length [2, 0xB0, 18, 0, 1, 0xC1, 0, 0 :: u8] = 8" "(7 :: nat) < 8" "(15 :: nat) < 16"
    "unat (0x101 :: u16) < 8192" "length ?pmt \<le> 183" "?pmt ! 0 = PMT_TID"
    "filter (\<lambda>x. w_map_pid x = 0x100) ?xs = [\<lparr>w_number = 1, w_prog_res = 7, w_map_pid = 0x100\<rparr>]"
    "(0x100 :: u16) \<noteq> NIT_PID" "(0x100 :: u16) \<noteq> NULL_PID" "(0 :: nat) < 16"
    by (simp_all add: PAT_TID_def PMT_TID_def NIT_PID_def NULL_PID_def)
  show ?thesis
    using pat_pmt_chain [where hs = plain_handlers and st = example_state and n = 0 and bw = 64 and stuffa = "replicate 167 0xFF"
        and stuffb = "replicate 162 0xFF" and cfg = "\<lparr>cf_pids = (\<lambda>_. False), cf_detail = True\<rparr>",
        OF pat cs(1,2) sec(1,2) cs(3,4) ver sec(3) cs(5) pmt cs(6,2,7-9) sec(4,5) cs(10,11) es cs(12-15,15) st]
    by (fastforce simp: pes_type_def)
qed

end
